(* ===== verification/Prelude.thy ===== *)
theory Prelude
  imports Main "HOL-Library.Char_ord" "HOL-Library.List_Lexorder" "HOL-Library.Product_Lexorder"
begin

section \<open>Shared vocabulary: Go strings, results, ordered maps\<close>

text \<open>
  The vocabulary every other theory of the development uses.

  \<^item> A Go \<open>string\<close> or \<open>[]byte\<close> is a \<open>string\<close> here, a list of bytes (HOL's \<open>char\<close>
    is an 8-bit value), so lengths and comparisons are bytewise as in Go. The linear order
    of \<open>HOL-Library.List_Lexorder\<close> on strings is Go's \<open><\<close> on strings.
  \<^item> A fallible function returns \<open>error + value\<close>: \<open>Inl\<close> for Go's non-nil error.
  \<^item> A Go \<open>map[string]T\<close> is kept in a normal form, an association list whose keys are
    strictly increasing: two such lists are equal exactly when the Go maps hold the same
    entries, and ranging over the map is a traversal of the list. The code never lets the
    order of a range matter for anything but the text of an error.
\<close>

named_theorems gomap_simps \<open>lookup laws of the ordered maps\<close>

type_synonym gostring = string

subsection \<open>Byte search in strings (package \<open>strings\<close>)\<close>

text \<open>\<open>strings.IndexByte\<close>: the first position of a byte, \<open>None\<close> for Go's \<open>-1\<close>.\<close>

fun index_byte :: "char \<Rightarrow> gostring \<Rightarrow> nat option" where
  "index_byte c [] = None"
| "index_byte c (x # xs) = (if x = c then Some 0 else map_option Suc (index_byte c xs))"

text \<open>\<open>strings.LastIndexByte\<close>.\<close>

fun last_index_byte :: "char \<Rightarrow> gostring \<Rightarrow> nat option" where
  "last_index_byte c [] = None"
| "last_index_byte c (x # xs) =
     (case last_index_byte c xs of
        Some i \<Rightarrow> Some (Suc i)
      | None \<Rightarrow> (if x = c then Some 0 else None))"

text \<open>\<open>strings.HasPrefix\<close>.\<close>

fun has_prefix :: "gostring \<Rightarrow> gostring \<Rightarrow> bool" where
  "has_prefix s [] = True"
| "has_prefix [] (p # ps) = False"
| "has_prefix (x # xs) (p # ps) = (x = p \<and> has_prefix xs ps)"

lemma index_byte_None_iff: "index_byte c s = None \<longleftrightarrow> c \<notin> set s"
  by (induction s) auto

lemma index_byte_Some_less: "index_byte c s = Some i \<Longrightarrow> i < length s"
  by (induction s arbitrary: i) (auto split: if_splits)

lemma index_byte_Some_nth: "index_byte c s = Some i \<Longrightarrow> s ! i = c"
  by (induction s arbitrary: i) (auto split: if_splits)

lemma index_byte_Some_take: "index_byte c s = Some i \<Longrightarrow> c \<notin> set (take i s)"
  by (induction s arbitrary: i) (auto split: if_splits)

lemma index_byte_append_Cons: "c \<notin> set a \<Longrightarrow> index_byte c (a @ c # b) = Some (length a)"
  by (induction a) auto

lemma has_prefix_append [simp]: "has_prefix (p @ s) p"
  by (induction p) auto

lemma has_prefix_iff: "has_prefix s p \<longleftrightarrow> (\<exists>t. s = p @ t)"
proof (induction s p rule: has_prefix.induct)
  case (3 x xs p ps)
  then show ?case by auto
qed auto

subsection \<open>Go maps with string keys\<close>

type_synonym 'v gomap = "(string \<times> 'v) list"

text \<open>\<open>m[k] = v\<close>.\<close>

fun gm_put :: "string \<Rightarrow> 'v \<Rightarrow> 'v gomap \<Rightarrow> 'v gomap" where
  "gm_put k v [] = [(k, v)]"
| "gm_put k v ((k', v') # m) =
     (if k < k' then (k, v) # (k', v') # m
      else if k = k' then (k, v) # m
      else (k', v') # gm_put k v m)"

text \<open>\<open>delete(m, k)\<close>.\<close>

definition gm_del :: "string \<Rightarrow> 'v gomap \<Rightarrow> 'v gomap" where
  "gm_del k m = filter (\<lambda>e. fst e \<noteq> k) m"

text \<open>\<open>v, ok := m[k]\<close>.\<close>

abbreviation gm_get :: "'v gomap \<Rightarrow> string \<Rightarrow> 'v option" where
  "gm_get m k \<equiv> map_of m k"

text \<open>The map built by storing the entries of a list one after the other (last one wins).\<close>

definition gm_of :: "(string \<times> 'v) list \<Rightarrow> 'v gomap" where
  "gm_of kvs = fold (\<lambda>e. gm_put (fst e) (snd e)) kvs []"

definition gm_ok :: "'v gomap \<Rightarrow> bool" where
  "gm_ok m = sorted_wrt (<) (map fst m)"

lemma gm_ok_Nil [simp]: "gm_ok []"
  by (simp add: gm_ok_def)

lemma gm_ok_Cons: "gm_ok ((k, v) # m) \<longleftrightarrow> (\<forall>k' \<in> fst ` set m. k < k') \<and> gm_ok m"
  by (auto simp: gm_ok_def)

lemma gm_put_keys: "fst ` set (gm_put k v m) = insert k (fst ` set m)"
proof (induction m)
  case (Cons e m)
  obtain k' v' where e: "e = (k', v')" by (cases e)
  show ?case by (simp add: e Cons insert_commute)
qed simp

lemma gm_ok_put [simp]: "gm_ok m \<Longrightarrow> gm_ok (gm_put k v m)"
proof (induction m)
  case Nil
  show ?case by (simp add: gm_ok_def)
next
  case (Cons e m)
  obtain k' v' where e: "e = (k', v')" by (cases e)
  show ?case
    using Cons by (auto simp: e gm_ok_Cons gm_put_keys)
qed

lemma gm_get_put [gomap_simps]: "gm_ok m \<Longrightarrow> gm_get (gm_put k v m) = (gm_get m)(k \<mapsto> v)"
proof (induction m)
  case Nil
  show ?case by simp
next
  case (Cons e m)
  obtain k' v' where e: "e = (k', v')" by (cases e)
  show ?case
    using Cons by (auto simp: e gm_ok_Cons fun_eq_iff)
qed

lemma gm_ok_del [simp]: "gm_ok m \<Longrightarrow> gm_ok (gm_del k m)"
  by (induction m) (auto simp: gm_del_def gm_ok_Cons)

lemma gm_get_del [gomap_simps]: "gm_get (gm_del k m) = (gm_get m)(k := None)"
  by (induction m) (auto simp: gm_del_def fun_eq_iff)

lemma gm_ok_filter [simp]: "gm_ok m \<Longrightarrow> gm_ok (filter p m)"
  by (induction m) (auto simp: gm_ok_Cons)

lemma gm_ok_distinct: "gm_ok m \<Longrightarrow> distinct (map fst m)"
  by (simp add: gm_ok_def strict_sorted_iff)

lemma gm_get_filter_key [gomap_simps]:
  "gm_get (filter (\<lambda>e. p (fst e)) m) = (\<lambda>k. if p k then gm_get m k else None)"
  by (induction m) (auto simp: fun_eq_iff)

lemma gm_ok_fold_put: "gm_ok m \<Longrightarrow> gm_ok (fold (\<lambda>e. gm_put (fst e) (snd e)) kvs m)"
  by (induction kvs arbitrary: m) auto

lemma gm_ok_gm_of [simp]: "gm_ok (gm_of kvs)"
  by (simp add: gm_of_def gm_ok_fold_put)

lemma gm_get_fold_put:
  "gm_ok m \<Longrightarrow>
   gm_get (fold (\<lambda>e. gm_put (fst e) (snd e)) kvs m) = gm_get m ++ map_of (rev kvs)"
proof (induction kvs arbitrary: m)
  case Nil
  then show ?case by simp
next
  case (Cons e kvs)
  obtain k v where e: "e = (k, v)" by (cases e)
  have "gm_get (fold (\<lambda>e. gm_put (fst e) (snd e)) kvs (gm_put k v m))
      = gm_get (gm_put k v m) ++ map_of (rev kvs)"
    using Cons by simp
  then show ?case
    by (simp add: e gm_get_put Cons.prems map_add_def fun_eq_iff split: option.splits)
qed

lemma gm_get_gm_of [gomap_simps]: "gm_get (gm_of kvs) = map_of (rev kvs)"
  by (simp add: gm_of_def gm_get_fold_put)

lemma gm_of_keys: "fst ` set (gm_of kvs) = fst ` set kvs"
proof -
  have "dom (map_of (rev kvs)) = dom (gm_get (gm_of kvs))"
    by (simp add: gm_get_gm_of)
  then show ?thesis by (simp add: dom_map_of_conv_image_fst)
qed

text \<open>Two maps in normal form with the same lookups are equal.\<close>

lemma gm_eqI:
  assumes "gm_ok m" and "gm_ok m'" and "\<And>k. gm_get m k = gm_get m' k"
  shows "m = m'"
proof -
  have keys: "fst ` set m = fst ` set m'"
    using assms(3) by (metis dom_map_of_conv_image_fst ext)
  have "map fst m = map fst m'"
    using assms(1,2) keys
    by (intro sorted_distinct_set_unique)
       (auto simp: gm_ok_def strict_sorted_iff)
  moreover have "map snd m = map snd m'"
  proof -
    have *: "map snd n = map (\<lambda>k. the (gm_get n k)) (map fst n)" if "gm_ok n" for n :: "'a gomap"
      using gm_ok_distinct [OF that] by (auto simp: map_of_is_SomeI)
    show ?thesis
      using * [OF assms(1)] * [OF assms(2)] assms(3) \<open>map fst m = map fst m'\<close> by simp
  qed
  ultimately show ?thesis
    by (metis zip_map_fst_snd)
qed

lemma gm_of_idem: "gm_ok m \<Longrightarrow> gm_of m = m"
proof (rule gm_eqI)
  assume "gm_ok m"
  then have "distinct (map fst m)" by (rule gm_ok_distinct)
  then have "map_of (rev m) = map_of m"
    by (intro map_of_eqI) (auto simp: rev_map [symmetric])
  then show "gm_get (gm_of m) k = gm_get m k" for k
    by (simp add: gm_get_gm_of)
qed auto

subsection \<open>Results\<close>

text \<open>Sequencing of fallible steps: Go's \<open>if err != nil { return err }\<close>.\<close>

fun bind_result :: "'e + 'a \<Rightarrow> ('a \<Rightarrow> 'e + 'b) \<Rightarrow> 'e + 'b" where
  "bind_result (Inl e) f = Inl e"
| "bind_result (Inr a) f = f a"

definition check :: "bool \<Rightarrow> 'e \<Rightarrow> 'e + unit" where
  "check b e = (if b then Inr () else Inl e)"

lemma bind_result_Inr_iff: "bind_result m f = Inr y \<longleftrightarrow> (\<exists>x. m = Inr x \<and> f x = Inr y)"
  by (cases m) auto

lemma check_Inr_iff [simp]: "check b e = Inr u \<longleftrightarrow> b"
  by (simp add: check_def)

lemma isl_check [simp]: "isl (check b e) \<longleftrightarrow> \<not> b"
  by (simp add: check_def)

end
