(* ===== verification/Go_Json.thy ===== *)
theory Go_Json
  imports Prelude
begin

section \<open>JSON values and Go's \<open>encoding/json\<close>\<close>

text \<open>
  The source handles JSON as \<open>json.RawMessage\<close> bytes and decodes them with the standard
  library. A document is modelled by its parse tree \<open>json\<close>: object members in document
  order with duplicates kept, strings as their decoded UTF-8 bytes, numbers as their
  literals (what \<open>json.Number\<close> keeps). A \<open>RawMessage\<close> is \<open>json option\<close>, \<open>None\<close> for the
  empty slice the code tests with \<open>len(raw) == 0\<close>.

  \<open>Unmarshal\<close> into a Go type is a decoder that takes the document and the old value and
  returns whether every part had the right type, with the value it leaves behind: Go keeps
  decoding after a type mismatch and reports the first one at the end, so a caller that
  ignores the error sees the partial value.
\<close>

datatype json =
    JNull
  | JBool bool
  | JNum string
  | JStr string
  | JArr "json list"
  | JObj "(string \<times> json) list"

type_synonym raw = "json option"

type_synonym 'a decoder = "json \<Rightarrow> 'a \<Rightarrow> bool \<times> 'a"

subsection \<open>Integer literals: \<open>strconv.ParseInt\<close> and \<open>strconv.FormatInt\<close>\<close>

definition is_digit :: "char \<Rightarrow> bool" where
  "is_digit c \<longleftrightarrow> CHR ''0'' \<le> c \<and> c \<le> CHR ''9''"

definition digit_val :: "char \<Rightarrow> int" where
  "digit_val c = of_char c - 48"

fun digits_val :: "int \<Rightarrow> string \<Rightarrow> int option" where
  "digits_val acc [] = Some acc"
| "digits_val acc (c # cs) =
     (if is_digit c then digits_val (10 * acc + digit_val c) cs else None)"

definition int64_min :: int where "int64_min = - (2 ^ 63)"

definition int64_max :: int where "int64_max = 2 ^ 63 - 1"

definition split_sign :: "string \<Rightarrow> bool \<times> string" where
  "split_sign s =
     (case s of
        [] \<Rightarrow> (False, [])
      | c # r \<Rightarrow> if c = CHR ''-'' then (True, r) else if c = CHR ''+'' then (False, r) else (False, s))"

definition parse_int64 :: "string \<Rightarrow> int option" where
  "parse_int64 s =
     (let (neg, ds) = split_sign s
      in if ds = [] then None
         else case digits_val 0 ds of
                None \<Rightarrow> None
              | Some n \<Rightarrow>
                  (let i = (if neg then - n else n)
                   in if int64_min \<le> i \<and> i \<le> int64_max then Some i else None))"

definition digit_char :: "int \<Rightarrow> char" where
  "digit_char d = char_of (48 + d)"

function show_digits :: "int \<Rightarrow> string" where
  "show_digits n =
     (if n < 10 then [digit_char n] else show_digits (n div 10) @ [digit_char (n mod 10)])"
  by pat_completeness auto
termination
  by (relation "measure nat") auto

declare show_digits.simps [simp del]

definition format_int :: "int \<Rightarrow> string" where
  "format_int i = (if i < 0 then CHR ''-'' # show_digits (- i) else show_digits i)"

lemma of_char_digit_char: "0 \<le> d \<Longrightarrow> d < 10 \<Longrightarrow> (of_char (digit_char d) :: int) = 48 + d"
  by (simp add: digit_char_def)

lemma is_digit_iff: "is_digit c \<longleftrightarrow> 48 \<le> (of_char c :: int) \<and> (of_char c :: int) \<le> 57"
proof -
  have "is_digit c \<longleftrightarrow> 48 \<le> (of_char c :: nat) \<and> (of_char c :: nat) \<le> 57"
    by (simp add: is_digit_def less_eq_char_def)
  also have "\<dots> \<longleftrightarrow> 48 \<le> int (of_char c) \<and> int (of_char c) \<le> 57" by simp
  finally show ?thesis by (simp only: of_nat_of_char)
qed

lemma is_digit_digit_char: "0 \<le> d \<Longrightarrow> d < 10 \<Longrightarrow> is_digit (digit_char d)"
  by (simp add: is_digit_iff of_char_digit_char)

lemma digit_val_digit_char: "0 \<le> d \<Longrightarrow> d < 10 \<Longrightarrow> digit_val (digit_char d) = d"
  by (simp add: digit_val_def of_char_digit_char)

lemma show_digits_nonempty [simp]: "show_digits n \<noteq> []"
  by (subst show_digits.simps) simp

lemma digits_val_append:
  "digits_val a (xs @ ys) = (case digits_val a xs of None \<Rightarrow> None | Some b \<Rightarrow> digits_val b ys)"
  by (induction xs arbitrary: a) auto

lemma digits_val_show_digits: "0 \<le> n \<Longrightarrow> digits_val 0 (show_digits n) = Some n"
proof (induction n rule: show_digits.induct)
  case (1 n)
  show ?case
  proof (cases "n < 10")
    case True
    then show ?thesis
      using 1 by (simp add: show_digits.simps [of n] is_digit_digit_char digit_val_digit_char)
  next
    case False
    then show ?thesis
      using 1 by (simp add: show_digits.simps [of n] digits_val_append is_digit_digit_char
        digit_val_digit_char)
  qed
qed

lemma show_digits_digits: "0 \<le> n \<Longrightarrow> c \<in> set (show_digits n) \<Longrightarrow> is_digit c"
proof (induction n arbitrary: c rule: show_digits.induct)
  case (1 n)
  then show ?case
    by (cases "n < 10") (auto simp: show_digits.simps [of n] is_digit_digit_char)
qed

lemma not_digit_signs [simp]: "\<not> is_digit (CHR ''-'')" "\<not> is_digit (CHR ''+'')"
  by (simp_all add: is_digit_def less_eq_char_def)

lemma split_sign_digit: "is_digit c \<Longrightarrow> split_sign (c # r) = (False, c # r)"
  by (auto simp: split_sign_def)

lemma split_sign_format_int: "split_sign (format_int i) = (i < 0, show_digits \<bar>i\<bar>)"
proof (cases "i < 0")
  case True
  then show ?thesis by (simp add: format_int_def split_sign_def)
next
  case False
  obtain c r where cr: "show_digits i = c # r"
    by (cases "show_digits i") auto
  then have "is_digit c" using False show_digits_digits [of i c] by simp
  then show ?thesis
    using False cr by (simp add: format_int_def split_sign_digit)
qed

text \<open>Formatting an \<open>int64\<close> and parsing it back is the identity.\<close>

lemma parse_int64_format_int:
  "int64_min \<le> i \<Longrightarrow> i \<le> int64_max \<Longrightarrow> parse_int64 (format_int i) = Some i"
  by (simp add: parse_int64_def split_sign_format_int digits_val_show_digits)

lemma parse_int64_bounds: "parse_int64 s = Some i \<Longrightarrow> int64_min \<le> i \<and> i \<le> int64_max"
  by (auto simp: parse_int64_def Let_def split: prod.splits if_splits option.splits)

lemma format_int_inj: "format_int i = format_int j \<Longrightarrow> i = j"
proof -
  assume eq: "format_int i = format_int j"
  then have "split_sign (format_int i) = split_sign (format_int j)" by simp
  then have sign: "(i < 0) = (j < 0)" and "show_digits \<bar>i\<bar> = show_digits \<bar>j\<bar>"
    by (simp_all add: split_sign_format_int)
  then have "\<bar>i\<bar> = \<bar>j\<bar>"
    by (metis abs_ge_zero digits_val_show_digits option.inject)
  then show "i = j" using sign by arith
qed

subsection \<open>Field names\<close>

text \<open>
  A key matches a struct field when the two are equal after Go's case folding
  (\<open>foldName\<close>): ASCII letters are upper-cased, and the two non-ASCII code points that fold
  to an ASCII letter, the long s (U+017F) and the Kelvin sign (U+212A), become \<open>S\<close> and \<open>K\<close>.
  The field names of the source are ASCII, so other code points never match one.
\<close>

definition upper :: "char \<Rightarrow> char" where
  "upper c = (if CHR ''a'' \<le> c \<and> c \<le> CHR ''z'' then char_of ((of_char c :: nat) - 32) else c)"

fun go_fold :: "string \<Rightarrow> string" where
  "go_fold [] = []"
| "go_fold [a] = [upper a]"
| "go_fold [a, b] =
     (if a = CHR 0xC5 \<and> b = CHR 0xBF then ''S'' else upper a # go_fold [b])"
| "go_fold (a # b # c # r) =
     (if a = CHR 0xC5 \<and> b = CHR 0xBF then CHR ''S'' # go_fold (c # r)
      else if a = CHR 0xE2 \<and> b = CHR 0x84 \<and> c = CHR 0xAA then CHR ''K'' # go_fold r
      else upper a # go_fold (b # c # r))"

subsection \<open>Decoders\<close>

text \<open>
  A \<open>null\<close> leaves strings, numbers, booleans and structs as they are, makes pointers, maps
  and slices nil, and is stored literally in a \<open>RawMessage\<close>.
\<close>

fun dec_string :: "string decoder" where
  "dec_string JNull old = (True, old)"
| "dec_string (JStr s) old = (True, s)"
| "dec_string _ old = (False, old)"

fun dec_int64 :: "int decoder" where
  "dec_int64 JNull old = (True, old)"
| "dec_int64 (JNum lit) old = (case parse_int64 lit of Some i \<Rightarrow> (True, i) | None \<Rightarrow> (False, old))"
| "dec_int64 _ old = (False, old)"

fun dec_bool :: "bool decoder" where
  "dec_bool JNull old = (True, old)"
| "dec_bool (JBool b) old = (True, b)"
| "dec_bool _ old = (False, old)"

fun dec_raw :: "raw decoder" where
  "dec_raw j old = (True, Some j)"

text \<open>A pointer field: allocated (with the zero value \<open>z\<close>) before its target is decoded.\<close>

fun dec_ptr :: "'a \<Rightarrow> 'a decoder \<Rightarrow> 'a option decoder" where
  "dec_ptr z d JNull old = (True, None)"
| "dec_ptr z d j old =
     (let (ok, v) = d j (case old of None \<Rightarrow> z | Some x \<Rightarrow> x) in (ok, Some v))"

text \<open>A slice: element \<open>i\<close> is decoded over the old element \<open>i\<close>, or over the zero value.\<close>

fun dec_elems :: "'a \<Rightarrow> 'a decoder \<Rightarrow> json list \<Rightarrow> 'a list \<Rightarrow> bool \<times> 'a list" where
  "dec_elems z d [] old = (True, [])"
| "dec_elems z d (j # js) old =
     (let (ok, v) = d j (case old of [] \<Rightarrow> z | x # _ \<Rightarrow> x);
          (ok', vs) = dec_elems z d js (drop 1 old)
      in (ok \<and> ok', v # vs))"

fun dec_slice :: "'a \<Rightarrow> 'a decoder \<Rightarrow> 'a list decoder" where
  "dec_slice z d JNull old = (True, [])"
| "dec_slice z d (JArr js) old = dec_elems z d js old"
| "dec_slice z d _ old = (False, old)"

text \<open>A map: members are stored into the map already there, each decoded over a fresh zero.\<close>

fun dec_members :: "'a \<Rightarrow> 'a decoder \<Rightarrow> (string \<times> json) list \<Rightarrow> 'a gomap \<Rightarrow> bool \<times> 'a gomap" where
  "dec_members z d [] m = (True, m)"
| "dec_members z d ((k, j) # kvs) m =
     (let (ok, v) = d j z; (ok', m') = dec_members z d kvs (gm_put k v m) in (ok \<and> ok', m'))"

fun dec_map :: "'a \<Rightarrow> 'a decoder \<Rightarrow> 'a gomap decoder" where
  "dec_map z d JNull old = (True, [])"
| "dec_map z d (JObj kvs) old = dec_members z d kvs old"
| "dec_map z d _ old = (False, old)"

text \<open>
  A struct: a list of field names with the decoder that writes the field. A member whose
  key matches no field is skipped; a key that occurs twice is decoded twice, in document
  order.
\<close>

type_synonym 'r fields = "(string \<times> 'r decoder) list"

fun find_field :: "'r fields \<Rightarrow> string \<Rightarrow> 'r decoder option" where
  "find_field [] k = None"
| "find_field ((n, d) # fs) k = (if go_fold n = go_fold k then Some d else find_field fs k)"

fun dec_fields :: "'r fields \<Rightarrow> (string \<times> json) list \<Rightarrow> 'r \<Rightarrow> bool \<times> 'r" where
  "dec_fields fs [] r = (True, r)"
| "dec_fields fs ((k, j) # kvs) r =
     (let (ok, r1) = (case find_field fs k of None \<Rightarrow> (True, r) | Some d \<Rightarrow> d j r);
          (ok', r2) = dec_fields fs kvs r1
      in (ok \<and> ok', r2))"

fun dec_struct :: "'r fields \<Rightarrow> 'r decoder" where
  "dec_struct fs JNull r = (True, r)"
| "dec_struct fs (JObj kvs) r = dec_fields fs kvs r"
| "dec_struct fs _ r = (False, r)"

text \<open>The decoder of a record field, from the field's selector and update function.\<close>

definition fld :: "'a decoder \<Rightarrow> ('r \<Rightarrow> 'a) \<Rightarrow> (('a \<Rightarrow> 'a) \<Rightarrow> 'r \<Rightarrow> 'r) \<Rightarrow> 'r decoder" where
  "fld d get upd j r = (let (ok, v) = d j (get r) in (ok, upd (\<lambda>_. v) r))"

text \<open>\<open>json.Unmarshal(raw, &v)\<close>: the empty slice is a syntax error and leaves \<open>v\<close> alone.\<close>

definition unmarshal :: "'a decoder \<Rightarrow> 'a \<Rightarrow> raw \<Rightarrow> bool \<times> 'a" where
  "unmarshal d z r = (case r of None \<Rightarrow> (False, z) | Some j \<Rightarrow> d j z)"

text \<open>
  \<open>map[string]json.RawMessage\<close>, the code's view of an object whose members it moves about
  without looking at them. The nil map a \<open>null\<close> gives reads like the empty one.
\<close>

fun unmarshal_obj :: "json \<Rightarrow> json gomap option" where
  "unmarshal_obj (JObj kvs) = Some (gm_of kvs)"
| "unmarshal_obj JNull = Some []"
| "unmarshal_obj _ = None"

lemma unmarshal_obj_ok: "unmarshal_obj j = Some m \<Longrightarrow> gm_ok m"
  by (cases j) auto

lemma unmarshal_obj_JObj [simp]: "gm_ok m \<Longrightarrow> unmarshal_obj (JObj m) = Some m"
  by (simp add: gm_of_idem)

text \<open>A one-field struct holding a string: the shape most content lookups have.\<close>

definition str_field :: "string \<Rightarrow> string fields" where
  "str_field name = [(name, dec_string)]"

lemma dec_members_ok: "gm_ok m \<Longrightarrow> gm_ok (snd (dec_members z d kvs m))"
proof (induction z d kvs m rule: dec_members.induct)
  case (2 z d k j kvs m)
  obtain ok v where v: "d j z = (ok, v)" by (cases "d j z")
  have "gm_ok (snd (dec_members z d kvs (gm_put k v m)))"
    using 2 v by simp
  then show ?case
    by (simp add: v case_prod_beta)
qed simp

lemma dec_map_ok: "gm_ok old \<Longrightarrow> gm_ok (snd (dec_map z d j old))"
  by (cases j) (auto simp: dec_members_ok)

end
