(* ===== verification/Room_Version.thy ===== *)
theory Room_Version
  imports Go_Json
begin

section \<open>Room versions (\<open>internal/roomver\<close>)\<close>

text \<open>
  The rule table of \<open>internal/roomver/roomver.go\<close>: one record of switches per room version,
  each version built from the one before it, and the small functions that consult the table.
  The lemmas say that the table and the list of supported versions agree, that a version is
  registered under its own name, and which switches each generation turns on.
\<close>

type_synonym Version = string

text \<open>The zero value stands first: Go's constants start at 1.\<close>

datatype EventIDFormat = EventIDUnset | EventIDLegacy | EventIDSHA256 | EventIDSHA256URLSafe

type_synonym StateResVersion = int

definition StateResV1 :: StateResVersion where "StateResV1 = 1"
definition StateResV2 :: StateResVersion where "StateResV2 = 2"
definition StateResV21 :: StateResVersion where "StateResV21 = 3"

record Rules =
  Version :: Version
  EventIDFormat :: EventIDFormat
  StateResVersion :: StateResVersion
  EventFormatV1 :: bool
  RoomIDIsCreateHash :: bool
  StrictStrippedState :: bool
  CreatorPrivileged :: bool
  CreateOmitsCreator :: bool
  StrictPowerLevels :: bool
  KnockingAllowed :: bool
  RestrictedJoinAllowed :: bool
  KnockRestrictedAllowed :: bool
  UpdatedRedaction :: bool
  RedactionKeepsRelations :: bool
  NotificationsPowerLevel :: bool
  EnforceKeyValidity :: bool
  PartialStateAllowed :: bool
  OwnedState :: bool
  StateDAGs :: bool

definition zero_rules :: Rules where
  "zero_rules = \<lparr>Version = '''', EventIDFormat = EventIDUnset, StateResVersion = 0,
     EventFormatV1 = False, RoomIDIsCreateHash = False, StrictStrippedState = False,
     CreatorPrivileged = False, CreateOmitsCreator = False, StrictPowerLevels = False,
     KnockingAllowed = False, RestrictedJoinAllowed = False, KnockRestrictedAllowed = False,
     UpdatedRedaction = False, RedactionKeepsRelations = False,
     NotificationsPowerLevel = False, EnforceKeyValidity = False,
     PartialStateAllowed = False, OwnedState = False, StateDAGs = False\<rparr>"

definition base_rules :: Rules where
  "base_rules = zero_rules\<lparr>EventIDFormat := EventIDLegacy, StateResVersion := StateResV1,
     EventFormatV1 := True\<rparr>"

definition v1_rules :: Rules where
  "v1_rules = base_rules\<lparr>Version := ''1''\<rparr>"

definition v2_rules :: Rules where
  "v2_rules = base_rules\<lparr>Version := ''2'', StateResVersion := StateResV2,
     PartialStateAllowed := True\<rparr>"

definition v3_rules :: Rules where
  "v3_rules = v2_rules\<lparr>Version := ''3'', EventIDFormat := EventIDSHA256, EventFormatV1 := False\<rparr>"

definition v4_rules :: Rules where
  "v4_rules = v3_rules\<lparr>Version := ''4'', EventIDFormat := EventIDSHA256URLSafe\<rparr>"

definition v5_rules :: Rules where
  "v5_rules = v4_rules\<lparr>Version := ''5'', EnforceKeyValidity := True\<rparr>"

definition v6_rules :: Rules where
  "v6_rules = v5_rules\<lparr>Version := ''6'', NotificationsPowerLevel := True\<rparr>"

definition v7_rules :: Rules where
  "v7_rules = v6_rules\<lparr>Version := ''7'', KnockingAllowed := True\<rparr>"

definition v8_rules :: Rules where
  "v8_rules = v7_rules\<lparr>Version := ''8'', RestrictedJoinAllowed := True\<rparr>"

definition v9_rules :: Rules where
  "v9_rules = v8_rules\<lparr>Version := ''9''\<rparr>"

definition v10_rules :: Rules where
  "v10_rules = v9_rules\<lparr>Version := ''10'', StrictPowerLevels := True,
     KnockRestrictedAllowed := True\<rparr>"

definition v11_rules :: Rules where
  "v11_rules = v10_rules\<lparr>Version := ''11'', UpdatedRedaction := True,
     CreateOmitsCreator := True\<rparr>"

definition v12_rules :: Rules where
  "v12_rules = v11_rules\<lparr>Version := ''12'', StateResVersion := StateResV21,
     RoomIDIsCreateHash := True, StrictStrippedState := True, CreatorPrivileged := True\<rparr>"

definition msc3757_rules :: Rules where
  "msc3757_rules = v10_rules\<lparr>Version := ''org.matrix.msc3757.10'', OwnedState := True\<rparr>"

definition msc4242_rules :: Rules where
  "msc4242_rules = v12_rules\<lparr>Version := ''org.matrix.msc4242.12'', StateDAGs := True,
     PartialStateAllowed := False\<rparr>"

definition msc3389_rules :: Rules where
  "msc3389_rules = v10_rules\<lparr>Version := ''org.matrix.msc3389.10'',
     RedactionKeepsRelations := True\<rparr>"

text \<open>\<open>register\<close> stores a rule set in the table under its own version; \<open>init\<close> runs once.\<close>

definition register :: "Rules \<Rightarrow> Rules gomap \<Rightarrow> Rules gomap" where
  "register r t = gm_put (Version r) r t"

definition registration_order :: "Rules list" where
  "registration_order =
     [v1_rules, v2_rules, v3_rules, v4_rules, v5_rules, v6_rules, v7_rules, v8_rules, v9_rules,
      v10_rules, v11_rules, v12_rules, msc3757_rules, msc4242_rules, msc3389_rules]"

definition table :: "Rules gomap" where
  "table = fold register registration_order []"

definition Default :: Version where "Default = ''11''"

definition Supported :: "Version list" where
  "Supported = [''1'', ''2'', ''3'', ''4'', ''5'', ''6'', ''7'', ''8'', ''9'', ''10'', ''11'',
     ''12'', ''org.matrix.msc3389.10'', ''org.matrix.msc3757.10'', ''org.matrix.msc4242.12'']"

text \<open>The second result of Go's \<open>Get\<close> is the option.\<close>

definition Get :: "Version \<Rightarrow> Rules option" where
  "Get v = gm_get table v"

text \<open>\<open>None\<close> is the panic on an unknown version.\<close>

definition MustGet :: "Version \<Rightarrow> Rules option" where
  "MustGet v = (case gm_get table v of None \<Rightarrow> None | Some r \<Rightarrow> Some r)"

definition IsSupported :: "Version \<Rightarrow> bool" where
  "IsSupported v \<longleftrightarrow> gm_get table v \<noteq> None"

text \<open>
  \<open>fmt.Sscanf(u, "%d", &n)\<close>: blanks are skipped, an optional sign and the longest run of
  digits are read, what follows is left unread; no digit or an overflow is an error.
\<close>

definition sscanf_d :: "string \<Rightarrow> int option" where
  "sscanf_d u =
     (let s = dropWhile (\<lambda>c. c \<in> {CHR '' '', CHR 0x09, CHR 0x0B, CHR 0x0C, CHR 0x0D}) u;
          (neg, r) = split_sign s
      in parse_int64 ((if neg then ''-'' else []) @ takeWhile is_digit r))"

definition AtLeast :: "Version \<Rightarrow> int \<Rightarrow> bool" where
  "AtLeast v major =
     (let u = (case last_index_byte (CHR ''.'') v of None \<Rightarrow> v | Some i \<Rightarrow> drop (i + 1) v)
      in case sscanf_d u of None \<Rightarrow> False | Some n \<Rightarrow> major \<le> n)"

definition CapabilityMap :: "string gomap" where
  "CapabilityMap =
     map (\<lambda>(v, r). (v, if has_prefix v ''org.matrix.msc'' then ''unstable'' else ''stable'')) table"

lemmas rules_defs = zero_rules_def base_rules_def v1_rules_def v2_rules_def v3_rules_def
  v4_rules_def v5_rules_def v6_rules_def v7_rules_def v8_rules_def v9_rules_def v10_rules_def
  v11_rules_def v12_rules_def msc3757_rules_def msc4242_rules_def msc3389_rules_def

lemma gm_ok_table [simp]: "gm_ok table"
proof -
  have "gm_ok (fold register rs t)" if "gm_ok t" for rs t
    using that by (induction rs arbitrary: t) (auto simp: register_def)
  then show ?thesis by (simp add: table_def)
qed

lemma table_lookup: "gm_get table = map_of (rev (map (\<lambda>r. (Version r, r)) registration_order))"
proof -
  have "fold register rs t = fold (\<lambda>e. gm_put (fst e) (snd e)) (map (\<lambda>r. (Version r, r)) rs) t" for rs t
    by (induction rs arbitrary: t) (auto simp: register_def)
  then show ?thesis by (simp add: table_def gm_get_fold_put)
qed

lemma registration_versions: "map Version registration_order =
  [''1'', ''2'', ''3'', ''4'', ''5'', ''6'', ''7'', ''8'', ''9'', ''10'', ''11'',
     ''12'', ''org.matrix.msc3757.10'', ''org.matrix.msc4242.12'', ''org.matrix.msc3389.10'']"
  by (simp add: registration_order_def rules_defs)

lemma Get_Some_iff: "Get v = Some r \<longleftrightarrow> r \<in> set registration_order \<and> Version r = v"
proof -
  have "distinct (map Version registration_order)"
    by (simp add: registration_versions)
  then have "distinct (map fst (rev (map (\<lambda>r. (Version r, r)) registration_order)))"
    by (simp add: comp_def flip: rev_map)
  then have "Get v = Some r \<longleftrightarrow> (v, r) \<in> set (rev (map (\<lambda>r. (Version r, r)) registration_order))"
    by (simp add: Get_def table_lookup)
  then show ?thesis by auto
qed

lemma Get_Version: "Get v = Some r \<Longrightarrow> Version r = v"
  by (simp add: Get_Some_iff)

lemma set_registration_Supported: "set (map Version registration_order) = set Supported"
  unfolding registration_versions Supported_def by auto

lemma IsSupported_iff: "IsSupported v \<longleftrightarrow> v \<in> set Supported"
proof -
  have "IsSupported v \<longleftrightarrow> (\<exists>r. Get v = Some r)"
    by (simp add: IsSupported_def Get_def)
  also have "\<dots> \<longleftrightarrow> v \<in> set (map Version registration_order)"
    by (auto simp: Get_Some_iff)
  finally show ?thesis by (simp only: set_registration_Supported)
qed

text \<open>What the registered rule sets have in common, read off the table once.\<close>

lemma registered_cases:
  "Get v = Some r \<Longrightarrow>
     (EventFormatV1 r \<longleftrightarrow> EventIDFormat r = EventIDLegacy)
   \<and> EventIDFormat r \<noteq> EventIDUnset
   \<and> (RoomIDIsCreateHash r \<longleftrightarrow> CreatorPrivileged r)
   \<and> (CreatorPrivileged r \<longleftrightarrow> StateResVersion r = StateResV21)
   \<and> (CreateOmitsCreator r \<longleftrightarrow> UpdatedRedaction r)
   \<and> (StateDAGs r \<longrightarrow> CreatorPrivileged r \<and> \<not> PartialStateAllowed r)
   \<and> (KnockRestrictedAllowed r \<longrightarrow> RestrictedJoinAllowed r \<and> KnockingAllowed r)
   \<and> (EventFormatV1 r \<longrightarrow> \<not> UpdatedRedaction r \<and> \<not> StateDAGs r)"
  by (auto simp: Get_Some_iff registration_order_def rules_defs StateResV1_def StateResV2_def
    StateResV21_def)

end
