(* ===== verification/Room_Types.thy ===== *)
theory Room_Types
  imports Room_Version
begin

section \<open>Parsed event contents (\<open>internal/rooms/types.go\<close>)\<close>

text \<open>
  The Go structs an event's content is decoded into, each with its field decoders, and the
  parsing functions with their defaults. A power level is an \<open>int64\<close>, kept as an integer:
  it is only ever compared, and every level that comes out of a decoder lies in the
  \<open>int64\<close> range.
\<close>

datatype content_error = EmptyContent string | BadJson string

definition MembershipJoin :: string where "MembershipJoin = ''join''"
definition MembershipLeave :: string where "MembershipLeave = ''leave''"
definition MembershipInvite :: string where "MembershipInvite = ''invite''"
definition MembershipBan :: string where "MembershipBan = ''ban''"
definition MembershipKnock :: string where "MembershipKnock = ''knock''"

lemmas membership_defs = MembershipJoin_def MembershipLeave_def MembershipInvite_def
  MembershipBan_def MembershipKnock_def

subsection \<open>Power levels\<close>

record PowerLevels =
  pl_users :: "int gomap"
  pl_users_default :: int
  pl_events :: "int gomap"
  pl_events_default :: int
  pl_state_default :: int
  pl_ban :: int
  pl_kick :: int
  pl_redact :: int
  pl_invite :: int
  pl_notifications :: "int gomap"

definition pl_fields :: "PowerLevels fields" where
  "pl_fields =
     [(''users'', fld (dec_map 0 dec_int64) pl_users pl_users_update),
      (''users_default'', fld dec_int64 pl_users_default pl_users_default_update),
      (''events'', fld (dec_map 0 dec_int64) pl_events pl_events_update),
      (''events_default'', fld dec_int64 pl_events_default pl_events_default_update),
      (''state_default'', fld dec_int64 pl_state_default pl_state_default_update),
      (''ban'', fld dec_int64 pl_ban pl_ban_update),
      (''kick'', fld dec_int64 pl_kick pl_kick_update),
      (''redact'', fld dec_int64 pl_redact pl_redact_update),
      (''invite'', fld dec_int64 pl_invite pl_invite_update),
      (''notifications'', fld (dec_map 0 dec_int64) pl_notifications pl_notifications_update)]"

definition zero_pl :: PowerLevels where
  "zero_pl = \<lparr>pl_users = [], pl_users_default = 0, pl_events = [], pl_events_default = 0,
     pl_state_default = 0, pl_ban = 0, pl_kick = 0, pl_redact = 0, pl_invite = 0,
     pl_notifications = []\<rparr>"

definition default_pl :: PowerLevels where
  "default_pl = zero_pl\<lparr>pl_state_default := 50, pl_ban := 50, pl_kick := 50, pl_redact := 50\<rparr>"

definition UserLevel :: "PowerLevels \<Rightarrow> string \<Rightarrow> int" where
  "UserLevel p userID =
     (case gm_get (pl_users p) userID of Some l \<Rightarrow> l | None \<Rightarrow> pl_users_default p)"

definition EventLevel :: "PowerLevels \<Rightarrow> string \<Rightarrow> bool \<Rightarrow> int" where
  "EventLevel p eventType isState =
     (case gm_get (pl_events p) eventType of
        Some l \<Rightarrow> l
      | None \<Rightarrow> if isState then pl_state_default p else pl_events_default p)"

definition ParsePowerLevels :: "raw \<Rightarrow> content_error + PowerLevels" where
  "ParsePowerLevels r =
     (case r of
        None \<Rightarrow> Inr default_pl
      | Some j \<Rightarrow>
          (let (ok, pl) = dec_struct pl_fields j default_pl
           in if ok then Inr pl else Inl (BadJson ''power levels'')))"

subsection \<open>Join rules and history visibility\<close>

definition JoinRulePublic :: string where "JoinRulePublic = ''public''"
definition JoinRuleInvite :: string where "JoinRuleInvite = ''invite''"
definition JoinRuleKnock :: string where "JoinRuleKnock = ''knock''"
definition JoinRuleRestricted :: string where "JoinRuleRestricted = ''restricted''"
definition JoinRuleKnockRestricted :: string where "JoinRuleKnockRestricted = ''knock_restricted''"

lemmas join_rule_defs = JoinRulePublic_def JoinRuleInvite_def JoinRuleKnock_def
  JoinRuleRestricted_def JoinRuleKnockRestricted_def

text \<open>The decoding error is ignored: whatever was decoded before it is used.\<close>

definition JoinRule :: "raw \<Rightarrow> string" where
  "JoinRule r =
     (let c = snd (unmarshal (dec_struct (str_field ''join_rule'')) [] r)
      in if c = [] then JoinRuleInvite else c)"

record AllowEntry =
  allow_type :: string
  allow_room_id :: string
  allow_via :: "string list"

definition zero_allow :: AllowEntry where
  "zero_allow = \<lparr>allow_type = [], allow_room_id = [], allow_via = []\<rparr>"

definition allow_entry_fields :: "AllowEntry fields" where
  "allow_entry_fields =
     [(''type'', fld dec_string allow_type allow_type_update),
      (''room_id'', fld dec_string allow_room_id allow_room_id_update),
      (''via'', fld (dec_slice [] dec_string) allow_via allow_via_update)]"

definition AllowRooms :: "raw \<Rightarrow> string list" where
  "AllowRooms r =
     (let (ok, allow) = unmarshal (dec_struct
            [(''allow'', dec_slice zero_allow (dec_struct allow_entry_fields))]) [] r
      in if \<not> ok then []
         else map allow_room_id
                (filter (\<lambda>e. allow_type e = ''m.room_membership'' \<and> allow_room_id e \<noteq> []) allow))"

definition HistoryVisibility :: "raw \<Rightarrow> string" where
  "HistoryVisibility r =
     (let c = snd (unmarshal (dec_struct (str_field ''history_visibility'')) [] r)
      in if c = [] then ''shared'' else c)"

subsection \<open>Create content\<close>

record CreateContent =
  cc_creator :: string
  cc_room_version :: Version
  cc_predecessor :: raw
  cc_type :: string
  cc_federate :: "bool option"
  cc_additional_creators :: "string list"

definition zero_create :: CreateContent where
  "zero_create = \<lparr>cc_creator = [], cc_room_version = [], cc_predecessor = None, cc_type = [],
     cc_federate = None, cc_additional_creators = []\<rparr>"

definition create_fields :: "CreateContent fields" where
  "create_fields =
     [(''creator'', fld dec_string cc_creator cc_creator_update),
      (''room_version'', fld dec_string cc_room_version cc_room_version_update),
      (''predecessor'', fld dec_raw cc_predecessor cc_predecessor_update),
      (''type'', fld dec_string cc_type cc_type_update),
      (''m.federate'', fld (dec_ptr False dec_bool) cc_federate cc_federate_update),
      (''additional_creators'',
         fld (dec_slice [] dec_string) cc_additional_creators cc_additional_creators_update)]"

definition ParseCreate :: "raw \<Rightarrow> content_error + CreateContent" where
  "ParseCreate r =
     (case r of
        None \<Rightarrow> Inl (EmptyContent ''create'')
      | Some j \<Rightarrow>
          (let (ok, c) = dec_struct create_fields j zero_create
           in if \<not> ok then Inl (BadJson ''create'')
              else if cc_room_version c = [] then Inr (c\<lparr>cc_room_version := Default\<rparr>)
              else Inr c))"

definition CreatorOf :: "CreateContent \<Rightarrow> string \<Rightarrow> string" where
  "CreatorOf c createSender = (if cc_creator c \<noteq> [] then cc_creator c else createSender)"

definition IsPrivileged :: "CreateContent \<Rightarrow> string \<Rightarrow> string \<Rightarrow> bool" where
  "IsPrivileged c userID createSender =
     (if userID = [] then False
      else if userID = CreatorOf c createSender then True
      else list_ex (\<lambda>ac. ac = userID) (cc_additional_creators c))"

subsection \<open>Member and canonical alias content\<close>

record MemberContent =
  mc_membership :: string
  mc_avatar_url :: string
  mc_displayname :: string
  mc_reason :: string
  mc_third_party :: raw
  mc_is_direct :: "bool option"
  mc_authorised_via :: string

record Profile =
  prof_displayname :: string
  prof_avatar_url :: string

definition zero_member :: MemberContent where
  "zero_member = \<lparr>mc_membership = [], mc_avatar_url = [], mc_displayname = [], mc_reason = [],
     mc_third_party = None, mc_is_direct = None, mc_authorised_via = []\<rparr>"

definition member_fields :: "MemberContent fields" where
  "member_fields =
     [(''membership'', fld dec_string mc_membership mc_membership_update),
      (''avatar_url'', fld dec_string mc_avatar_url mc_avatar_url_update),
      (''displayname'', fld dec_string mc_displayname mc_displayname_update),
      (''reason'', fld dec_string mc_reason mc_reason_update),
      (''third_party_invite'', fld dec_raw mc_third_party mc_third_party_update),
      (''is_direct'', fld (dec_ptr False dec_bool) mc_is_direct mc_is_direct_update),
      (''join_authorised_via_users_server'',
         fld dec_string mc_authorised_via mc_authorised_via_update)]"

definition ParseMember :: "raw \<Rightarrow> content_error + MemberContent" where
  "ParseMember r =
     (case r of
        None \<Rightarrow> Inl (EmptyContent ''member'')
      | Some j \<Rightarrow>
          (let (ok, c) = dec_struct member_fields j zero_member
           in if ok then Inr c else Inl (BadJson ''member'')))"

record CanonicalAliasContent =
  ca_alias :: string
  ca_alt_aliases :: "string list"

definition ParseCanonicalAlias :: "raw \<Rightarrow> content_error + CanonicalAliasContent" where
  "ParseCanonicalAlias r =
     (let z = \<lparr>ca_alias = [], ca_alt_aliases = []\<rparr>;
          fs = [(''alias'', fld dec_string ca_alias ca_alias_update),
                (''alt_aliases'', fld (dec_slice [] dec_string) ca_alt_aliases ca_alt_aliases_update)]
      in case r of
           None \<Rightarrow> Inr z
         | Some j \<Rightarrow> (let (ok, c) = dec_struct fs j z
                      in if ok then Inr c else Inl (BadJson ''canonical_alias'')))"

subsection \<open>Facts about the parsed contents\<close>

lemma UserLevel_default: "gm_get (pl_users p) u = None \<Longrightarrow> UserLevel p u = pl_users_default p"
  by (simp add: UserLevel_def)

lemma IsPrivileged_iff:
  "IsPrivileged c u s \<longleftrightarrow> u \<noteq> [] \<and> (u = CreatorOf c s \<or> u \<in> set (cc_additional_creators c))"
  by (auto simp: IsPrivileged_def list_ex_iff)

lemma ParseCreate_version: "ParseCreate r = Inr c \<Longrightarrow> cc_room_version c \<noteq> []"
  by (auto simp: ParseCreate_def Default_def Let_def split: option.splits prod.splits if_splits)

text \<open>An invariant every field decoder keeps holds of the decoded struct.\<close>

definition fields_keep :: "('r \<Rightarrow> bool) \<Rightarrow> 'r fields \<Rightarrow> bool" where
  "fields_keep P fs \<longleftrightarrow> (\<forall>d \<in> snd ` set fs. \<forall>j r. P r \<longrightarrow> P (snd (d j r)))"

lemma find_field_in: "find_field fs k = Some d \<Longrightarrow> d \<in> snd ` set fs"
  by (induction fs) (auto split: if_splits)

lemma dec_fields_invariant: "fields_keep P fs \<Longrightarrow> P r \<Longrightarrow> P (snd (dec_fields fs kvs r))"
proof (induction kvs arbitrary: r)
  case (Cons e kvs)
  obtain k j where e: "e = (k, j)" by (cases e)
  obtain ok r1 where r1: "(case find_field fs k of None \<Rightarrow> (True, r) | Some d \<Rightarrow> d j r) = (ok, r1)"
    by (metis prod.exhaust)
  have "P r1"
  proof (cases "find_field fs k")
    case None
    then show ?thesis using r1 Cons.prems by simp
  next
    case (Some d)
    then have "d \<in> snd ` set fs" by (rule find_field_in)
    then have "P (snd (d j r))" using Cons.prems unfolding fields_keep_def by blast
    then show ?thesis using r1 Some by simp
  qed
  then show ?case
    using Cons.IH [of r1] Cons.prems by (simp add: e r1 case_prod_beta)
qed simp

lemma dec_struct_invariant: "fields_keep P fs \<Longrightarrow> P r \<Longrightarrow> P (snd (dec_struct fs j r))"
  by (cases j) (auto simp: dec_fields_invariant)

text \<open>The maps of a parsed power-level event are in normal form.\<close>

definition pl_maps_ok :: "PowerLevels \<Rightarrow> bool" where
  "pl_maps_ok p \<longleftrightarrow> gm_ok (pl_users p) \<and> gm_ok (pl_events p) \<and> gm_ok (pl_notifications p)"

lemma snd_fld: "snd (fld d get upd j r) = upd (\<lambda>_. snd (d j (get r))) r"
  by (simp add: fld_def case_prod_beta)

lemma pl_fields_keep_maps: "fields_keep pl_maps_ok pl_fields"
  by (auto simp: fields_keep_def pl_fields_def pl_maps_ok_def snd_fld dec_map_ok)

lemma ParsePowerLevels_maps_ok: "ParsePowerLevels r = Inr p \<Longrightarrow> pl_maps_ok p"
proof -
  have z: "pl_maps_ok default_pl"
    by (simp add: default_pl_def zero_pl_def pl_maps_ok_def)
  then have "pl_maps_ok (snd (dec_struct pl_fields j default_pl))" for j
    by (rule dec_struct_invariant [OF pl_fields_keep_maps])
  moreover assume "ParsePowerLevels r = Inr p"
  ultimately show ?thesis
    using z by (auto simp: ParsePowerLevels_def Let_def case_prod_beta split: option.splits if_splits)
qed

end
