(* ===== verification/Ids.thy ===== *)
theory Ids
  imports Prelude
begin

section \<open>Matrix identifiers (\<open>internal/ids\<close>)\<close>

text \<open>
  Parsing, validation and printing of user IDs, room IDs and aliases, after
  \<open>internal/ids/ids.go\<close>. Go ranges over the runes of a string where this model ranges over
  its bytes: a rune outside ASCII and each of its bytes fail the same ASCII character
  classes. The lemmas are the round trips of parsing and printing.
\<close>

datatype id_error =
    MissingSigil | UserIDTooLong | MissingDomain | EmptyLocalpartOrDomain | InvalidLocalpart

definition MaxUserIDLength :: nat where "MaxUserIDLength = 255"

record UserID =
  uid_localpart :: string
  uid_domain :: string

record RoomID =
  rid_localpart :: string
  rid_domain :: string

record RoomAlias =
  alias_localpart :: string
  alias_domain :: string

definition in_range :: "char \<Rightarrow> char \<Rightarrow> char \<Rightarrow> bool" where
  "in_range lo hi c \<longleftrightarrow> lo \<le> c \<and> c \<le> hi"

text \<open>\<open>UserID.String\<close>, \<open>RoomID.String\<close>, \<open>RoomAlias.String\<close> and \<open>MakeUserID\<close>.\<close>

definition UserID_String :: "UserID \<Rightarrow> string" where
  "UserID_String u = CHR ''@'' # uid_localpart u @ CHR '':'' # uid_domain u"

definition MakeUserID :: "string \<Rightarrow> string \<Rightarrow> string" where
  "MakeUserID localpart domain = CHR ''@'' # localpart @ CHR '':'' # domain"

definition RoomID_String :: "RoomID \<Rightarrow> string" where
  "RoomID_String r = CHR ''!'' # rid_localpart r @ CHR '':'' # rid_domain r"

definition RoomAlias_String :: "RoomAlias \<Rightarrow> string" where
  "RoomAlias_String a = CHR ''#'' # alias_localpart a @ CHR '':'' # alias_domain a"

definition validLocalpart :: "string \<Rightarrow> bool" where
  "validLocalpart lp = list_all (\<lambda>c. in_range (CHR ''a'') (CHR ''z'') c
     \<or> in_range (CHR ''0'') (CHR ''9'') c \<or> c \<in> set ''._=-/+'') lp"

definition ValidLocalpart :: "string \<Rightarrow> bool" where
  "ValidLocalpart lp \<longleftrightarrow> lp \<noteq> [] \<and> validLocalpart lp"

definition ParseUserID :: "string \<Rightarrow> id_error + UserID" where
  "ParseUserID s =
     (case s of
        [] \<Rightarrow> Inl MissingSigil
      | c # rest \<Rightarrow>
          if c \<noteq> CHR ''@'' then Inl MissingSigil
          else if length s > MaxUserIDLength then Inl UserIDTooLong
          else case index_byte (CHR '':'') rest of
                 None \<Rightarrow> Inl MissingDomain
               | Some idx \<Rightarrow>
                   let lp = take idx rest; domain = drop (idx + 1) rest
                   in if lp = [] \<or> domain = [] then Inl EmptyLocalpartOrDomain
                      else if \<not> validLocalpart lp then Inl InvalidLocalpart
                      else Inr \<lparr>uid_localpart = lp, uid_domain = domain\<rparr>)"

definition validServerNameHost :: "string \<Rightarrow> bool" where
  "validServerNameHost host \<longleftrightarrow>
     host \<noteq> [] \<and>
     list_all (\<lambda>i. let c = host ! i in
         in_range (CHR ''0'') (CHR ''9'') c \<or> in_range (CHR ''a'') (CHR ''z'') c
       \<or> in_range (CHR ''A'') (CHR ''Z'') c
       \<or> (c = CHR ''-'' \<and> 0 < i \<and> i < length host - 1)
       \<or> (c = CHR ''.'' \<and> 0 < i \<and> i < length host - 1)) [0..<length host]"

definition ValidServerName :: "string \<Rightarrow> bool" where
  "ValidServerName s =
     (case s of
        [] \<Rightarrow> False
      | c # _ \<Rightarrow>
          if c = CHR ''['' then length s > 2 \<and> last s = CHR '']''
          else validServerNameHost
                 (case last_index_byte (CHR '':'') s of None \<Rightarrow> s | Some i \<Rightarrow> take i s))"

definition IsLooseUserID :: "string \<Rightarrow> bool" where
  "IsLooseUserID s =
     (case s of
        [] \<Rightarrow> False
      | c # rest \<Rightarrow>
          if length s < 2 \<or> c \<noteq> CHR ''@'' then False
          else case index_byte (CHR '':'') rest of
                 None \<Rightarrow> False
               | Some idx \<Rightarrow>
                   if idx = 0 \<or> idx + 1 \<ge> length rest then False
                   else ValidServerName (drop (idx + 1) rest))"

definition ParseRoomID :: "string \<Rightarrow> id_error + RoomID" where
  "ParseRoomID s =
     (case s of
        [] \<Rightarrow> Inl MissingSigil
      | c # rest \<Rightarrow>
          if c \<noteq> CHR ''!'' then Inl MissingSigil
          else case index_byte (CHR '':'') rest of
                 Some idx \<Rightarrow> Inr \<lparr>rid_localpart = take idx rest, rid_domain = drop (idx + 1) rest\<rparr>
               | None \<Rightarrow> Inr \<lparr>rid_localpart = rest, rid_domain = []\<rparr>)"

definition ParseRoomAlias :: "string \<Rightarrow> id_error + RoomAlias" where
  "ParseRoomAlias s =
     (case s of
        [] \<Rightarrow> Inl MissingSigil
      | c # rest \<Rightarrow>
          if c \<noteq> CHR ''#'' then Inl MissingSigil
          else case index_byte (CHR '':'') rest of
                 None \<Rightarrow> Inl MissingDomain
               | Some idx \<Rightarrow>
                   let lp = take idx rest; domain = drop (idx + 1) rest
                   in if lp = [] \<or> domain = [] then Inl EmptyLocalpartOrDomain
                      else Inr \<lparr>alias_localpart = lp, alias_domain = domain\<rparr>)"

definition DomainOf :: "string \<Rightarrow> string" where
  "DomainOf s = (case index_byte (CHR '':'') s of Some idx \<Rightarrow> drop (idx + 1) s | None \<Rightarrow> [])"

lemma take_drop_index: "index_byte c s = Some i \<Longrightarrow> take i s @ c # drop (i + 1) s = s"
  by (metis Suc_eq_plus1 id_take_nth_drop index_byte_Some_less index_byte_Some_nth)

lemma validLocalpart_no_colon: "validLocalpart lp \<Longrightarrow> CHR '':'' \<notin> set lp"
  by (auto simp: validLocalpart_def list_all_iff in_range_def less_eq_char_def)

lemma ParseUserID_String:
  assumes "ParseUserID s = Inr u"
  shows "UserID_String u = s"
proof -
  from assms obtain rest where s: "s = CHR ''@'' # rest"
    by (auto simp: ParseUserID_def split: list.splits if_splits)
  from assms obtain idx where "index_byte (CHR '':'') rest = Some idx"
      "u = \<lparr>uid_localpart = take idx rest, uid_domain = drop (idx + 1) rest\<rparr>"
    by (auto simp: s ParseUserID_def Let_def split: option.splits if_splits)
  then show ?thesis using take_drop_index by (simp add: UserID_String_def s)
qed

lemma ParseUserID_print:
  assumes "uid_localpart u \<noteq> []" "uid_domain u \<noteq> []" "validLocalpart (uid_localpart u)"
    and "length (UserID_String u) \<le> MaxUserIDLength"
  shows "ParseUserID (UserID_String u) = Inr u"
  using assms validLocalpart_no_colon [OF assms(3)]
  by (simp add: ParseUserID_def UserID_String_def index_byte_append_Cons Let_def)

lemma ParseUserID_DomainOf:
  assumes "ParseUserID s = Inr u"
  shows "DomainOf s = uid_domain u"
  using assms by (auto simp: ParseUserID_def DomainOf_def Let_def split: list.splits if_splits option.splits)

lemma ParseRoomAlias_String: "ParseRoomAlias s = Inr a \<Longrightarrow> RoomAlias_String a = s"
  by (auto simp: ParseRoomAlias_def RoomAlias_String_def Let_def take_drop_index [simplified]
    split: list.splits if_splits option.splits)

lemma ParseRoomID_String:
  "ParseRoomID s = Inr r \<Longrightarrow> CHR '':'' \<in> set s \<Longrightarrow> RoomID_String r = s"
  by (auto simp: ParseRoomID_def RoomID_String_def take_drop_index [simplified] index_byte_None_iff
    split: list.splits if_splits option.splits)

end
