(* ===== verification/Canonical_Json.thy ===== *)
theory Canonical_Json
  imports Go_Json "HOL-Library.Log_Nat"
begin

section \<open>Canonical JSON (\<open>internal/canonicaljson\<close>)\<close>

text \<open>
  The encoder of \<open>canonicaljson.go\<close>: the byte-exact form every hash and signature is taken
  over. \<open>go_any\<close> is the decoder's view of a document as Go values (an object becomes a map:
  the last of two equal keys wins), \<open>encode\<close> is the recursive writer, \<open>Canonical\<close> their
  composition. Errors are values of \<open>encode_error\<close>, one constructor per \<open>fmt.Errorf\<close>.
\<close>

datatype encode_error = IntegerOutOfRange | InvalidNumber | NonIntegerNumber

subsection \<open>Strings\<close>

definition cont_byte :: "nat \<Rightarrow> bool" where
  "cont_byte b \<longleftrightarrow> 0x80 \<le> b \<and> b \<le> 0xBF"

lemma ifE_option:
  assumes "(if b then Some x else y) = Some z" and "b \<Longrightarrow> x = z \<Longrightarrow> R" and "\<not> b \<Longrightarrow> y = Some z \<Longrightarrow> R"
  shows R
  using assms by (cases b) auto

text \<open>
  \<open>utf8.DecodeRuneInString\<close> at a byte \<open>\<ge> 0x80\<close>: the number of bytes of the well-formed
  sequence that starts here, \<open>None\<close> for \<open>(RuneError, 1)\<close>.
\<close>

definition byte_at :: "string \<Rightarrow> nat \<Rightarrow> nat" where
  "byte_at s i = (if i < length s then of_char (s ! i) else 0)"

definition utf8_len :: "string \<Rightarrow> nat option" where
  "utf8_len s =
     (let b = byte_at s; b0 = b 0
      in if 0xC2 \<le> b0 \<and> b0 \<le> 0xDF \<and> cont_byte (b 1) then Some 2
         else if b0 = 0xE0 \<and> 0xA0 \<le> b 1 \<and> b 1 \<le> 0xBF \<and> cont_byte (b 2) then Some 3
         else if ((0xE1 \<le> b0 \<and> b0 \<le> 0xEC) \<or> b0 = 0xEE \<or> b0 = 0xEF) \<and> cont_byte (b 1) \<and> cont_byte (b 2)
           then Some 3
         else if b0 = 0xED \<and> 0x80 \<le> b 1 \<and> b 1 \<le> 0x9F \<and> cont_byte (b 2) then Some 3
         else if b0 = 0xF0 \<and> 0x90 \<le> b 1 \<and> b 1 \<le> 0xBF \<and> cont_byte (b 2) \<and> cont_byte (b 3) then Some 4
         else if 0xF1 \<le> b0 \<and> b0 \<le> 0xF3 \<and> cont_byte (b 1) \<and> cont_byte (b 2) \<and> cont_byte (b 3) then Some 4
         else if b0 = 0xF4 \<and> 0x80 \<le> b 1 \<and> b 1 \<le> 0x8F \<and> cont_byte (b 2) \<and> cont_byte (b 3) then Some 4
         else None)"

lemma cont_byte_at: "cont_byte (byte_at s i) \<Longrightarrow> i < length s"
  by (auto simp: cont_byte_def byte_at_def split: if_splits)

lemma utf8_len_last: "utf8_len s = Some n \<Longrightarrow> n \<in> {2, 3, 4} \<and> cont_byte (byte_at s (n - 1))"
  unfolding utf8_len_def Let_def
  by (elim ifE_option) simp_all

lemma utf8_len_Some: "utf8_len s = Some n \<Longrightarrow> 2 \<le> n \<and> n \<le> 4 \<and> n \<le> length s"
  by (drule utf8_len_last) (auto dest: cont_byte_at)

definition hex_digit :: "nat \<Rightarrow> char" where
  "hex_digit d = ''0123456789abcdef'' ! d"

text \<open>The \<open>switch c\<close> of \<open>encodeString\<close> for a byte below \<open>0x80\<close>.\<close>

definition escape_byte :: "char \<Rightarrow> string" where
  "escape_byte c =
     (if c = CHR 0x22 then [CHR 0x5C, CHR 0x22]
      else if c = CHR 0x5C then [CHR 0x5C, CHR 0x5C]
      else if c = CHR 0x08 then [CHR 0x5C, CHR ''b'']
      else if c = CHR 0x0C then [CHR 0x5C, CHR ''f'']
      else if c = CHR 0x0A then [CHR 0x5C, CHR ''n'']
      else if c = CHR 0x0D then [CHR 0x5C, CHR ''r'']
      else if c = CHR 0x09 then [CHR 0x5C, CHR ''t'']
      else if (of_char c :: nat) < 0x20
        then [CHR 0x5C, CHR ''u'', CHR ''0'', CHR ''0'', hex_digit (of_char c div 16), hex_digit (of_char c mod 16)]
      else [c])"

definition replacement_char :: string where
  "replacement_char = [CHR 0xEF, CHR 0xBF, CHR 0xBD]"

function encode_body :: "string \<Rightarrow> string" where
  "encode_body s =
     (case s of
        [] \<Rightarrow> []
      | c # r \<Rightarrow>
          if (of_char c :: nat) < 0x80 then escape_byte c @ encode_body r
          else case utf8_len s of
                 None \<Rightarrow> replacement_char @ encode_body r
               | Some n \<Rightarrow> take n s @ encode_body (drop n s))"
  by pat_completeness auto
termination
  by (relation "measure length") (auto dest: utf8_len_Some)

declare encode_body.simps [simp del]

definition encodeString :: "string \<Rightarrow> string" where
  "encodeString s = CHR 0x22 # encode_body s @ [CHR 0x22]"

subsection \<open>Numbers\<close>

text \<open>
  \<open>strconv.ParseFloat(s, 64)\<close> on a JSON number literal: the literal's decimal value rounded
  to the nearest \<open>float64\<close>, ties to even, and \<open>None\<close> where the rounded value overflows.
  A finite \<open>float64\<close> is a rational number here; the sign of a zero is dropped, which the
  only use of the result, \<open>int64(f)\<close>, drops as well.
\<close>

definition round_half_even :: "rat \<Rightarrow> int" where
  "round_half_even x =
     (let f = \<lfloor>x\<rfloor>; d = x - of_int f
      in if d < 1/2 then f else if d > 1/2 then f + 1 else if even f then f else f + 1)"

definition binary_exponent :: "rat \<Rightarrow> int" where
  "binary_exponent q =
     (let (a, b) = quotient_of q; t = bitlen a - bitlen b
      in if 2 powi t \<le> q then t else t - 1)"

definition round_float64 :: "rat \<Rightarrow> rat" where
  "round_float64 q =
     (if q = 0 then 0
      else let k = max (binary_exponent q - 52) (-1074)
           in of_int (round_half_even (q / 2 powi k)) * 2 powi k)"

text \<open>A decimal literal: integer part, optional fraction, optional exponent.\<close>

definition parse_exponent :: "string \<Rightarrow> int option" where
  "parse_exponent s =
     (let (neg, ds) = split_sign s
      in if ds = [] then None
         else map_option (\<lambda>n. if neg then - n else n) (digits_val 0 ds))"

definition parse_decimal :: "string \<Rightarrow> rat option" where
  "parse_decimal s =
     (let (neg, r) = split_sign s;
          ip = takeWhile is_digit r;
          r1 = dropWhile is_digit r;
          fp = (case r1 of c # r' \<Rightarrow> if c = CHR ''.'' then takeWhile is_digit r' else [] | [] \<Rightarrow> []);
          r2 = (case r1 of c # r' \<Rightarrow> if c = CHR ''.'' then dropWhile is_digit r' else r1 | [] \<Rightarrow> []);
          ex = (case r2 of [] \<Rightarrow> Some 0
                | c # r' \<Rightarrow> if c = CHR ''e'' \<or> c = CHR ''E'' then parse_exponent r' else None)
      in if ip @ fp = [] then None
         else case (digits_val 0 (ip @ fp), ex) of
                (Some m, Some e) \<Rightarrow>
                  Some ((if neg then - 1 else 1) * of_int m * 10 powi (e - int (length fp)))
              | _ \<Rightarrow> None)"

definition parse_float64 :: "string \<Rightarrow> rat option" where
  "parse_float64 s =
     (case parse_decimal s of
        None \<Rightarrow> None
      | Some q \<Rightarrow>
          let f = round_float64 \<bar>q\<bar>
          in if 2 ^ 1024 \<le> f then None else Some (if q < 0 then - f else f))"

definition max_canonical_int :: int where "max_canonical_int = 2 ^ 53 - 1"

definition encodeNumber :: "string \<Rightarrow> encode_error + string" where
  "encodeNumber s =
     (case parse_int64 s of
        Some i \<Rightarrow>
          if max_canonical_int < i \<or> i < - max_canonical_int then Inl IntegerOutOfRange
          else Inr (format_int i)
      | None \<Rightarrow>
          (case parse_float64 s of
             None \<Rightarrow> Inl InvalidNumber
           | Some f \<Rightarrow>
               if of_int \<lfloor>f\<rfloor> \<noteq> f then Inl NonIntegerNumber
               else if of_int max_canonical_int < f \<or> f < - of_int max_canonical_int
                 then Inl IntegerOutOfRange
               else Inr (format_int \<lfloor>f\<rfloor>)))"

subsection \<open>Values\<close>

text \<open>\<open>dec.Decode(&v)\<close> into an \<open>any\<close> with \<open>UseNumber\<close>: objects become maps.\<close>

fun go_any :: "json \<Rightarrow> json" where
  "go_any JNull = JNull"
| "go_any (JBool b) = JBool b"
| "go_any (JNum s) = JNum s"
| "go_any (JStr s) = JStr s"
| "go_any (JArr xs) = JArr (map go_any xs)"
| "go_any (JObj kvs) = JObj (gm_of (map (\<lambda>(k, v). (k, go_any v)) kvs))"

text \<open>The first error of a list of results, or all the values.\<close>

fun collect :: "('e + 'a) list \<Rightarrow> 'e + 'a list" where
  "collect [] = Inr []"
| "collect (Inl e # rs) = Inl e"
| "collect (Inr a # rs) = (case collect rs of Inl e \<Rightarrow> Inl e | Inr as \<Rightarrow> Inr (a # as))"

fun commas :: "string list \<Rightarrow> string" where
  "commas [] = []"
| "commas [x] = x"
| "commas (x # y # r) = x @ CHR '','' # commas (y # r)"

definition member_bytes :: "string \<Rightarrow> (encode_error + string) \<Rightarrow> encode_error + string" where
  "member_bytes k r = (case r of Inl e \<Rightarrow> Inl e | Inr b \<Rightarrow> Inr (encodeString k @ CHR '':'' # b))"

fun encode :: "json \<Rightarrow> encode_error + string" where
  "encode JNull = Inr ''null''"
| "encode (JBool b) = Inr (if b then ''true'' else ''false'')"
| "encode (JStr s) = Inr (encodeString s)"
| "encode (JNum n) = encodeNumber n"
| "encode (JArr xs) =
     (case collect (map encode xs) of
        Inl e \<Rightarrow> Inl e
      | Inr bs \<Rightarrow> Inr (CHR ''['' # commas bs @ '']''))"
| "encode (JObj m) =
     (case collect (map (\<lambda>(k, r). member_bytes k r)
              (sort_key fst (map (\<lambda>(k, v). (k, encode v)) m))) of
        Inl e \<Rightarrow> Inl e
      | Inr bs \<Rightarrow> Inr (CHR ''{'' # commas bs @ ''}''))"

definition Canonical :: "json \<Rightarrow> encode_error + string" where
  "Canonical v = encode (go_any v)"

definition Equal :: "json \<Rightarrow> json \<Rightarrow> bool" where
  "Equal a b =
     (case (Canonical a, Canonical b) of (Inr ca, Inr cb) \<Rightarrow> ca = cb | _ \<Rightarrow> False)"

subsection \<open>Maps have one form\<close>

lemma sort_key_gm_ok: "gm_ok m \<Longrightarrow> sort_key fst m = m"
  by (simp add: sort_key_id_if_sorted gm_ok_def strict_sorted_iff)

lemma gm_ok_map_val: "gm_ok (map (\<lambda>(k, v). (k, f v)) m) \<longleftrightarrow> gm_ok m"
  by (simp add: gm_ok_def comp_def case_prod_beta)

lemma gm_put_map_val:
  "gm_put k (f v) (map (\<lambda>(k, v). (k, f v)) m) = map (\<lambda>(k, v). (k, f v)) (gm_put k v m)"
  by (induction m) auto

lemma gm_of_map_val: "gm_of (map (\<lambda>(k, v). (k, f v)) kvs) = map (\<lambda>(k, v). (k, f v)) (gm_of kvs)"
proof -
  have "fold (\<lambda>e. gm_put (fst e) (snd e)) (map (\<lambda>(k, v). (k, f v)) kvs) (map (\<lambda>(k, v). (k, f v)) m)
      = map (\<lambda>(k, v). (k, f v)) (fold (\<lambda>e. gm_put (fst e) (snd e)) kvs m)" for m
    by (induction kvs arbitrary: m) (auto simp: gm_put_map_val case_prod_beta)
  from this [of "[]"] show ?thesis by (simp add: gm_of_def)
qed

text \<open>Only the map an object denotes matters, not the order or repetition of its members.\<close>

lemma Canonical_obj_cong:
  "gm_of kvs = gm_of kvs' \<Longrightarrow> Canonical (JObj kvs) = Canonical (JObj kvs')"
  by (simp add: Canonical_def gm_of_map_val)

end
