(* ===== verification/Crypto.thy ===== *)
theory Crypto
  imports Canonical_Json
begin

section \<open>JSON signing (\<open>internal/crypto\<close>)\<close>

text \<open>
  Base64 as the standard library does it, and the signing and verification of JSON objects
  of \<open>internal/crypto/crypto.go\<close>. The ed25519 primitives are parameters: \<open>ed_sign\<close> maps a
  private key and a message to a signature, \<open>ed_verify\<close> maps a public key, a message and a
  signature to the verdict of \<open>ed25519.Verify\<close>. A write into a nil map, where Go panics, is
  the error \<open>NilMapPanic\<close>.
\<close>

subsection \<open>Base64 without padding\<close>

definition std_alphabet :: string where
  "std_alphabet = ''ABCDEFGHIJKLMNOPQRSTUVWXYZabcdefghijklmnopqrstuvwxyz0123456789+/''"

definition url_alphabet :: string where
  "url_alphabet = ''ABCDEFGHIJKLMNOPQRSTUVWXYZabcdefghijklmnopqrstuvwxyz0123456789-_''"

fun b64_digits :: "nat list \<Rightarrow> nat list" where
  "b64_digits [] = []"
| "b64_digits [a] = [a div 4, a mod 4 * 16]"
| "b64_digits [a, b] = [a div 4, a mod 4 * 16 + b div 16, b mod 16 * 4]"
| "b64_digits (a # b # c # r) =
     a div 4 # (a mod 4 * 16 + b div 16) # (b mod 16 * 4 + c div 64) # c mod 64 # b64_digits r"

fun b64_bytes :: "nat list \<Rightarrow> nat list option" where
  "b64_bytes [] = Some []"
| "b64_bytes [p] = None"
| "b64_bytes [p, q] = Some [p * 4 + q div 16]"
| "b64_bytes [p, q, r] = Some [p * 4 + q div 16, q mod 16 * 16 + r div 4]"
| "b64_bytes (p # q # r # s # t) =
     map_option (\<lambda>u. (p * 4 + q div 16) # (q mod 16 * 16 + r div 4) # (r mod 4 * 64 + s) # u)
       (b64_bytes t)"

definition b64_encode :: "string \<Rightarrow> string \<Rightarrow> string" where
  "b64_encode alph s = map ((!) alph) (b64_digits (map of_char s))"

text \<open>\<open>DecodeString\<close>: line breaks are skipped, any other character outside the alphabet is an error.\<close>

fun all_some :: "'a option list \<Rightarrow> 'a list option" where
  "all_some [] = Some []"
| "all_some (None # xs) = None"
| "all_some (Some x # xs) = map_option ((#) x) (all_some xs)"

definition b64_decode :: "string \<Rightarrow> string \<Rightarrow> string option" where
  "b64_decode alph s =
     (case all_some (map (\<lambda>c. index_byte c alph) (filter (\<lambda>c. c \<notin> {CHR 0x0A, CHR 0x0D}) s)) of
        None \<Rightarrow> None
      | Some ds \<Rightarrow> map_option (map char_of) (b64_bytes ds))"

definition UnpaddedBase64 :: "string \<Rightarrow> string" where
  "UnpaddedBase64 = b64_encode std_alphabet"

definition URLSafeBase64 :: "string \<Rightarrow> string" where
  "URLSafeBase64 = b64_encode url_alphabet"

definition UnpaddedBase64_decode :: "string \<Rightarrow> string option" where
  "UnpaddedBase64_decode = b64_decode std_alphabet"

lemma b64_digits_less: "\<forall>x \<in> set bs. x < 256 \<Longrightarrow> d \<in> set (b64_digits bs) \<Longrightarrow> d < 64"
  by (induction bs rule: b64_digits.induct) auto

lemma b64_bytes_digits: "\<forall>x \<in> set bs. x < 256 \<Longrightarrow> b64_bytes (b64_digits bs) = Some bs"
proof (induction bs rule: b64_digits.induct)
  case (4 a b c r)
  then show ?case by auto
qed auto

definition alphabet_ok :: "string \<Rightarrow> bool" where
  "alphabet_ok alph \<longleftrightarrow> length alph = 64 \<and> distinct alph \<and> CHR 0x0A \<notin> set alph \<and> CHR 0x0D \<notin> set alph"

lemma alphabets_ok [simp]: "alphabet_ok std_alphabet" "alphabet_ok url_alphabet"
  by code_simp+

lemma index_byte_nth: "distinct xs \<Longrightarrow> i < length xs \<Longrightarrow> index_byte (xs ! i) xs = Some i"
proof (induction xs arbitrary: i)
  case (Cons x xs)
  then show ?case by (cases i) auto
qed simp

lemma all_some_map_Some: "all_some (map (\<lambda>x. Some (f x)) xs) = Some (map f xs)"
  by (induction xs) auto

lemma b64_decode_encode:
  assumes "alphabet_ok alph"
  shows "b64_decode alph (b64_encode alph s) = Some s"
proof -
  let ?ds = "b64_digits (map of_char s)"
  have "(of_char c :: nat) < 256" for c :: char
    by (metis of_char_mod_256 mod_less_divisor zero_less_numeral)
  then have less: "\<forall>x \<in> set (map of_char s). x < (256 :: nat)"
    by simp
  then have d: "\<forall>d \<in> set ?ds. d < 64"
    using b64_digits_less by blast
  have "set (b64_encode alph s) \<subseteq> set alph"
    using d assms by (auto simp: b64_encode_def alphabet_ok_def)
  then have "filter (\<lambda>c. c \<notin> {CHR 0x0A, CHR 0x0D}) (b64_encode alph s) = b64_encode alph s"
    using assms by (auto simp: alphabet_ok_def filter_id_conv)
  moreover have "map (\<lambda>c. index_byte c alph) (b64_encode alph s) = map Some ?ds"
    using d assms by (auto simp: b64_encode_def alphabet_ok_def index_byte_nth)
  ultimately show ?thesis
    using all_some_map_Some [of "\<lambda>x. x" ?ds] b64_bytes_digits [OF less]
    by (simp add: b64_decode_def comp_def)
qed

lemma UnpaddedBase64_roundtrip: "UnpaddedBase64_decode (UnpaddedBase64 s) = Some s"
  by (simp add: UnpaddedBase64_decode_def UnpaddedBase64_def b64_decode_encode)

subsection \<open>Keys and signatures\<close>

record SigningKey =
  key_version :: string
  key_private :: string
  key_public :: string

datatype crypto_error =
    JsonError
  | EncodeError encode_error
  | NoSignatures
  | NoSignatureFrom string
  | NoSignatureForKey string
  | BadSignatureEncoding
  | VerificationFailed
  | NilMapPanic

definition KeyID :: "SigningKey \<Rightarrow> string" where
  "KeyID k = ''ed25519:'' @ key_version k"

definition PublicBase64 :: "SigningKey \<Rightarrow> string" where
  "PublicBase64 k = UnpaddedBase64 (key_public k)"

type_synonym signatures = "string gomap gomap"

definition dec_signatures :: "signatures decoder" where
  "dec_signatures = dec_map [] (dec_map [] dec_string)"

definition signatures_json :: "signatures \<Rightarrow> json" where
  "signatures_json sigs = JObj (map (\<lambda>(e, m). (e, JObj (map (\<lambda>(k, s). (k, JStr s)) m))) sigs)"

text \<open>The signed bytes: the canonical form without \<open>signatures\<close> and \<open>unsigned\<close> (a \<open>null\<close>
  document is a nil map, which marshals as \<open>null\<close>).\<close>

definition signable :: "json \<Rightarrow> json gomap \<Rightarrow> encode_error + string" where
  "signable input obj =
     Canonical (if input = JNull then JNull
                else JObj (gm_del ''unsigned'' (gm_del ''signatures'' obj)))"

definition put_signature :: "string \<Rightarrow> string \<Rightarrow> string \<Rightarrow> signatures \<Rightarrow> signatures" where
  "put_signature entity keyID sig sigs =
     gm_put entity (gm_put keyID sig (case gm_get sigs entity of None \<Rightarrow> [] | Some m \<Rightarrow> m)) sigs"

definition SignJSON ::
  "(string \<Rightarrow> string \<Rightarrow> string) \<Rightarrow> string \<Rightarrow> SigningKey \<Rightarrow> json \<Rightarrow> crypto_error + json" where
  "SignJSON ed_sign entity key input =
     (case unmarshal_obj input of
        None \<Rightarrow> Inl JsonError
      | Some obj \<Rightarrow>
          (case signable input obj of
             Inl e \<Rightarrow> Inl (EncodeError e)
           | Inr bytes \<Rightarrow>
               let sigB64 = UnpaddedBase64 (ed_sign (key_private key) bytes);
                   saved = (case gm_get obj ''signatures'' of
                              None \<Rightarrow> Inr []
                            | Some JNull \<Rightarrow> Inl NilMapPanic
                            | Some j \<Rightarrow> (let (ok, m) = dec_signatures j []
                                         in if ok then Inr m else Inl JsonError))
               in (case saved of
                     Inl e \<Rightarrow> Inl e
                   | Inr sigs \<Rightarrow>
                       if input = JNull then Inl NilMapPanic
                       else Inr (JObj (gm_put ''signatures''
                              (signatures_json (put_signature entity (KeyID key) sigB64 sigs))
                              obj)))))"

definition SignedBytes ::
  "(string \<Rightarrow> string \<Rightarrow> string) \<Rightarrow> SigningKey \<Rightarrow> json \<Rightarrow> crypto_error + string" where
  "SignedBytes ed_sign key input =
     (case unmarshal_obj input of
        None \<Rightarrow> Inl JsonError
      | Some obj \<Rightarrow>
          (case signable input obj of
             Inl e \<Rightarrow> Inl (EncodeError e)
           | Inr bytes \<Rightarrow> Inr (UnpaddedBase64 (ed_sign (key_private key) bytes))))"

definition verifyBytes ::
  "(string \<Rightarrow> string \<Rightarrow> string \<Rightarrow> bool) \<Rightarrow> string \<Rightarrow> string \<Rightarrow> json \<Rightarrow> json gomap \<Rightarrow> crypto_error + unit" where
  "verifyBytes ed_verify pub sig input obj =
     (case signable input obj of
        Inl e \<Rightarrow> Inl (EncodeError e)
      | Inr bytes \<Rightarrow> if ed_verify pub bytes sig then Inr () else Inl VerificationFailed)"

definition VerifyJSON ::
  "(string \<Rightarrow> string \<Rightarrow> string \<Rightarrow> bool) \<Rightarrow> string \<Rightarrow> string \<Rightarrow> string \<Rightarrow> json \<Rightarrow> crypto_error + unit" where
  "VerifyJSON ed_verify entity keyID pub input =
     (case unmarshal_obj input of
        None \<Rightarrow> Inl JsonError
      | Some obj \<Rightarrow>
          (case gm_get obj ''signatures'' of
             None \<Rightarrow> Inl NoSignatures
           | Some sigRaw \<Rightarrow>
               let (ok, sigs) = dec_signatures sigRaw []
               in if \<not> ok then Inl JsonError
                  else case gm_get sigs entity of
                    None \<Rightarrow> Inl (NoSignatureFrom entity)
                  | Some entitySigs \<Rightarrow>
                      (case gm_get entitySigs keyID of
                         None \<Rightarrow> Inl (NoSignatureForKey keyID)
                       | Some sigB64 \<Rightarrow>
                           (case UnpaddedBase64_decode sigB64 of
                              None \<Rightarrow> Inl BadSignatureEncoding
                            | Some sig \<Rightarrow> verifyBytes ed_verify pub sig input obj))))"

definition VerifyJSONWith ::
  "(string \<Rightarrow> string \<Rightarrow> string \<Rightarrow> bool) \<Rightarrow> string \<Rightarrow> string \<Rightarrow> string \<Rightarrow> string \<Rightarrow> json \<Rightarrow> crypto_error + unit" where
  "VerifyJSONWith ed_verify sigB64 entity keyID pub input =
     (case UnpaddedBase64_decode sigB64 of
        None \<Rightarrow> Inl BadSignatureEncoding
      | Some sig \<Rightarrow>
          (case unmarshal_obj input of
             None \<Rightarrow> Inl JsonError
           | Some obj \<Rightarrow> verifyBytes ed_verify pub sig input obj))"

end
