(* ===== verification/Auth.thy ===== *)
theory Auth
  imports Room_Types Ids Crypto
begin

section \<open>The event authorization rules (\<open>internal/rooms/auth.go\<close>)\<close>

text \<open>
  \<open>Authorize\<close> decides whether an event may be persisted: the create event, the membership
  state machine, power levels, and every other state event or message. Each \<open>fmt.Errorf\<close> of
  the source is a constructor of \<open>auth_error\<close>. The source ranges over Go maps in no fixed
  order and stops at the first error; the model reports the first error in the order of the
  normal form, so the verdict is the source's and only the text of the error is chosen.
  \<open>ed_verify\<close> stands for \<open>ed25519.Verify\<close>.
\<close>

datatype auth_error =
    EmptyEventContent
  | RoomAlreadyCreated
  | BadCreateContent
  | CreateSenderNotCreator
  | NoCreateInState
  | ContentError content_error
  | EmptySender
  | SenderNotJoined string
  | InsufficientPower string
  | ParsePowerLevelsError
  | ScalarAboveOwnLevel string
  | ScalarNotHeld string
  | EntryAboveOwnLevel string string
  | EntryNotHeld string string
  | RemovedEntryNotHeld string string
  | UserAboveOwnLevel string
  | UserOutranksSender string
  | RemovedUserOutranksSender string
  | StateKeyNotSender
  | ErrBadStateKey
  | OthersState
  | MemberNeedsStateKey
  | Unfederatable
  | OnlyInviteeMayJoin
  | GuestAccessNotAllowed
  | CannotRejoinForOther
  | BannedCannotJoin
  | CannotJoinForOther
  | ThirdPartyInviteInvalid
  | NotAuthorisedViaAllowedRoom
  | NotPubliclyJoinable
  | CannotInviteBanned
  | UserIsBanned
  | AlreadyJoined
  | CannotKickEqualOrHigher
  | CannotUnbanWithoutBanPower
  | CannotBanEqualOrHigher
  | KnockingNotSupported
  | KnockingNotAllowedByRule
  | OnlySelfMayKnock
  | KnockAlreadyMember
  | BannedCannotKnock
  | UnknownMembership string

record StateSnapshot =
  ss_create :: raw
  ss_join_rules :: raw
  ss_power_level :: raw
  ss_create_sender :: string
  ss_guest_access :: raw
  ss_sender_member :: raw
  ss_target_member :: raw
  ss_third_party_invite :: raw
  ss_sender_is_guest :: bool
  ss_restricted_authorised :: bool
  ss_only_prev_is_create :: bool

definition zero_snapshot :: StateSnapshot where
  "zero_snapshot = \<lparr>ss_create = None, ss_join_rules = None, ss_power_level = None,
     ss_create_sender = [], ss_guest_access = None, ss_sender_member = None,
     ss_target_member = None, ss_third_party_invite = None, ss_sender_is_guest = False,
     ss_restricted_authorised = False, ss_only_prev_is_create = False\<rparr>"

subsection \<open>Power-level proposals\<close>

record PowerProposal =
  pp_users :: "int gomap"
  pp_users_default :: "int option"
  pp_events :: "int gomap"
  pp_events_default :: "int option"
  pp_state_default :: "int option"
  pp_ban :: "int option"
  pp_kick :: "int option"
  pp_redact :: "int option"
  pp_invite :: "int option"
  pp_notifications :: "int gomap"

definition zero_proposal :: PowerProposal where
  "zero_proposal = \<lparr>pp_users = [], pp_users_default = None, pp_events = [],
     pp_events_default = None, pp_state_default = None, pp_ban = None, pp_kick = None,
     pp_redact = None, pp_invite = None, pp_notifications = []\<rparr>"

definition proposal_fields :: "PowerProposal fields" where
  "proposal_fields =
     [(''users'', fld (dec_map 0 dec_int64) pp_users pp_users_update),
      (''users_default'', fld (dec_ptr 0 dec_int64) pp_users_default pp_users_default_update),
      (''events'', fld (dec_map 0 dec_int64) pp_events pp_events_update),
      (''events_default'', fld (dec_ptr 0 dec_int64) pp_events_default pp_events_default_update),
      (''state_default'', fld (dec_ptr 0 dec_int64) pp_state_default pp_state_default_update),
      (''ban'', fld (dec_ptr 0 dec_int64) pp_ban pp_ban_update),
      (''kick'', fld (dec_ptr 0 dec_int64) pp_kick pp_kick_update),
      (''redact'', fld (dec_ptr 0 dec_int64) pp_redact pp_redact_update),
      (''invite'', fld (dec_ptr 0 dec_int64) pp_invite pp_invite_update),
      (''notifications'', fld (dec_map 0 dec_int64) pp_notifications pp_notifications_update)]"

text \<open>The loop over the scalar permissions: name, proposed value, current value.\<close>

definition scalar_permissions ::
  "PowerProposal \<Rightarrow> PowerLevels \<Rightarrow> (string \<times> int option \<times> int) list" where
  "scalar_permissions c current =
     [(''users_default'', pp_users_default c, pl_users_default current),
      (''events_default'', pp_events_default c, pl_events_default current),
      (''state_default'', pp_state_default c, pl_state_default current),
      (''ban'', pp_ban c, pl_ban current),
      (''kick'', pp_kick c, pl_kick current),
      (''redact'', pp_redact c, pl_redact current),
      (''invite'', pp_invite c, pl_invite current)]"

fun check_scalars :: "int \<Rightarrow> (string \<times> int option \<times> int) list \<Rightarrow> auth_error + unit" where
  "check_scalars senderLevel [] = Inr ()"
| "check_scalars senderLevel ((name, v, cur) # r) =
     (case v of
        None \<Rightarrow> check_scalars senderLevel r
      | Some x \<Rightarrow>
          if x = cur then check_scalars senderLevel r
          else if x > senderLevel then Inl (ScalarAboveOwnLevel name)
          else if cur > senderLevel then Inl (ScalarNotHeld name)
          else check_scalars senderLevel r)"

text \<open>The closure \<open>checkMap\<close>: additions and changes, then removals.\<close>

fun check_map_changes :: "string \<Rightarrow> int \<Rightarrow> int gomap \<Rightarrow> (string \<times> int) list \<Rightarrow> auth_error + unit" where
  "check_map_changes name senderLevel currentMap [] = Inr ()"
| "check_map_changes name senderLevel currentMap ((k, nv) # r) =
     (let cv = gm_get currentMap k
      in if cv = Some nv then check_map_changes name senderLevel currentMap r
         else if nv > senderLevel then Inl (EntryAboveOwnLevel name k)
         else if (case cv of Some x \<Rightarrow> x > senderLevel | None \<Rightarrow> False) then Inl (EntryNotHeld name k)
         else check_map_changes name senderLevel currentMap r)"

fun check_map_removals :: "string \<Rightarrow> int \<Rightarrow> int gomap \<Rightarrow> (string \<times> int) list \<Rightarrow> auth_error + unit" where
  "check_map_removals name senderLevel proposed [] = Inr ()"
| "check_map_removals name senderLevel proposed ((k, cv) # r) =
     (if gm_get proposed k = None \<and> cv > senderLevel then Inl (RemovedEntryNotHeld name k)
      else check_map_removals name senderLevel proposed r)"

definition checkMap :: "string \<Rightarrow> int \<Rightarrow> int gomap \<Rightarrow> int gomap \<Rightarrow> auth_error + unit" where
  "checkMap name senderLevel proposed currentMap =
     bind_result (check_map_changes name senderLevel currentMap proposed)
       (\<lambda>_. check_map_removals name senderLevel proposed currentMap)"

text \<open>The two loops over the \<open>users\<close> maps, which skip the sender's own entry.\<close>

fun check_user_changes :: "string \<Rightarrow> int \<Rightarrow> int gomap \<Rightarrow> (string \<times> int) list \<Rightarrow> auth_error + unit" where
  "check_user_changes sender senderLevel currentUsers [] = Inr ()"
| "check_user_changes sender senderLevel currentUsers ((u, nv) # r) =
     (if u = sender then check_user_changes sender senderLevel currentUsers r
      else
        let cv = gm_get currentUsers u
        in if cv = Some nv then check_user_changes sender senderLevel currentUsers r
           else if nv > senderLevel then Inl (UserAboveOwnLevel u)
           else if (case cv of Some x \<Rightarrow> x \<ge> senderLevel | None \<Rightarrow> False) then Inl (UserOutranksSender u)
           else check_user_changes sender senderLevel currentUsers r)"

fun check_user_removals :: "string \<Rightarrow> int \<Rightarrow> int gomap \<Rightarrow> (string \<times> int) list \<Rightarrow> auth_error + unit" where
  "check_user_removals sender senderLevel proposed [] = Inr ()"
| "check_user_removals sender senderLevel proposed ((u, cv) # r) =
     (if u = sender then check_user_removals sender senderLevel proposed r
      else if gm_get proposed u = None \<and> cv \<ge> senderLevel then Inl (RemovedUserOutranksSender u)
      else check_user_removals sender senderLevel proposed r)"

definition checkPowerLevelsProposal ::
  "Rules \<Rightarrow> string \<Rightarrow> raw \<Rightarrow> int \<Rightarrow> PowerLevels \<Rightarrow> auth_error + unit" where
  "checkPowerLevelsProposal rules sender content senderLevel current =
     (let (ok, c) = unmarshal (dec_struct proposal_fields) zero_proposal content
      in if \<not> ok then Inl ParsePowerLevelsError
         else
           bind_result (check_scalars senderLevel (scalar_permissions c current)) (\<lambda>_.
           bind_result (checkMap ''events'' senderLevel (pp_events c) (pl_events current)) (\<lambda>_.
           bind_result (if NotificationsPowerLevel rules
                        then checkMap ''notifications'' senderLevel (pp_notifications c)
                               (pl_notifications current)
                        else Inr ()) (\<lambda>_.
           bind_result (check_user_changes sender senderLevel (pl_users current) (pp_users c)) (\<lambda>_.
           check_user_removals sender senderLevel (pp_users c) (pl_users current))))))"

subsection \<open>State keys, membership and third-party invites\<close>

definition checkOwnedState :: "Rules \<Rightarrow> string \<Rightarrow> string \<Rightarrow> (string \<Rightarrow> int) \<Rightarrow> auth_error + unit" where
  "checkOwnedState rules stateKey sender userLevel =
     (if \<not> has_prefix stateKey ''@'' then Inr ()
      else if stateKey = sender then Inr ()
      else if \<not> OwnedState rules then Inl StateKeyNotSender
      else
        let owner =
          (case index_byte (CHR '':'') stateKey of
             None \<Rightarrow> stateKey
           | Some i \<Rightarrow>
               (case index_byte (CHR ''_'') (drop (i + 1) stateKey) of
                  None \<Rightarrow> stateKey
                | Some j \<Rightarrow> take (i + 1 + j) stateKey))
        in if \<not> IsLooseUserID owner then Inl ErrBadStateKey
           else if owner = sender \<or> userLevel sender > userLevel owner then Inr ()
           else Inl OthersState)"

text \<open>The membership recorded in a member event's content, \<open>""\<close> where it cannot be read.\<close>

definition membership_in :: "raw \<Rightarrow> string option" where
  "membership_in r =
     (case r of
        None \<Rightarrow> None
      | Some j \<Rightarrow> (case ParseMember (Some j) of Inl _ \<Rightarrow> None | Inr m \<Rightarrow> Some (mc_membership m)))"

definition currentMembership :: "StateSnapshot \<Rightarrow> string" where
  "currentMembership st =
     (case membership_in (ss_sender_member st) of
        Some m \<Rightarrow> m
      | None \<Rightarrow>
          (case membership_in (ss_target_member st) of Some m \<Rightarrow> m | None \<Rightarrow> []))"

definition guestAccessCanJoin :: "raw \<Rightarrow> bool" where
  "guestAccessCanJoin content =
     (case content of
        None \<Rightarrow> False
      | Some j \<Rightarrow>
          (let (ok, ga) = dec_struct (str_field ''guest_access'') j []
           in ok \<and> ga = ''can_join''))"

record SignedBlock =
  sb_token :: string
  sb_mxid :: string
  sb_signatures :: signatures

definition signed_block_fields :: "SignedBlock fields" where
  "signed_block_fields =
     [(''token'', fld dec_string sb_token sb_token_update),
      (''mxid'', fld dec_string sb_mxid sb_mxid_update),
      (''signatures'', fld dec_signatures sb_signatures sb_signatures_update)]"

record thirdPartyInviteContent =
  tp_public_key :: string
  tp_public_keys :: "string list"

definition third_party_fields :: "thirdPartyInviteContent fields" where
  "third_party_fields =
     [(''public_key'', fld dec_string tp_public_key tp_public_key_update),
      (''public_keys'', fld (dec_slice [] (dec_struct (str_field ''public_key'')))
         tp_public_keys tp_public_keys_update)]"

definition signature_matches ::
  "(string \<Rightarrow> string \<Rightarrow> string \<Rightarrow> bool) \<Rightarrow> json \<Rightarrow> signatures \<Rightarrow> string \<Rightarrow> bool" where
  "signature_matches ed_verify rawSigned sigs b64 =
     (case UnpaddedBase64_decode b64 of
        None \<Rightarrow> False
      | Some pub \<Rightarrow>
          length pub = 32 \<and>
          list_ex (\<lambda>(_, block). list_ex (\<lambda>(keyID, sigB64).
              has_prefix keyID ''ed25519:'' \<and>
              VerifyJSONWith ed_verify sigB64 [] keyID pub rawSigned = Inr ()) block) sigs)"

definition verifyThirdPartyInvite ::
  "(string \<Rightarrow> string \<Rightarrow> string \<Rightarrow> bool) \<Rightarrow> raw \<Rightarrow> raw \<Rightarrow> bool" where
  "verifyThirdPartyInvite ed_verify memberThirdParty inviteContent =
     (case (memberThirdParty, inviteContent) of
        (Some tp, Some ic) \<Rightarrow>
          (let (ok, rawSigned) = dec_struct [(''signed'', dec_raw)] tp None
           in if \<not> ok then False
              else case rawSigned of
                None \<Rightarrow> False
              | Some sj \<Rightarrow>
                  (let (ok1, signed) = dec_struct signed_block_fields sj
                         \<lparr>sb_token = [], sb_mxid = [], sb_signatures = []\<rparr>
                   in if \<not> ok1 \<or> sb_token signed = [] \<or> sb_signatures signed = [] then False
                      else
                        (let (ok2, inv) = dec_struct third_party_fields ic
                               \<lparr>tp_public_key = [], tp_public_keys = []\<rparr>
                         in if \<not> ok2 then False
                            else list_ex (signature_matches ed_verify sj (sb_signatures signed))
                                   (filter (\<lambda>k. k \<noteq> []) (tp_public_key inv # tp_public_keys inv)))))
      | _ \<Rightarrow> False)"

subsection \<open>The membership state machine\<close>

text \<open>\<open>case MembershipJoin\<close> of \<open>authorizeMember\<close>, with its switch over the target's membership.\<close>

definition authorize_join ::
  "(string \<Rightarrow> string \<Rightarrow> string \<Rightarrow> bool) \<Rightarrow> string \<Rightarrow> string \<Rightarrow> MemberContent \<Rightarrow> StateSnapshot
     \<Rightarrow> CreateContent \<Rightarrow> string \<Rightarrow> auth_error + unit" where
  "authorize_join ed_verify sender stateKey mc st create targetMembership =
     (if ss_only_prev_is_create st \<and> sender = stateKey
         \<and> stateKey = CreatorOf create (ss_create_sender st) then Inr ()
      else if targetMembership = MembershipInvite then
        (if sender \<noteq> stateKey then Inl OnlyInviteeMayJoin
         else if ss_sender_is_guest st \<and> \<not> guestAccessCanJoin (ss_guest_access st)
           then Inl GuestAccessNotAllowed
         else Inr ())
      else if targetMembership = MembershipJoin then
        (if sender \<noteq> stateKey then Inl CannotRejoinForOther else Inr ())
      else if targetMembership = [] \<or> targetMembership = MembershipLeave then
        (if mc_third_party mc \<noteq> None then
           (if targetMembership = MembershipBan then Inl BannedCannotJoin
            else if sender \<noteq> stateKey then Inl CannotJoinForOther
            else if verifyThirdPartyInvite ed_verify (mc_third_party mc) (ss_third_party_invite st)
              then Inr ()
            else Inl ThirdPartyInviteInvalid)
         else
           let joinRule = JoinRule (ss_join_rules st)
           in if sender \<noteq> stateKey then Inl CannotJoinForOther
              else if joinRule = JoinRulePublic then Inr ()
              else if joinRule = JoinRuleRestricted \<or> joinRule = JoinRuleKnockRestricted then
                (if ss_restricted_authorised st then Inr () else Inl NotAuthorisedViaAllowedRoom)
              else if ss_sender_is_guest st \<and> guestAccessCanJoin (ss_guest_access st) then Inr ()
              else Inl NotPubliclyJoinable)
      else if targetMembership = MembershipBan then Inl BannedCannotJoin
      else Inr ())"

definition authorize_invite ::
  "(string \<Rightarrow> string \<Rightarrow> string \<Rightarrow> bool) \<Rightarrow> MemberContent \<Rightarrow> StateSnapshot \<Rightarrow> PowerLevels
     \<Rightarrow> int \<Rightarrow> string \<Rightarrow> string \<Rightarrow> auth_error + unit" where
  "authorize_invite ed_verify mc st pl senderLevel senderMembership targetMembership =
     (if mc_third_party mc \<noteq> None then
        (if verifyThirdPartyInvite ed_verify (mc_third_party mc) (ss_third_party_invite st) then
           (if targetMembership = MembershipBan then Inl CannotInviteBanned else Inr ())
         else Inl ThirdPartyInviteInvalid)
      else if senderMembership \<noteq> MembershipJoin then Inl (SenderNotJoined ''invite'')
      else if targetMembership = MembershipBan then Inl UserIsBanned
      else if senderLevel < pl_invite pl then Inl (InsufficientPower ''invite'')
      else if targetMembership = MembershipJoin then Inl AlreadyJoined
      else Inr ())"

definition authorize_leave ::
  "string \<Rightarrow> string \<Rightarrow> PowerLevels \<Rightarrow> (string \<Rightarrow> int) \<Rightarrow> string \<Rightarrow> string \<Rightarrow> auth_error + unit" where
  "authorize_leave sender stateKey pl userLevel senderMembership targetMembership =
     (let senderLevel = userLevel sender
      in if sender = stateKey then Inr ()
         else if senderMembership \<noteq> MembershipJoin then Inl (SenderNotJoined ''leave'')
         else if senderLevel < pl_kick pl then Inl (InsufficientPower ''kick'')
         else if userLevel stateKey \<ge> senderLevel then Inl CannotKickEqualOrHigher
         else if targetMembership = MembershipBan \<and> senderLevel < pl_ban pl
           then Inl CannotUnbanWithoutBanPower
         else Inr ())"

definition authorize_ban ::
  "string \<Rightarrow> string \<Rightarrow> PowerLevels \<Rightarrow> (string \<Rightarrow> int) \<Rightarrow> string \<Rightarrow> auth_error + unit" where
  "authorize_ban sender stateKey pl userLevel senderMembership =
     (let senderLevel = userLevel sender
      in if senderMembership \<noteq> MembershipJoin then Inl (SenderNotJoined ''ban'')
         else if senderLevel < pl_ban pl then Inl (InsufficientPower ''ban'')
         else if userLevel stateKey \<ge> senderLevel then Inl CannotBanEqualOrHigher
         else Inr ())"

definition authorize_knock ::
  "Rules \<Rightarrow> string \<Rightarrow> string \<Rightarrow> StateSnapshot \<Rightarrow> string \<Rightarrow> auth_error + unit" where
  "authorize_knock rules sender stateKey st targetMembership =
     (if \<not> KnockingAllowed rules then Inl KnockingNotSupported
      else
        let joinRule = JoinRule (ss_join_rules st)
        in if joinRule \<noteq> JoinRuleKnock \<and> joinRule \<noteq> JoinRuleKnockRestricted
             then Inl KnockingNotAllowedByRule
           else if sender \<noteq> stateKey then Inl OnlySelfMayKnock
           else if targetMembership = MembershipJoin \<or> targetMembership = MembershipInvite
             then Inl KnockAlreadyMember
           else if targetMembership = MembershipBan then Inl BannedCannotKnock
           else Inr ())"

definition target_membership :: "string \<Rightarrow> string \<Rightarrow> StateSnapshot \<Rightarrow> string" where
  "target_membership sender stateKey st =
     (let r = (if sender = stateKey \<and> ss_sender_member st \<noteq> None then ss_sender_member st
               else ss_target_member st)
      in case membership_in r of Some m \<Rightarrow> m | None \<Rightarrow> [])"

definition authorizeMember ::
  "(string \<Rightarrow> string \<Rightarrow> string \<Rightarrow> bool) \<Rightarrow> Rules \<Rightarrow> string \<Rightarrow> string \<Rightarrow> raw \<Rightarrow> StateSnapshot
     \<Rightarrow> CreateContent \<Rightarrow> PowerLevels \<Rightarrow> (string \<Rightarrow> int) \<Rightarrow> string \<Rightarrow> auth_error + unit" where
  "authorizeMember ed_verify rules sender stateKey content st create pl userLevel senderMembership =
     (case ParseMember content of
        Inl e \<Rightarrow> Inl (ContentError e)
      | Inr mc \<Rightarrow>
          let tdom = DomainOf stateKey;
              cdom = DomainOf (CreatorOf create (ss_create_sender st));
              targetMembership = target_membership sender stateKey st;
              m = mc_membership mc
          in if stateKey = [] then Inl MemberNeedsStateKey
             else if (m = MembershipJoin \<or> m = MembershipInvite) \<and> cc_federate create = Some False
                     \<and> tdom \<noteq> [] \<and> cdom \<noteq> [] \<and> tdom \<noteq> cdom then Inl Unfederatable
             else if m = MembershipJoin then
               authorize_join ed_verify sender stateKey mc st create targetMembership
             else if m = MembershipInvite then
               authorize_invite ed_verify mc st pl (userLevel sender) senderMembership targetMembership
             else if m = MembershipLeave then
               authorize_leave sender stateKey pl userLevel senderMembership targetMembership
             else if m = MembershipBan then
               authorize_ban sender stateKey pl userLevel senderMembership
             else if m = MembershipKnock then
               authorize_knock rules sender stateKey st targetMembership
             else Inl (UnknownMembership m))"

subsection \<open>Authorize\<close>

definition authorize_create :: "string \<Rightarrow> raw \<Rightarrow> StateSnapshot \<Rightarrow> auth_error + unit" where
  "authorize_create sender content st =
     (if ss_create st \<noteq> None then Inl RoomAlreadyCreated
      else
        (let (ok, c) = unmarshal (dec_struct create_fields) zero_create content
         in if \<not> ok then Inl BadCreateContent
            else if cc_creator c \<noteq> [] \<and> cc_creator c \<noteq> sender then Inl CreateSenderNotCreator
            else Inr ()))"

text \<open>The power levels in force: the event's, or the defaults with the creator at 100.\<close>

definition effective_power_levels :: "CreateContent \<Rightarrow> StateSnapshot \<Rightarrow> content_error + PowerLevels" where
  "effective_power_levels create st =
     (if ss_power_level st \<noteq> None then ParsePowerLevels (ss_power_level st)
      else Inr (default_pl\<lparr>pl_users := gm_put (CreatorOf create (ss_create_sender st)) 100 []\<rparr>))"

text \<open>The closure \<open>userLevel\<close>: creators of privileged rooms have \<open>1 << 62\<close>.\<close>

definition user_level :: "Rules \<Rightarrow> CreateContent \<Rightarrow> StateSnapshot \<Rightarrow> PowerLevels \<Rightarrow> string \<Rightarrow> int" where
  "user_level rules create st pl userID =
     (if CreatorPrivileged rules \<and> IsPrivileged create userID (ss_create_sender st)
      then 2 ^ 62 else UserLevel pl userID)"

definition generic_state_types :: "string list" where
  "generic_state_types =
     [''m.room.join_rules'', ''m.room.history_visibility'', ''m.room.name'', ''m.room.topic'',
      ''m.room.avatar'', ''m.room.canonical_alias'', ''m.room.aliases'', ''m.room.encryption'',
      ''m.room.tombstone'', ''m.room.server_acl'', ''m.room.guest_access'']"

text \<open>The \<open>switch eventType\<close> at the end of \<open>Authorize\<close>.\<close>

definition authorize_by_type ::
  "(string \<Rightarrow> string \<Rightarrow> string \<Rightarrow> bool) \<Rightarrow> Rules \<Rightarrow> string \<Rightarrow> string \<Rightarrow> string \<Rightarrow> raw
     \<Rightarrow> StateSnapshot \<Rightarrow> bool \<Rightarrow> CreateContent \<Rightarrow> PowerLevels \<Rightarrow> auth_error + unit" where
  "authorize_by_type ed_verify rules eventType stateKey sender content st isState create pl =
     (let userLevel = user_level rules create st pl;
          senderMembership = (case membership_in (ss_sender_member st) of Some m \<Rightarrow> m | None \<Rightarrow> [])
      in if eventType = ''m.room.member'' then
           authorizeMember ed_verify rules sender stateKey content st create pl userLevel senderMembership
         else if eventType = ''m.room.power_levels'' then
           (if senderMembership \<noteq> MembershipJoin then Inl (SenderNotJoined eventType)
            else if userLevel sender < EventLevel pl ''m.room.power_levels'' True
              then Inl (InsufficientPower eventType)
            else checkPowerLevelsProposal rules sender content (userLevel sender) pl)
         else if eventType \<in> set generic_state_types then
           (if senderMembership \<noteq> MembershipJoin then Inl (SenderNotJoined eventType)
            else if userLevel sender < EventLevel pl eventType True then Inl (InsufficientPower eventType)
            else checkOwnedState rules stateKey sender userLevel)
         else
           (if senderMembership \<noteq> MembershipJoin then Inl (SenderNotJoined eventType)
            else if userLevel sender < EventLevel pl eventType isState then Inl (InsufficientPower eventType)
            else if isState then checkOwnedState rules stateKey sender userLevel
            else Inr ()))"

definition Authorize ::
  "(string \<Rightarrow> string \<Rightarrow> string \<Rightarrow> bool) \<Rightarrow> Rules \<Rightarrow> string \<Rightarrow> string \<Rightarrow> string \<Rightarrow> raw
     \<Rightarrow> StateSnapshot \<Rightarrow> bool \<Rightarrow> auth_error + unit" where
  "Authorize ed_verify rules eventType stateKey sender content st isState =
     (if content = None then Inl EmptyEventContent
      else if eventType = ''m.room.create'' then authorize_create sender content st
      else if ss_create st = None then
        (if eventType = ''m.room.member'' \<and> stateKey = sender
            \<and> (currentMembership st = MembershipInvite \<or> currentMembership st = MembershipKnock)
         then Inr () else Inl NoCreateInState)
      else case ParseCreate (ss_create st) of
             Inl e \<Rightarrow> Inl (ContentError e)
           | Inr create \<Rightarrow>
               if sender = [] then Inl EmptySender
               else case effective_power_levels create st of
                      Inl e \<Rightarrow> Inl (ContentError e)
                    | Inr pl \<Rightarrow> authorize_by_type ed_verify rules eventType stateKey sender content
                                 st isState create pl)"

end
