(* ===== verification/Auth_Laws.thy ===== *)
theory Auth_Laws
  imports Auth
begin

section \<open>What the authorization rules guarantee\<close>

text \<open>
  The theorems about \<open>Auth\<close>. The loops over power-level maps are shown equal to declarative
  predicates on the maps; from them follow the bounds on what a power-level event can change.
  The membership rules are characterised transition by transition, and the properties of
  \<open>Authorize\<close> as a whole say what an accepted event implies about its sender.
\<close>

subsection \<open>The loops as predicates\<close>

lemma check_scalars_iff:
  "check_scalars lvl ps = Inr () \<longleftrightarrow>
     (\<forall>(name, v, cur) \<in> set ps. \<forall>x. v = Some x \<longrightarrow> x \<noteq> cur \<longrightarrow> x \<le> lvl \<and> cur \<le> lvl)"
  by (induction lvl ps rule: check_scalars.induct) (auto split: option.splits if_splits)

definition entries_within :: "int \<Rightarrow> int gomap \<Rightarrow> int gomap \<Rightarrow> bool" where
  "entries_within lvl proposed currentMap \<longleftrightarrow>
     (\<forall>k. gm_get proposed k \<noteq> gm_get currentMap k \<longrightarrow>
        (\<forall>x. gm_get proposed k = Some x \<longrightarrow> x \<le> lvl) \<and>
        (\<forall>x. gm_get currentMap k = Some x \<longrightarrow> x \<le> lvl))"

lemma check_map_changes_iff:
  "check_map_changes name lvl cur ps = Inr () \<longleftrightarrow>
     (\<forall>(k, nv) \<in> set ps. gm_get cur k \<noteq> Some nv \<longrightarrow>
        nv \<le> lvl \<and> (\<forall>x. gm_get cur k = Some x \<longrightarrow> x \<le> lvl))"
  by (induction name lvl cur ps rule: check_map_changes.induct)
     (auto simp: Let_def split: option.splits if_splits)

lemma check_map_removals_iff:
  "check_map_removals name lvl proposed cs = Inr () \<longleftrightarrow>
     (\<forall>(k, cv) \<in> set cs. gm_get proposed k = None \<longrightarrow> cv \<le> lvl)"
  by (induction name lvl proposed cs rule: check_map_removals.induct) auto

lemma gm_entries: "gm_ok m \<Longrightarrow> (\<forall>e \<in> set m. P e) \<longleftrightarrow> (\<forall>k v. gm_get m k = Some v \<longrightarrow> P (k, v))"
  using gm_ok_distinct [of m] by (auto simp: map_of_eq_Some_iff)

lemma checkMap_iff:
  assumes "gm_ok proposed" and "gm_ok cur"
  shows "checkMap name lvl proposed cur = Inr () \<longleftrightarrow> entries_within lvl proposed cur"
proof -
  have key: "(\<forall>v. p = Some v \<longrightarrow> c \<noteq> Some v \<longrightarrow> v \<le> lvl \<and> (\<forall>x. c = Some x \<longrightarrow> x \<le> lvl)) \<and>
       (\<forall>v. c = Some v \<longrightarrow> p = None \<longrightarrow> v \<le> lvl) \<longleftrightarrow>
       (p \<noteq> c \<longrightarrow> (\<forall>x. p = Some x \<longrightarrow> x \<le> lvl) \<and> (\<forall>x. c = Some x \<longrightarrow> x \<le> lvl))"
    for p c :: "int option"
    by (cases p; cases c) auto
  show ?thesis
    unfolding checkMap_def bind_result_Inr_iff check_map_changes_iff check_map_removals_iff
      entries_within_def gm_entries [OF assms(1)] gm_entries [OF assms(2)]
    by (simp add: key [symmetric] all_conj_distrib check_map_changes_iff gm_entries [OF assms(1)])
qed

definition users_within :: "string \<Rightarrow> int \<Rightarrow> int gomap \<Rightarrow> int gomap \<Rightarrow> bool" where
  "users_within sender lvl proposed currentUsers \<longleftrightarrow>
     (\<forall>u. u \<noteq> sender \<longrightarrow> gm_get proposed u \<noteq> gm_get currentUsers u \<longrightarrow>
        (\<forall>x. gm_get proposed u = Some x \<longrightarrow> x \<le> lvl) \<and>
        (\<forall>x. gm_get currentUsers u = Some x \<longrightarrow> x < lvl))"

lemma check_user_changes_iff:
  "check_user_changes sender lvl cur ps = Inr () \<longleftrightarrow>
     (\<forall>(u, nv) \<in> set ps. u \<noteq> sender \<longrightarrow> gm_get cur u \<noteq> Some nv \<longrightarrow>
        nv \<le> lvl \<and> (\<forall>x. gm_get cur u = Some x \<longrightarrow> x < lvl))"
  by (induction sender lvl cur ps rule: check_user_changes.induct)
     (auto simp: Let_def split: option.splits if_splits)

lemma check_user_removals_iff:
  "check_user_removals sender lvl proposed cs = Inr () \<longleftrightarrow>
     (\<forall>(u, cv) \<in> set cs. u \<noteq> sender \<longrightarrow> gm_get proposed u = None \<longrightarrow> cv < lvl)"
  by (induction sender lvl proposed cs rule: check_user_removals.induct) auto

lemma user_checks_iff:
  assumes "gm_ok proposed" and "gm_ok cur"
  shows "check_user_changes sender lvl cur proposed = Inr () \<and>
         check_user_removals sender lvl proposed cur = Inr () \<longleftrightarrow>
         users_within sender lvl proposed cur"
proof -
  have key: "(\<forall>v. p = Some v \<longrightarrow> b \<longrightarrow> c \<noteq> Some v \<longrightarrow> v \<le> lvl \<and> (\<forall>x. c = Some x \<longrightarrow> x < lvl)) \<and>
       (\<forall>v. c = Some v \<longrightarrow> b \<longrightarrow> p = None \<longrightarrow> v < lvl) \<longleftrightarrow>
       (b \<longrightarrow> p \<noteq> c \<longrightarrow> (\<forall>x. p = Some x \<longrightarrow> x \<le> lvl) \<and> (\<forall>x. c = Some x \<longrightarrow> x < lvl))"
    for p c :: "int option" and b :: bool
    by (cases p; cases c) auto
  show ?thesis
    unfolding check_user_changes_iff check_user_removals_iff
      users_within_def gm_entries [OF assms(1)] gm_entries [OF assms(2)]
    by (simp add: key [symmetric] all_conj_distrib)
qed

definition proposal_maps_ok :: "PowerProposal \<Rightarrow> bool" where
  "proposal_maps_ok c \<longleftrightarrow> gm_ok (pp_users c) \<and> gm_ok (pp_events c) \<and> gm_ok (pp_notifications c)"

lemma decoded_proposal_maps_ok:
  "proposal_maps_ok (snd (dec_struct proposal_fields j zero_proposal))"
proof (rule dec_struct_invariant)
  show "fields_keep proposal_maps_ok proposal_fields"
    by (auto simp: fields_keep_def proposal_fields_def proposal_maps_ok_def snd_fld dec_map_ok)
qed (simp add: proposal_maps_ok_def zero_proposal_def)

text \<open>What the proposal check decides, stated over the maps.\<close>

definition proposal_allowed :: "Rules \<Rightarrow> string \<Rightarrow> int \<Rightarrow> PowerProposal \<Rightarrow> PowerLevels \<Rightarrow> bool" where
  "proposal_allowed rules sender lvl c current \<longleftrightarrow>
     (\<forall>(name, v, cur) \<in> set (scalar_permissions c current).
        \<forall>x. v = Some x \<longrightarrow> x \<noteq> cur \<longrightarrow> x \<le> lvl \<and> cur \<le> lvl)
   \<and> entries_within lvl (pp_events c) (pl_events current)
   \<and> (NotificationsPowerLevel rules \<longrightarrow>
        entries_within lvl (pp_notifications c) (pl_notifications current))
   \<and> users_within sender lvl (pp_users c) (pl_users current)"

lemma checkPowerLevelsProposal_iff_allowed:
  assumes "pl_maps_ok current"
    and dec: "dec_struct proposal_fields j zero_proposal = (ok, c)"
  shows "checkPowerLevelsProposal rules sender (Some j) lvl current = Inr () \<longleftrightarrow>
         ok \<and> proposal_allowed rules sender lvl c current"
proof -
  have c: "gm_ok (pp_users c)" "gm_ok (pp_events c)" "gm_ok (pp_notifications c)"
    using decoded_proposal_maps_ok [of j] by (simp_all add: dec proposal_maps_ok_def)
  have p: "gm_ok (pl_users current)" "gm_ok (pl_events current)" "gm_ok (pl_notifications current)"
    using assms(1) by (simp_all add: pl_maps_ok_def)
  show ?thesis
    by (simp add: checkPowerLevelsProposal_def unmarshal_def dec bind_result_Inr_iff
      check_scalars_iff checkMap_iff c p proposal_allowed_def user_checks_iff [OF c(1) p(1), symmetric])
qed

subsection \<open>What an accepted event implies\<close>

lemma Authorize_accepted_cases:
  assumes "Authorize edv rules ty sk sender content st isState = Inr ()"
    and "ty \<noteq> ''m.room.create''"
  shows "(ss_create st = None \<and> ty = ''m.room.member'' \<and> sk = sender
            \<and> currentMembership st \<in> {MembershipInvite, MembershipKnock})
       \<or> (\<exists>create pl. ParseCreate (ss_create st) = Inr create \<and> sender \<noteq> []
            \<and> effective_power_levels create st = Inr pl
            \<and> authorize_by_type edv rules ty sk sender content st isState create pl = Inr ())"
  using assms by (auto simp: Authorize_def split: if_splits sum.splits)

lemma Authorize_eq_by_type:
  assumes "ParseCreate (ss_create st) = Inr create" and "ty \<noteq> ''m.room.create''"
    and "effective_power_levels create st = Inr pl" and "sender \<noteq> []"
  shows "Authorize edv rules ty sk sender (Some j) st isState =
           authorize_by_type edv rules ty sk sender (Some j) st isState create pl"
proof -
  have "ss_create st \<noteq> None" using assms(1) by (cases "ss_create st") (simp_all add: ParseCreate_def)
  then show ?thesis using assms by (auto simp: Authorize_def)
qed

lemma effective_power_levels_maps_ok:
  "effective_power_levels create st = Inr pl \<Longrightarrow> pl_maps_ok pl"
proof -
  have "pl_maps_ok (default_pl\<lparr>pl_users := [(u, 100)]\<rparr>)" for u
    by (simp add: pl_maps_ok_def default_pl_def zero_pl_def gm_ok_def)
  moreover assume "effective_power_levels create st = Inr pl"
  ultimately show ?thesis
    by (auto simp: effective_power_levels_def dest: ParsePowerLevels_maps_ok split: if_splits)
qed

lemma sender_member_joined:
  "(case membership_in r of None \<Rightarrow> [] | Some m \<Rightarrow> m) = MembershipJoin \<longleftrightarrow>
     membership_in r = Some MembershipJoin"
  by (simp add: MembershipJoin_def split: option.splits)

lemma power_levels_event_accepted:
  assumes "Authorize edv rules ''m.room.power_levels'' sk sender (Some j) st isState = Inr ()"
    and "ParseCreate (ss_create st) = Inr create" and "effective_power_levels create st = Inr pl"
  shows "checkPowerLevelsProposal rules sender (Some j) (user_level rules create st pl sender) pl = Inr ()"
  using Authorize_accepted_cases [OF assms(1)] assms(2,3)
  by (auto simp: authorize_by_type_def Let_def split: if_splits)

subsection \<open>The proposal as the power levels in force\<close>

text \<open>
  The proposal check decodes the content into pointers, the rest of the code into integers.
  Two decodings of one object agree on every field whose decoders agree.
\<close>

definition fields_agree :: "('r \<Rightarrow> 's \<Rightarrow> bool) \<Rightarrow> 'r fields \<Rightarrow> 's fields \<Rightarrow> bool" where
  "fields_agree P fs gs \<longleftrightarrow>
     list_all2 (\<lambda>(n, d) (m, e). n = m \<and>
       (\<forall>j r s. P r s \<longrightarrow> fst (d j r) \<longrightarrow> fst (e j s) \<longrightarrow> P (snd (d j r)) (snd (e j s)))) fs gs"

lemma find_field_agree:
  assumes "fields_agree P fs gs"
  shows "case find_field fs k of
           None \<Rightarrow> find_field gs k = None
         | Some d \<Rightarrow> (\<exists>e. find_field gs k = Some e \<and>
             (\<forall>j r s. P r s \<longrightarrow> fst (d j r) \<longrightarrow> fst (e j s) \<longrightarrow> P (snd (d j r)) (snd (e j s))))"
  using assms unfolding fields_agree_def
  by (induction fs gs rule: list_all2_induct) (auto split: option.splits if_splits)

lemma dec_fields_agree:
  "fields_agree P fs gs \<Longrightarrow> P r s \<Longrightarrow> fst (dec_fields fs kvs r) \<Longrightarrow> fst (dec_fields gs kvs s) \<Longrightarrow>
   P (snd (dec_fields fs kvs r)) (snd (dec_fields gs kvs s))"
proof (induction kvs arbitrary: r s)
  case (Cons kv kvs)
  obtain k j where kv: "kv = (k, j)" by (cases kv)
  show ?case
  proof (cases "find_field fs k")
    case None
    then have "find_field gs k = None"
      using find_field_agree [OF Cons.prems(1), of k] by simp
    then show ?thesis
      using None Cons by (simp add: kv case_prod_beta)
  next
    case (Some d)
    then obtain e where e: "find_field gs k = Some e"
      "\<And>j r s. P r s \<Longrightarrow> fst (d j r) \<Longrightarrow> fst (e j s) \<Longrightarrow> P (snd (d j r)) (snd (e j s))"
      using find_field_agree [OF Cons.prems(1), of k] by auto
    have "fst (d j r)" "fst (e j s)"
      using Cons.prems(3,4) Some e(1) by (auto simp: kv case_prod_beta)
    then have "P (snd (d j r)) (snd (e j s))" using e(2) Cons.prems(2) by blast
    then show ?thesis
      using Cons.IH [OF Cons.prems(1), of "snd (d j r)" "snd (e j s)"] Cons.prems(3,4) Some e(1)
      by (simp add: kv case_prod_beta)
  qed
qed simp

lemma dec_struct_agree:
  "fields_agree P fs gs \<Longrightarrow> P r s \<Longrightarrow> fst (dec_struct fs j r) \<Longrightarrow> fst (dec_struct gs j s) \<Longrightarrow>
   P (snd (dec_struct fs j r)) (snd (dec_struct gs j s))"
  by (cases j) (auto intro: dec_fields_agree)

definition proposal_matches :: "PowerLevels \<Rightarrow> PowerProposal \<Rightarrow> bool" where
  "proposal_matches p c \<longleftrightarrow>
     pl_users p = pp_users c \<and> pl_events p = pp_events c \<and> pl_notifications p = pp_notifications c"

lemma fst_fld [simp]: "fst (fld d get upd j r) = fst (d j (get r))"
  by (simp add: fld_def case_prod_beta)

lemma proposal_fields_agree: "fields_agree proposal_matches pl_fields proposal_fields"
  by (auto simp: fields_agree_def pl_fields_def proposal_fields_def proposal_matches_def snd_fld)

lemma proposal_matches_parsed:
  assumes "ParsePowerLevels (Some j) = Inr new"
    and "dec_struct proposal_fields j zero_proposal = (True, c)"
  shows "proposal_matches new c"
proof -
  have "proposal_matches default_pl zero_proposal"
    by (simp add: proposal_matches_def default_pl_def zero_pl_def zero_proposal_def)
  then have "proposal_matches (snd (dec_struct pl_fields j default_pl))
               (snd (dec_struct proposal_fields j zero_proposal))"
    using assms
    by (intro dec_struct_agree [OF proposal_fields_agree])
       (auto simp: ParsePowerLevels_def case_prod_beta split: if_splits)
  then show ?thesis
    using assms by (auto simp: ParsePowerLevels_def case_prod_beta split: if_splits)
qed

lemma accepted_proposal_within:
  assumes "checkPowerLevelsProposal rules sender (Some j) lvl current = Inr ()"
    and "pl_maps_ok current" and "ParsePowerLevels (Some j) = Inr new"
  shows "users_within sender lvl (pl_users new) (pl_users current)"
    and "entries_within lvl (pl_events new) (pl_events current)"
proof -
  obtain ok c where dec: "dec_struct proposal_fields j zero_proposal = (ok, c)"
    by (metis prod.exhaust)
  have a: "ok" "proposal_allowed rules sender lvl c current"
    using assms(1) checkPowerLevelsProposal_iff_allowed [OF assms(2) dec] by auto
  have "proposal_matches new c"
    using proposal_matches_parsed [OF assms(3)] dec a(1) by simp
  then show "users_within sender lvl (pl_users new) (pl_users current)"
    and "entries_within lvl (pl_events new) (pl_events current)"
    using a(2) by (simp_all add: proposal_allowed_def proposal_matches_def)
qed

subsection \<open>Properties: power levels\<close>

text \<open>
  C1: The power-level check accepts a proposal exactly when every scalar permission that
  changes has its old and new value at or below the sender's level, every event (and, where
  the room version says so, notification) level that is added, changed or removed is at or
  below it before and after, and every other user's entry that is added, changed or removed is
  at or below the sender's level after and strictly below it before.
\<close>

theorem power_level_rule:
  assumes "ParsePowerLevels r = Inr current"
    and "dec_struct proposal_fields j zero_proposal = (ok, c)"
  shows "checkPowerLevelsProposal rules sender (Some j) lvl current = Inr () \<longleftrightarrow>
         ok \<and> proposal_allowed rules sender lvl c current"
  by (rule checkPowerLevelsProposal_iff_allowed [OF ParsePowerLevels_maps_ok [OF assms(1)] assms(2)])

text \<open>
  An accepted power-level event never moves another user of at least the sender's level,
  never lifts another user above the sender, and touches no event type's level that lies above
  the sender's, before or after.
\<close>

theorem accepted_power_levels_bounded:
  assumes "Authorize edv rules ''m.room.power_levels'' sk sender (Some j) st isState = Inr ()"
    and "ParseCreate (ss_create st) = Inr create" and "effective_power_levels create st = Inr pl"
    and "ParsePowerLevels (Some j) = Inr new"
    and "lvl = user_level rules create st pl sender"
  shows "(\<forall>u l. u \<noteq> sender \<longrightarrow> gm_get (pl_users new) u = Some l \<longrightarrow>
            gm_get (pl_users pl) u = Some l \<or> l \<le> lvl)
       \<and> (\<forall>u l. u \<noteq> sender \<longrightarrow> gm_get (pl_users pl) u = Some l \<longrightarrow> lvl \<le> l \<longrightarrow>
            gm_get (pl_users new) u = Some l)
       \<and> (\<forall>ty l. lvl < l \<longrightarrow> (gm_get (pl_events new) ty = Some l \<longleftrightarrow> gm_get (pl_events pl) ty = Some l))"
proof -
  note within = accepted_proposal_within [OF power_levels_event_accepted [OF assms(1-3)]
      effective_power_levels_maps_ok [OF assms(3)] assms(4), folded assms(5)]
  have "gm_get (pl_users pl) u = Some l \<or> l \<le> lvl"
    if "u \<noteq> sender" "gm_get (pl_users new) u = Some l" for u l
    using within(1) that unfolding users_within_def by metis
  moreover have "gm_get (pl_users new) u = Some l"
    if "u \<noteq> sender" "gm_get (pl_users pl) u = Some l" "lvl \<le> l" for u l
    using within(1) that unfolding users_within_def by (metis not_le)
  moreover have "gm_get (pl_events new) ty = Some l \<longleftrightarrow> gm_get (pl_events pl) ty = Some l"
    if "lvl < l" for ty l
    using within(2) that unfolding entries_within_def by (metis not_le)
  ultimately show ?thesis by blast
qed

text \<open>
  The rule leaves the sender's own entry out altogether: whatever level a sender writes for
  itself, and changing nothing else, the check accepts, however far above its own level.
\<close>

theorem own_entry_unchecked:
  assumes "pl_maps_ok current"
    and "dec_struct proposal_fields j zero_proposal = (True, c)"
    and "pp_users c = gm_put sender x (pl_users current)" and "pp_events c = pl_events current"
    and "pp_notifications c = pl_notifications current"
    and "\<forall>(name, v, cur) \<in> set (scalar_permissions c current). v = None \<or> v = Some cur"
  shows "checkPowerLevelsProposal rules sender (Some j) lvl current = Inr ()"
proof -
  have "gm_get (pp_users c) u = gm_get (pl_users current) u" if "u \<noteq> sender" for u
    using assms(1,3) that by (simp add: pl_maps_ok_def gm_get_put)
  then show ?thesis
    using assms(4,5,6) unfolding checkPowerLevelsProposal_iff_allowed [OF assms(1,2)]
    by (auto simp: proposal_allowed_def users_within_def entries_within_def)
qed

subsection \<open>Properties: senders\<close>

lemma accepted_sender:
  assumes "Authorize edv rules ty sk sender content st isState = Inr ()"
    and "ty \<noteq> ''m.room.create''" and "ty \<noteq> ''m.room.member''"
  shows "\<exists>create pl. ParseCreate (ss_create st) = Inr create
           \<and> effective_power_levels create st = Inr pl
           \<and> membership_in (ss_sender_member st) = Some MembershipJoin
           \<and> EventLevel pl ty (isState \<or> ty = ''m.room.power_levels'' \<or> ty \<in> set generic_state_types)
               \<le> user_level rules create st pl sender"
proof -
  from Authorize_accepted_cases [OF assms(1,2)] assms(3)
  obtain create pl where *: "ParseCreate (ss_create st) = Inr create"
      "effective_power_levels create st = Inr pl"
    and acc: "authorize_by_type edv rules ty sk sender content st isState create pl = Inr ()"
    by auto
  from acc assms(3) have
    "membership_in (ss_sender_member st) = Some MembershipJoin
     \<and> EventLevel pl ty (isState \<or> ty = ''m.room.power_levels'' \<or> ty \<in> set generic_state_types)
         \<le> user_level rules create st pl sender"
    by (auto simp: authorize_by_type_def Let_def sender_member_joined not_less split: if_splits)
  then show ?thesis using * by blast
qed

text \<open>
  An event other than a create or member event is accepted only when the room has a create
  event, its sender is joined, and the sender's level reaches the level the power levels in
  force ask of the event's type, as a state event where the type is a known state type.
\<close>

theorem accepted_event_sender:
  assumes "Authorize edv rules ty sk sender content st isState = Inr ()"
    and "ty \<noteq> ''m.room.create''" and "ty \<noteq> ''m.room.member''"
  shows "\<exists>create pl. ParseCreate (ss_create st) = Inr create
           \<and> effective_power_levels create st = Inr pl
           \<and> membership_in (ss_sender_member st) = Some MembershipJoin
           \<and> EventLevel pl ty (isState \<or> ty = ''m.room.power_levels'' \<or> ty \<in> set generic_state_types)
               \<le> user_level rules create st pl sender"
  by (rule accepted_sender [OF assms])

text \<open>
  A state event whose key looks like a user ID is accepted only from that user, or, where the
  room version lets users own suffixed keys, from the owner named in the key or a sender whose
  level is strictly above that owner's. Nobody else writes another user's state.
\<close>

theorem owned_state_writer:
  assumes "Authorize edv rules ty sk sender content st True = Inr ()"
    and "has_prefix sk ''@''" and "sk \<noteq> sender"
    and "ty \<noteq> ''m.room.create''" and "ty \<noteq> ''m.room.member''" and "ty \<noteq> ''m.room.power_levels''"
  shows "OwnedState rules \<and> (\<exists>create pl owner. ParseCreate (ss_create st) = Inr create
           \<and> effective_power_levels create st = Inr pl \<and> IsLooseUserID owner \<and> has_prefix sk owner
           \<and> (owner = sender \<or>
              user_level rules create st pl owner < user_level rules create st pl sender))"
proof -
  from Authorize_accepted_cases [OF assms(1,4)] assms(5)
  obtain create pl where *: "ParseCreate (ss_create st) = Inr create"
      "effective_power_levels create st = Inr pl"
    and acc: "authorize_by_type edv rules ty sk sender content st True create pl = Inr ()"
    by auto
  let ?lv = "user_level rules create st pl"
  have own: "checkOwnedState rules sk sender ?lv = Inr ()"
    using acc assms(5,6) by (auto simp: authorize_by_type_def Let_def split: if_splits)
  have pre: "has_prefix sk (take n sk)" for n
    by (metis append_take_drop_id has_prefix_append)
  from own assms(2,3) have "OwnedState rules"
    by (simp add: checkOwnedState_def split: if_splits)
  moreover from own assms(2,3) obtain owner where
    "IsLooseUserID owner" "has_prefix sk owner" "owner = sender \<or> ?lv owner < ?lv sender"
    using pre pre [of "length sk"]
    by (auto simp: checkOwnedState_def Let_def split: if_splits option.splits)
  ultimately show ?thesis using * by blast
qed

subsection \<open>Properties: membership\<close>

lemma accepted_member_event:
  assumes "Authorize edv rules ''m.room.member'' sk sender content st isState = Inr ()"
    and "ParseCreate (ss_create st) = Inr create" and "effective_power_levels create st = Inr pl"
  shows "authorizeMember edv rules sender sk content st create pl (user_level rules create st pl)
           (case membership_in (ss_sender_member st) of Some m \<Rightarrow> m | None \<Rightarrow> []) = Inr ()"
proof -
  have "ss_create st \<noteq> None"
    using assms(2) by (cases "ss_create st") (simp_all add: ParseCreate_def)
  then show ?thesis
    using Authorize_accepted_cases [OF assms(1)] assms(2,3) by (auto simp: authorize_by_type_def)
qed

lemma membership_distinct:
  "MembershipLeave \<noteq> MembershipBan" "MembershipJoin \<noteq> MembershipBan" "MembershipInvite \<noteq> MembershipBan"
  "MembershipKnock \<noteq> MembershipBan" "MembershipLeave \<noteq> MembershipJoin" "MembershipInvite \<noteq> MembershipJoin"
  "MembershipKnock \<noteq> MembershipJoin" "MembershipInvite \<noteq> MembershipLeave" "MembershipKnock \<noteq> MembershipLeave"
  "MembershipKnock \<noteq> MembershipInvite" "MembershipBan \<noteq> []" "MembershipJoin \<noteq> []"
  "MembershipLeave \<noteq> []" "MembershipInvite \<noteq> []" "MembershipKnock \<noteq> []"
  by (simp_all add: membership_defs)

lemma authorizeMember_removal:
  assumes "authorizeMember edv rules sender sk content st create pl ul sm = Inr ()"
    and "ParseMember content = Inr mc"
    and "mc_membership mc = MembershipBan \<or> mc_membership mc = MembershipLeave \<and> sk \<noteq> sender"
  shows "sm = MembershipJoin \<and> ul sk < ul sender
    \<and> (mc_membership mc = MembershipBan \<or> target_membership sender sk st = MembershipBan
         \<longrightarrow> pl_ban pl \<le> ul sender)
    \<and> (mc_membership mc = MembershipLeave \<longrightarrow> pl_kick pl \<le> ul sender)"
  using assms
  by (auto simp: authorizeMember_def authorize_ban_def authorize_leave_def Let_def
        membership_distinct membership_distinct [symmetric] not_less not_le split: if_splits)

text \<open>
  C2: A kick, ban or unban is accepted only from a joined sender strictly above its target, with
  the kick level for a kick and the ban level for a ban and for lifting one.
\<close>

theorem accepted_removal:
  assumes "Authorize edv rules ''m.room.member'' sk sender content st isState = Inr ()"
    and "ParseCreate (ss_create st) = Inr create" and "effective_power_levels create st = Inr pl"
    and "ParseMember content = Inr mc"
    and "mc_membership mc = MembershipBan \<or> mc_membership mc = MembershipLeave \<and> sk \<noteq> sender"
  shows "membership_in (ss_sender_member st) = Some MembershipJoin
    \<and> user_level rules create st pl sk < user_level rules create st pl sender
    \<and> (mc_membership mc = MembershipBan \<or> target_membership sender sk st = MembershipBan
         \<longrightarrow> pl_ban pl \<le> user_level rules create st pl sender)
    \<and> (mc_membership mc = MembershipLeave \<longrightarrow> pl_kick pl \<le> user_level rules create st pl sender)"
  using authorizeMember_removal [OF accepted_member_event [OF assms(1-3)] assms(4,5)]
  by (simp add: sender_member_joined)

text \<open>
  In a room version with privileged creators nobody, another creator included, can kick or ban
  a creator, as long as no user's level passes \<open>2 ^ 62\<close> (an event's integers stay below \<open>2 ^ 53\<close>).
\<close>

theorem creators_cannot_be_removed:
  assumes "CreatorPrivileged rules" and "ParseCreate (ss_create st) = Inr create"
    and "IsPrivileged create sk (ss_create_sender st)"
    and "effective_power_levels create st = Inr pl" and "UserLevel pl sender \<le> 2 ^ 62"
    and "ParseMember content = Inr mc"
    and "mc_membership mc = MembershipBan \<or> mc_membership mc = MembershipLeave \<and> sk \<noteq> sender"
  shows "Authorize edv rules ''m.room.member'' sk sender content st isState \<noteq> Inr ()"
proof
  assume "Authorize edv rules ''m.room.member'' sk sender content st isState = Inr ()"
  from authorizeMember_removal [OF accepted_member_event [OF this assms(2,4)] assms(6,7)]
  have "user_level rules create st pl sk < user_level rules create st pl sender" by simp
  then show False
    using assms(1,3,5) by (simp add: user_level_def split: if_splits)
qed

lemma authorizeMember_from_ban:
  assumes "authorizeMember edv rules sender sk content st create pl ul sm = Inr ()"
    and "ParseMember content = Inr mc"
    and "target_membership sender sk st = MembershipBan" and "\<not> ss_only_prev_is_create st"
  shows "mc_membership mc = MembershipLeave \<or> mc_membership mc = MembershipBan"
  using assms
  by (auto simp: authorizeMember_def authorize_join_def authorize_invite_def authorize_knock_def Let_def
        membership_distinct membership_distinct [symmetric] split: if_splits)

text \<open>
  A run of accepted member events on one user: every step is authorized against a state in which
  the user's membership is the one the step before left.
\<close>

inductive member_run :: "Rules \<Rightarrow> string \<Rightarrow> string \<Rightarrow> string list \<Rightarrow> string \<Rightarrow> bool" for rules sk where
  run_done: "member_run rules sk m [] m"
| run_step:
    "authorizeMember edv rules sender sk content st create pl ul sm = Inr () \<Longrightarrow>
     target_membership sender sk st = m \<Longrightarrow> \<not> ss_only_prev_is_create st \<Longrightarrow>
     ParseMember content = Inr mc \<Longrightarrow> member_run rules sk (mc_membership mc) ms m' \<Longrightarrow>
     member_run rules sk m (mc_membership mc # ms) m'"

inductive_cases member_run_ConsE: "member_run rules sk m (x # ms) m'"

lemma member_run_from_ban:
  "member_run rules sk m ms m' \<Longrightarrow> m = MembershipBan \<Longrightarrow>
   set (takeWhile (\<lambda>x. x \<noteq> MembershipLeave) ms) \<subseteq> {MembershipBan}"
proof (induction rule: member_run.induct)
  case (run_step edv sender content st create pl ul sm m mc ms m')
  then have "mc_membership mc = MembershipLeave \<or> mc_membership mc = MembershipBan"
    using authorizeMember_from_ban by blast
  then show ?case using run_step.IH by auto
qed simp

text \<open>
  A banned user leaves the banned state only through a leave: in every run of accepted member
  events that starts from a ban, all that comes before the first leave is further bans; so a run
  that ends in a join, invite or knock contains a leave.
\<close>

theorem ban_ends_with_leave:
  assumes "member_run rules sk MembershipBan ms m"
  shows "set (takeWhile (\<lambda>x. x \<noteq> MembershipLeave) ms) \<subseteq> {MembershipBan}
         \<and> (m \<noteq> MembershipBan \<longrightarrow> MembershipLeave \<in> set ms)"
proof
  show 1: "set (takeWhile (\<lambda>x. x \<noteq> MembershipLeave) ms) \<subseteq> {MembershipBan}"
    by (rule member_run_from_ban [OF assms refl])
  have last: "member_run rules sk a xs z \<Longrightarrow> z = last (a # xs)" for a xs z
    by (induction rule: member_run.induct) auto
  show "m \<noteq> MembershipBan \<longrightarrow> MembershipLeave \<in> set ms"
  proof (rule impI, rule ccontr)
    assume ne: "m \<noteq> MembershipBan" and nl: "MembershipLeave \<notin> set ms"
    have tw: "takeWhile (\<lambda>x. x \<noteq> MembershipLeave) ms = ms"
      using nl by (auto simp: takeWhile_eq_all_conv)
    have bans: "set ms \<subseteq> {MembershipBan}" using 1 unfolding tw .
    show False
    proof (cases "ms = []")
      case False
      then have "last ms \<in> set ms" by (rule last_in_set)
      then have "last ms = MembershipBan" using bans by blast
      then show False using last [OF assms] ne False by simp
    qed (use last [OF assms] ne in simp)
  qed
qed

text \<open>
  The joins \<open>authorizeMember\<close> accepts, by the membership the user comes from: what the
  documentation of the room's access rules promises, plus the creator's first join.
\<close>

definition join_allowed ::
  "(string \<Rightarrow> string \<Rightarrow> string \<Rightarrow> bool) \<Rightarrow> MemberContent \<Rightarrow> StateSnapshot \<Rightarrow> string \<Rightarrow> bool" where
  "join_allowed edv mc st from \<longleftrightarrow>
     (let rule = JoinRule (ss_join_rules st); guest = ss_sender_is_guest st;
          guests_ok = guestAccessCanJoin (ss_guest_access st)
      in from = MembershipInvite \<and> (guest \<longrightarrow> guests_ok)
       \<or> from = MembershipJoin
       \<or> (from = [] \<or> from = MembershipLeave) \<and>
           (if mc_third_party mc \<noteq> None
            then verifyThirdPartyInvite edv (mc_third_party mc) (ss_third_party_invite st)
            else rule = JoinRulePublic
               \<or> rule \<in> {JoinRuleRestricted, JoinRuleKnockRestricted} \<and> ss_restricted_authorised st
               \<or> rule \<notin> {JoinRuleRestricted, JoinRuleKnockRestricted} \<and> guest \<and> guests_ok))"


text \<open>
  From a knock (and from any membership string the code does not name) a join is accepted
  whatever the join rule and whoever sends it: the switch over the target's membership has no
  case for it and falls through to acceptance.
\<close>

theorem knocking_user_joins_unchecked:
  assumes "ParseMember content = Inr mc" and "mc_membership mc = MembershipJoin"
    and "sk \<noteq> []" and "cc_federate create \<noteq> Some False"
    and "target_membership sender sk st = MembershipKnock"
  shows "authorizeMember edv rules sender sk content st create pl ul sm = Inr ()"
  using assms
  by (auto simp: authorizeMember_def authorize_join_def Let_def membership_distinct
        membership_distinct [symmetric])

text \<open>
  A user may send its own leave from any membership, a ban included; in a public room the
  join that follows is accepted, so a ban there is undone by the banned user alone.
\<close>

theorem banned_user_unbans_itself:
  assumes "ParseMember leave = Inr lv" and "mc_membership lv = MembershipLeave"
    and "ParseMember join = Inr mc" and "mc_membership mc = MembershipJoin" and "mc_third_party mc = None"
    and "u \<noteq> []" and "cc_federate create \<noteq> Some False"
    and "JoinRule (ss_join_rules st) = JoinRulePublic"
  shows "authorizeMember edv rules u u leave st create pl ul sm = Inr ()
       \<and> authorizeMember edv rules u u join
            (st\<lparr>ss_sender_member := leave, ss_target_member := leave\<rparr>) create pl ul MembershipLeave = Inr ()"
proof
  show "authorizeMember edv rules u u leave st create pl ul sm = Inr ()"
    using assms
    by (simp add: authorizeMember_def authorize_leave_def Let_def membership_distinct
          membership_distinct [symmetric])
  obtain j where "leave = Some j" using assms(1) by (cases leave) (simp_all add: ParseMember_def)
  then have "target_membership u u (st\<lparr>ss_sender_member := leave, ss_target_member := leave\<rparr>) = MembershipLeave"
    using assms(1,2) by (simp add: target_membership_def membership_in_def)
  then show "authorizeMember edv rules u u join
            (st\<lparr>ss_sender_member := leave, ss_target_member := leave\<rparr>) create pl ul MembershipLeave = Inr ()"
    using assms
    by (auto simp: authorizeMember_def authorize_join_def Let_def membership_distinct
          membership_distinct [symmetric])
qed

subsection \<open>A room to apply the properties to\<close>

definition no_verify :: "string \<Rightarrow> string \<Rightarrow> string \<Rightarrow> bool" where
  "no_verify _ _ _ = False"

definition ex_member :: "string \<Rightarrow> raw" where
  "ex_member m = Some (JObj [(''membership'', JStr m)])"

definition ex_create :: raw where
  "ex_create = Some (JObj [(''room_version'', JStr ''11'')])"

definition ex_power :: raw where
  "ex_power = Some (JObj [(''users'', JObj [(''@a:x'', JNum ''100''), (''@b:x'', JNum ''50'')])])"

definition ex_proposal :: json where
  "ex_proposal = JObj [(''users'', JObj [(''@a:x'', JNum ''100''), (''@b:x'', JNum ''50''), (''@c:x'', JNum ''10'')])]"

definition ex_state :: "raw \<Rightarrow> raw \<Rightarrow> StateSnapshot" where
  "ex_state sm tm = zero_snapshot\<lparr>ss_create := ex_create, ss_power_level := ex_power,
     ss_create_sender := ''@a:x'', ss_sender_member := sm, ss_target_member := tm,
     ss_join_rules := Some (JObj [(''join_rule'', JStr ''public'')])\<rparr>"

abbreviation ex_joined :: StateSnapshot where
  "ex_joined \<equiv> ex_state (ex_member MembershipJoin) (ex_member MembershipJoin)"

abbreviation ex_pl :: PowerLevels where
  "ex_pl \<equiv> projr (ParsePowerLevels ex_power)"

abbreviation ex_cc :: CreateContent where
  "ex_cc \<equiv> projr (ParseCreate ex_create)"

lemma ex_create_parsed: "ParseCreate (ss_create (ex_state sm tm)) = Inr ex_cc"
  by (simp add: ex_state_def ex_create_def) code_simp

lemma ex_power_parsed: "ParsePowerLevels ex_power = Inr ex_pl"
  by code_simp

lemma ex_levels: "effective_power_levels c (ex_state sm tm) = Inr ex_pl"
  using ex_power_parsed by (simp add: effective_power_levels_def ex_state_def ex_power_def)

theorem power_level_rule_witness:
  "proposal_allowed v11_rules ''@b:x'' 50 (snd (dec_struct proposal_fields ex_proposal zero_proposal)) ex_pl"
proof -
  have acc: "checkPowerLevelsProposal v11_rules ''@b:x'' (Some ex_proposal) 50 ex_pl = Inr ()"
    by code_simp
  show ?thesis
    by (rule conjunct2 [OF iffD1 [OF power_level_rule [OF ex_power_parsed prod.collapse [symmetric]] acc]])
qed

theorem accepted_power_levels_bounded_witness:
  "gm_get (pl_users (projr (ParsePowerLevels (Some ex_proposal)))) ''@c:x'' = Some (10 :: int)
   \<and> (10 :: int) \<le> user_level v11_rules ex_cc ex_joined ex_pl ''@b:x''"
proof -
  have acc: "Authorize no_verify v11_rules ''m.room.power_levels'' [] ''@b:x'' (Some ex_proposal) ex_joined True = Inr ()"
    by code_simp
  have new: "ParsePowerLevels (Some ex_proposal) = Inr (projr (ParsePowerLevels (Some ex_proposal)))"
    by code_simp
  have c: "gm_get (pl_users (projr (ParsePowerLevels (Some ex_proposal)))) ''@c:x'' = Some 10"
    "gm_get (pl_users ex_pl) ''@c:x'' \<noteq> Some 10"
    by code_simp+
  have "''@c:x'' \<noteq> ''@b:x''" by simp
  from conjunct1 [OF accepted_power_levels_bounded [OF acc ex_create_parsed ex_levels new refl],
      rule_format, OF this c(1)] c
  show ?thesis by blast
qed

definition ex_self_promotion :: json where
  "ex_self_promotion = JObj [(''users'', JObj [(''@a:x'', JNum ''100''), (''@b:x'', JNum ''1000'')])]"

theorem own_entry_unchecked_witness:
  "checkPowerLevelsProposal v11_rules ''@b:x'' (Some ex_self_promotion) 50 ex_pl = Inr ()"
proof (rule own_entry_unchecked)
  show "pl_maps_ok ex_pl" by (rule ParsePowerLevels_maps_ok [OF ex_power_parsed])
  show "dec_struct proposal_fields ex_self_promotion zero_proposal =
      (True, snd (dec_struct proposal_fields ex_self_promotion zero_proposal))"
    by code_simp
  show "pp_users (snd (dec_struct proposal_fields ex_self_promotion zero_proposal)) =
      gm_put ''@b:x'' 1000 (pl_users ex_pl)"
    by code_simp
  show "pp_events (snd (dec_struct proposal_fields ex_self_promotion zero_proposal)) = pl_events ex_pl"
    and "pp_notifications (snd (dec_struct proposal_fields ex_self_promotion zero_proposal)) =
         pl_notifications ex_pl"
    by code_simp+
  show "\<forall>(name, v, cur) \<in> set (scalar_permissions
      (snd (dec_struct proposal_fields ex_self_promotion zero_proposal)) ex_pl). v = None \<or> v = Some cur"
    by code_simp
qed

theorem accepted_event_sender_witness:
  "\<exists>create pl. ParseCreate (ss_create ex_joined) = Inr create
     \<and> effective_power_levels create ex_joined = Inr pl
     \<and> membership_in (ss_sender_member ex_joined) = Some MembershipJoin
     \<and> EventLevel pl ''m.room.topic'' (False \<or> ''m.room.topic'' = ''m.room.power_levels''
           \<or> ''m.room.topic'' \<in> set generic_state_types)
         \<le> user_level v11_rules create ex_joined pl ''@b:x''"
  by (rule accepted_event_sender [of no_verify _ _ "[]" _ "Some (JObj [])"]) code_simp+

theorem owned_state_writer_witness:
  "\<exists>create pl owner. ParseCreate (ss_create ex_joined) = Inr create
     \<and> effective_power_levels create ex_joined = Inr pl \<and> IsLooseUserID owner
     \<and> has_prefix ''@a:x_k'' owner
     \<and> (owner = ''@a:x'' \<or> user_level msc3757_rules create ex_joined pl owner
                            < user_level msc3757_rules create ex_joined pl ''@a:x'')"
  by (rule conjunct2 [OF owned_state_writer [of no_verify _ "''org.k''" _ _ "Some (JObj [])"]])
     code_simp+

theorem accepted_removal_witness:
  "pl_ban ex_pl \<le> user_level v11_rules ex_cc (ex_state (ex_member MembershipJoin) None) ex_pl ''@b:x''"
proof -
  let ?st = "ex_state (ex_member MembershipJoin) None"
  have acc: "Authorize no_verify v11_rules ''m.room.member'' ''@c:x'' ''@b:x'' (ex_member MembershipBan) ?st True = Inr ()"
    by code_simp
  have mc: "ParseMember (ex_member MembershipBan) = Inr (projr (ParseMember (ex_member MembershipBan)))"
    and ban: "mc_membership (projr (ParseMember (ex_member MembershipBan))) = MembershipBan"
    by code_simp+
  show ?thesis
    using accepted_removal [OF acc ex_create_parsed ex_levels mc disjI1 [OF ban]] ban by simp
qed

theorem creators_cannot_be_removed_witness:
  "Authorize no_verify v12_rules ''m.room.member'' ''@a:x'' ''@b:x'' (ex_member MembershipBan)
     (ex_state (ex_member MembershipJoin) None) True \<noteq> Inr ()"
proof -
  have "CreatorPrivileged v12_rules" by code_simp
  moreover have "IsPrivileged ex_cc ''@a:x'' (ss_create_sender (ex_state (ex_member MembershipJoin) None))"
    by code_simp
  moreover have "UserLevel ex_pl ''@b:x'' \<le> 2 ^ 62" by code_simp
  moreover have "ParseMember (ex_member MembershipBan) = Inr (projr (ParseMember (ex_member MembershipBan)))"
    "mc_membership (projr (ParseMember (ex_member MembershipBan))) = MembershipBan"
    by code_simp+
  ultimately show ?thesis
    using creators_cannot_be_removed [OF _ ex_create_parsed _ ex_levels] by blast
qed

lemma ex_member_parsed:
  "ParseMember (ex_member m) = Inr (zero_member\<lparr>mc_membership := m\<rparr>)"
  by (simp add: ParseMember_def ex_member_def member_fields_def zero_member_def fld_def)

lemma ex_membership_in: "membership_in (ex_member m) = Some m"
  using ex_member_parsed [of m] by (simp add: membership_in_def ex_member_def)

lemma ex_target: "target_membership u u (ex_state (ex_member m) t) = m"
proof -
  have "ex_member m \<noteq> None" by (simp add: ex_member_def)
  then show ?thesis by (simp add: target_membership_def ex_state_def ex_membership_in)
qed

lemma ex_step:
  "authorizeMember no_verify v11_rules ''@b:x'' ''@b:x'' (ex_member m') (ex_state (ex_member m) None)
     ex_cc ex_pl (\<lambda>_. 0) m = Inr () \<Longrightarrow> member_run v11_rules ''@b:x'' m' ms z \<Longrightarrow>
   member_run v11_rules ''@b:x'' m (m' # ms) z"
  using run_step [OF _ ex_target _ ex_member_parsed, of no_verify v11_rules "''@b:x''" m' m None ex_cc ex_pl]
  by (simp add: ex_state_def zero_snapshot_def)

theorem ban_ends_with_leave_witness:
  "set (takeWhile (\<lambda>x. x \<noteq> MembershipLeave) [MembershipLeave, MembershipJoin]) \<subseteq> {MembershipBan}
   \<and> MembershipLeave \<in> set [MembershipLeave, MembershipJoin]"
proof -
  have "member_run v11_rules ''@b:x'' MembershipBan [MembershipLeave, MembershipJoin] MembershipJoin"
    by (rule ex_step, code_simp, rule ex_step, code_simp, rule run_done)
  from ban_ends_with_leave [OF this] membership_distinct show ?thesis by blast
qed


theorem knocking_user_joins_unchecked_witness:
  "authorizeMember no_verify v11_rules ''@b:x'' ''@b:x'' (ex_member MembershipJoin)
     ((ex_state (ex_member MembershipKnock) None)\<lparr>ss_join_rules := None\<rparr>) ex_cc ex_pl (\<lambda>_. 0) [] = Inr ()"
proof (rule knocking_user_joins_unchecked [OF ex_member_parsed])
  show "cc_federate ex_cc \<noteq> Some False" by code_simp
  show "target_membership ''@b:x'' ''@b:x''
      ((ex_state (ex_member MembershipKnock) None)\<lparr>ss_join_rules := None\<rparr>) = MembershipKnock"
    by code_simp
qed simp_all

theorem banned_user_unbans_itself_witness:
  "authorizeMember no_verify v11_rules ''@b:x'' ''@b:x'' (ex_member MembershipLeave)
     (ex_state (ex_member MembershipBan) None) ex_cc ex_pl (\<lambda>_. 0) MembershipBan = Inr ()"
proof (rule conjunct1 [OF banned_user_unbans_itself [OF ex_member_parsed _ ex_member_parsed]])
  show "cc_federate ex_cc \<noteq> Some False" by code_simp
  show "JoinRule (ss_join_rules (ex_state (ex_member MembershipBan) None)) = JoinRulePublic"
    by code_simp
qed (simp_all add: zero_member_def)

text \<open>
  The scalar check can be passed by: Go's decoder matches member names without regard to
  case, and a \<open>null\<close> resets a pointer but leaves an integer. With \<open>Users_default\<close> set and
  \<open>users_default\<close> null, the check sees no proposed default at all, while the event in force
  raises every user, the sender included, to the level written. Here a sender at 50 sets 100.
\<close>

theorem users_default_escapes_check:
  "let content = Some (JObj [(''Users_default'', JNum ''100''),
         (''users'', JObj [(''@a:x'', JNum ''100''), (''@b:x'', JNum ''50'')]), (''users_default'', JNull)])
   in list_all (\<lambda>rules. checkPowerLevelsProposal rules ''@b:x'' content 50 ex_pl = Inr ())
        [v1_rules, v6_rules, v9_rules, v10_rules, v11_rules, v12_rules]
      \<and> UserLevel (projr (ParsePowerLevels content)) ''@c:x'' = 100
      \<and> UserLevel ex_pl ''@c:x'' = 0"
  by code_simp

end
