(* ===== verification/State_Res.thy ===== *)
theory State_Res
  imports Prelude
begin

section \<open>State resolution (\<open>internal/stateres\<close>)\<close>

text \<open>
  The two resolution orders: \<open>ResolveV1\<close>, a chronological sort, and \<open>ResolveV2\<close>, power events
  in a greedy topological order followed by the other events ordered along the mainline of
  power-level events. Both give the order in which a caller applies the candidates to a state
  map, the last one winning. A Go run-time panic is \<open>None\<close>; nothing else is.
\<close>

subsection \<open>\<open>sort.SliceStable\<close>\<close>

text \<open>The stable sort of a slice by its \<open>less\<close> function.\<close>

fun stable_insert :: "('a \<Rightarrow> 'a \<Rightarrow> bool) \<Rightarrow> 'a \<Rightarrow> 'a list \<Rightarrow> 'a list" where
  "stable_insert lt x [] = [x]"
| "stable_insert lt x (y # ys) = (if lt y x then y # stable_insert lt x ys else x # y # ys)"

definition slice_stable :: "('a \<Rightarrow> 'a \<Rightarrow> bool) \<Rightarrow> 'a list \<Rightarrow> 'a list" where
  "slice_stable lt xs = foldr (stable_insert lt) xs []"

subsection \<open>Events as candidates\<close>

definition MaxCreatorPowerLevel :: int where
  "MaxCreatorPowerLevel = 2 ^ 53"

record EventMeta =
  em_id :: string
  em_type :: string
  em_state_key :: string
  em_sender :: string
  em_depth :: int
  em_ts :: int
  em_power :: bool
  em_auth :: "string list"
  em_prev :: "string list"
  em_level :: int

definition IsPowerLevelEvent :: "EventMeta \<Rightarrow> bool" where
  "IsPowerLevelEvent e \<longleftrightarrow> em_type e = ''m.room.power_levels''"

subsection \<open>Version 1\<close>

definition v1_less :: "EventMeta \<Rightarrow> EventMeta \<Rightarrow> bool" where
  "v1_less a b =
     (if em_depth a \<noteq> em_depth b then em_depth a < em_depth b
      else if em_ts a \<noteq> em_ts b then em_ts a < em_ts b
      else em_id a < em_id b)"

definition ResolveV1 :: "EventMeta list \<Rightarrow> string list" where
  "ResolveV1 candidates = map em_id (slice_stable v1_less candidates)"

subsection \<open>Power events\<close>

text \<open>
  \<open>edges\<close>: for an ID, the power events its event refers to. Events that share an ID share
  their edge set in the code, so the references of all of them count.
\<close>

definition power_edges :: "EventMeta list \<Rightarrow> string \<Rightarrow> string list" where
  "power_edges pevents i =
     filter (\<lambda>ref. ref \<in> em_id ` set pevents)
       (concat (map (\<lambda>e. if em_id e = i then em_auth e @ em_prev e else []) pevents))"

definition is_leaf :: "EventMeta list \<Rightarrow> string list \<Rightarrow> EventMeta \<Rightarrow> bool" where
  "is_leaf pevents processed e = list_all (\<lambda>ref. ref \<in> set processed) (power_edges pevents (em_id e))"

definition power_less :: "EventMeta \<Rightarrow> EventMeta \<Rightarrow> bool" where
  "power_less a b =
     (if em_level a \<noteq> em_level b then em_level a > em_level b
      else if em_ts a \<noteq> em_ts b then em_ts a < em_ts b
      else if em_id a \<noteq> em_id b then em_id a < em_id b
      else em_depth a < em_depth b)"

text \<open>The unprocessed events to choose from: the leaves, or on a cycle everything left.\<close>

definition candidate_leaves :: "EventMeta list \<Rightarrow> string list \<Rightarrow> EventMeta list" where
  "candidate_leaves pevents processed =
     (let todo = filter (\<lambda>e. em_id e \<notin> set processed) pevents;
          leaves = filter (is_leaf pevents processed) todo
      in if leaves = [] then todo else leaves)"

text \<open>
  The loop, with the IDs of \<open>processed\<close> as a list without repetitions. \<open>leaves[0]\<close> of an empty
  slice panics, which happens when two power events share an ID.
\<close>

function power_loop :: "EventMeta list \<Rightarrow> string list \<Rightarrow> EventMeta list option" where
  "power_loop pevents processed =
     (if length processed < length pevents then
        (case slice_stable power_less (candidate_leaves pevents processed) of
           [] \<Rightarrow> None
         | chosen # _ \<Rightarrow> map_option (\<lambda>r. chosen # r) (power_loop pevents (em_id chosen # processed)))
      else Some [])"
  by pat_completeness auto

termination
  by (relation "measure (\<lambda>(pevents, processed). length pevents - length processed)") auto

declare power_loop.simps [simp del]

definition orderPowerEvents :: "EventMeta list \<Rightarrow> EventMeta list option" where
  "orderPowerEvents pevents = power_loop pevents []"

subsection \<open>The mainline\<close>

definition by_id :: "EventMeta list \<Rightarrow> string \<Rightarrow> EventMeta option" where
  "by_id evs i = map_of (rev (map (\<lambda>e. (em_id e, e)) evs)) i"

lemma by_id_in: "by_id evs i = Some e \<Longrightarrow> e \<in> set evs \<and> em_id e = i"
  by (auto simp: by_id_def dest: map_of_SomeD)

text \<open>The first reference that names a power-levels event, \<open>""\<close> if there is none.\<close>

definition power_levels_ref :: "EventMeta list \<Rightarrow> EventMeta \<Rightarrow> string" where
  "power_levels_ref evs e =
     (case find (\<lambda>ref. case by_id evs ref of Some a \<Rightarrow> IsPowerLevelEvent a | None \<Rightarrow> False) (em_auth e) of
        Some ref \<Rightarrow> ref
      | None \<Rightarrow> [])"

function mainline_walk :: "EventMeta list \<Rightarrow> string list \<Rightarrow> string \<Rightarrow> string list" where
  "mainline_walk evs seen cur =
     (if cur = [] \<or> cur \<in> set seen then []
      else cur # (case by_id evs cur of
                    None \<Rightarrow> []
                  | Some e \<Rightarrow> mainline_walk evs (cur # seen) (power_levels_ref evs e)))"
  by pat_completeness auto

termination
proof (relation "measure (\<lambda>(evs, seen, cur). card (em_id ` set evs - set seen))", goal_cases)
  case (2 evs seen cur e)
  then have "cur \<in> em_id ` set evs - set seen"
    using by_id_in by (metis DiffI image_eqI)
  moreover have "em_id ` set evs - set (cur # seen) = (em_id ` set evs - set seen) - {cur}"
    by auto
  ultimately show ?case
    by (simp only: in_measure prod.case card_Diff1_less finite_Diff finite_imageI finite_set)
qed simp

declare mainline_walk.simps [simp del]

definition buildMainline :: "EventMeta list \<Rightarrow> string list" where
  "buildMainline orderedPower =
     (case find IsPowerLevelEvent (rev orderedPower) of
        None \<Rightarrow> []
      | Some h \<Rightarrow> if em_id h = [] then [] else mainline_walk orderedPower [] (em_id h))"

text \<open>\<open>index\<close>: the head has the mainline's length, the oldest ancestor 1.\<close>

definition mainline_index :: "string list \<Rightarrow> string \<Rightarrow> nat option" where
  "mainline_index mainline =
     map_of (rev (zip mainline (map (\<lambda>i. length mainline - i) [0..<length mainline])))"

definition mainlineDepth :: "EventMeta \<Rightarrow> string list \<Rightarrow> nat" where
  "mainlineDepth e mainline =
     (if mainline = [] then 0
      else foldl (\<lambda>best ref. case mainline_index mainline ref of
                     Some d \<Rightarrow> if best = 0 \<or> d < best then d else best
                   | None \<Rightarrow> best) 0 (em_auth e))"

subsection \<open>Version 2 and dispatch\<close>

definition other_less :: "string list \<Rightarrow> EventMeta \<Rightarrow> EventMeta \<Rightarrow> bool" where
  "other_less mainline a b =
     (let ca = mainlineDepth a mainline; cb = mainlineDepth b mainline
      in if ca \<noteq> cb then ca < cb
         else if em_depth a \<noteq> em_depth b then em_depth a < em_depth b
         else if em_ts a \<noteq> em_ts b then em_ts a < em_ts b
         else em_id a < em_id b)"

definition ResolveV2 :: "EventMeta list \<Rightarrow> string list option" where
  "ResolveV2 candidates =
     (let powerEvents = filter em_power candidates;
          other = filter (\<lambda>e. \<not> em_power e) candidates
      in case orderPowerEvents powerEvents of
           None \<Rightarrow> None
         | Some orderedPower \<Rightarrow>
             let mainline = buildMainline orderedPower
             in Some (map em_id orderedPower @ map em_id (slice_stable (other_less mainline) other)))"

definition Resolve :: "EventMeta list \<Rightarrow> int \<Rightarrow> string list option" where
  "Resolve candidates v = (if v = 1 then Some (ResolveV1 candidates) else ResolveV2 candidates)"

subsection \<open>\<open>PickLatest\<close>\<close>

definition tuple_key :: "EventMeta \<Rightarrow> string" where
  "tuple_key e = em_type e @ [CHR 0x00] @ em_state_key e"

definition pick_step :: "EventMeta \<Rightarrow> EventMeta gomap \<Rightarrow> EventMeta gomap" where
  "pick_step e best =
     (case gm_get best (tuple_key e) of
        None \<Rightarrow> gm_put (tuple_key e) e best
      | Some cur \<Rightarrow>
          if em_depth e > em_depth cur \<or> em_depth e = em_depth cur \<and> em_ts e > em_ts cur
          then gm_put (tuple_key e) e best else best)"

definition PickLatest :: "EventMeta list \<Rightarrow> string gomap" where
  "PickLatest candidates = map (\<lambda>(k, e). (k, em_id e)) (fold pick_step candidates [])"

end
