(* ===== verification/State_Res_Laws.thy ===== *)
theory State_Res_Laws
  imports State_Res "HOL-Library.Multiset"
begin

section \<open>What the resolution orders guarantee\<close>

text \<open>
  Each comparison function is the strict order of a key, so the stable sort is the library's
  \<open>sort_key\<close>. The power-event loop is total on events with distinct IDs, and its result is the
  lexicographically least topological order. The interface \<open>state_resolver\<close> states what the
  callers of a resolution rely on, and both versions are interpreted in it.
\<close>

subsection \<open>Stable sorting by a key\<close>

lemma stable_insert_key:
  fixes f :: "'a \<Rightarrow> 'k :: linorder"
  assumes "\<And>x y. lt x y \<longleftrightarrow> f x < f y"
  shows "stable_insert lt x ys = insort_key f x ys"
  by (induction ys) (auto simp: assms not_less)

lemma slice_stable_key:
  fixes f :: "'a \<Rightarrow> 'k :: linorder"
  assumes "\<And>x y. lt x y \<longleftrightarrow> f x < f y"
  shows "slice_stable lt xs = sort_key f xs"
  unfolding slice_stable_def sort_key_def
  by (induction xs) (simp_all add: stable_insert_key [OF assms])

lemma sort_key_perm:
  assumes "mset xs = mset ys" and "inj_on f (set xs)"
  shows "sort_key f xs = sort_key f ys"
proof (rule properties_for_sort_key)
  show "mset (sort_key f ys) = mset xs" using assms(1) by simp
  fix k
  assume k: "k \<in> set (sort_key f ys)"
  have s: "set (sort_key f ys) = set xs"
    unfolding set_sort by (rule mset_eq_setD [OF assms(1), symmetric])
  have eq: "filter (\<lambda>x. f k = f x) zs = filter (\<lambda>x. k = x) zs" if "set zs = set xs" for zs
  proof (rule filter_cong [OF refl])
    fix x
    assume "x \<in> set zs"
    then show "f k = f x \<longleftrightarrow> k = x"
      using inj_onD [OF assms(2), of k x] k unfolding s that by blast
  qed
  have ms: "mset (sort_key f ys) = mset xs" using assms(1) by simp
  have "length (filter (\<lambda>x. k = x) zs) = size (filter_mset (\<lambda>x. k = x) (mset zs))" for zs
    by (metis mset_filter size_mset)
  then have "length (filter (\<lambda>x. k = x) (sort_key f ys)) = length (filter (\<lambda>x. k = x) xs)"
    by (simp only: ms)
  then show "filter (\<lambda>x. f k = f x) (sort_key f ys) = filter (\<lambda>x. f k = f x) xs"
    unfolding eq [OF s] eq [OF refl] using replicate_length_filter [where x = k] by metis
next
  show "sorted (map f (sort_key f ys))" by simp
qed

definition v1_key :: "EventMeta \<Rightarrow> int \<times> int \<times> string" where
  "v1_key e = (em_depth e, em_ts e, em_id e)"

definition power_key :: "EventMeta \<Rightarrow> int \<times> int \<times> string \<times> int" where
  "power_key e = (- em_level e, em_ts e, em_id e, em_depth e)"

definition other_key :: "string list \<Rightarrow> EventMeta \<Rightarrow> nat \<times> int \<times> int \<times> string" where
  "other_key mainline e = (mainlineDepth e mainline, em_depth e, em_ts e, em_id e)"

lemma v1_sort: "slice_stable v1_less = sort_key v1_key"
  by (rule ext, rule slice_stable_key) (auto simp: v1_less_def v1_key_def)

lemma power_sort: "slice_stable power_less = sort_key power_key"
  by (rule ext, rule slice_stable_key) (auto simp: power_less_def power_key_def)

lemma other_sort: "slice_stable (other_less m) = sort_key (other_key m)"
  by (rule ext, rule slice_stable_key) (auto simp: other_less_def other_key_def Let_def)

lemmas sorts = v1_sort power_sort other_sort

lemma key_inj:
  assumes "inj_on em_id A"
  shows "inj_on v1_key A" "inj_on power_key A" "inj_on (other_key m) A"
  using assms by (auto simp: inj_on_def v1_key_def power_key_def other_key_def)

lemma distinct_ids_inj: "distinct (map em_id xs) \<Longrightarrow> inj_on em_id (set xs)"
  by (simp add: distinct_map)

subsection \<open>The loop over power events\<close>

lemma power_edges_set:
  "set (power_edges P i) =
     {r \<in> em_id ` set P. \<exists>e \<in> set P. em_id e = i \<and> (r \<in> set (em_auth e) \<or> r \<in> set (em_prev e))}"
  by (auto simp: power_edges_def)

lemma candidate_leaves_subset:
  "set (candidate_leaves P done) \<subseteq> {e \<in> set P. em_id e \<notin> set done}"
  by (auto simp: candidate_leaves_def Let_def split: if_splits)

lemma candidate_leaves_empty:
  "candidate_leaves P done = [] \<longleftrightarrow> em_id ` set P \<subseteq> set done"
  by (auto simp: candidate_leaves_def Let_def filter_empty_conv)

lemma is_leaf_perm: "set P = set Q \<Longrightarrow> is_leaf P done e = is_leaf Q done e"
  by (simp add: is_leaf_def list_all_iff power_edges_set)

lemma candidate_leaves_perm:
  "mset P = mset Q \<Longrightarrow> mset (candidate_leaves P done) = mset (candidate_leaves Q done)"
proof -
  assume *: "mset P = mset Q"
  have leaf: "is_leaf P done = is_leaf Q done"
    using is_leaf_perm mset_eq_setD [OF *] by blast
  have f: "mset (filter p P) = mset (filter p Q)" for p
    using * by simp
  have "filter p P = [] \<longleftrightarrow> filter p Q = []" for p
    using f [of p] by (metis mset_zero_iff)
  then show ?thesis
    unfolding candidate_leaves_def Let_def leaf filter_filter using f by simp
qed

lemma candidate_leaves_sort:
  assumes "mset P = mset Q" and "inj_on em_id (set P)"
  shows "slice_stable power_less (candidate_leaves P done) =
         slice_stable power_less (candidate_leaves Q done)"
  unfolding power_sort
proof (rule sort_key_perm)
  show "mset (candidate_leaves P done) = mset (candidate_leaves Q done)"
    by (rule candidate_leaves_perm [OF assms(1)])
  show "inj_on power_key (set (candidate_leaves P done))"
    by (rule inj_on_subset [OF key_inj(2) [OF assms(2)]]) (use candidate_leaves_subset in blast)
qed

lemma power_loop_perm:
  assumes "mset P = mset Q" and "inj_on em_id (set P)"
  shows "power_loop P done = power_loop Q done"
proof (induction "done" rule: measure_induct_rule [where f = "\<lambda>d. length P - length d"])
  case (less "done")
  have len: "length P = length Q" using assms(1) by (rule mset_eq_length)
  show ?case
    using less candidate_leaves_sort [OF assms, of "done"]
    by (simp add: power_loop.simps [of P "done"] power_loop.simps [of Q "done"] len split: list.split)
qed

text \<open>What the loop has processed: IDs of the power events, each once.\<close>

definition processed_ok :: "EventMeta list \<Rightarrow> string list \<Rightarrow> bool" where
  "processed_ok P done \<longleftrightarrow> distinct done \<and> set done \<subseteq> em_id ` set P"

lemma power_loop_step:
  assumes "length done < length P" and "slice_stable power_less (candidate_leaves P done) = c # r"
    and "processed_ok P done"
  shows "c \<in> set P" "em_id c \<notin> set done" "processed_ok P (em_id c # done)"
proof -
  have "c \<in> set (candidate_leaves P done)"
    using assms(2) by (metis list.set_intros(1) power_sort set_sort)
  then show "c \<in> set P" "em_id c \<notin> set done" using candidate_leaves_subset by blast+
  then show "processed_ok P (em_id c # done)" using assms(3) by (simp add: processed_ok_def)
qed

lemma mset_filter_out:
  "distinct xs \<Longrightarrow> c \<in> set xs \<Longrightarrow> add_mset c (mset (filter (\<lambda>e. e \<noteq> c) xs)) = mset xs"
  by (simp add: distinct_remove1_removeAll [symmetric] removeAll_filter_not_eq [symmetric]
      mset_remove1 eq_commute [of _ c] del: mset_filter)

lemma power_loop_total:
  assumes "distinct (map em_id P)"
  shows "processed_ok P done \<Longrightarrow>
    \<exists>out. power_loop P done = Some out \<and> mset out = mset (filter (\<lambda>e. em_id e \<notin> set done) P)"
proof (induction "done" rule: measure_induct_rule [where f = "\<lambda>d. length P - length d"])
  case (less "done")
  have card: "card (em_id ` set P) = length P"
    using assms by (metis distinct_card length_map set_map)
  have dc: "card (set done) = length done" "set done \<subseteq> em_id ` set P"
    using less.prems by (auto simp: processed_ok_def distinct_card)
  show ?case
  proof (cases "length done < length P")
    case True
    then have "\<not> em_id ` set P \<subseteq> set done"
      using dc card by (metis card_mono finite_set not_le)
    then obtain c r where cr: "slice_stable power_less (candidate_leaves P done) = c # r"
      by (metis candidate_leaves_empty list.exhaust power_sort set_empty set_sort)
    note step = power_loop_step [OF True cr less.prems]
    obtain out where out: "power_loop P (em_id c # done) = Some out"
      "mset out = mset (filter (\<lambda>e. em_id e \<notin> set (em_id c # done)) P)"
      using less.IH [of "em_id c # done"] True step(3) by (metis diff_less_mono2 length_Cons lessI)
    have "filter (\<lambda>e. em_id e \<notin> set (em_id c # done)) P =
          filter (\<lambda>e. e \<noteq> c) (filter (\<lambda>e. em_id e \<notin> set done) P)"
      unfolding filter_filter using distinct_ids_inj [OF assms] step(1)
      by (intro filter_cong) (auto dest: inj_onD)
    moreover have "add_mset c (mset (filter (\<lambda>e. e \<noteq> c) (filter (\<lambda>e. em_id e \<notin> set done) P))) =
        mset (filter (\<lambda>e. em_id e \<notin> set done) P)"
      using assms step by (intro mset_filter_out) (simp_all add: distinct_map)
    ultimately have "mset (c # out) = mset (filter (\<lambda>e. em_id e \<notin> set done) P)"
      by (simp only: mset.simps out(2))
    then show ?thesis
      using True cr out(1) by (simp add: power_loop.simps [of P "done"])
  next
    case False
    then have "set done = em_id ` set P"
      using dc card by (metis card_subset_eq finite_imageI finite_set card_mono le_antisym not_less)
    then show ?thesis
      using False by (auto simp: power_loop.simps [of P "done"] filter_empty_conv)
  qed
qed

lemma power_loop_panics:
  assumes "card (em_id ` set P) < length P"
  shows "processed_ok P done \<Longrightarrow> power_loop P done = None"
proof (induction "done" rule: measure_induct_rule [where f = "\<lambda>d. length P - length d"])
  case (less "done")
  have "length done \<le> card (em_id ` set P)"
    using less.prems by (metis card_mono distinct_card finite_imageI finite_set processed_ok_def)
  then have lt: "length done < length P" using assms by simp
  show ?case
  proof (cases "slice_stable power_less (candidate_leaves P done)")
    case Nil
    then show ?thesis using lt by (simp add: power_loop.simps [of P "done"])
  next
    case (Cons c r)
    note step = power_loop_step [OF lt Cons less.prems]
    have "power_loop P (em_id c # done) = None"
      using less.IH [of "em_id c # done"] lt step(3) by (metis diff_less_mono2 length_Cons lessI)
    then show ?thesis using lt Cons by (simp add: power_loop.simps [of P "done"])
  qed
qed

lemma processed_ok_Nil [simp]: "processed_ok P []"
  by (simp add: processed_ok_def)

subsection \<open>Topological orders\<close>

text \<open>An order of power events in which every event comes after those it refers to.\<close>

fun topological :: "EventMeta list \<Rightarrow> string list \<Rightarrow> EventMeta list \<Rightarrow> bool" where
  "topological P done [] = True"
| "topological P done (e # es) \<longleftrightarrow> is_leaf P done e \<and> topological P (em_id e # done) es"

text \<open>References among the power events that never form a cycle.\<close>

definition acyclic_refs :: "EventMeta list \<Rightarrow> bool" where
  "acyclic_refs P \<longleftrightarrow>
     (\<exists>rank :: string \<Rightarrow> nat. \<forall>e \<in> set P. \<forall>r \<in> set (power_edges P (em_id e)). rank r < rank (em_id e))"

lemma is_leaf_iff: "is_leaf P done e \<longleftrightarrow> set (power_edges P (em_id e)) \<subseteq> set done"
  by (auto simp: is_leaf_def list_all_iff)

lemma acyclic_has_leaf:
  assumes "acyclic_refs P" and "e \<in> set P" and "em_id e \<notin> set done"
  shows "\<exists>l \<in> set P. em_id l \<notin> set done \<and> is_leaf P done l"
proof -
  obtain rank :: "string \<Rightarrow> nat" where
    rank: "\<And>e r. e \<in> set P \<Longrightarrow> r \<in> set (power_edges P (em_id e)) \<Longrightarrow> rank r < rank (em_id e)"
    using assms(1) unfolding acyclic_refs_def by blast
  obtain l where l: "l \<in> set P" "em_id l \<notin> set done"
    "\<And>x. x \<in> set P \<Longrightarrow> em_id x \<notin> set done \<Longrightarrow> rank (em_id l) \<le> rank (em_id x)"
    using ex_has_least_nat [of "\<lambda>x. x \<in> set P \<and> em_id x \<notin> set done" e "\<lambda>x. rank (em_id x)"] assms(2,3)
    by blast
  have "r \<in> set done" if ref: "r \<in> set (power_edges P (em_id l))" for r
  proof (rule ccontr)
    assume "r \<notin> set done"
    moreover obtain x where "x \<in> set P" "em_id x = r"
      using ref by (auto simp: power_edges_set)
    ultimately show False using rank [OF l(1) ref] l(3) [of x] by simp
  qed
  then show ?thesis using l(1,2) by (auto simp: is_leaf_iff)
qed

lemma candidate_leaves_acyclic:
  assumes "acyclic_refs P"
  shows "set (candidate_leaves P done) = {e \<in> set P. em_id e \<notin> set done \<and> is_leaf P done e}"
proof -
  have "\<exists>l \<in> set P. em_id l \<notin> set done \<and> is_leaf P done l" if "e \<in> set P" "em_id e \<notin> set done" for e
    by (rule acyclic_has_leaf [OF assms that])
  then show ?thesis
    by (auto simp: candidate_leaves_def Let_def filter_empty_conv)
qed

text \<open>The head of a sort is the least element.\<close>

lemma sort_key_hd_least:
  assumes "sort_key f xs = c # r" and "x \<in> set xs"
  shows "f c \<le> f x"
proof -
  have "sorted (map f (c # r))" using assms(1) sorted_sort_key [of f xs] by metis
  moreover have "x \<in> set (c # r)" using assms by (metis set_sort)
  ultimately show ?thesis by auto
qed

lemma power_loop_topological:
  assumes "acyclic_refs P"
  shows "power_loop P done = Some out \<Longrightarrow> topological P done out"
proof (induction "done" arbitrary: out rule: measure_induct_rule [where f = "\<lambda>d. length P - length d"])
  case (less "done")
  show ?case
  proof (cases "length done < length P")
    case True
    then obtain c r out' where cr: "slice_stable power_less (candidate_leaves P done) = c # r"
      "power_loop P (em_id c # done) = Some out'" "out = c # out'"
      using less.prems by (auto simp: power_loop.simps [of P "done"] split: list.splits)
    then have "c \<in> set (candidate_leaves P done)"
      by (metis list.set_intros(1) power_sort set_sort)
    then have "is_leaf P done c"
      unfolding candidate_leaves_acyclic [OF assms] by simp
    moreover have "topological P (em_id c # done) out'"
      using less.IH [OF _ cr(2)] True by (metis diff_less_mono2 length_Cons lessI)
    ultimately show ?thesis using cr(3) by simp
  next
    case False
    then show ?thesis using less.prems by (simp add: power_loop.simps [of P "done"])
  qed
qed

lemma power_loop_least:
  assumes "acyclic_refs P" and "distinct (map em_id P)"
  shows "processed_ok P done \<Longrightarrow> power_loop P done = Some out \<Longrightarrow> topological P done ts \<Longrightarrow>
    set ts \<subseteq> set P \<Longrightarrow> distinct (map em_id ts) \<Longrightarrow> em_id ` set ts \<inter> set done = {} \<Longrightarrow>
    length ts + length done = length P \<Longrightarrow> map power_key out \<le> map power_key ts"
proof (induction "done" arbitrary: out ts rule: measure_induct_rule [where f = "\<lambda>d. length P - length d"])
  case (less "done")
  show ?case
  proof (cases ts)
    case Nil
    then show ?thesis using less.prems by (simp add: power_loop.simps [of P "done"])
  next
    case (Cons t ts')
    then have lt: "length done < length P" using less.prems(7) by simp
    then obtain c r out' where cr: "slice_stable power_less (candidate_leaves P done) = c # r"
      "power_loop P (em_id c # done) = Some out'" "out = c # out'"
      using less.prems(2) by (auto simp: power_loop.simps [of P "done"] split: list.splits)
    note step = power_loop_step [OF lt cr(1) less.prems(1)]
    have "t \<in> set (candidate_leaves P done)"
      unfolding candidate_leaves_acyclic [OF assms(1)] using less.prems(3,4,6) Cons by auto
    then have le: "power_key c \<le> power_key t"
      using cr(1) unfolding power_sort by (rule sort_key_hd_least [rotated])
    show ?thesis
    proof (cases "power_key c = power_key t")
      case True
      have "t \<in> set P" using less.prems(4) Cons by simp
      then have "c = t"
        using True step(1) key_inj(2) [OF distinct_ids_inj [OF assms(2)]] by (auto dest: inj_onD)
      moreover have "map power_key out' \<le> map power_key ts'"
        using less.IH [OF _ step(3) cr(2), of ts'] less.prems(3-7) Cons \<open>c = t\<close> lt by auto
      ultimately show ?thesis using cr(3) Cons by simp
    next
      case False
      then show ?thesis using le cr(3) Cons by (simp add: less_le)
    qed
  qed
qed

subsection \<open>The interface of a resolution\<close>

text \<open>
  What the callers rely on: candidates with distinct IDs are resolved without a panic to an
  order of exactly those IDs, and the order in which the candidates arrive does not matter.
\<close>

locale state_resolver =
  fixes resolve :: "EventMeta list \<Rightarrow> string list option"
  assumes resolve_total:
      "distinct (map em_id xs) \<Longrightarrow> \<exists>out. resolve xs = Some out \<and> mset out = mset (map em_id xs)"
    and resolve_perm:
      "mset xs = mset ys \<Longrightarrow> distinct (map em_id xs) \<Longrightarrow> resolve xs = resolve ys"
begin

lemma resolve_order:
  assumes "distinct (map em_id xs)" and "resolve xs = Some out"
  shows "distinct out" "set out = em_id ` set xs"
proof -
  have m: "mset out = mset (map em_id xs)" using resolve_total [OF assms(1)] assms(2) by auto
  show "distinct out" using m assms(1) by (metis mset_eq_imp_distinct_iff)
  show "set out = em_id ` set xs" using mset_eq_setD [OF m] by simp
qed

lemma resolve_set:
  assumes "set xs = set ys" and "distinct (map em_id xs)" and "distinct (map em_id ys)"
  shows "resolve xs = resolve ys"
proof (rule resolve_perm [OF _ assms(2)])
  have "distinct xs" "distinct ys" using assms(2,3) by (simp_all add: distinct_map)
  then show "mset xs = mset ys" using assms(1) by (simp add: set_eq_iff_mset_eq_distinct)
qed

end

lemma ResolveV1_perm: "mset xs = mset ys \<Longrightarrow> distinct (map em_id xs) \<Longrightarrow> ResolveV1 xs = ResolveV1 ys"
  unfolding ResolveV1_def v1_sort using sort_key_perm key_inj(1) [OF distinct_ids_inj] by metis

interpretation v1: state_resolver "\<lambda>xs. Some (ResolveV1 xs)"
proof
  show "\<exists>out. Some (ResolveV1 xs) = Some out \<and> mset out = mset (map em_id xs)" for xs
    by (simp add: ResolveV1_def v1_sort)
qed (simp add: ResolveV1_perm)

lemma orderPowerEvents_total:
  assumes "distinct (map em_id P)"
  shows "\<exists>out. orderPowerEvents P = Some out \<and> mset out = mset P"
  using power_loop_total [OF assms, of "[]"] by (simp add: orderPowerEvents_def)

lemma ResolveV2_cases:
  assumes "distinct (map em_id xs)"
  obtains power where "orderPowerEvents (filter em_power xs) = Some power"
    and "mset power = mset (filter em_power xs)"
    and "ResolveV2 xs = Some (map em_id power @
           map em_id (sort_key (other_key (buildMainline power)) (filter (\<lambda>e. \<not> em_power e) xs)))"
proof -
  have "distinct (map em_id (filter em_power xs))" using assms by (rule distinct_map_filter)
  from orderPowerEvents_total [OF this] obtain power where
    "orderPowerEvents (filter em_power xs) = Some power" "mset power = mset (filter em_power xs)"
    by blast
  then show thesis by (intro that) (simp_all add: ResolveV2_def other_sort Let_def)
qed

lemma ResolveV2_perm:
  assumes "mset xs = mset ys" and "distinct (map em_id xs)"
  shows "ResolveV2 xs = ResolveV2 ys"
proof -
  note inj = distinct_ids_inj [OF assms(2)]
  have p: "mset (filter p xs) = mset (filter p ys)" for p using assms(1) by simp
  have "orderPowerEvents (filter em_power xs) = orderPowerEvents (filter em_power ys)"
    unfolding orderPowerEvents_def
    by (rule power_loop_perm [OF p]) (rule inj_on_subset [OF inj], simp)
  moreover have "sort_key (other_key m) (filter (\<lambda>e. \<not> em_power e) xs) =
      sort_key (other_key m) (filter (\<lambda>e. \<not> em_power e) ys)" for m
    by (rule sort_key_perm [OF p]) (rule inj_on_subset [OF key_inj(3) [OF inj]], simp)
  ultimately show ?thesis by (simp add: ResolveV2_def other_sort Let_def split: option.split)
qed

interpretation v2: state_resolver ResolveV2
proof
  fix xs :: "EventMeta list"
  assume "distinct (map em_id xs)"
  then obtain power where "mset power = mset (filter em_power xs)"
    and *: "ResolveV2 xs = Some (map em_id power @
         map em_id (sort_key (other_key (buildMainline power)) (filter (\<lambda>e. \<not> em_power e) xs)))"
    by (rule ResolveV2_cases)
  moreover have "mset (filter em_power xs) + mset (filter (\<lambda>e. \<not> em_power e) xs) = mset xs"
    by simp
  ultimately have "mset power + mset (filter (\<lambda>e. \<not> em_power e) xs) = mset xs" by metis
  from arg_cong [OF this, of "image_mset em_id"]
  show "\<exists>out. ResolveV2 xs = Some out \<and> mset out = mset (map em_id xs)"
    by (simp add: * del: mset_filter)
next
  show "ResolveV2 xs = ResolveV2 ys" if "mset xs = mset ys" "distinct (map em_id xs)" for xs ys
    by (rule ResolveV2_perm [OF that])
qed

lemma Resolve_cases: "(\<lambda>xs. Resolve xs v) = (if v = 1 then (\<lambda>xs. Some (ResolveV1 xs)) else ResolveV2)"
  by (auto simp: Resolve_def)

interpretation dispatch: state_resolver "\<lambda>xs. Resolve xs v" for v
  unfolding Resolve_cases by (cases "v = 1") (simp_all add: v1.state_resolver_axioms v2.state_resolver_axioms)

subsection \<open>The mainline\<close>

lemma mainline_walk_invariant:
  "distinct (mainline_walk evs seen cur) \<and> set (mainline_walk evs seen cur) \<inter> set seen = {}
   \<and> [] \<notin> set (mainline_walk evs seen cur)"
proof (induction evs seen cur rule: mainline_walk.induct)
  case (1 evs seen cur)
  then show ?case
    by (subst (1 2 3) mainline_walk.simps) (auto split: option.splits)
qed

text \<open>Neighbours on the mainline are linked by the newer event's first power-levels reference.\<close>

fun linked :: "EventMeta list \<Rightarrow> string list \<Rightarrow> bool" where
  "linked evs (a # b # r) \<longleftrightarrow>
     (\<exists>e x. by_id evs a = Some e \<and> b \<in> set (em_auth e) \<and> by_id evs b = Some x \<and> IsPowerLevelEvent x)
     \<and> linked evs (b # r)"
| "linked evs _ = True"

lemma power_levels_ref_cases:
  "power_levels_ref evs e = [] \<or> (power_levels_ref evs e \<in> set (em_auth e) \<and>
     (\<exists>x. by_id evs (power_levels_ref evs e) = Some x \<and> IsPowerLevelEvent x))"
  by (auto simp: power_levels_ref_def find_Some_iff split: option.splits)

lemma mainline_walk_hd: "mainline_walk evs seen cur = x # r \<Longrightarrow> x = cur"
  by (subst (asm) mainline_walk.simps) (auto split: if_splits)

lemma mainline_walk_linked: "linked evs (mainline_walk evs seen cur)"
proof (induction evs seen cur rule: mainline_walk.induct)
  case (1 evs seen cur)
  show ?case
  proof (cases "cur = [] \<or> cur \<in> set seen")
    case True
    then show ?thesis by (simp add: mainline_walk.simps [of evs seen cur])
  next
    case False
    show ?thesis
    proof (cases "by_id evs cur")
      case None
      then show ?thesis using False by (simp add: mainline_walk.simps [of evs seen cur])
    next
      case (Some e)
      let ?rest = "mainline_walk evs (cur # seen) (power_levels_ref evs e)"
      have unfold: "mainline_walk evs seen cur = cur # ?rest"
        using False Some by (simp add: mainline_walk.simps [of evs seen cur])
      have IH: "linked evs ?rest" using 1 False Some by simp
      show ?thesis
      proof (cases ?rest)
        case (Cons b r)
        then have b: "b = power_levels_ref evs e" by (rule mainline_walk_hd)
        have "b \<noteq> []" using mainline_walk_invariant [of evs "cur # seen" "power_levels_ref evs e"] Cons by auto
        then show ?thesis
          using power_levels_ref_cases [of evs e] Some IH unfolding unfold Cons b by auto
      qed (simp add: unfold)
    qed
  qed
qed

lemma linked_all_power_levels:
  "linked evs (a # r) \<Longrightarrow> \<forall>b \<in> set r. \<exists>x. by_id evs b = Some x \<and> IsPowerLevelEvent x"
  by (induction r arbitrary: a) auto

text \<open>The depth of an event is that of its oldest reference on the mainline.\<close>

lemma mainline_index_nth:
  assumes "distinct m"
  shows "mainline_index m ref = Some d \<longleftrightarrow> (\<exists>i < length m. m ! i = ref \<and> d = length m - i)"
proof -
  let ?z = "zip m (map (\<lambda>i. length m - i) [0..<length m])"
  have "distinct (map fst ?z)" using assms by simp
  then have "map_of (rev ?z) ref = Some d \<longleftrightarrow> (ref, d) \<in> set ?z"
    by (simp add: rev_map [symmetric] map_of_eq_Some_iff)
  also have "\<dots> \<longleftrightarrow> (\<exists>i < length m. m ! i = ref \<and> d = length m - i)"
    by (auto simp: set_zip)
  finally show ?thesis by (simp add: mainline_index_def)
qed

lemma mainline_index_pos: "distinct m \<Longrightarrow> mainline_index m ref = Some d \<Longrightarrow> 0 < d \<and> d \<le> length m"
  by (auto simp: mainline_index_nth)

definition best_index :: "string list \<Rightarrow> nat \<Rightarrow> string list \<Rightarrow> nat" where
  "best_index m b refs =
     foldl (\<lambda>best ref. case mainline_index m ref of
              Some d \<Rightarrow> if best = 0 \<or> d < best then d else best
            | None \<Rightarrow> best) b refs"

lemma best_index_simps [simp]:
  "best_index m b [] = b"
  "best_index m b (r # rs) = best_index m (case mainline_index m r of
      Some d \<Rightarrow> if b = 0 \<or> d < b then d else b | None \<Rightarrow> b) rs"
  by (simp_all add: best_index_def)

lemma best_index_cases:
  assumes "distinct m"
  shows "(best_index m b refs = b \<or> (\<exists>r \<in> set refs. mainline_index m r = Some (best_index m b refs)))
    \<and> (b \<noteq> 0 \<longrightarrow> best_index m b refs \<noteq> 0 \<and> best_index m b refs \<le> b)
    \<and> (\<forall>r \<in> set refs. \<forall>d. mainline_index m r = Some d \<longrightarrow> best_index m b refs \<noteq> 0 \<and> best_index m b refs \<le> d)"
proof (induction refs arbitrary: b)
  case (Cons r rs)
  show ?case
  proof (cases "mainline_index m r")
    case None
    then show ?thesis using Cons.IH [of b] by auto
  next
    case (Some d)
    then have d: "0 < d" using mainline_index_pos [OF assms] by blast
    show ?thesis
    proof (cases "b = 0 \<or> d < b")
      case True
      then show ?thesis using Cons.IH [of d] Some d by auto
    next
      case False
      then show ?thesis using Cons.IH [of b] Some d by auto
    qed
  qed
qed simp

subsection \<open>Picking the latest event of each tuple\<close>

definition later :: "EventMeta \<Rightarrow> EventMeta \<Rightarrow> bool" where
  "later a b \<longleftrightarrow> em_depth a < em_depth b \<or> em_depth a = em_depth b \<and> em_ts a < em_ts b"

definition picked :: "EventMeta list \<Rightarrow> EventMeta gomap \<Rightarrow> bool" where
  "picked seen best \<longleftrightarrow> gm_ok best \<and>
     (\<forall>k. case gm_get best k of
            None \<Rightarrow> \<forall>x \<in> set seen. tuple_key x \<noteq> k
          | Some e \<Rightarrow> e \<in> set seen \<and> tuple_key e = k \<and> (\<forall>x \<in> set seen. tuple_key x = k \<longrightarrow> \<not> later e x))"

lemma pick_step_picked:
  assumes "picked seen best"
  shows "picked (e # seen) (pick_step e best)"
proof -
  have ok: "gm_ok best" using assms by (simp add: picked_def)
  have at: "case gm_get best k of
            None \<Rightarrow> \<forall>x \<in> set seen. tuple_key x \<noteq> k
          | Some e \<Rightarrow> e \<in> set seen \<and> tuple_key e = k \<and> (\<forall>x \<in> set seen. tuple_key x = k \<longrightarrow> \<not> later e x)" for k
    using assms by (simp add: picked_def)
  show ?thesis
    unfolding picked_def
  proof (intro conjI allI)
    show "gm_ok (pick_step e best)" using ok by (simp add: pick_step_def split: option.split)
    fix k
    show "case gm_get (pick_step e best) k of
            None \<Rightarrow> \<forall>x \<in> set (e # seen). tuple_key x \<noteq> k
          | Some f \<Rightarrow> f \<in> set (e # seen) \<and> tuple_key f = k \<and>
              (\<forall>x \<in> set (e # seen). tuple_key x = k \<longrightarrow> \<not> later f x)"
      using at [of k] ok
      by (cases "tuple_key e = k")
         (auto simp: pick_step_def gm_get_put later_def split: option.splits if_splits)
  qed
qed

lemma fold_pick_picked: "picked seen best \<Longrightarrow> picked (rev cands @ seen) (fold pick_step cands best)"
proof (induction cands arbitrary: seen best)
  case (Cons c cands)
  then show ?case using Cons.IH [OF pick_step_picked [OF Cons.prems, of c]] by simp
qed simp

lemma fold_pick: "picked (rev cands) (fold pick_step cands [])"
  using fold_pick_picked [of "[]" "[]" cands] by (simp add: picked_def)

subsection \<open>Properties\<close>

definition ex_event :: "string \<Rightarrow> string \<Rightarrow> bool \<Rightarrow> string list \<Rightarrow> int \<Rightarrow> EventMeta" where
  "ex_event i ty pw auth lvl = \<lparr>em_id = i, em_type = ty, em_state_key = [], em_sender = ''@a:x'',
     em_depth = int (length auth), em_ts = 0, em_power = pw, em_auth = auth, em_prev = [], em_level = lvl\<rparr>"

definition ex_candidates :: "EventMeta list" where
  "ex_candidates =
     [ex_event ''$t'' ''m.room.topic'' False [''$p''] 0,
      ex_event ''$p'' ''m.room.power_levels'' True [''$c''] 100,
      ex_event ''$j'' ''m.room.join_rules'' True [''$c'', ''$p''] 50,
      ex_event ''$c'' ''m.room.create'' True [] MaxCreatorPowerLevel]"

text \<open>
  C4: On power events with distinct IDs and no reference cycle the ordering succeeds, contains
  each event once, puts every event after the power events it refers to, and among all such
  orders is the lexicographically least by sender level (highest first), timestamp and ID.
\<close>

theorem power_order_least:
  assumes "acyclic_refs P" and "distinct (map em_id P)"
  shows "\<exists>out. orderPowerEvents P = Some out \<and> mset out = mset P \<and> topological P [] out \<and>
    (\<forall>ts. mset ts = mset P \<longrightarrow> topological P [] ts \<longrightarrow> map power_key out \<le> map power_key ts)"
proof -
  obtain out where out: "orderPowerEvents P = Some out" "mset out = mset P"
    using orderPowerEvents_total [OF assms(2)] by blast
  then have loop: "power_loop P [] = Some out" by (simp add: orderPowerEvents_def)
  have "map power_key out \<le> map power_key ts" if ts: "mset ts = mset P" "topological P [] ts" for ts
  proof (rule power_loop_least [OF assms processed_ok_Nil loop ts(2)])
    show "set ts \<subseteq> set P" using mset_eq_setD [OF ts(1)] by simp
    show "distinct (map em_id ts)"
      using assms(2) arg_cong [OF ts(1), of "image_mset em_id"] by (metis mset_eq_imp_distinct_iff mset_map)
    show "length ts + length [] = length P" using mset_eq_length [OF ts(1)] by simp
  qed simp
  then show ?thesis
    using out power_loop_topological [OF assms(1) loop] by blast
qed

lemma ex_power_acyclic: "acyclic_refs (filter em_power ex_candidates)"
  unfolding acyclic_refs_def
proof (rule exI [of _ "\<lambda>i. if i = ''$c'' then 0 else if i = ''$p'' then 1 else 2"])
  show "\<forall>e \<in> set (filter em_power ex_candidates). \<forall>r \<in> set (power_edges (filter em_power ex_candidates) (em_id e)).
    (if r = ''$c'' then 0 else if r = ''$p'' then 1 else (2 :: nat))
      < (if em_id e = ''$c'' then 0 else if em_id e = ''$p'' then 1 else 2)"
    by code_simp
qed

theorem power_order_least_witness:
  "\<exists>out. orderPowerEvents (filter em_power ex_candidates) = Some out
     \<and> topological (filter em_power ex_candidates) [] out
     \<and> map em_id out = [''$c'', ''$p'', ''$j'']"
proof -
  have "map_option (map em_id) (orderPowerEvents (filter em_power ex_candidates)) = Some [''$c'', ''$p'', ''$j'']"
    and "distinct (map em_id (filter em_power ex_candidates))"
    by code_simp+
  then show ?thesis using power_order_least [OF ex_power_acyclic] by auto
qed

text \<open>
  The ordering of power events panics exactly when two of them share an ID; otherwise it
  ends, cycles in the references included, and returns every event.
\<close>

theorem power_order_panics_iff:
  "orderPowerEvents P = None \<longleftrightarrow> \<not> distinct (map em_id P)"
proof (cases "distinct (map em_id P)")
  case True
  then show ?thesis using orderPowerEvents_total by fastforce
next
  case False
  then have "card (em_id ` set P) < length P"
    by (metis card_distinct card_length image_set le_neq_implies_less length_map)
  then show ?thesis
    using False power_loop_panics [of P "[]"] by (simp add: orderPowerEvents_def)
qed

text \<open>
  C5: The resolution of a set of candidates with distinct IDs, in every version, does not depend
  on the order in which they are listed and contains each of their IDs exactly once.
\<close>

theorem resolution_deterministic:
  assumes "distinct (map em_id xs)" and "distinct (map em_id ys)" and "set xs = set ys"
  shows "\<exists>out. Resolve xs v = Some out \<and> Resolve ys v = Some out
           \<and> distinct out \<and> set out = em_id ` set xs"
  using dispatch.resolve_total [OF assms(1), of v] dispatch.resolve_set [OF assms(3,1,2), of v]
    dispatch.resolve_order [OF assms(1), of v] by auto

theorem resolution_deterministic_witness:
  "Resolve (rev ex_candidates) 2 = Some [''$c'', ''$p'', ''$j'', ''$t'']"
proof -
  have 1: "distinct (map em_id ex_candidates)" and 2: "distinct (map em_id (rev ex_candidates))"
    and 3: "Resolve ex_candidates 2 = Some [''$c'', ''$p'', ''$j'', ''$t'']"
    by code_simp+
  show ?thesis using resolution_deterministic [OF 1 2, of 2] 3 by simp
qed

text \<open>
  Version 2 puts the power events first, in their order, and then the other events sorted
  by the depth of their power-levels reference on the resolved mainline, then by event depth,
  timestamp and ID.
\<close>

theorem v2_power_then_mainline:
  assumes "distinct (map em_id xs)"
  shows "\<exists>ps os. orderPowerEvents (filter em_power xs) = Some ps
     \<and> ResolveV2 xs = Some (map em_id ps @ map em_id os)
     \<and> mset os = mset (filter (\<lambda>e. \<not> em_power e) xs) \<and> sorted (map (other_key (buildMainline ps)) os)"
proof -
  from ResolveV2_cases [OF assms] obtain ps where
    "orderPowerEvents (filter em_power xs) = Some ps"
    "ResolveV2 xs = Some (map em_id ps @
       map em_id (sort_key (other_key (buildMainline ps)) (filter (\<lambda>e. \<not> em_power e) xs)))"
    by blast
  then show ?thesis
    by (intro exI [of _ ps] exI [of _ "sort_key (other_key (buildMainline ps)) (filter (\<lambda>e. \<not> em_power e) xs)"]) simp
qed

theorem v2_power_then_mainline_witness:
  "\<exists>ps os. orderPowerEvents (filter em_power ex_candidates) = Some ps
     \<and> ResolveV2 ex_candidates = Some (map em_id ps @ map em_id os)
     \<and> mset os = mset (filter (\<lambda>e. \<not> em_power e) ex_candidates)
     \<and> sorted (map (other_key (buildMainline ps)) os)"
  by (rule v2_power_then_mainline) code_simp

text \<open>
  The mainline ends for every set of power events, references that form a cycle included: it
  holds distinct non-empty IDs, starts at the last power-levels event of the order, and every
  further entry is a power-levels event its predecessor names in its auth events.
\<close>

theorem mainline_chain:
  "distinct (buildMainline ps) \<and> [] \<notin> set (buildMainline ps) \<and> linked ps (buildMainline ps)
   \<and> (buildMainline ps = [] \<or>
      (\<exists>h. find IsPowerLevelEvent (rev ps) = Some h \<and> hd (buildMainline ps) = em_id h))
   \<and> (\<forall>i. i \<notin> set (tl (buildMainline ps)) \<or> (\<exists>x. by_id ps i = Some x \<and> IsPowerLevelEvent x))"
proof (cases "buildMainline ps")
  case (Cons a r)
  then obtain h where h: "find IsPowerLevelEvent (rev ps) = Some h" "buildMainline ps = mainline_walk ps [] (em_id h)"
    by (auto simp: buildMainline_def split: option.splits if_splits)
  have lk: "linked ps (a # r)" using mainline_walk_linked [of ps "[]" "em_id h"] h(2) Cons by simp
  moreover have "a = em_id h" using mainline_walk_hd h(2) Cons by metis
  ultimately show ?thesis
    using mainline_walk_invariant [of ps "[]" "em_id h", folded h(2)] h(1) linked_all_power_levels [OF lk]
    unfolding Cons by auto
qed simp

text \<open>Two power-levels events that name each other: the walk stops at the one it has seen.\<close>

definition ex_loop :: "EventMeta list" where
  "ex_loop = [ex_event ''$p'' ''m.room.power_levels'' True [''$q''] 100,
     ex_event ''$q'' ''m.room.power_levels'' True [''$p''] 100]"

theorem mainline_chain_witness:
  "\<exists>h. find IsPowerLevelEvent (rev ex_loop) = Some h \<and> hd (buildMainline ex_loop) = em_id h"
proof -
  have "buildMainline ex_loop \<noteq> []" by code_simp
  then show ?thesis using mainline_chain [of ex_loop] by blast
qed

text \<open>
  The mainline depth of an event lies between 0 and the mainline's length, is 0 exactly when
  none of its auth events is on the mainline, and otherwise belongs to the oldest (not, as the
  comment has it, the closest) of the mainline events it names.
\<close>

theorem mainline_depth_oldest:
  assumes "distinct m" and "d = mainlineDepth e m"
  shows "d \<le> length m \<and> (d = 0 \<longleftrightarrow> set (em_auth e) \<inter> set m = {})
    \<and> (d \<noteq> 0 \<longrightarrow> m ! (length m - d) \<in> set (em_auth e)
          \<and> (\<forall>i < length m. m ! i \<in> set (em_auth e) \<longrightarrow> i \<le> length m - d))"
proof (cases "m = []")
  case False
  then have d: "d = best_index m 0 (em_auth e)"
    using assms(2) by (simp add: mainlineDepth_def best_index_def)
  note cases = best_index_cases [OF assms(1), of 0 "em_auth e", folded d]
  note nth = mainline_index_nth [OF assms(1)]
  have on: "d \<noteq> 0 \<and> d \<le> length m - i" if "i < length m" "m ! i \<in> set (em_auth e)" for i
    using cases that nth [of "m ! i" "length m - i"] by blast
  show ?thesis
  proof (cases "d = 0")
    case True
    then have "\<forall>i < length m. m ! i \<notin> set (em_auth e)" using on by blast
    then have "set (em_auth e) \<inter> set m = {}" by (metis disjoint_iff in_set_conv_nth)
    then show ?thesis using True by simp
  next
    case nz: False
    then obtain r i where i: "r \<in> set (em_auth e)" "i < length m" "m ! i = r" "d = length m - i"
      using cases nth by auto
    then have "length m - d = i" "d \<le> length m" by auto
    moreover have "set (em_auth e) \<inter> set m \<noteq> {}" using i(1-3) nth_mem by blast
    moreover have "j \<le> i" if "j < length m" "m ! j \<in> set (em_auth e)" for j
      using on [OF that] i(2,4) that(1) by simp
    ultimately show ?thesis using i nz by simp
  qed
qed (use assms in \<open>simp add: mainlineDepth_def\<close>)

theorem mainline_depth_oldest_witness:
  "mainlineDepth (ex_event ''$t'' ''m.room.topic'' False [''$p3'', ''$p1''] 0) [''$p3'', ''$p2'', ''$p1''] \<le> 3"
proof -
  have "distinct [''$p3'', ''$p2'', ''$p1'']" by simp
  from conjunct1 [OF mainline_depth_oldest [OF this refl]] show ?thesis
    by (simp add: numeral_3_eq_3)
qed

text \<open>
  \<open>PickLatest\<close> returns, for each type and state key that occurs, the ID of an event of that
  type and key that no other has a greater depth, or the same depth and a later timestamp, than;
  and nothing for the others.
\<close>

theorem pick_latest:
  "case gm_get (PickLatest cands) k of
     None \<Rightarrow> \<forall>x \<in> set cands. tuple_key x \<noteq> k
   | Some i \<Rightarrow> (\<exists>e \<in> set cands. em_id e = i \<and> tuple_key e = k
        \<and> (\<forall>x \<in> set cands. tuple_key x = k \<longrightarrow> \<not> later e x))"
proof -
  have get: "gm_get (PickLatest cands) k = map_option em_id (gm_get (fold pick_step cands []) k)"
    by (simp add: PickLatest_def map_of_map)
  have "case gm_get (fold pick_step cands []) k of
            None \<Rightarrow> \<forall>x \<in> set (rev cands). tuple_key x \<noteq> k
          | Some e \<Rightarrow> e \<in> set (rev cands) \<and> tuple_key e = k \<and>
              (\<forall>x \<in> set (rev cands). tuple_key x = k \<longrightarrow> \<not> later e x)"
    using fold_pick [of cands] unfolding picked_def by blast
  then show ?thesis
    unfolding get by (cases "gm_get (fold pick_step cands []) k") auto
qed

theorem pick_latest_witness:
  "\<exists>e \<in> set ex_candidates. em_id e = ''$t'' \<and> tuple_key e = ''m.room.topic'' @ [CHR 0x00]"
proof -
  have g: "gm_get (PickLatest ex_candidates) (''m.room.topic'' @ [CHR 0x00]) = Some ''$t''"
    by code_simp
  show ?thesis using pick_latest [of ex_candidates "''m.room.topic'' @ [CHR 0x00]"] unfolding g by auto
qed

end
