(* ===== verification/Events.thy ===== *)
theory Events
  imports Canonical_Json Crypto Room_Version
begin

section \<open>Events: fields, redaction, hashes, IDs, building (\<open>internal/events\<close>)\<close>

text \<open>
  The event model of \<open>event.go\<close>, the redaction algorithm of \<open>redact.go\<close> and the build and
  signing pipeline of \<open>builder.go\<close>. Raw JSON bytes are parsed values; \<open>json.Marshal\<close> of a map of
  raw messages is the object of its sorted members. \<open>sha256\<close> and \<open>ed_sign\<close> are parameters.
  Strings are taken to be valid UTF-8, which \<open>json.Marshal\<close> leaves alone.
\<close>

datatype event_error =
    UnknownRoomVersion string
  | BadEventJson
  | CanonicalError encode_error
  | UnknownEventIDFormat
  | RequiresBuildLegacy
  | BuildLegacyOnlyV1
  | SignError crypto_error
  | SignaturesPanic

subsection \<open>Redaction\<close>

definition topLevelKeep :: "Rules \<Rightarrow> string list" where
  "topLevelKeep r =
     (let keep = [''event_id'', ''type'', ''room_id'', ''sender'', ''state_key'', ''content'',
                  ''hashes'', ''signatures'', ''depth'', ''prev_events'', ''auth_events'',
                  ''origin_server_ts''];
          keep1 = (if StateDAGs r then ''prev_state_events'' # removeAll ''auth_events'' keep else keep)
      in if \<not> UpdatedRedaction r then [''origin'', ''membership'', ''prev_state''] @ keep1 else keep1)"

text \<open>The content keys to keep, and whether the whole content is kept.\<close>

definition contentKeep :: "Rules \<Rightarrow> string \<Rightarrow> string list \<times> bool" where
  "contentKeep r eventType =
     (if eventType = ''m.room.member'' then ([''membership'', ''join_authorised_via_users_server''], False)
      else if eventType = ''m.room.create'' then
        (if UpdatedRedaction r then ([], True) else ([''creator''], False))
      else if eventType = ''m.room.join_rules'' then
        (''join_rule'' # (if RestrictedJoinAllowed r then [''allow''] else []), False)
      else if eventType = ''m.room.power_levels'' then
        ([''ban'', ''events'', ''events_default'', ''kick'', ''redact'', ''state_default'', ''users'',
          ''users_default''] @ (if UpdatedRedaction r then [''invite''] else []), False)
      else if eventType = ''m.room.history_visibility'' then ([''history_visibility''], False)
      else if eventType = ''m.room.redaction'' then
        (if UpdatedRedaction r then [''redacts''] else [], False)
      else if eventType = ''m.room.aliases'' then
        (if \<not> NotificationsPowerLevel r then [''aliases''] else [], False)
      else ([], False))"

text \<open>\<open>null\<close> decodes to a nil map, which holds neither key.\<close>

definition redactRelation :: "json \<Rightarrow> json option" where
  "redactRelation j =
     (case unmarshal_obj j of
        None \<Rightarrow> None
      | Some relation \<Rightarrow>
          let kept = filter (\<lambda>e. fst e \<in> {''rel_type'', ''event_id''}) relation
          in if kept = [] then None else Some (JObj kept))"

definition extractSigned :: "json \<Rightarrow> json option" where
  "extractSigned tpi =
     (case unmarshal_obj tpi of
        None \<Rightarrow> None
      | Some obj \<Rightarrow>
          (case gm_get obj ''signed'' of
             None \<Rightarrow> None
           | Some signed \<Rightarrow> Some (JObj [(''signed'', signed)])))"

text \<open>Replacing a member of \<open>pruned\<close> by what a pruning function leaves of the original.\<close>

definition keep_part :: "bool \<Rightarrow> string \<Rightarrow> (json \<Rightarrow> json option) \<Rightarrow> json gomap \<Rightarrow> json gomap \<Rightarrow> json gomap" where
  "keep_part on key f content pruned =
     (if on then
        (case gm_get content key of
           None \<Rightarrow> pruned
         | Some j \<Rightarrow> (case f j of None \<Rightarrow> pruned | Some k \<Rightarrow> gm_put key k pruned))
      else pruned)"

definition redact_content :: "Rules \<Rightarrow> string \<Rightarrow> json \<Rightarrow> json" where
  "redact_content r eventType rawContent =
     (let (keepKeys, keepAll) = contentKeep r eventType
      in if keepAll then rawContent
         else case unmarshal_obj rawContent of
           None \<Rightarrow> JObj []
         | Some content \<Rightarrow>
             let pruned = filter (\<lambda>e. fst e \<in> set keepKeys) content;
                 pruned1 = keep_part (UpdatedRedaction r \<and> eventType = ''m.room.member'')
                             ''third_party_invite'' extractSigned content pruned;
                 pruned2 = keep_part (RedactionKeepsRelations r) ''m.relates_to''
                             redactRelation content pruned1
             in JObj pruned2)"

definition string_in :: "json gomap \<Rightarrow> string \<Rightarrow> string" where
  "string_in members name =
     (case gm_get members name of None \<Rightarrow> [] | Some j \<Rightarrow> snd (dec_string j []))"

definition Redact :: "json \<Rightarrow> Rules \<Rightarrow> json gomap option" where
  "Redact j r =
     (case unmarshal_obj j of
        None \<Rightarrow> None
      | Some full \<Rightarrow>
          let out = filter (\<lambda>e. fst e \<in> set (topLevelKeep r)) full;
              eventType = string_in full ''type''
          in Some (gm_put ''content''
               (case gm_get full ''content'' of
                  None \<Rightarrow> JObj []
                | Some rawContent \<Rightarrow> redact_content r eventType rawContent) out))"

subsection \<open>Hashes and event IDs\<close>

definition ContentHash :: "(string \<Rightarrow> string) \<Rightarrow> json \<Rightarrow> event_error + string" where
  "ContentHash sha256 j =
     (case unmarshal_obj j of
        None \<Rightarrow> Inl BadEventJson
      | Some obj \<Rightarrow>
          (case Canonical (if j = JNull then JNull
                           else JObj (gm_del ''hashes'' (gm_del ''signatures'' (gm_del ''unsigned'' obj)))) of
             Inl e \<Rightarrow> Inl (CanonicalError e)
           | Inr canonical \<Rightarrow> Inr (UnpaddedBase64 (sha256 canonical))))"

definition referenceHash :: "(string \<Rightarrow> string) \<Rightarrow> json \<Rightarrow> Rules \<Rightarrow> event_error + string" where
  "referenceHash sha256 j r =
     (case Redact j r of
        None \<Rightarrow> Inl BadEventJson
      | Some redacted \<Rightarrow>
          (case Canonical (JObj (gm_del ''unsigned'' (gm_del ''signatures'' redacted))) of
             Inl e \<Rightarrow> Inl (CanonicalError e)
           | Inr canonical \<Rightarrow> Inr (sha256 canonical)))"

definition ReferenceHashBase64 :: "(string \<Rightarrow> string) \<Rightarrow> json \<Rightarrow> Rules \<Rightarrow> event_error + string" where
  "ReferenceHashBase64 sha256 j r = bind_result (referenceHash sha256 j r) (\<lambda>h. Inr (UnpaddedBase64 h))"

definition ReferenceHashBase64URL :: "(string \<Rightarrow> string) \<Rightarrow> json \<Rightarrow> Rules \<Rightarrow> event_error + string" where
  "ReferenceHashBase64URL sha256 j r = bind_result (referenceHash sha256 j r) (\<lambda>h. Inr (URLSafeBase64 h))"

definition EventIDFromRaw :: "(string \<Rightarrow> string) \<Rightarrow> json \<Rightarrow> Rules \<Rightarrow> event_error + string" where
  "EventIDFromRaw sha256 j rules =
     (if EventIDFormat rules = EventIDLegacy then
        (let (ok, i) = dec_struct (str_field ''event_id'') j [] in if ok then Inr i else Inl BadEventJson)
      else
        bind_result (referenceHash sha256 j rules) (\<lambda>h.
          case EventIDFormat rules of
            EventIDSHA256 \<Rightarrow> Inr (CHR ''$'' # UnpaddedBase64 h)
          | EventIDSHA256URLSafe \<Rightarrow> Inr (CHR ''$'' # URLSafeBase64 h)
          | _ \<Rightarrow> Inl UnknownEventIDFormat))"

subsection \<open>Parsed events\<close>

record Event =
  ev_raw :: json
  ev_fields :: "json gomap"
  ev_version :: Version
  ev_rules :: Rules
  ev_event_id :: string

definition New :: "json \<Rightarrow> Version \<Rightarrow> event_error + Event" where
  "New j version =
     (case Get version of
        None \<Rightarrow> Inl (UnknownRoomVersion version)
      | Some rules \<Rightarrow>
          (case unmarshal_obj j of
             None \<Rightarrow> Inl BadEventJson
           | Some members \<Rightarrow> Inr \<lparr>ev_raw = j, ev_fields = members, ev_version = version,
                               ev_rules = rules, ev_event_id = []\<rparr>))"

definition stringField :: "Event \<Rightarrow> string \<Rightarrow> string" where
  "stringField e name = string_in (ev_fields e) name"

definition StateKey :: "Event \<Rightarrow> string option" where
  "StateKey e =
     (case gm_get (ev_fields e) ''state_key'' of
        None \<Rightarrow> None
      | Some j \<Rightarrow> (let (ok, s) = dec_string j [] in if ok then Some s else None))"

definition IsState :: "Event \<Rightarrow> bool" where
  "IsState e = (gm_get (ev_fields e) ''state_key'' \<noteq> None)"

definition int_field :: "Event \<Rightarrow> string \<Rightarrow> int" where
  "int_field e name =
     (case gm_get (ev_fields e) name of None \<Rightarrow> 0 | Some j \<Rightarrow> snd (dec_int64 j 0))"

definition Depth :: "Event \<Rightarrow> int" where "Depth e = int_field e ''depth''"
definition OriginServerTS :: "Event \<Rightarrow> int" where "OriginServerTS e = int_field e ''origin_server_ts''"

definition Content :: "Event \<Rightarrow> json" where
  "Content e = (case gm_get (ev_fields e) ''content'' of Some j \<Rightarrow> j | None \<Rightarrow> JObj [])"

definition eventRefs :: "Event \<Rightarrow> string \<Rightarrow> string list" where
  "eventRefs e field =
     (case gm_get (ev_fields e) field of
        None \<Rightarrow> []
      | Some v \<Rightarrow>
          if EventFormatV1 (ev_rules e) then
            (let (ok, pairs) = dec_slice [] (dec_slice None dec_raw) v []
             in if \<not> ok then []
                else concat (map (\<lambda>p. case p of
                         [] \<Rightarrow> []
                       | x # _ \<Rightarrow> (let (ok1, i) = unmarshal dec_string [] x in if ok1 then [i] else [])) pairs))
          else (let (ok, is) = dec_slice [] dec_string v [] in if ok then is else []))"

definition PrevEvents :: "Event \<Rightarrow> string list" where "PrevEvents e = eventRefs e ''prev_events''"
definition AuthEvents :: "Event \<Rightarrow> string list" where "AuthEvents e = eventRefs e ''auth_events''"
definition PrevStateEvents :: "Event \<Rightarrow> string list" where
  "PrevStateEvents e = eventRefs e ''prev_state_events''"

text \<open>A failed hash leaves the ID empty.\<close>

definition EventID :: "(string \<Rightarrow> string) \<Rightarrow> Event \<Rightarrow> string" where
  "EventID sha256 e =
     (if ev_event_id e \<noteq> [] then ev_event_id e
      else case EventIDFormat (ev_rules e) of
             EventIDLegacy \<Rightarrow> stringField e ''event_id''
           | EventIDSHA256 \<Rightarrow>
               (case referenceHash sha256 (ev_raw e) (ev_rules e) of
                  Inl _ \<Rightarrow> [] | Inr h \<Rightarrow> CHR ''$'' # UnpaddedBase64 h)
           | EventIDSHA256URLSafe \<Rightarrow>
               (case referenceHash sha256 (ev_raw e) (ev_rules e) of
                  Inl _ \<Rightarrow> [] | Inr h \<Rightarrow> CHR ''$'' # URLSafeBase64 h)
           | EventIDUnset \<Rightarrow> [])"

definition Redacted :: "Event \<Rightarrow> json option" where
  "Redacted e = map_option JObj (Redact (ev_raw e) (ev_rules e))"

subsection \<open>Building and signing\<close>

record Builder =
  b_type :: string
  b_state_key :: "string option"
  b_sender :: string
  b_room_id :: string
  b_content :: raw
  b_redacts :: string
  b_unsigned :: raw
  b_prev_events :: "string list"
  b_auth_events :: "string list"
  b_prev_state_events :: "string list"
  b_depth :: int
  b_origin_server_ts :: int
  b_origin :: string

definition setString :: "string \<Rightarrow> string \<Rightarrow> json gomap \<Rightarrow> json gomap" where
  "setString k v m = gm_put k (JStr v) m"

definition json_int :: "int \<Rightarrow> json" where "json_int i = JNum (format_int i)"
definition json_strings :: "string list \<Rightarrow> json" where "json_strings xs = JArr (map JStr xs)"
definition nonNil :: "raw \<Rightarrow> json" where "nonNil r = (case r of None \<Rightarrow> JObj [] | Some j \<Rightarrow> j)"

definition legacyRefs :: "string list \<Rightarrow> json" where
  "legacyRefs is = JArr (map (\<lambda>i. JArr [JStr i, JObj []]) is)"

text \<open>Setting a member when a condition holds.\<close>

definition put_when :: "bool \<Rightarrow> string \<Rightarrow> json \<Rightarrow> json gomap \<Rightarrow> json gomap" where
  "put_when b k v m = (if b then gm_put k v m else m)"

definition SignRedacted ::
  "(string \<Rightarrow> string \<Rightarrow> string) \<Rightarrow> string \<Rightarrow> SigningKey \<Rightarrow> json \<Rightarrow> Rules \<Rightarrow> event_error + json" where
  "SignRedacted ed_sign serverName key j rules =
     (case Redact j rules of
        None \<Rightarrow> Inl BadEventJson
      | Some redacted \<Rightarrow>
          (case SignedBytes ed_sign key (JObj redacted) of
             Inl e \<Rightarrow> Inl (SignError e)
           | Inr sig \<Rightarrow>
               (case unmarshal_obj j of
                  None \<Rightarrow> Inl BadEventJson
                | Some full \<Rightarrow>
                    let fresh = [(serverName, [(KeyID key, sig)])];
                        signatures = (case gm_get full ''signatures'' of
                            None \<Rightarrow> Inr fresh
                          | Some JNull \<Rightarrow> Inl SignaturesPanic
                          | Some existing \<Rightarrow>
                              Inr (put_signature serverName (KeyID key) sig
                                     (snd (dec_signatures existing fresh))))
                    in (case signatures of
                          Inl e \<Rightarrow> Inl e
                        | Inr sigs \<Rightarrow>
                            if j = JNull then Inl SignaturesPanic
                            else Inr (JObj (gm_put ''signatures'' (signatures_json sigs) full))))))"

text \<open>The members \<open>Build\<close> assembles, in the order it sets them.\<close>

definition build_object :: "Builder \<Rightarrow> Rules \<Rightarrow> json gomap" where
  "build_object b rules =
     put_when (b_unsigned b \<noteq> None) ''unsigned'' (nonNil (b_unsigned b))
    (put_when (b_state_key b \<noteq> None) ''state_key'' (JStr (case b_state_key b of Some k \<Rightarrow> k | None \<Rightarrow> []))
    (put_when (b_redacts b \<noteq> []) ''redacts'' (JStr (b_redacts b))
    ((if StateDAGs rules
      then gm_put ''prev_state_events'' (json_strings (b_prev_state_events b))
      else gm_put ''auth_events'' (json_strings (b_auth_events b)))
    (gm_put ''prev_events'' (json_strings (b_prev_events b))
    (gm_put ''origin_server_ts'' (json_int (b_origin_server_ts b))
    (gm_put ''depth'' (json_int (b_depth b))
    (gm_put ''content'' (nonNil (b_content b))
    (put_when (b_room_id b \<noteq> [] \<or> \<not> RoomIDIsCreateHash rules \<or> b_type b \<noteq> ''m.room.create'')
       ''room_id'' (JStr (b_room_id b))
    (put_when (b_origin b \<noteq> []) ''origin'' (JStr (b_origin b))
    (setString ''sender'' (b_sender b)
    (setString ''type'' (b_type b) [])))))))))))"

definition legacy_object :: "Builder \<Rightarrow> string \<Rightarrow> json gomap" where
  "legacy_object b eventID =
     put_when (b_unsigned b \<noteq> None) ''unsigned'' (nonNil (b_unsigned b))
    (put_when (b_state_key b \<noteq> None) ''state_key'' (JStr (case b_state_key b of Some k \<Rightarrow> k | None \<Rightarrow> []))
    (gm_put ''auth_events'' (legacyRefs (b_auth_events b))
    (gm_put ''prev_events'' (legacyRefs (b_prev_events b))
    (put_when (b_redacts b \<noteq> []) ''redacts'' (JStr (b_redacts b))
    (gm_put ''origin_server_ts'' (json_int (b_origin_server_ts b))
    (gm_put ''depth'' (json_int (b_depth b))
    (gm_put ''content'' (nonNil (b_content b))
    (setString ''event_id'' eventID
    (put_when (b_origin b \<noteq> []) ''origin'' (JStr (b_origin b))
    (setString ''room_id'' (b_room_id b)
    (setString ''sender'' (b_sender b)
    (setString ''type'' (b_type b) []))))))))))))"

text \<open>The common end of both pipelines: content hash, then signature.\<close>

definition hash_and_sign ::
  "(string \<Rightarrow> string) \<Rightarrow> (string \<Rightarrow> string \<Rightarrow> string) \<Rightarrow> string \<Rightarrow> SigningKey \<Rightarrow> Rules \<Rightarrow> json gomap
     \<Rightarrow> event_error + json" where
  "hash_and_sign sha256 ed_sign serverName key rules obj =
     (case ContentHash sha256 (JObj obj) of
        Inl e \<Rightarrow> Inl e
      | Inr ch \<Rightarrow>
          SignRedacted ed_sign serverName key
            (JObj (gm_put ''hashes'' (JObj [(''sha256'', JStr ch)]) obj)) rules)"

definition Build ::
  "(string \<Rightarrow> string) \<Rightarrow> (string \<Rightarrow> string \<Rightarrow> string) \<Rightarrow> Builder \<Rightarrow> string \<Rightarrow> SigningKey \<Rightarrow> Version
     \<Rightarrow> event_error + Event" where
  "Build sha256 ed_sign b serverName key version =
     (case Get version of
        None \<Rightarrow> Inl (UnknownRoomVersion version)
      | Some rules \<Rightarrow>
          if EventFormatV1 rules then Inl RequiresBuildLegacy
          else (case hash_and_sign sha256 ed_sign serverName key rules (build_object b rules) of
                  Inl e \<Rightarrow> Inl e
                | Inr signed \<Rightarrow> New signed version))"

definition BuildLegacy ::
  "(string \<Rightarrow> string) \<Rightarrow> (string \<Rightarrow> string \<Rightarrow> string) \<Rightarrow> Builder \<Rightarrow> string \<Rightarrow> SigningKey \<Rightarrow> Version \<Rightarrow> string
     \<Rightarrow> event_error + Event" where
  "BuildLegacy sha256 ed_sign b serverName key version localpart =
     (case Get version of
        None \<Rightarrow> Inl (UnknownRoomVersion version)
      | Some rules \<Rightarrow>
          if \<not> EventFormatV1 rules then Inl BuildLegacyOnlyV1
          else
            let eventID = CHR ''$'' # localpart @ CHR '':'' # serverName
            in (case hash_and_sign sha256 ed_sign serverName key rules (legacy_object b eventID) of
                  Inl e \<Rightarrow> Inl e
                | Inr signed \<Rightarrow>
                    (case New signed version of
                       Inl e \<Rightarrow> Inl e
                     | Inr ev \<Rightarrow> Inr (ev\<lparr>ev_event_id := eventID\<rparr>))))"

definition BuildForVersion ::
  "(string \<Rightarrow> string) \<Rightarrow> (string \<Rightarrow> string \<Rightarrow> string) \<Rightarrow> string \<Rightarrow> Builder \<Rightarrow> string \<Rightarrow> SigningKey \<Rightarrow> Version
     \<Rightarrow> event_error + Event" where
  "BuildForVersion sha256 ed_sign randomSuffix b serverName key version =
     (case Get version of
        None \<Rightarrow> Inl (UnknownRoomVersion version)
      | Some rules \<Rightarrow>
          if EventFormatV1 rules then BuildLegacy sha256 ed_sign b serverName key version randomSuffix
          else Build sha256 ed_sign b serverName key version)"

end
