(* ===== verification/Events_Laws.thy ===== *)
theory Events_Laws
  imports Events
begin

section \<open>What redaction, hashing and signing guarantee\<close>

text \<open>
  Redaction is characterised by the lookups of the redacted map, from which follow its
  idempotence and the independence of event IDs from everything redaction drops. The build
  pipeline is shown to put in the hash and the signature that the checks accept.
\<close>

subsection \<open>Lookups of a redacted event\<close>

lemma get_filter_keys:
  "gm_get (filter (\<lambda>e. fst e \<in> K) m) k = (if k \<in> K then gm_get m k else None)"
  using gm_get_filter_key [of "\<lambda>k. k \<in> K" m] by simp

lemma keep_part_ok [simp]: "gm_ok pruned \<Longrightarrow> gm_ok (keep_part on key f content pruned)"
  by (simp add: keep_part_def split: option.split)

lemma keep_part_get:
  assumes "gm_ok pruned"
  shows "gm_get (keep_part on key f content pruned) k =
    (if k = key \<and> on \<and> Option.bind (gm_get content key) f \<noteq> None
     then Option.bind (gm_get content key) f else gm_get pruned k)"
  using assms by (auto simp: keep_part_def gm_get_put split: option.split)

lemma extractSigned_stable: "extractSigned j = Some k \<Longrightarrow> extractSigned k = Some k"
  by (auto simp: extractSigned_def gm_of_def split: option.splits)

lemma redactRelation_stable: "redactRelation j = Some k \<Longrightarrow> redactRelation k = Some k"
proof -
  assume "redactRelation j = Some k"
  then obtain m where m: "unmarshal_obj j = Some m" "filter (\<lambda>e. fst e \<in> {''rel_type'', ''event_id''}) m \<noteq> []"
      "k = JObj (filter (\<lambda>e. fst e \<in> {''rel_type'', ''event_id''}) m)"
    by (auto simp: redactRelation_def Let_def split: option.splits if_splits)
  have "gm_ok (filter (\<lambda>e. fst e \<in> {''rel_type'', ''event_id''}) m)"
    using unmarshal_obj_ok [OF m(1)] by simp
  then show ?thesis
    using m(2,3) by (simp add: redactRelation_def Let_def gm_of_idem del: unmarshal_obj.simps)
qed

lemma contentKeep_plain:
  "''third_party_invite'' \<notin> set (fst (contentKeep r ty))" "''m.relates_to'' \<notin> set (fst (contentKeep r ty))"
  by (simp_all add: contentKeep_def)

lemma redact_content_stable: "redact_content r ty (redact_content r ty c) = redact_content r ty c"
proof (cases "snd (contentKeep r ty)")
  case True
  then show ?thesis by (simp add: redact_content_def case_prod_beta)
next
  case False
  let ?K = "set (fst (contentKeep r ty))"
  let ?on = "UpdatedRedaction r \<and> ty = ''m.room.member''"
  let ?part = "\<lambda>c. keep_part (RedactionKeepsRelations r) ''m.relates_to'' redactRelation c
      (keep_part ?on ''third_party_invite'' extractSigned c (filter (\<lambda>e. fst e \<in> ?K) c))"
  have unf: "redact_content r ty c = (case unmarshal_obj c of None \<Rightarrow> JObj [] | Some m \<Rightarrow> JObj (?part m))" for c
    using False by (simp add: redact_content_def case_prod_beta Let_def split: option.split)
  have ok: "gm_ok (?part m)" if "gm_ok m" for m using that by simp
  have get: "gm_get (?part m) k =
     (if k = ''m.relates_to'' then
        (if RedactionKeepsRelations r then Option.bind (gm_get m k) redactRelation else None)
      else if k = ''third_party_invite'' then (if ?on then Option.bind (gm_get m k) extractSigned else None)
      else if k \<in> ?K then gm_get m k else None)" if "gm_ok m" for m k
    using that contentKeep_plain [of r ty] by (auto simp: keep_part_get get_filter_keys)
  have stable: "?part (?part m) = ?part m" if m: "gm_ok m" for m
  proof (rule gm_eqI [OF ok [OF ok [OF m]] ok [OF m]])
    fix k
    show "gm_get (?part (?part m)) k = gm_get (?part m) k"
      unfolding get [OF ok [OF m]] get [OF m]
      by (auto simp: Option.bind_eq_Some_conv extractSigned_stable redactRelation_stable
            split: Option.bind_splits)
  qed
  show ?thesis
  proof (cases "unmarshal_obj c")
    case None
    have "?part [] = []" by (simp add: keep_part_def)
    then show ?thesis using None by (simp add: unf gm_of_def)
  next
    case (Some m)
    then have "gm_ok m" by (rule unmarshal_obj_ok)
    then show ?thesis
      unfolding unf [of c] Some option.case using stable ok
      by (simp add: unf [of "JObj (?part m)"] gm_of_idem)
  qed
qed

lemma Redact_ok: "Redact j r = Some m \<Longrightarrow> gm_ok m"
  by (auto simp: Redact_def Let_def split: option.splits dest!: unmarshal_obj_ok)

lemma content_kept: "''content'' \<in> set (topLevelKeep r)" "''type'' \<in> set (topLevelKeep r)"
  "''signatures'' \<in> set (topLevelKeep r)"
  by (simp_all add: topLevelKeep_def Let_def)

text \<open>The content a redacted event has.\<close>

definition redacted_content :: "Rules \<Rightarrow> json gomap \<Rightarrow> json" where
  "redacted_content r full =
     (case gm_get full ''content'' of
        None \<Rightarrow> JObj [] | Some c \<Rightarrow> redact_content r (string_in full ''type'') c)"

lemma Redact_get:
  assumes "unmarshal_obj j = Some full" and "Redact j r = Some m"
  shows "gm_get m k =
    (if k = ''content'' then Some (redacted_content r full)
     else if k \<in> set (topLevelKeep r) then gm_get full k else None)"
  using assms unmarshal_obj_ok [OF assms(1)]
  by (auto simp: Redact_def Let_def gm_get_put get_filter_keys redacted_content_def)

lemma Redact_total: "unmarshal_obj j = Some full \<Longrightarrow> \<exists>m. Redact j r = Some m"
  by (simp add: Redact_def)

lemma redact_content_empty: "redact_content r ty (JObj []) = JObj []"
  by (simp add: redact_content_def case_prod_beta gm_of_def keep_part_def Let_def)

lemma redacted_content_stable:
  assumes "unmarshal_obj j = Some full" and "Redact j r = Some m"
  shows "redacted_content r m = redacted_content r full"
proof -
  note get = Redact_get [OF assms]
  have "string_in m ''type'' = string_in full ''type''"
    using content_kept by (simp add: string_in_def get)
  moreover have "gm_get m ''content'' = Some (redacted_content r full)" by (simp add: get)
  ultimately show ?thesis
    by (simp add: redacted_content_def redact_content_stable redact_content_empty split: option.split)
qed

text \<open>Two events that redaction cannot tell apart redact to the same map.\<close>

lemma Redact_cong:
  assumes "unmarshal_obj j = Some f" and "unmarshal_obj j' = Some f'"
    and "redacted_content r f = redacted_content r f'"
    and "\<And>k. k \<in> set (topLevelKeep r) \<Longrightarrow> k \<noteq> ''content'' \<Longrightarrow> gm_get f k = gm_get f' k"
  shows "Redact j r = Redact j' r"
proof -
  obtain m m' where m: "Redact j r = Some m" "Redact j' r = Some m'"
    using Redact_total assms(1,2) by metis
  have "m = m'"
  proof (rule gm_eqI [OF Redact_ok [OF m(1)] Redact_ok [OF m(2)]])
    show "gm_get m k = gm_get m' k" for k
      using assms(3,4) by (simp add: Redact_get [OF assms(1) m(1)] Redact_get [OF assms(2) m(2)])
  qed
  then show ?thesis using m by simp
qed

subsection \<open>Hashes\<close>

lemma EventIDFromRaw_cong:
  "Redact j r = Redact j' r \<Longrightarrow> EventIDFormat r \<noteq> EventIDLegacy \<Longrightarrow>
   EventIDFromRaw sha j r = EventIDFromRaw sha j' r"
  by (simp add: EventIDFromRaw_def referenceHash_def)

text \<open>The reference hash ignores signatures and unsigned data as well.\<close>

lemma Redact_signatures_get:
  assumes "gm_ok m" and "gm_ok n" and "\<And>k. k \<noteq> ''signatures'' \<Longrightarrow> k \<noteq> ''unsigned'' \<Longrightarrow> gm_get m k = gm_get n k"
  shows "gm_del ''unsigned'' (gm_del ''signatures'' m) = gm_del ''unsigned'' (gm_del ''signatures'' n)"
proof (rule gm_eqI)
  show "gm_get (gm_del ''unsigned'' (gm_del ''signatures'' m)) k =
        gm_get (gm_del ''unsigned'' (gm_del ''signatures'' n)) k" for k
  proof (cases "k = ''signatures'' \<or> k = ''unsigned''")
    case True
    then show ?thesis by (auto simp only: gm_get_del fun_upd_apply if_True if_False simp_thms if_cancel split: if_split)
  next
    case False
    then show ?thesis using assms(3) [of k] by (simp only: gm_get_del fun_upd_apply if_False de_Morgan_disj simp_thms)
  qed
qed (rule gm_ok_del, rule gm_ok_del, rule assms)+

lemma redacted_content_cong:
  "gm_get f ''content'' = gm_get f' ''content'' \<Longrightarrow> gm_get f ''type'' = gm_get f' ''type'' \<Longrightarrow>
   redacted_content r f = redacted_content r f'"
  by (simp add: redacted_content_def string_in_def split: option.split)

lemma EventIDFromRaw_agree:
  assumes "EventIDFormat r \<noteq> EventIDLegacy"
    and f: "unmarshal_obj j = Some f" and f': "unmarshal_obj j' = Some f'"
    and "\<And>k. k \<in> set (topLevelKeep r) \<Longrightarrow> k \<noteq> ''signatures'' \<Longrightarrow> gm_get f k = gm_get f' k"
  shows "EventIDFromRaw sha j r = EventIDFromRaw sha j' r"
proof -
  obtain m m' where m: "Redact j r = Some m" and m': "Redact j' r = Some m'"
    using Redact_total [OF f] Redact_total [OF f'] by blast
  have c: "redacted_content r f = redacted_content r f'"
    using assms(4) content_kept by (intro redacted_content_cong) auto
  have "gm_del ''unsigned'' (gm_del ''signatures'' m) = gm_del ''unsigned'' (gm_del ''signatures'' m')"
  proof (rule Redact_signatures_get [OF Redact_ok [OF m] Redact_ok [OF m']])
    fix k :: string
    assume "k \<noteq> ''signatures''"
    then show "gm_get m k = gm_get m' k"
      using assms(4) c by (simp add: Redact_get [OF f m] Redact_get [OF f' m'])
  qed
  then show ?thesis
    using assms(1) by (simp add: EventIDFromRaw_def referenceHash_def m m')
qed

subsection \<open>Signatures\<close>

text \<open>What a signed map of signatures reads back as.\<close>

lemma dec_members_strings:
  "dec_members [] dec_string (map (\<lambda>(k, s). (k, JStr s)) m) acc =
     (True, fold (\<lambda>e. gm_put (fst e) (snd e)) m acc)"
  by (induction m arbitrary: acc) auto

lemma dec_members_sigs:
  "dec_members [] (dec_map [] dec_string) (map (\<lambda>(e, m). (e, JObj (map (\<lambda>(k, s). (k, JStr s)) m))) sigs) acc =
     (True, fold (\<lambda>e. gm_put (fst e) (gm_of (snd e))) sigs acc)"
  by (induction sigs arbitrary: acc) (auto simp: dec_members_strings gm_of_def)

lemma dec_signatures_get:
  assumes "gm_ok sigs" and "gm_get sigs entity = Some m" and "gm_ok m"
  shows "fst (dec_signatures (signatures_json sigs) []) \<and>
         gm_get (snd (dec_signatures (signatures_json sigs) [])) entity = Some m"
proof -
  have "fold (\<lambda>e. gm_put (fst e) (gm_of (snd e))) sigs acc =
        fold (\<lambda>e. gm_put (fst e) (snd e)) (map (\<lambda>(k, v). (k, gm_of v)) sigs) acc" for acc
    by (induction sigs arbitrary: acc) auto
  then have "dec_signatures (signatures_json sigs) [] = (True, map (\<lambda>(k, v). (k, gm_of v)) sigs)"
    using gm_of_idem [OF assms(1)] gm_of_map_val [of gm_of sigs]
    by (simp add: dec_signatures_def signatures_json_def dec_members_sigs gm_of_def)
  then show ?thesis
    using assms(2,3) by (simp add: map_of_map gm_of_idem)
qed

definition signatures_ok :: "signatures \<Rightarrow> bool" where
  "signatures_ok sigs \<longleftrightarrow> gm_ok sigs \<and> (\<forall>e \<in> set sigs. gm_ok (snd e))"

lemma gm_put_set: "e \<in> set (gm_put k v m) \<Longrightarrow> e = (k, v) \<or> e \<in> set m"
  by (induction m) (auto split: if_splits)

lemma dec_members_signatures_ok:
  "signatures_ok acc \<Longrightarrow> signatures_ok (snd (dec_members [] (dec_map [] dec_string) kvs acc))"
proof (induction kvs arbitrary: acc)
  case (Cons kv kvs)
  obtain k j where kv: "kv = (k, j)" by (cases kv)
  have "signatures_ok (gm_put k (snd (dec_map [] dec_string j [])) acc)"
    using Cons.prems gm_put_set dec_map_ok [of "[]" "[]" dec_string j]
    by (fastforce simp: signatures_ok_def)
  from Cons.IH [OF this] show ?case by (simp add: kv case_prod_beta)
qed simp

lemma dec_signatures_ok: "signatures_ok old \<Longrightarrow> signatures_ok (snd (dec_signatures j old))"
  unfolding dec_signatures_def
  by (cases j) (simp_all add: dec_members_signatures_ok, simp add: signatures_ok_def)

lemma gm_get_set: "gm_get m k = Some v \<Longrightarrow> (k, v) \<in> set m"
  by (rule map_of_SomeD)

lemma put_signature_get:
  assumes "signatures_ok sigs"
  shows "\<exists>m. gm_get (put_signature entity kid sig sigs) entity = Some m \<and> gm_ok m \<and> gm_get m kid = Some sig
           \<and> gm_ok (put_signature entity kid sig sigs)"
proof -
  let ?old = "case gm_get sigs entity of None \<Rightarrow> [] | Some m \<Rightarrow> m"
  have "gm_ok ?old"
    using assms gm_get_set [of sigs entity] by (force simp: signatures_ok_def split: option.split)
  moreover have "gm_ok sigs" using assms by (simp add: signatures_ok_def)
  ultimately show ?thesis
    by (simp add: put_signature_def gm_get_put)
qed

lemma signable_JObj:
  "signable (JObj m) m = Canonical (JObj (gm_del ''unsigned'' (gm_del ''signatures'' m)))"
  by (simp add: signable_def)

text \<open>The shape of a signed event: its object with a signature block that holds the signature.\<close>

lemma SignRedacted_cases:
  assumes "SignRedacted ed_sign srv key j r = Inr signed" and "unmarshal_obj j = Some full"
  obtains redacted bytes sigs where "Redact j r = Some redacted"
    and "signable (JObj redacted) redacted = Inr bytes"
    and "signed = JObj (gm_put ''signatures'' (signatures_json sigs) full)"
    and "\<exists>m. gm_get sigs srv = Some m \<and> gm_ok m \<and> gm_ok sigs
           \<and> gm_get m (KeyID key) = Some (UnpaddedBase64 (ed_sign (key_private key) bytes))"
proof -
  obtain redacted where red: "Redact j r = Some redacted" using Redact_total [OF assms(2)] by blast
  have ok: "gm_ok redacted" using Redact_ok [OF red] .
  then have u: "unmarshal_obj (JObj redacted) = Some redacted" by (rule unmarshal_obj_JObj)
  from assms red obtain bytes where b: "signable (JObj redacted) redacted = Inr bytes"
    by (auto simp: SignRedacted_def SignedBytes_def u gm_of_idem ok split: sum.splits)
  let ?sig = "UnpaddedBase64 (ed_sign (key_private key) bytes)"
  let ?fresh = "[(srv, [(KeyID key, ?sig)])]"
  have fresh: "signatures_ok ?fresh" by (simp add: signatures_ok_def gm_ok_def)
  have sb: "SignedBytes ed_sign key (JObj redacted) = Inr ?sig"
    by (simp add: SignedBytes_def u b del: unmarshal_obj.simps)
  show thesis
  proof (cases "gm_get full ''signatures''")
    case None
    then show thesis
      using assms red fresh
      by (intro that [OF red b, of ?fresh])
         (auto simp: SignRedacted_def sb Let_def signatures_ok_def split: if_splits)
  next
    case (Some ex)
    let ?sigs = "put_signature srv (KeyID key) ?sig (snd (dec_signatures ex ?fresh))"
    have "ex \<noteq> JNull" using assms red Some by (auto simp: SignRedacted_def sb Let_def)
    then have signed: "signed = JObj (gm_put ''signatures'' (signatures_json ?sigs) full)"
      using assms red Some by (auto simp: SignRedacted_def sb Let_def split: if_splits json.splits)
    show thesis
      using put_signature_get [OF dec_signatures_ok [OF fresh]]
      by (intro that [OF red b signed]) blast
  qed
qed

lemma sigs_key: "''signatures'' \<noteq> ''content''" "''signatures'' \<noteq> ''type''"
  by simp_all

lemma put_signatures_redacted:
  assumes "unmarshal_obj j = Some full" and "Redact j r = Some m"
    and "Redact (JObj (gm_put ''signatures'' s full)) r = Some m'"
  shows "gm_get m' ''signatures'' = Some s"
    and "gm_del ''unsigned'' (gm_del ''signatures'' m') = gm_del ''unsigned'' (gm_del ''signatures'' m)"
proof -
  have ok: "gm_ok full" by (rule unmarshal_obj_ok [OF assms(1)])
  then have u: "unmarshal_obj (JObj (gm_put ''signatures'' s full)) = Some (gm_put ''signatures'' s full)"
    by (intro unmarshal_obj_JObj gm_ok_put)
  note get = Redact_get [OF u assms(3)] and get0 = Redact_get [OF assms(1,2)]
  show "gm_get m' ''signatures'' = Some s"
    using content_kept sigs_key ok by (simp add: get gm_get_put)
  have c: "redacted_content r (gm_put ''signatures'' s full) = redacted_content r full"
    by (rule redacted_content_cong) (simp_all add: gm_get_put ok)
  show "gm_del ''unsigned'' (gm_del ''signatures'' m') = gm_del ''unsigned'' (gm_del ''signatures'' m)"
  proof (rule Redact_signatures_get [OF Redact_ok [OF assms(3)] Redact_ok [OF assms(2)]])
    fix k :: string
    assume "k \<noteq> ''signatures''"
    then show "gm_get m' k = gm_get m k" by (simp add: get get0 c gm_get_put ok)
  qed
qed

lemma VerifyJSON_accepts:
  assumes "gm_ok obj" and "gm_get obj ''signatures'' = Some (signatures_json sigs)" and "gm_ok sigs"
    and "gm_get sigs entity = Some m" and "gm_ok m" and "gm_get m kid = Some (UnpaddedBase64 sig)"
    and "signable (JObj obj) obj = Inr bytes" and "edv pub bytes sig"
  shows "VerifyJSON edv entity kid pub (JObj obj) = Inr ()"
proof -
  obtain sigs' where "dec_signatures (signatures_json sigs) [] = (True, sigs')" "gm_get sigs' entity = Some m"
    using dec_signatures_get [OF assms(3,4,5)] by (metis prod.collapse)
  then show ?thesis
    using assms unmarshal_obj_JObj [OF assms(1)]
    by (simp add: VerifyJSON_def UnpaddedBase64_roundtrip verifyBytes_def del: unmarshal_obj.simps)
qed

subsection \<open>The build pipeline\<close>

lemma put_when_ok [simp]: "gm_ok m \<Longrightarrow> gm_ok (put_when b k v m)"
  by (simp add: put_when_def)

lemma put_when_get [gomap_simps]:
  "gm_ok m \<Longrightarrow> gm_get (put_when b k v m) = (if b then (gm_get m)(k \<mapsto> v) else gm_get m)"
  by (simp add: put_when_def gm_get_put fun_eq_iff)

lemma build_object_ok [simp]: "gm_ok (build_object b rules)"
  by (simp add: build_object_def setString_def del: gm_put.simps)

lemma legacy_object_ok [simp]: "gm_ok (legacy_object b i)"
  by (simp add: legacy_object_def setString_def del: gm_put.simps)

text \<open>Adding the hash and the signatures does not change the content hash.\<close>

lemma ContentHash_agree:
  assumes "gm_ok m" and "gm_ok n"
    and "\<And>k. k \<notin> {''hashes'', ''signatures'', ''unsigned''} \<Longrightarrow> gm_get m k = gm_get n k"
  shows "ContentHash sha (JObj m) = ContentHash sha (JObj n)"
proof -
  have "gm_del ''hashes'' (gm_del ''signatures'' (gm_del ''unsigned'' m)) =
        gm_del ''hashes'' (gm_del ''signatures'' (gm_del ''unsigned'' n))"
  proof (rule gm_eqI)
    fix k
    show "gm_get (gm_del ''hashes'' (gm_del ''signatures'' (gm_del ''unsigned'' m))) k =
          gm_get (gm_del ''hashes'' (gm_del ''signatures'' (gm_del ''unsigned'' n))) k"
      by (cases "k \<in> {''hashes'', ''signatures'', ''unsigned''}") (use assms(3) [of k] in \<open>auto simp: gm_get_del\<close>)
  qed (intro gm_ok_del assms(1,2))+
  then show ?thesis
    by (simp only: ContentHash_def unmarshal_obj_JObj [OF assms(1)] unmarshal_obj_JObj [OF assms(2)]
        option.case json.distinct if_False)
qed

lemma hash_and_sign_cases:
  assumes "hash_and_sign sha ed_sign srv key rules obj = Inr signed" and "gm_ok obj"
  obtains ch sigs where "ContentHash sha (JObj obj) = Inr ch"
    and "signed = JObj (gm_put ''signatures'' (signatures_json sigs)
           (gm_put ''hashes'' (JObj [(''sha256'', JStr ch)]) obj))"
    and "SignRedacted ed_sign srv key
           (JObj (gm_put ''hashes'' (JObj [(''sha256'', JStr ch)]) obj)) rules = Inr signed"
proof -
  from assms(1) obtain ch where ch: "ContentHash sha (JObj obj) = Inr ch"
    and sign: "SignRedacted ed_sign srv key
           (JObj (gm_put ''hashes'' (JObj [(''sha256'', JStr ch)]) obj)) rules = Inr signed"
    by (auto simp: hash_and_sign_def split: sum.splits)
  have u: "unmarshal_obj (JObj (gm_put ''hashes'' (JObj [(''sha256'', JStr ch)]) obj)) =
      Some (gm_put ''hashes'' (JObj [(''sha256'', JStr ch)]) obj)"
    by (intro unmarshal_obj_JObj gm_ok_put assms(2))
  show thesis
    by (rule SignRedacted_cases [OF sign u]) (rule that [OF ch _ sign])
qed

lemma hash_and_sign_hash:
  assumes "hash_and_sign sha ed_sign srv key rules obj = Inr signed" and "gm_ok obj"
  shows "\<exists>ch m. signed = JObj m \<and> gm_ok m \<and> ContentHash sha signed = Inr ch
           \<and> gm_get m ''hashes'' = Some (JObj [(''sha256'', JStr ch)])
           \<and> (\<forall>k. k \<noteq> ''hashes'' \<longrightarrow> k \<noteq> ''signatures'' \<longrightarrow> gm_get m k = gm_get obj k)"
proof -
  from assms obtain ch sigs where ch: "ContentHash sha (JObj obj) = Inr ch"
    and signed: "signed = JObj (gm_put ''signatures'' (signatures_json sigs)
           (gm_put ''hashes'' (JObj [(''sha256'', JStr ch)]) obj))" (is "_ = JObj ?m")
    by (rule hash_and_sign_cases)
  have ok: "gm_ok ?m" by (intro gm_ok_put assms(2))
  have get: "gm_get ?m k = (if k = ''signatures'' then Some (signatures_json sigs)
      else if k = ''hashes'' then Some (JObj [(''sha256'', JStr ch)]) else gm_get obj k)" for k
    using assms(2) by (simp add: gm_get_put)
  have "ContentHash sha (JObj ?m) = ContentHash sha (JObj obj)"
    by (rule ContentHash_agree [OF ok assms(2)]) (simp add: get)
  then show ?thesis
    using ch ok by (intro exI [of _ ch] exI [of _ ?m]) (simp add: signed get)
qed

lemma Build_cases:
  assumes "Build sha ed_sign b srv key version = Inr ev"
  obtains rules signed where "Get version = Some rules" "\<not> EventFormatV1 rules"
    "hash_and_sign sha ed_sign srv key rules (build_object b rules) = Inr signed"
    "ev_raw ev = signed" "unmarshal_obj signed = Some (ev_fields ev)" "ev_rules ev = rules"
    "ev_event_id ev = []"
proof -
  from assms obtain rules where r: "Get version = Some rules" "\<not> EventFormatV1 rules"
    by (auto simp: Build_def split: option.splits if_splits)
  moreover from assms r obtain signed where
    "hash_and_sign sha ed_sign srv key rules (build_object b rules) = Inr signed"
    "New signed version = Inr ev"
    by (auto simp: Build_def split: sum.splits)
  ultimately show thesis
    by (intro that [of rules signed]) (auto simp: New_def split: option.splits)
qed

lemma dec_elems_strings: "dec_elems [] dec_string (map JStr xs) [] = (True, xs)"
  by (induction xs) auto

lemma eventRefs_strings:
  "\<not> EventFormatV1 (ev_rules e) \<Longrightarrow> gm_get (ev_fields e) f = Some (json_strings xs) \<Longrightarrow> eventRefs e f = xs"
  by (simp add: eventRefs_def json_strings_def dec_elems_strings)

lemma build_object_get:
  "gm_get (build_object b r) ''type'' = Some (JStr (b_type b))"
  "gm_get (build_object b r) ''sender'' = Some (JStr (b_sender b))"
  "gm_get (build_object b r) ''content'' = Some (nonNil (b_content b))"
  "gm_get (build_object b r) ''depth'' = Some (json_int (b_depth b))"
  "gm_get (build_object b r) ''origin_server_ts'' = Some (json_int (b_origin_server_ts b))"
  "gm_get (build_object b r) ''prev_events'' = Some (json_strings (b_prev_events b))"
  "gm_get (build_object b r) ''auth_events'' =
     (if StateDAGs r then None else Some (json_strings (b_auth_events b)))"
  "gm_get (build_object b r) ''prev_state_events'' =
     (if StateDAGs r then Some (json_strings (b_prev_state_events b)) else None)"
  "gm_get (build_object b r) ''state_key'' = map_option JStr (b_state_key b)"
  by (simp_all add: build_object_def setString_def gm_get_put put_when_get del: gm_put.simps split: option.split)

subsection \<open>Properties\<close>

definition ex_raw :: json where
  "ex_raw = JObj [(''type'', JStr ''m.room.member''), (''room_id'', JStr ''!r:x''), (''sender'', JStr ''@a:x''),
     (''state_key'', JStr ''@a:x''), (''depth'', JNum ''4''), (''unsigned'', JObj [(''age'', JNum ''1'')]),
     (''content'', JObj [(''membership'', JStr ''join''), (''displayname'', JStr ''A''),
        (''third_party_invite'', JObj [(''display_name'', JStr ''x''), (''signed'', JObj [])])])]"

definition ex_key :: SigningKey where
  "ex_key = \<lparr>key_version = ''1'', key_private = ''k'', key_public = ''k''\<rparr>"

definition ex_builder :: Builder where
  "ex_builder = \<lparr>b_type = ''m.room.topic'', b_state_key = Some [], b_sender = ''@a:x'', b_room_id = ''!r:x'',
     b_content = Some (JObj [(''topic'', JStr ''t'')]), b_redacts = [], b_unsigned = None,
     b_prev_events = [''$p''], b_auth_events = [''$c''], b_prev_state_events = [], b_depth = 7,
     b_origin_server_ts = 9, b_origin = []\<rparr>"

definition toy_sign :: "string \<Rightarrow> string \<Rightarrow> string" where "toy_sign k m = k @ m"
definition toy_verify :: "string \<Rightarrow> string \<Rightarrow> string \<Rightarrow> bool" where "toy_verify p m s \<longleftrightarrow> s = p @ m"

text \<open>
  Redacting an event twice is redacting it once, in every room version.
\<close>

theorem redact_idempotent:
  assumes "Redact j r = Some m"
  shows "Redact (JObj m) r = Some m"
proof -
  have ok: "gm_ok m" using Redact_ok [OF assms] .
  obtain full where f: "unmarshal_obj j = Some full"
    using assms by (auto simp: Redact_def split: option.splits)
  have u: "unmarshal_obj (JObj m) = Some m" using ok by (rule unmarshal_obj_JObj)
  have "Redact (JObj m) r = Redact j r"
    using redacted_content_stable [OF f assms]
    by (intro Redact_cong [OF u f]) (simp_all add: Redact_get [OF f assms])
  then show ?thesis using assms by simp
qed

theorem redact_idempotent_witness:
  "Redact (JObj (the (Redact ex_raw v11_rules))) v11_rules = Some (the (Redact ex_raw v11_rules))"
  by (rule redact_idempotent [of ex_raw]) code_simp

text \<open>
  Redaction keeps exactly the listed top-level members, unchanged, except the content, which
  is always present afterwards and, unless the room version keeps all of a create event's, holds
  only members its event type lists (and what is left of a third-party invite or a relation).
\<close>

theorem redaction_scope:
  assumes "unmarshal_obj j = Some full" and "Redact j r = Some m"
  shows "(\<forall>k. k \<noteq> ''content'' \<longrightarrow>
            gm_get m k = (if k \<in> set (topLevelKeep r) then gm_get full k else None))
    \<and> (snd (contentKeep r (string_in full ''type'')) \<or>
       (\<exists>c. gm_get m ''content'' = Some (JObj c) \<and>
          fst ` set c \<subseteq> set (fst (contentKeep r (string_in full ''type'')))
             \<union> {k. k = ''third_party_invite'' \<and> UpdatedRedaction r \<and> string_in full ''type'' = ''m.room.member''}
             \<union> {k. k = ''m.relates_to'' \<and> RedactionKeepsRelations r}))"
proof
  show "\<forall>k. k \<noteq> ''content'' \<longrightarrow>
            gm_get m k = (if k \<in> set (topLevelKeep r) then gm_get full k else None)"
    by (simp add: Redact_get [OF assms])
next
  let ?ty = "string_in full ''type''"
  have keys: "fst ` set (keep_part on key f content pruned) \<subseteq> fst ` set pruned \<union> {k. k = key \<and> on}"
    for on key f content and pruned :: "json gomap"
    by (auto simp: keep_part_def gm_put_keys split: option.splits if_splits)
  have "gm_get m ''content'' = Some (redacted_content r full)" by (simp add: Redact_get [OF assms])
  moreover have "snd (contentKeep r ?ty) \<or> (\<exists>c. redacted_content r full = JObj c \<and>
      fst ` set c \<subseteq> set (fst (contentKeep r ?ty))
             \<union> {k. k = ''third_party_invite'' \<and> UpdatedRedaction r \<and> ?ty = ''m.room.member''}
             \<union> {k. k = ''m.relates_to'' \<and> RedactionKeepsRelations r})"
  proof (cases "gm_get full ''content''")
    case (Some c)
    show ?thesis
    proof (cases "unmarshal_obj c")
      case None
      then show ?thesis using Some by (simp add: redacted_content_def redact_content_def case_prod_beta Let_def)
    next
      case (Some cm)
      let ?p = "filter (\<lambda>e. fst e \<in> set (fst (contentKeep r ?ty))) cm"
      let ?p1 = "keep_part (UpdatedRedaction r \<and> ?ty = ''m.room.member'') ''third_party_invite'' extractSigned cm ?p"
      let ?p2 = "keep_part (RedactionKeepsRelations r) ''m.relates_to'' redactRelation cm ?p1"
      have "fst ` set ?p2 \<subseteq> fst ` set ?p1 \<union> {k. k = ''m.relates_to'' \<and> RedactionKeepsRelations r}"
        by (rule keys)
      moreover have "fst ` set ?p1 \<subseteq> fst ` set ?p \<union>
          {k. k = ''third_party_invite'' \<and> UpdatedRedaction r \<and> ?ty = ''m.room.member''}"
        by (rule keys)
      moreover have "fst ` set ?p \<subseteq> set (fst (contentKeep r ?ty))" by auto
      ultimately have "fst ` set ?p2 \<subseteq> set (fst (contentKeep r ?ty))
             \<union> {k. k = ''third_party_invite'' \<and> UpdatedRedaction r \<and> ?ty = ''m.room.member''}
             \<union> {k. k = ''m.relates_to'' \<and> RedactionKeepsRelations r}"
        by blast
      then show ?thesis
        using Some \<open>gm_get full ''content'' = Some c\<close>
        by (cases "snd (contentKeep r ?ty)")
           (simp_all add: redacted_content_def redact_content_def case_prod_beta Let_def)
    qed
  qed (simp add: redacted_content_def)
  ultimately show "snd (contentKeep r ?ty) \<or> (\<exists>c. gm_get m ''content'' = Some (JObj c) \<and>
      fst ` set c \<subseteq> set (fst (contentKeep r ?ty))
             \<union> {k. k = ''third_party_invite'' \<and> UpdatedRedaction r \<and> ?ty = ''m.room.member''}
             \<union> {k. k = ''m.relates_to'' \<and> RedactionKeepsRelations r})"
    by auto
qed

theorem redaction_scope_witness:
  "gm_get (the (Redact ex_raw v11_rules)) ''unsigned'' = None"
proof -
  have 1: "unmarshal_obj ex_raw = Some (the (unmarshal_obj ex_raw))"
    and 2: "Redact ex_raw v11_rules = Some (the (Redact ex_raw v11_rules))"
    and 3: "''unsigned'' \<notin> set (topLevelKeep v11_rules)"
    by code_simp+
  show ?thesis using conjunct1 [OF redaction_scope [OF 1 2], rule_format, of "''unsigned''"] 3 by simp
qed

text \<open>
  From room version 3 on the event ID depends on nothing but the top-level members redaction
  keeps, signatures left out: two events that agree on those have the same ID.
\<close>

theorem event_id_depends_on_kept:
  assumes "EventIDFormat r \<noteq> EventIDLegacy"
    and "unmarshal_obj j = Some f" and "unmarshal_obj j' = Some f'"
    and "\<And>k. k \<in> set (topLevelKeep r) \<Longrightarrow> k \<noteq> ''signatures'' \<Longrightarrow> gm_get f k = gm_get f' k"
  shows "EventIDFromRaw sha j r = EventIDFromRaw sha j' r"
  by (rule EventIDFromRaw_agree [OF assms])

theorem event_id_depends_on_kept_witness:
  "EventIDFromRaw id (JObj (gm_put ''signatures'' (JObj []) (gm_del ''unsigned'' (the (unmarshal_obj ex_raw))))) v11_rules
   = EventIDFromRaw id ex_raw v11_rules"
proof (rule event_id_depends_on_kept)
  let ?f = "the (unmarshal_obj ex_raw)"
  have f: "unmarshal_obj ex_raw = Some ?f" by code_simp
  show "unmarshal_obj ex_raw = Some ?f" by (rule f)
  have ok: "gm_ok ?f" using f by (rule unmarshal_obj_ok)
  then show "unmarshal_obj (JObj (gm_put ''signatures'' (JObj []) (gm_del ''unsigned'' ?f))) =
      Some (gm_put ''signatures'' (JObj []) (gm_del ''unsigned'' ?f))"
    by (intro unmarshal_obj_JObj gm_ok_put gm_ok_del)
  have "''unsigned'' \<notin> set (topLevelKeep v11_rules)" by code_simp
  then show "gm_get (gm_put ''signatures'' (JObj []) (gm_del ''unsigned'' ?f)) k = gm_get ?f k"
    if "k \<in> set (topLevelKeep v11_rules)" "k \<noteq> ''signatures''" for k
    using that ok by (auto simp: gm_get_put gm_get_del)
  show "EventIDFormat v11_rules \<noteq> EventIDLegacy" by code_simp
qed



text \<open>
  The documented behaviour of \<open>crypto/ed25519\<close>: \<open>Verify\<close> accepts, under the public key of a pair,
  what \<open>Sign\<close> produced under the private one.
\<close>

definition ed25519_pair ::
  "(string \<Rightarrow> string \<Rightarrow> string \<Rightarrow> bool) \<Rightarrow> (string \<Rightarrow> string \<Rightarrow> string) \<Rightarrow> SigningKey \<Rightarrow> bool" where
  "ed25519_pair edv ed_sign key \<longleftrightarrow> (\<forall>msg. edv (key_public key) msg (ed_sign (key_private key) msg))"

lemma toy_pair: "ed25519_pair toy_verify toy_sign ex_key"
  by (simp add: ed25519_pair_def toy_verify_def toy_sign_def ex_key_def)

lemma signed_event_verifies:
  assumes "ed25519_pair edv ed_sign key"
    and "SignRedacted ed_sign srv key j r = Inr signed" and "unmarshal_obj j = Some full"
  shows "\<exists>m. Redact signed r = Some m \<and> VerifyJSON edv srv (KeyID key) (key_public key) (JObj m) = Inr ()"
proof -
  from assms(2,3) obtain redacted bytes sigs where red: "Redact j r = Some redacted"
    and b: "signable (JObj redacted) redacted = Inr bytes"
    and signed: "signed = JObj (gm_put ''signatures'' (signatures_json sigs) full)"
    and s: "\<exists>m. gm_get sigs srv = Some m \<and> gm_ok m \<and> gm_ok sigs
           \<and> gm_get m (KeyID key) = Some (UnpaddedBase64 (ed_sign (key_private key) bytes))"
    by (rule SignRedacted_cases)
  have u: "unmarshal_obj signed = Some (gm_put ''signatures'' (signatures_json sigs) full)"
    unfolding signed by (intro unmarshal_obj_JObj gm_ok_put unmarshal_obj_ok [OF assms(3)])
  obtain m where m: "Redact signed r = Some m" using Redact_total [OF u] by blast
  note put = put_signatures_redacted [OF assms(3) red m [unfolded signed]]
  have "signable (JObj m) m = Inr bytes"
    using b unfolding signable_JObj put(2) .
  then have "VerifyJSON edv srv (KeyID key) (key_public key) (JObj m) = Inr ()"
    using s assms(1) VerifyJSON_accepts [OF Redact_ok [OF m] put(1)] unfolding ed25519_pair_def by blast
  then show ?thesis using m by blast
qed

text \<open>
  C7: What \<open>SignRedacted\<close> signs, \<open>VerifyJSON\<close> accepts: redacted again, the signed event carries a
  valid signature of the server under the key's ID, whatever signatures it had before and whatever
  redaction removes from it (\<open>ed25519.Verify\<close> accepting what \<open>ed25519.Sign\<close> produces).
\<close>

theorem sign_then_verify:
  assumes "ed25519_pair edv ed_sign key"
    and "SignRedacted ed_sign srv key j r = Inr signed" and "unmarshal_obj j = Some full"
  shows "\<exists>m. Redact signed r = Some m \<and> VerifyJSON edv srv (KeyID key) (key_public key) (JObj m) = Inr ()"
  by (rule signed_event_verifies [OF assms])

theorem sign_then_verify_witness:
  "\<exists>m. Redact (projr (SignRedacted toy_sign ''x'' ex_key ex_raw v11_rules)) v11_rules = Some m
     \<and> VerifyJSON toy_verify ''x'' (KeyID ex_key) (key_public ex_key) (JObj m) = Inr ()"
proof (rule sign_then_verify)
  show "ed25519_pair toy_verify toy_sign ex_key" by (rule toy_pair)
  show "SignRedacted toy_sign ''x'' ex_key ex_raw v11_rules =
      Inr (projr (SignRedacted toy_sign ''x'' ex_key ex_raw v11_rules))"
    by code_simp
  show "unmarshal_obj ex_raw = Some (the (unmarshal_obj ex_raw))" by code_simp
qed

text \<open>
  C8: An event \<open>Build\<close> returns reads back as it was described (type, sender, state key, content,
  previous and auth events, and depth within the \<open>int64\<close> range), carries the content hash of
  itself, and verifies under the server's key.
\<close>

theorem built_event:
  assumes "ed25519_pair edv ed_sign key"
    and "Build sha ed_sign b srv key version = Inr ev"
    and "int64_min \<le> b_depth b" and "b_depth b \<le> int64_max"
  shows "stringField ev ''type'' = b_type b \<and> stringField ev ''sender'' = b_sender b
    \<and> StateKey ev = b_state_key b \<and> Content ev = nonNil (b_content b) \<and> Depth ev = b_depth b
    \<and> PrevEvents ev = b_prev_events b
    \<and> (if StateDAGs (ev_rules ev) then PrevStateEvents ev = b_prev_state_events b
       else AuthEvents ev = b_auth_events b)
    \<and> (\<exists>ch. ContentHash sha (ev_raw ev) = Inr ch
         \<and> gm_get (ev_fields ev) ''hashes'' = Some (JObj [(''sha256'', JStr ch)]))
    \<and> (\<exists>m. Redact (ev_raw ev) (ev_rules ev) = Some m
         \<and> VerifyJSON edv srv (KeyID key) (key_public key) (JObj m) = Inr ())"
proof -
  from assms(2) obtain rules signed where b: "Get version = Some rules" "\<not> EventFormatV1 rules"
    "hash_and_sign sha ed_sign srv key rules (build_object b rules) = Inr signed"
    "ev_raw ev = signed" "unmarshal_obj signed = Some (ev_fields ev)" "ev_rules ev = rules"
    by (rule Build_cases)
  from hash_and_sign_hash [OF b(3)] obtain ch m where m: "signed = JObj m" "gm_ok m"
    "ContentHash sha signed = Inr ch" "gm_get m ''hashes'' = Some (JObj [(''sha256'', JStr ch)])"
    "\<And>k. k \<noteq> ''hashes'' \<Longrightarrow> k \<noteq> ''signatures'' \<Longrightarrow> gm_get m k = gm_get (build_object b rules) k"
    by auto
  have f: "ev_fields ev = m" using b(5) m(1) unmarshal_obj_JObj [OF m(2)] by simp
  obtain obj where "SignRedacted ed_sign srv key (JObj obj) rules = Inr signed" "gm_ok obj"
    using hash_and_sign_cases [OF b(3)] gm_ok_put build_object_ok by metis
  from signed_event_verifies [OF assms(1) this(1) unmarshal_obj_JObj [OF this(2)]]
  have v: "\<exists>m. Redact signed rules = Some m \<and> VerifyJSON edv srv (KeyID key) (key_public key) (JObj m) = Inr ()"
    by blast
  note get = m(5) build_object_get
  have "stringField ev ''type'' = b_type b" "stringField ev ''sender'' = b_sender b"
    "Content ev = nonNil (b_content b)"
    by (simp_all add: stringField_def string_in_def Content_def f get)
  moreover have "StateKey ev = b_state_key b"
    by (cases "b_state_key b") (simp_all add: StateKey_def f get)
  moreover have "Depth ev = b_depth b"
    using parse_int64_format_int [OF assms(3,4)] by (simp add: Depth_def int_field_def f get json_int_def)
  moreover have "PrevEvents ev = b_prev_events b"
    unfolding PrevEvents_def using b(2,6) by (intro eventRefs_strings) (simp_all add: f get)
  moreover have "if StateDAGs rules then PrevStateEvents ev = b_prev_state_events b
      else AuthEvents ev = b_auth_events b"
    using b(2,6) by (auto simp: PrevStateEvents_def AuthEvents_def f get intro!: eventRefs_strings)
  ultimately show ?thesis
    using m(3,4) v by (simp add: b(4,6) f)
qed

theorem built_event_witness:
  "PrevEvents (projr (Build id toy_sign ex_builder ''x'' ex_key ''11'')) = [''$p'']"
proof -
  have 2: "Build id toy_sign ex_builder ''x'' ex_key ''11'' =
      Inr (projr (Build id toy_sign ex_builder ''x'' ex_key ''11''))"
    and 3: "int64_min \<le> b_depth ex_builder" "b_depth ex_builder \<le> int64_max"
    by code_simp+
  have "b_prev_events ex_builder = [''$p'']" by (simp add: ex_builder_def)
  then show ?thesis
    using built_event [OF toy_pair 2 3, THEN conjunct2, THEN conjunct2, THEN conjunct2, THEN conjunct2,
        THEN conjunct2, THEN conjunct1] by (rule trans [rotated])
qed

end
