(* ===== verification/Storage.thy ===== *)
theory Storage
  imports Events
begin

section \<open>The event tables (\<open>internal/storage\<close>)\<close>

text \<open>
  The PostgreSQL tables the event pipeline reads and writes, as lists of rows, and the store
  operations as functions on them: each SQL statement of the source is an insertion with its
  conflict clause, a deletion or a selection. A selection without \<open>ORDER BY\<close> returns the rows in
  table order, which stands for whatever order the database chooses. Failures of the database
  itself are not modelled. An empty state key is stored as \<open>NULL\<close> and read back as empty, as in
  \<open>COALESCE(state_key,'')\<close>, so a row holds the string.
\<close>

subsection \<open>Tables\<close>

text \<open>\<open>INSERT ... ON CONFLICT (key) DO UPDATE\<close>, and the same with \<open>DO NOTHING\<close>.\<close>

fun upsert :: "('r \<Rightarrow> 'k) \<Rightarrow> 'r \<Rightarrow> 'r list \<Rightarrow> 'r list" where
  "upsert key r [] = [r]"
| "upsert key r (x # xs) = (if key x = key r then r # xs else x # upsert key r xs)"

definition insert_new :: "('r \<Rightarrow> 'k) \<Rightarrow> 'r \<Rightarrow> 'r list \<Rightarrow> 'r list" where
  "insert_new key r xs = (if key r \<in> key ` set xs then xs else xs @ [r])"

record EventRow =
  er_event_id :: string
  er_room_id :: string
  er_room_version :: string
  er_type :: string
  er_state_key :: string
  er_sender :: string
  er_depth :: int
  er_origin_server_ts :: int
  er_stream :: int
  er_content :: raw
  er_json :: json
  er_redacts :: string
  er_redacted :: bool
  er_redacted_by :: string
  er_outlier :: bool
  er_prev_events :: "string list option"

record StateRow =
  sr_room_id :: string
  sr_type :: string
  sr_state_key :: string
  sr_event_id :: string

record ForwardExtremity =
  fe_room_id :: string
  fe_event_id :: string
  fe_depth :: int

record StateEdge =
  se_room_id :: string
  se_event_id :: string
  se_prev_state_id :: string
  se_child_is_state :: bool

record MembershipRow =
  mr_room_id :: string
  mr_user_id :: string
  mr_membership :: string
  mr_event_id :: string
  mr_display_name :: string
  mr_avatar_url :: string
  mr_forgotten :: bool
  mr_stream :: int
  mr_depth :: int

record RoomRow =
  rr_room_id :: string
  rr_version :: string
  rr_creator :: string
  rr_is_public :: bool
  rr_created_ts :: int
  rr_partial_state :: bool
  rr_servers :: "string list"
  rr_unpartial_stream :: int

record AliasRow =
  al_alias :: string
  al_room_id :: string
  al_creator :: string
  al_created_ts :: int

record RelationRow =
  rl_event_id :: string
  rl_room_id :: string
  rl_parent :: string
  rl_rel_type :: string
  rl_event_type :: string
  rl_sender :: string
  rl_stream :: int

text \<open>
  \<open>db_snapshots\<close> holds the rows of \<open>event_state_snapshots\<close>: the event and one tuple of its state.
  \<open>db_state_events\<close>, \<open>db_heads\<close> and \<open>db_calculated_auth\<close> are the tables of MSC4242,
  \<open>db_gaps\<close> the stream positions of \<open>timeline_gaps\<close>.
\<close>

record Store =
  db_events :: "EventRow list"
  db_next_stream :: int
  db_snapshots :: "(string \<times> StateRow) list"
  db_room_state :: "StateRow list"
  db_extremities :: "ForwardExtremity list"
  db_rejected :: "string list"
  db_edges :: "StateEdge list"
  db_state_events :: "(string \<times> string) list"
  db_heads :: "(string \<times> string) list"
  db_calculated_auth :: "(string \<times> string list) list"
  db_memberships :: "MembershipRow list"
  db_rooms :: "RoomRow list"
  db_aliases :: "AliasRow list"
  db_relations :: "RelationRow list"
  db_gaps :: "(string \<times> int) list"

definition empty_store :: Store where
  "empty_store = \<lparr>db_events = [], db_next_stream = 1, db_snapshots = [], db_room_state = [],
     db_extremities = [], db_rejected = [], db_edges = [], db_state_events = [], db_heads = [],
     db_calculated_auth = [], db_memberships = [], db_rooms = [], db_aliases = [],
     db_relations = [], db_gaps = []\<rparr>"

subsection \<open>Transactions (\<open>roomwrite.go\<close>)\<close>

text \<open>
  \<open>WithRoomWrite\<close>: the room's stripe lock makes the writers of a room take turns, the transaction
  drops everything \<open>fn\<close> wrote when it fails. The result is the error, if any, and the store left.
\<close>

definition WithRoomWrite :: "(Store \<Rightarrow> 'e + Store) \<Rightarrow> Store \<Rightarrow> 'e option \<times> Store" where
  "WithRoomWrite fn s = (case fn s of Inl e \<Rightarrow> (Some e, s) | Inr s' \<Rightarrow> (None, s'))"

definition TxGetEvent :: "Store \<Rightarrow> string \<Rightarrow> EventRow option" where
  "TxGetEvent s eventID = find (\<lambda>e. er_event_id e = eventID) (db_events s)"

definition TxEventsByIDs :: "Store \<Rightarrow> string list \<Rightarrow> EventRow list" where
  "TxEventsByIDs s ids = filter (\<lambda>e. er_event_id e \<in> set ids) (db_events s)"

definition TxGetStateEvent :: "Store \<Rightarrow> string \<Rightarrow> string \<Rightarrow> string \<Rightarrow> string option" where
  "TxGetStateEvent s roomID eventType stateKey =
     map_option sr_event_id
       (find (\<lambda>r. sr_room_id r = roomID \<and> sr_type r = eventType \<and> sr_state_key r = stateKey)
          (db_room_state s))"

text \<open>No rows are \<open>ErrNotFound\<close>.\<close>

definition TxGetEventState :: "Store \<Rightarrow> string \<Rightarrow> StateRow list option" where
  "TxGetEventState s eventID =
     (case map snd (filter (\<lambda>x. fst x = eventID) (db_snapshots s)) of [] \<Rightarrow> None | out \<Rightarrow> Some out)"

definition snapshot_key :: "string \<times> StateRow \<Rightarrow> string \<times> string \<times> string" where
  "snapshot_key x = (fst x, sr_type (snd x), sr_state_key (snd x))"

text \<open>On a conflict only the state event changes, not the room of the row.\<close>

definition save_snapshot_row :: "string \<Rightarrow> string \<Rightarrow> StateRow \<Rightarrow> (string \<times> StateRow) list \<Rightarrow> (string \<times> StateRow) list" where
  "save_snapshot_row eventID roomID r t =
     (let row = r\<lparr>sr_room_id := if sr_room_id r = [] then roomID else sr_room_id r\<rparr>
      in case find (\<lambda>x. snapshot_key x = snapshot_key (eventID, row)) t of
           None \<Rightarrow> t @ [(eventID, row)]
         | Some x \<Rightarrow> upsert snapshot_key (eventID, (snd x)\<lparr>sr_event_id := sr_event_id row\<rparr>) t)"

definition TxSaveEventState :: "Store \<Rightarrow> string \<Rightarrow> string \<Rightarrow> StateRow list \<Rightarrow> Store" where
  "TxSaveEventState s eventID roomID state =
     s\<lparr>db_snapshots :=
         fold (save_snapshot_row eventID roomID) state
           (filter (\<lambda>x. fst x \<noteq> eventID) (db_snapshots s))\<rparr>"

definition state_row_key :: "StateRow \<Rightarrow> string \<times> string \<times> string" where
  "state_row_key r = (sr_room_id r, sr_type r, sr_state_key r)"

definition TxSetRoomState :: "Store \<Rightarrow> string \<Rightarrow> StateRow list \<Rightarrow> Store" where
  "TxSetRoomState s roomID state =
     s\<lparr>db_room_state :=
         fold (\<lambda>r. upsert state_row_key (r\<lparr>sr_room_id := roomID\<rparr>)) state
           (filter (\<lambda>r. sr_room_id r \<noteq> roomID) (db_room_state s))\<rparr>"

definition TxGetRoomState :: "Store \<Rightarrow> string \<Rightarrow> StateRow list" where
  "TxGetRoomState s roomID = filter (\<lambda>r. sr_room_id r = roomID) (db_room_state s)"

definition TxForwardExtremities :: "Store \<Rightarrow> string \<Rightarrow> ForwardExtremity list" where
  "TxForwardExtremities s roomID = filter (\<lambda>e. fe_room_id e = roomID) (db_extremities s)"

definition extremity_key :: "ForwardExtremity \<Rightarrow> string \<times> string" where
  "extremity_key e = (fe_room_id e, fe_event_id e)"

definition TxSetForwardExtremities :: "Store \<Rightarrow> string \<Rightarrow> ForwardExtremity list \<Rightarrow> Store" where
  "TxSetForwardExtremities s roomID extremities =
     s\<lparr>db_extremities :=
         fold (insert_new extremity_key) extremities
           (filter (\<lambda>e. fe_room_id e \<noteq> roomID) (db_extremities s))\<rparr>"

subsection \<open>Inserting events and their extremities (\<open>rooms.go\<close>, \<open>extremities.go\<close>)\<close>

definition AddForwardExtremity :: "Store \<Rightarrow> string \<Rightarrow> string \<Rightarrow> int \<Rightarrow> Store" where
  "AddForwardExtremity s roomID eventID depth =
     s\<lparr>db_extremities := insert_new extremity_key
         \<lparr>fe_room_id = roomID, fe_event_id = eventID, fe_depth = depth\<rparr> (db_extremities s)\<rparr>"

definition RemoveForwardExtremity :: "Store \<Rightarrow> string \<Rightarrow> string \<Rightarrow> Store" where
  "RemoveForwardExtremity s roomID eventID =
     s\<lparr>db_extremities := filter (\<lambda>e. extremity_key e \<noteq> (roomID, eventID)) (db_extremities s)\<rparr>"

definition UpdateExtremitiesForEvent :: "Store \<Rightarrow> string \<Rightarrow> string \<Rightarrow> string list \<Rightarrow> int \<Rightarrow> Store" where
  "UpdateExtremitiesForEvent s roomID eventID prevEvents depth =
     AddForwardExtremity (fold (\<lambda>p s. RemoveForwardExtremity s roomID p) prevEvents s) roomID eventID depth"

text \<open>\<open>prev_events\<close> in either format: IDs, or pairs of an ID and hashes.\<close>

definition ref_pairs :: "json \<Rightarrow> string list option" where
  "ref_pairs v =
     (let (ok, pairs) = dec_slice [] (dec_slice None dec_raw) v []
      in if \<not> ok then None
         else Some (concat (map (\<lambda>p. case p of
                [] \<Rightarrow> []
              | x # _ \<Rightarrow> (let (ok1, i) = unmarshal dec_string [] x in if ok1 \<and> i \<noteq> [] then [i] else [])) pairs)))"

definition ParsePrevEvents :: "json \<Rightarrow> string list" where
  "ParsePrevEvents j =
     (let (ok, prev) = dec_struct [(''prev_events'', dec_raw)] j None
      in if \<not> ok then []
         else case prev of
           None \<Rightarrow> []
         | Some v \<Rightarrow>
             (let (ok1, is) = dec_slice [] dec_string v []
              in if ok1 then is else (case ref_pairs v of None \<Rightarrow> [] | Some is \<Rightarrow> is)))"

text \<open>
  The insertion itself: on a conflict of the event ID the row and its stream position stay.
  The stored row holds no parsed references.
\<close>

definition insert_event_row :: "Store \<Rightarrow> EventRow \<Rightarrow> Store \<times> int" where
  "insert_event_row s e =
     (case TxGetEvent s (er_event_id e) of
        Some old \<Rightarrow> (s\<lparr>db_next_stream := db_next_stream s + 1\<rparr>, er_stream old)
      | None \<Rightarrow>
          (s\<lparr>db_events := db_events s @ [e\<lparr>er_stream := db_next_stream s, er_prev_events := None\<rparr>],
             db_next_stream := db_next_stream s + 1\<rparr>, db_next_stream s))"

definition row_prev_events :: "EventRow \<Rightarrow> string list" where
  "row_prev_events e = (case er_prev_events e of Some p \<Rightarrow> p | None \<Rightarrow> ParsePrevEvents (er_json e))"

definition InsertEvent :: "Store \<Rightarrow> EventRow \<Rightarrow> Store \<times> int" where
  "InsertEvent s e =
     (let (s1, stream) = insert_event_row s e
      in (UpdateExtremitiesForEvent s1 (er_room_id e) (er_event_id e) (row_prev_events e) (er_depth e), stream))"

definition InsertOutlierEvent :: "Store \<Rightarrow> EventRow \<Rightarrow> Store \<times> int" where
  "InsertOutlierEvent s e = insert_event_row s e"

text \<open>A struct decoding that fails skips the event: one with legacy references is never seen as a child.\<close>

definition EventIsDAGLeaf :: "Store \<Rightarrow> string \<Rightarrow> string \<Rightarrow> bool" where
  "EventIsDAGLeaf s roomID eventID =
     (\<not> list_ex (\<lambda>e. er_room_id e = roomID \<and>
          (let (ok, prevs) = dec_struct [(''prev_events'', dec_slice [] dec_string)] (er_json e) []
           in ok \<and> eventID \<in> set prevs)) (db_events s))"

definition UndoExtremitiesForRejected :: "Store \<Rightarrow> string \<Rightarrow> string \<Rightarrow> string list \<Rightarrow> Store" where
  "UndoExtremitiesForRejected s roomID eventID prevEvents =
     fold (\<lambda>prev s.
        if \<not> EventIsDAGLeaf s roomID prev then s
        else case TxGetEvent s prev of
               None \<Rightarrow> s
             | Some ev \<Rightarrow> AddForwardExtremity s roomID prev (er_depth ev))
       prevEvents (RemoveForwardExtremity s roomID eventID)"

subsection \<open>Rejected events (\<open>rejected.go\<close>)\<close>

definition MarkEventRejected :: "Store \<Rightarrow> string \<Rightarrow> Store" where
  "MarkEventRejected s eventID = s\<lparr>db_rejected := insert_new id eventID (db_rejected s)\<rparr>"

definition UnmarkEventRejected :: "Store \<Rightarrow> string \<Rightarrow> Store" where
  "UnmarkEventRejected s eventID = s\<lparr>db_rejected := filter (\<lambda>i. i \<noteq> eventID) (db_rejected s)\<rparr>"

definition IsEventRejected :: "Store \<Rightarrow> string \<Rightarrow> bool" where
  "IsEventRejected s eventID \<longleftrightarrow> List.member (db_rejected s) eventID"

definition EventAccepted :: "Store \<Rightarrow> string \<Rightarrow> bool" where
  "EventAccepted s eventID \<longleftrightarrow> TxGetEvent s eventID \<noteq> None \<and> \<not> IsEventRejected s eventID"

text \<open>
  The walk of \<open>RemovePrevsBehindRejected\<close>: \<open>batch\<close> is the queue of the current round and the
  ones \<open>next\<close> collects for the following round. Only events not visited before are expanded.
\<close>

definition rejected_prevs :: "Store \<Rightarrow> string \<Rightarrow> string list" where
  "rejected_prevs s i =
     (if IsEventRejected s i
      then (case TxGetEvent s i of None \<Rightarrow> [] | Some ev \<Rightarrow> ParsePrevEvents (er_json ev))
      else [])"

fun walk_round :: "Store \<Rightarrow> string list \<Rightarrow> string list \<Rightarrow> string list \<Rightarrow> string list
     \<Rightarrow> string list \<times> string list \<times> string list" where
  "walk_round s visited collected nxt [] = (visited, collected, nxt)"
| "walk_round s visited collected nxt (i # batch) =
     (if i \<in> set visited then walk_round s visited collected nxt batch
      else walk_round s (i # visited) (rejected_prevs s i @ collected)
             (nxt @ filter (\<lambda>p. p \<notin> set (i # visited)) (rejected_prevs s i)) batch)"

lemma walk_round_visited: "set (fst (walk_round s visited collected nxt batch)) = set visited \<union> set batch"
  by (induction s visited collected nxt batch rule: walk_round.induct) auto

lemma TxGetEvent_in: "TxGetEvent s i = Some e \<Longrightarrow> e \<in> set (db_events s) \<and> er_event_id e = i"
  unfolding TxGetEvent_def by (metis (mono_tags, lifting) find_Some_iff nth_mem)

text \<open>The references of the stored events.\<close>

definition stored_refs :: "Store \<Rightarrow> string set" where
  "stored_refs s = (\<Union>e \<in> set (db_events s). set (ParsePrevEvents (er_json e)))"

lemma rejected_prevs_stored: "set (rejected_prevs s i) \<subseteq> stored_refs s"
proof (cases "IsEventRejected s i \<and> TxGetEvent s i \<noteq> None")
  case True
  then obtain e where e: "TxGetEvent s i = Some e" by blast
  then have "e \<in> set (db_events s)" using TxGetEvent_in by blast
  then have "set (ParsePrevEvents (er_json e)) \<subseteq> stored_refs s" unfolding stored_refs_def by blast
  then show ?thesis unfolding rejected_prevs_def e using True by (simp only: if_True option.case)
next
  case False
  then have "rejected_prevs s i = []"
    unfolding rejected_prevs_def by (cases "TxGetEvent s i") (auto simp only: if_False option.case simp_thms if_cancel option.distinct)
  then show ?thesis by simp
qed

lemma walk_round_next:
  "set (snd (snd (walk_round s visited collected nxt batch))) \<subseteq> set nxt \<union> stored_refs s"
proof (induction s visited collected nxt batch rule: walk_round.induct)
  case (2 s visited collected nxt i batch)
  then show ?case using rejected_prevs_stored [of s i] by auto
qed simp

lemma walk_round_idle: "set batch \<subseteq> set visited \<Longrightarrow> walk_round s visited collected nxt batch = (visited, collected, nxt)"
  by (induction batch) auto

text \<open>Every round visits a new ID, of which there are finitely many, or is the last.\<close>

lemma walk_round_progress:
  assumes "batch \<noteq> []" and "walk_round s visited collected [] batch = (visited1, collected1, batch1)"
  shows "card (set batch1 \<union> stored_refs s - set visited1) < card (set batch \<union> stored_refs s - set visited)
       \<or> (card (set batch1 \<union> stored_refs s - set visited1) = card (set batch \<union> stored_refs s - set visited)
          \<and> length batch1 < length batch)"
proof (cases "set batch \<subseteq> set visited")
  case True
  then have "visited1 = visited" "batch1 = []" using assms(2) by (simp_all add: walk_round_idle)
  moreover have "set batch \<union> stored_refs s - set visited = stored_refs s - set visited" using True by blast
  ultimately show ?thesis using assms(1) by simp
next
  case False
  have fin: "finite (stored_refs s)" by (simp add: stored_refs_def)
  have v: "set visited1 = set visited \<union> set batch"
    using walk_round_visited [of s visited collected "[]" batch] assms(2) by simp
  have "set batch1 \<subseteq> stored_refs s"
    using walk_round_next [of s visited collected "[]" batch] assms(2) by simp
  then have "set batch1 \<union> stored_refs s - set visited1 \<subset> set batch \<union> stored_refs s - set visited"
    using v False by blast
  then show ?thesis using fin by (simp add: psubset_card_mono)
qed

function walk_behind :: "Store \<Rightarrow> string list \<Rightarrow> string list \<Rightarrow> string list \<Rightarrow> string list" where
  "walk_behind s visited collected batch =
     (if batch = [] then collected
      else let (visited1, collected1, batch1) = walk_round s visited collected [] batch
           in walk_behind s visited1 collected1 batch1)"
  by pat_completeness auto

termination
proof (relation "measures [\<lambda>(s, visited, collected, batch). card (set batch \<union> stored_refs s - set visited),
    \<lambda>(s, visited, collected, batch). length batch]", goal_cases)
  case (2 s visited collected batch r visited1 cb collected1 batch1)
  then have eq: "walk_round s visited collected [] batch = (visited1, collected1, batch1)" by simp
  then show ?case using walk_round_progress [OF 2(1) eq] by (auto simp: eq)
qed simp

declare walk_behind.simps [simp del]

definition RemovePrevsBehindRejected :: "Store \<Rightarrow> string \<Rightarrow> string list \<Rightarrow> Store" where
  "RemovePrevsBehindRejected s roomID eventIDs =
     (let collected = walk_behind s [] [] eventIDs
      in s\<lparr>db_extremities :=
             filter (\<lambda>e. \<not> (fe_room_id e = roomID \<and> fe_event_id e \<in> set collected)) (db_extremities s)\<rparr>)"

definition SetEventRedactedBy :: "Store \<Rightarrow> string \<Rightarrow> string \<Rightarrow> Store" where
  "SetEventRedactedBy s eventID redactionEventID =
     s\<lparr>db_events := map (\<lambda>e. if er_event_id e = eventID
          then e\<lparr>er_redacted := True, er_redacted_by := redactionEventID\<rparr> else e) (db_events s)\<rparr>"

subsection \<open>State DAGs (\<open>statedag.go\<close>)\<close>

text \<open>\<open>ORDER BY event_id\<close>.\<close>

definition TxStateDAGExtremities :: "Store \<Rightarrow> string \<Rightarrow> string list" where
  "TxStateDAGExtremities s roomID = sort (map snd (filter (\<lambda>h. fst h = roomID) (db_heads s)))"

definition TxAdvanceStateDAG :: "Store \<Rightarrow> string \<Rightarrow> string \<Rightarrow> bool \<Rightarrow> string list \<Rightarrow> Store" where
  "TxAdvanceStateDAG s roomID eventID isState prevStateEvents =
     (let s1 = s\<lparr>db_edges := fold (\<lambda>p. insert_new (\<lambda>g. (se_event_id g, se_prev_state_id g))
                  \<lparr>se_room_id = roomID, se_event_id = eventID, se_prev_state_id = p,
                   se_child_is_state = isState\<rparr>) prevStateEvents (db_edges s)\<rparr>
      in if \<not> isState then s1
         else
           let s2 = s1\<lparr>db_state_events := insert_new fst (eventID, roomID) (db_state_events s1)\<rparr>;
               s3 = s2\<lparr>db_heads := filter (\<lambda>h. \<not> (fst h = roomID \<and> snd h \<in> set prevStateEvents)) (db_heads s2)\<rparr>
           in if list_ex (\<lambda>g. se_prev_state_id g = eventID \<and> se_child_is_state g) (db_edges s3) then s3
              else s3\<lparr>db_heads := insert_new id (roomID, eventID) (db_heads s3)\<rparr>)"

definition TxSaveCalculatedAuth :: "Store \<Rightarrow> string \<Rightarrow> string \<Rightarrow> string list \<Rightarrow> Store" where
  "TxSaveCalculatedAuth s roomID eventID authEventIDs =
     s\<lparr>db_calculated_auth := upsert fst (eventID, authEventIDs) (db_calculated_auth s)\<rparr>"

definition TxCalculatedAuth :: "Store \<Rightarrow> string \<Rightarrow> string list option" where
  "TxCalculatedAuth s eventID = map_of (db_calculated_auth s) eventID"

definition TxRejectedEventIDs :: "Store \<Rightarrow> string list \<Rightarrow> string list" where
  "TxRejectedEventIDs s ids = filter (\<lambda>i. i \<in> set ids) (db_rejected s)"

end
