(* ===== verification/Storage_Laws.thy ===== *)
theory Storage_Laws
  imports Storage
begin

section \<open>What the tables guarantee\<close>

text \<open>
  Laws of the store operations: what a selection returns after a write, and what a write leaves
  alone. The interface \<open>snapshot_store\<close> states what state maintenance needs of the store; the
  transaction operations are interpreted in it. Then the forward extremities, the walk behind
  rejected events and the heads of a state DAG.
\<close>

subsection \<open>Upserts\<close>

lemma upsert_new: "key r \<notin> key ` set xs \<Longrightarrow> upsert key r xs = xs @ [r]"
  by (induction xs) auto

lemma fold_upsert_new:
  "distinct (map key rs) \<Longrightarrow> key ` set rs \<inter> key ` set xs = {} \<Longrightarrow> fold (upsert key) rs xs = xs @ rs"
proof (induction rs arbitrary: xs)
  case (Cons r rs)
  then have "fold (upsert key) rs (xs @ [r]) = (xs @ [r]) @ rs"
    by (intro Cons.IH) auto
  then show ?case using Cons.prems by (simp add: upsert_new)
qed simp

lemma insert_new_set: "set (insert_new key r xs) = (if key r \<in> key ` set xs then set xs else insert r (set xs))"
  by (auto simp: insert_new_def)

lemma insert_new_keys: "key ` set (insert_new key r xs) = insert (key r) (key ` set xs)"
  by (auto simp: insert_new_def)

text \<open>State rows of one room, one per type and state key.\<close>

definition state_rows_ok :: "string \<Rightarrow> StateRow list \<Rightarrow> bool" where
  "state_rows_ok roomID rows \<longleftrightarrow>
     (\<forall>r \<in> set rows. sr_room_id r = roomID) \<and> distinct (map (\<lambda>r. (sr_type r, sr_state_key r)) rows)"

lemma state_rows_keys:
  assumes "state_rows_ok roomID rows"
  shows "distinct (map state_row_key rows)"
proof -
  have "map (\<lambda>r. (sr_type r, sr_state_key r)) rows = map snd (map state_row_key rows)"
    by (simp add: state_row_key_def)
  then show ?thesis using assms unfolding state_rows_ok_def by (metis distinct_map)
qed

subsection \<open>The interface of state maintenance\<close>

locale snapshot_store =
  fixes get_snapshot :: "'s \<Rightarrow> string \<Rightarrow> StateRow list option"
    and save_snapshot :: "'s \<Rightarrow> string \<Rightarrow> string \<Rightarrow> StateRow list \<Rightarrow> 's"
    and get_state :: "'s \<Rightarrow> string \<Rightarrow> StateRow list"
    and set_state :: "'s \<Rightarrow> string \<Rightarrow> StateRow list \<Rightarrow> 's"
    and extremities :: "'s \<Rightarrow> string \<Rightarrow> ForwardExtremity list"
  assumes snapshot_saved:
      "state_rows_ok room rows \<Longrightarrow>
       get_snapshot (save_snapshot s e room rows) e = (if rows = [] then None else Some rows)"
    and snapshot_other: "e' \<noteq> e \<Longrightarrow> get_snapshot (save_snapshot s e room rows) e' = get_snapshot s e'"
    and snapshot_frame: "get_state (save_snapshot s e room rows) = get_state s"
      "extremities (save_snapshot s e room rows) = extremities s"
    and state_set: "state_rows_ok room rows \<Longrightarrow> get_state (set_state s room rows) room = rows"
    and state_other: "room' \<noteq> room \<Longrightarrow> get_state (set_state s room rows) room' = get_state s room'"
    and state_frame: "get_snapshot (set_state s room rows) = get_snapshot s"
      "extremities (set_state s room rows) = extremities s"
begin

text \<open>A maintenance step saves the snapshot of one event and then sets the room's state.\<close>

lemma step_reads:
  assumes "state_rows_ok room snap" and "state_rows_ok room rows"
  shows "get_state (set_state (save_snapshot s e room snap) room rows) room = rows"
    and "get_snapshot (set_state (save_snapshot s e room snap) room rows) e =
           (if snap = [] then None else Some snap)"
  using assms by (simp_all add: state_set state_frame snapshot_saved)

lemma step_keeps:
  "room' \<noteq> room \<Longrightarrow> get_state (set_state (save_snapshot s e room snap) room rows) room' = get_state s room'"
  "e' \<noteq> e \<Longrightarrow> get_snapshot (set_state (save_snapshot s e room snap) room rows) e' = get_snapshot s e'"
  "extremities (set_state (save_snapshot s e room snap) room rows) = extremities s"
  by (simp_all add: state_other state_frame snapshot_other snapshot_frame)

text \<open>Saving a snapshot again replaces it.\<close>

lemma save_twice:
  assumes "state_rows_ok room rows"
  shows "get_snapshot (save_snapshot (save_snapshot s e room rows') e room rows) e' =
         get_snapshot (save_snapshot s e room rows) e'"
  by (cases "e' = e") (simp_all add: snapshot_saved [OF assms] snapshot_other)

end

lemma filter_upsert_other:
  "(\<And>x. key x = key r \<Longrightarrow> \<not> P x) \<Longrightarrow> filter P (upsert key r t) = filter P t"
  by (induction t) (simp_all)

lemma filter_fold_upsert_other:
  "\<forall>r \<in> set rows. \<forall>x. key x = key r \<longrightarrow> \<not> P x \<Longrightarrow> filter P (fold (upsert key) rows t) = filter P t"
proof (induction rows arbitrary: t)
  case (Cons r rows)
  then have "filter P (upsert key r t) = filter P t" by (intro filter_upsert_other) simp
  then show ?case using Cons by simp
qed simp

lemma save_snapshot_rows:
  assumes "state_rows_ok room rows" and "\<forall>x \<in> set t. fst x \<noteq> e"
  shows "fold (save_snapshot_row e room) rows t = t @ map (Pair e) rows"
  using assms(1)
proof (induction rows rule: rev_induct)
  case (snoc r rows)
  then have IH: "fold (save_snapshot_row e room) rows t = t @ map (Pair e) rows"
    by (auto simp: state_rows_ok_def)
  have room: "r\<lparr>sr_room_id := if sr_room_id r = [] then room else sr_room_id r\<rparr> = r"
    using snoc.prems by (simp add: state_rows_ok_def)
  have "find (\<lambda>x. snapshot_key x = snapshot_key (e, r)) (t @ map (Pair e) rows) = None"
    using snoc.prems assms(2) by (force simp: find_None_iff snapshot_key_def state_rows_ok_def image_iff)
  then have "save_snapshot_row e room r (t @ map (Pair e) rows) = (t @ map (Pair e) rows) @ [(e, r)]"
    unfolding save_snapshot_row_def room Let_def by simp
  then show ?case by (simp add: IH)
qed simp

lemma save_snapshot_row_other:
  assumes "e' \<noteq> e"
  shows "filter (\<lambda>x. fst x = e') (save_snapshot_row e room r t) = filter (\<lambda>x. fst x = e') t"
proof -
  have "filter (\<lambda>x. fst x = e') (upsert snapshot_key (e, q) t) = filter (\<lambda>x. fst x = e') t" for q
    using assms by (intro filter_upsert_other) (simp add: snapshot_key_def)
  then show ?thesis
    using assms by (simp add: save_snapshot_row_def Let_def split: option.split)
qed

lemma save_snapshot_other:
  assumes "e' \<noteq> e"
  shows "filter (\<lambda>x. fst x = e') (fold (save_snapshot_row e room) rows t) = filter (\<lambda>x. fst x = e') t"
  by (induction rows arbitrary: t) (simp_all add: save_snapshot_row_other [OF assms])

interpretation tx: snapshot_store TxGetEventState TxSaveEventState TxGetRoomState TxSetRoomState TxForwardExtremities
proof
  fix s :: Store and e e' room room' :: string and rows :: "StateRow list"
  show "TxGetEventState (TxSaveEventState s e room rows) e = (if rows = [] then None else Some rows)"
    if "state_rows_ok room rows"
    using save_snapshot_rows [OF that, of "filter (\<lambda>x. fst x \<noteq> e) (db_snapshots s)" e]
    by (simp add: TxGetEventState_def TxSaveEventState_def comp_def split: list.split)
  show "TxGetEventState (TxSaveEventState s e room rows) e' = TxGetEventState s e'" if "e' \<noteq> e"
  proof -
    have "filter (\<lambda>x. fst x = e') (filter (\<lambda>x. fst x \<noteq> e) (db_snapshots s)) =
        filter (\<lambda>x. fst x = e') (db_snapshots s)"
      using that by (auto simp: filter_filter intro: filter_cong)
    then show ?thesis
      by (simp add: TxGetEventState_def TxSaveEventState_def save_snapshot_other [OF that])
  qed
  show "TxGetRoomState (TxSetRoomState s room rows) room = rows" if ok: "state_rows_ok room rows"
  proof -
    have same: "map (\<lambda>r. r\<lparr>sr_room_id := room\<rparr>) rows = rows"
      using ok by (intro map_idI) (simp add: state_rows_ok_def)
    have fold: "fold (\<lambda>r. upsert state_row_key (r\<lparr>sr_room_id := room\<rparr>)) rows t =
        fold (upsert state_row_key) (map (\<lambda>r. r\<lparr>sr_room_id := room\<rparr>) rows) t" for t
      by (induction rows arbitrary: t) simp_all
    have "fold (upsert state_row_key) rows (filter (\<lambda>r. sr_room_id r \<noteq> room) (db_room_state s)) =
        filter (\<lambda>r. sr_room_id r \<noteq> room) (db_room_state s) @ rows"
      using ok by (intro fold_upsert_new state_rows_keys) (auto simp: state_rows_ok_def state_row_key_def)
    moreover have "filter (\<lambda>r. sr_room_id r = room) rows = rows"
      using ok by (simp add: filter_id_conv state_rows_ok_def)
    ultimately show ?thesis
      by (simp add: TxGetRoomState_def TxSetRoomState_def fold same)
  qed
  show "TxGetRoomState (TxSetRoomState s room rows) room' = TxGetRoomState s room'" if "room' \<noteq> room"
  proof -
    have fold: "fold (\<lambda>r. upsert state_row_key (r\<lparr>sr_room_id := room\<rparr>)) rows t =
        fold (upsert state_row_key) (map (\<lambda>r. r\<lparr>sr_room_id := room\<rparr>) rows) t" for t
      by (induction rows arbitrary: t) simp_all
    have "filter (\<lambda>r. sr_room_id r = room') (fold (upsert state_row_key) (map (\<lambda>r. r\<lparr>sr_room_id := room\<rparr>) rows) t) =
        filter (\<lambda>r. sr_room_id r = room') t" for t
      using that by (intro filter_fold_upsert_other) (auto simp: state_row_key_def)
    moreover have "filter (\<lambda>r. sr_room_id r = room') (filter (\<lambda>r. sr_room_id r \<noteq> room) (db_room_state s)) =
        filter (\<lambda>r. sr_room_id r = room') (db_room_state s)"
      using that by (auto simp: filter_filter intro: filter_cong)
    ultimately show ?thesis by (simp add: TxGetRoomState_def TxSetRoomState_def fold)
  qed
qed (simp_all add: TxGetRoomState_def TxSaveEventState_def TxForwardExtremities_def TxSetRoomState_def
      TxGetEventState_def fun_eq_iff)

subsection \<open>Forward extremities\<close>

definition extremity_ids :: "Store \<Rightarrow> string \<Rightarrow> string set" where
  "extremity_ids s room = fe_event_id ` set (TxForwardExtremities s room)"

lemma extremity_ids_iff: "i \<in> extremity_ids s room \<longleftrightarrow> (room, i) \<in> extremity_key ` set (db_extremities s)"
  by (force simp: extremity_ids_def TxForwardExtremities_def extremity_key_def)

lemma remove_extremity_keys:
  "extremity_key ` set (db_extremities (RemoveForwardExtremity s room i)) =
     extremity_key ` set (db_extremities s) - {(room, i)}"
  by (auto simp: RemoveForwardExtremity_def)

lemma add_extremity_keys:
  "extremity_key ` set (db_extremities (AddForwardExtremity s room i d)) =
     insert (room, i) (extremity_key ` set (db_extremities s))"
  by (simp add: AddForwardExtremity_def insert_new_keys) (simp add: extremity_key_def)

lemma fold_remove_keys:
  "extremity_key ` set (db_extremities (fold (\<lambda>p s. RemoveForwardExtremity s room p) ps s)) =
     extremity_key ` set (db_extremities s) - Pair room ` set ps"
  by (induction ps arbitrary: s) (auto simp: remove_extremity_keys)

lemma insert_event_row_extremities [simp]: "db_extremities (fst (insert_event_row s e)) = db_extremities s"
  by (simp add: insert_event_row_def split: option.split)

lemma InsertEvent_extremities:
  "extremity_ids (fst (InsertEvent s e)) room =
     (if room = er_room_id e then insert (er_event_id e) (extremity_ids s room - set (row_prev_events e))
      else extremity_ids s room)"
proof (rule set_eqI)
  fix i
  have keys: "extremity_key ` set (db_extremities (fst (InsertEvent s e))) =
      insert (er_room_id e, er_event_id e)
        (extremity_key ` set (db_extremities s) - Pair (er_room_id e) ` set (row_prev_events e))"
    by (simp add: InsertEvent_def UpdateExtremitiesForEvent_def add_extremity_keys fold_remove_keys
        case_prod_beta)
  have "i \<in> extremity_ids (fst (InsertEvent s e)) room \<longleftrightarrow>
      (room, i) = (er_room_id e, er_event_id e)
      \<or> i \<in> extremity_ids s room \<and> (room, i) \<notin> Pair (er_room_id e) ` set (row_prev_events e)"
    unfolding extremity_ids_iff keys by blast
  then show "i \<in> extremity_ids (fst (InsertEvent s e)) room \<longleftrightarrow>
      i \<in> (if room = er_room_id e then insert (er_event_id e) (extremity_ids s room - set (row_prev_events e))
           else extremity_ids s room)"
    by auto
qed

text \<open>Updating the extremities touches no other table.\<close>

lemma fold_remove_extremity:
  "\<exists>xs. fold (\<lambda>p s. RemoveForwardExtremity s room p) ps s = s\<lparr>db_extremities := xs\<rparr>"
proof (induction ps arbitrary: s)
  case Nil
  have "s = s\<lparr>db_extremities := db_extremities s\<rparr>" by simp
  then show ?case by (metis fold_simps(1))
next
  case (Cons p ps)
  then show ?case using Cons [of "RemoveForwardExtremity s room p"] by (auto simp: RemoveForwardExtremity_def)
qed

lemma UpdateExtremities_tables:
  "\<exists>xs. UpdateExtremitiesForEvent s room i ps d = s\<lparr>db_extremities := xs\<rparr>"
  using fold_remove_extremity [of room ps s]
  by (auto simp: UpdateExtremitiesForEvent_def AddForwardExtremity_def)

subsection \<open>The walk behind rejected events\<close>

text \<open>The events reached from the start through rejected events.\<close>

inductive behind :: "Store \<Rightarrow> string list \<Rightarrow> string \<Rightarrow> bool" for s start where
  behind_start: "i \<in> set start \<Longrightarrow> behind s start i"
| behind_prev: "behind s start i \<Longrightarrow> p \<in> set (rejected_prevs s i) \<Longrightarrow> behind s start p"

definition walk_ok :: "Store \<Rightarrow> string list \<Rightarrow> string list \<Rightarrow> string list \<Rightarrow> string set \<Rightarrow> bool" where
  "walk_ok s start visited collected todo \<longleftrightarrow>
     (\<forall>i \<in> set visited. set (rejected_prevs s i) \<subseteq> set collected \<inter> (set visited \<union> todo))
   \<and> (\<forall>i \<in> set visited \<union> todo. behind s start i)
   \<and> (\<forall>p \<in> set collected. \<exists>i. behind s start i \<and> p \<in> set (rejected_prevs s i))
   \<and> set start \<subseteq> set visited \<union> todo"

lemma walk_ok_visit:
  assumes "walk_ok s start visited collected todo" and "i \<in> todo"
  shows "walk_ok s start (i # visited) (rejected_prevs s i @ collected)
           (todo - {i} \<union> set (filter (\<lambda>p. p \<notin> set (i # visited)) (rejected_prevs s i)))"
proof -
  have i: "behind s start i" using assms by (auto simp: walk_ok_def)
  then have "behind s start p" if "p \<in> set (rejected_prevs s i)" for p
    using that by (rule behind_prev)
  then show ?thesis using assms i unfolding walk_ok_def by auto
qed

lemma walk_round_ok:
  "walk_ok s start visited collected (set nxt \<union> set batch) \<Longrightarrow>
   walk_round s visited collected nxt batch = (visited1, collected1, nxt1) \<Longrightarrow>
   walk_ok s start visited1 collected1 (set nxt1)"
proof (induction s visited collected nxt batch rule: walk_round.induct)
  case (2 s visited collected nxt i batch)
  show ?case
  proof (cases "i \<in> set visited")
    case True
    then have "walk_ok s start visited collected (set nxt \<union> set batch)"
      using 2(3) unfolding walk_ok_def by auto
    then show ?thesis using 2(1,4) True by simp
  next
    case False
    let ?todo = "set (nxt @ filter (\<lambda>p. p \<notin> set (i # visited)) (rejected_prevs s i)) \<union> set batch"
    have "walk_ok s start (i # visited) (rejected_prevs s i @ collected)
        (set nxt \<union> set (i # batch) - {i} \<union> set (filter (\<lambda>p. p \<notin> set (i # visited)) (rejected_prevs s i)))"
      by (rule walk_ok_visit [OF 2(3)]) simp
    moreover have "set (i # visited) \<union> (set nxt \<union> set (i # batch) - {i} \<union>
        set (filter (\<lambda>p. p \<notin> set (i # visited)) (rejected_prevs s i))) = set (i # visited) \<union> ?todo"
      by auto
    ultimately have "walk_ok s start (i # visited) (rejected_prevs s i @ collected) ?todo"
      unfolding walk_ok_def by metis
    then show ?thesis using 2(2,4) False by simp
  qed
qed simp

lemma walk_behind_ok:
  "walk_ok s start visited collected (set batch) \<Longrightarrow>
   set (walk_behind s visited collected batch) = {p. \<exists>i. behind s start i \<and> p \<in> set (rejected_prevs s i)}"
proof (induction s visited collected batch rule: walk_behind.induct)
  case (1 s visited collected batch)
  show ?case
  proof (cases "batch = []")
    case True
    have all: "i \<in> set visited" if "behind s start i" for i
      using that by induction (use 1(2) True in \<open>auto simp: walk_ok_def\<close>)
    then show ?thesis
      using 1(2) True by (subst walk_behind.simps) (fastforce simp: walk_ok_def)
  next
    case False
    obtain v c n where r: "walk_round s visited collected [] batch = (v, c, n)" by (metis prod_cases3)
    have "walk_ok s start v c (set n)"
      using walk_round_ok [OF _ r] 1(2) by simp
    then show ?thesis
      using 1(1) False r by (subst walk_behind.simps) simp
  qed
qed

lemma RemovePrevsBehindRejected_extremities:
  "extremity_ids (RemovePrevsBehindRejected s room start) r =
     (if r = room then extremity_ids s r - {p. \<exists>i. behind s start i \<and> p \<in> set (rejected_prevs s i)}
      else extremity_ids s r)"
proof -
  have "set (walk_behind s [] [] start) = {p. \<exists>i. behind s start i \<and> p \<in> set (rejected_prevs s i)}"
    by (rule walk_behind_ok) (auto simp: walk_ok_def intro: behind_start)
  then show ?thesis
    by (auto simp: extremity_ids_def TxForwardExtremities_def RemovePrevsBehindRejected_def)
qed

subsection \<open>The heads of a state DAG\<close>

text \<open>Some accepted state event refers to the event.\<close>

definition referenced :: "Store \<Rightarrow> string \<Rightarrow> bool" where
  "referenced s i \<longleftrightarrow> (\<exists>g \<in> set (db_edges s). se_prev_state_id g = i \<and> se_child_is_state g)"

definition heads_ok :: "Store \<Rightarrow> bool" where
  "heads_ok s \<longleftrightarrow> (\<forall>room i. (room, i) \<in> set (db_heads s) \<longleftrightarrow> (i, room) \<in> set (db_state_events s) \<and> \<not> referenced s i)"

text \<open>
  What the caller has checked of an accepted event: the state events it refers to are in its room,
  and the event was not accepted before, neither in another room nor of the other kind.
\<close>

definition advance_ok :: "Store \<Rightarrow> string \<Rightarrow> string \<Rightarrow> bool \<Rightarrow> string list \<Rightarrow> bool" where
  "advance_ok s room e isState prevs \<longleftrightarrow>
     (\<forall>p \<in> set prevs. \<forall>r. (p, r) \<in> set (db_state_events s) \<longrightarrow> r = room)
   \<and> (\<forall>r. (e, r) \<in> set (db_state_events s) \<longrightarrow> r = room)
   \<and> (\<forall>g \<in> set (db_edges s). se_event_id g = e \<longrightarrow> se_child_is_state g = isState)"

lemma fold_edges_set:
  fixes t :: "StateEdge list" and room :: string
  assumes "\<forall>g \<in> set t. se_event_id g = e \<longrightarrow> se_child_is_state g = isState"
  defines "edge p \<equiv> \<lparr>se_room_id = room, se_event_id = e, se_prev_state_id = p, se_child_is_state = isState\<rparr>"
  shows "(\<exists>g \<in> set (fold (\<lambda>p. insert_new (\<lambda>g. (se_event_id g, se_prev_state_id g)) (edge p)) ps t).
            se_prev_state_id g = i \<and> se_child_is_state g) \<longleftrightarrow>
         (\<exists>g \<in> set t. se_prev_state_id g = i \<and> se_child_is_state g) \<or> i \<in> set ps \<and> isState"
  using assms(1)
proof (induction ps arbitrary: t)
  case (Cons p ps)
  let ?t = "insert_new (\<lambda>g. (se_event_id g, se_prev_state_id g)) (edge p) t"
  have "\<forall>g \<in> set ?t. se_event_id g = e \<longrightarrow> se_child_is_state g = isState"
    using Cons.prems by (auto simp: insert_new_set edge_def)
  note IH = Cons.IH [OF this]
  have "(\<exists>g \<in> set ?t. se_prev_state_id g = i \<and> se_child_is_state g) \<longleftrightarrow>
        (\<exists>g \<in> set t. se_prev_state_id g = i \<and> se_child_is_state g) \<or> i = p \<and> isState"
    using Cons.prems by (auto simp: insert_new_set edge_def)
  then show ?case using IH by auto
qed simp

lemma advance_referenced:
  assumes "advance_ok s room e isState prevs"
  shows "referenced (TxAdvanceStateDAG s room e isState prevs) i \<longleftrightarrow>
         referenced s i \<or> i \<in> set prevs \<and> isState"
proof -
  have "db_edges (TxAdvanceStateDAG s room e isState prevs) =
      fold (\<lambda>p. insert_new (\<lambda>g. (se_event_id g, se_prev_state_id g))
        \<lparr>se_room_id = room, se_event_id = e, se_prev_state_id = p, se_child_is_state = isState\<rparr>)
        prevs (db_edges s)"
    by (simp add: TxAdvanceStateDAG_def Let_def)
  then show ?thesis
    unfolding referenced_def
    using fold_edges_set [of "db_edges s" e isState room prevs i] assms by (simp add: advance_ok_def)
qed

lemma advance_state_events:
  assumes "advance_ok s room e isState prevs"
  shows "(i, r) \<in> set (db_state_events (TxAdvanceStateDAG s room e isState prevs)) \<longleftrightarrow>
         (i, r) \<in> set (db_state_events s) \<or> isState \<and> i = e \<and> r = room"
proof (cases isState)
  case True
  have "db_state_events (TxAdvanceStateDAG s room e True prevs) = insert_new fst (e, room) (db_state_events s)"
    by (simp add: TxAdvanceStateDAG_def Let_def)
  moreover have "e \<in> fst ` set (db_state_events s) \<Longrightarrow> (e, room) \<in> set (db_state_events s)"
    using assms by (auto simp: advance_ok_def)
  ultimately show ?thesis using True by (auto simp: insert_new_set)
qed (simp add: TxAdvanceStateDAG_def Let_def)

lemma advance_heads:
  "(r, i) \<in> set (db_heads (TxAdvanceStateDAG s room e isState prevs)) \<longleftrightarrow>
     (if isState then (r, i) \<in> set (db_heads s) \<and> \<not> (r = room \<and> i \<in> set prevs)
                      \<or> r = room \<and> i = e \<and> \<not> referenced (TxAdvanceStateDAG s room e True prevs) e
      else (r, i) \<in> set (db_heads s))"
proof (cases isState)
  case True
  let ?s = "TxAdvanceStateDAG s room e True prevs"
  let ?h = "filter (\<lambda>h. \<not> (fst h = room \<and> snd h \<in> set prevs)) (db_heads s)"
  have "referenced ?s e \<longleftrightarrow> list_ex (\<lambda>g. se_prev_state_id g = e \<and> se_child_is_state g) (db_edges ?s)"
    by (simp add: referenced_def list_ex_iff)
  then have "db_heads ?s = (if referenced ?s e then ?h else insert_new id (room, e) ?h)"
    by (simp add: TxAdvanceStateDAG_def Let_def)
  then have "(r, i) \<in> set (db_heads ?s) \<longleftrightarrow> (r, i) \<in> set ?h \<or> r = room \<and> i = e \<and> \<not> referenced ?s e"
    by (auto simp: insert_new_set)
  then show ?thesis using True by auto
qed (simp add: TxAdvanceStateDAG_def Let_def)

lemma advance_heads_ok:
  assumes "heads_ok s" and "advance_ok s room e isState prevs"
  shows "heads_ok (TxAdvanceStateDAG s room e isState prevs)"
  unfolding heads_ok_def
proof (intro allI)
  fix r i
  note ok = assms(1) [unfolded heads_ok_def, rule_format]
  note refs = advance_referenced [OF assms(2)] and evs = advance_state_events [OF assms(2)]
  have same: "r = room" if "i \<in> set prevs" "(i, r) \<in> set (db_state_events s)"
    using assms(2) that by (auto simp: advance_ok_def)
  show "(r, i) \<in> set (db_heads (TxAdvanceStateDAG s room e isState prevs)) \<longleftrightarrow>
      (i, r) \<in> set (db_state_events (TxAdvanceStateDAG s room e isState prevs))
      \<and> \<not> referenced (TxAdvanceStateDAG s room e isState prevs) i"
  proof (cases isState)
    case True
    then show ?thesis
      unfolding advance_heads evs refs using ok [of r i] same refs [of e] by auto
  next
    case False
    then show ?thesis
      unfolding advance_heads evs refs using ok [of r i] by simp
  qed
qed

text \<open>The states the state-DAG tables go through.\<close>

inductive dag_reachable :: "Store \<Rightarrow> bool" where
  dag_empty: "db_edges s = [] \<Longrightarrow> db_state_events s = [] \<Longrightarrow> db_heads s = [] \<Longrightarrow> dag_reachable s"
| dag_advance: "dag_reachable s \<Longrightarrow> advance_ok s room e isState prevs \<Longrightarrow>
     dag_reachable (TxAdvanceStateDAG s room e isState prevs)"
| dag_other: "dag_reachable s \<Longrightarrow> db_edges s' = db_edges s \<Longrightarrow> db_state_events s' = db_state_events s \<Longrightarrow>
     db_heads s' = db_heads s \<Longrightarrow> dag_reachable s'"

lemma dag_reachable_heads: "dag_reachable s \<Longrightarrow> heads_ok s"
proof (induction rule: dag_reachable.induct)
  case (dag_advance s room e isState prevs)
  then show ?case by (intro advance_heads_ok)
qed (auto simp: heads_ok_def referenced_def)

subsection \<open>Properties\<close>

text \<open>
  Inserting an event makes it a forward extremity of its room in place of the events it names
  as previous, and leaves every other room's extremities alone.
\<close>

theorem insert_event_extremities:
  "extremity_ids (fst (InsertEvent s e)) room =
     (if room = er_room_id e then insert (er_event_id e) (extremity_ids s room - set (row_prev_events e))
      else extremity_ids s room)"
  by (rule InsertEvent_extremities)

text \<open>
  Inserting an event that is already stored keeps its row, yet makes it an extremity again and
  drops its previous events from the extremities even when later events build on it: the insert is
  not the no-op its comment promises. The event stream position is used up as well.
\<close>

theorem replayed_event_is_extremity_again:
  assumes "TxGetEvent s (er_event_id e) = Some old"
  shows "db_events (fst (InsertEvent s e)) = db_events s \<and> snd (InsertEvent s e) = er_stream old
    \<and> er_event_id e \<in> extremity_ids (fst (InsertEvent s e)) (er_room_id e)
    \<and> db_next_stream (fst (InsertEvent s e)) = db_next_stream s + 1"
proof -
  obtain xs where "UpdateExtremitiesForEvent (s\<lparr>db_next_stream := db_next_stream s + 1\<rparr>) (er_room_id e)
      (er_event_id e) (row_prev_events e) (er_depth e) = s\<lparr>db_next_stream := db_next_stream s + 1, db_extremities := xs\<rparr>"
    using UpdateExtremities_tables [of "s\<lparr>db_next_stream := db_next_stream s + 1\<rparr>"] by blast
  then have "db_events (fst (InsertEvent s e)) = db_events s"
    "db_next_stream (fst (InsertEvent s e)) = db_next_stream s + 1"
    "snd (InsertEvent s e) = er_stream old"
    using assms by (simp_all add: InsertEvent_def insert_event_row_def)
  then show ?thesis by (simp add: InsertEvent_extremities)
qed

definition ex_row :: "string \<Rightarrow> string list \<Rightarrow> int \<Rightarrow> EventRow" where
  "ex_row i prevs d = \<lparr>er_event_id = i, er_room_id = ''!r'', er_room_version = ''11'', er_type = ''m.room.topic'',
     er_state_key = [], er_sender = ''@a:x'', er_depth = d, er_origin_server_ts = d, er_stream = 0,
     er_content = Some (JObj []),
     er_json = JObj [(''prev_events'', json_strings prevs), (''state_key'', JStr []), (''type'', JStr ''m.room.topic'')],
     er_redacts = [], er_redacted = False, er_redacted_by = [], er_outlier = False, er_prev_events = None\<rparr>"

definition ex_fork :: Store where
  "ex_fork = fst (InsertEvent (fst (InsertEvent (fst (InsertEvent empty_store
     (ex_row ''$a'' [] 1))) (ex_row ''$b'' [''$a''] 2))) (ex_row ''$c'' [''$b''] 3))"

theorem replayed_event_is_extremity_again_witness:
  "extremity_ids ex_fork ''!r'' = {''$c''}
   \<and> ''$b'' \<in> extremity_ids (fst (InsertEvent ex_fork (ex_row ''$b'' [''$a''] 2))) ''!r''"
proof
  have "map fe_event_id (TxForwardExtremities ex_fork ''!r'') = [''$c'']" by code_simp
  then show "extremity_ids ex_fork ''!r'' = {''$c''}"
    by (metis extremity_ids_def list.set_map list.simps(15) empty_set)
  have old: "TxGetEvent ex_fork (er_event_id (ex_row ''$b'' [''$a''] 2)) =
      Some (the (TxGetEvent ex_fork (er_event_id (ex_row ''$b'' [''$a''] 2))))"
    by code_simp
  show "''$b'' \<in> extremity_ids (fst (InsertEvent ex_fork (ex_row ''$b'' [''$a''] 2))) ''!r''"
    using replayed_event_is_extremity_again [OF old] by (simp add: ex_row_def)
qed

text \<open>
  C9: \<open>RemovePrevsBehindRejected\<close> ends on every reference graph, cycles included, and removes from
  the room's extremities exactly the events named by a rejected event that the accepted event's
  previous events lead to through rejected events only.
\<close>

theorem prevs_behind_rejected_removed:
  "extremity_ids (RemovePrevsBehindRejected s room start) r =
     (if r = room then extremity_ids s r - {p. \<exists>i. behind s start i \<and> p \<in> set (rejected_prevs s i)}
      else extremity_ids s r)"
  by (rule RemovePrevsBehindRejected_extremities)

text \<open>
  C10: In every state the state-DAG tables reach, the heads of a room are exactly its accepted state
  events that no accepted state event refers to, in whatever order parents and children arrive.
\<close>

theorem state_dag_heads:
  assumes "dag_reachable s"
  shows "(room, i) \<in> set (db_heads s) \<longleftrightarrow> (i, room) \<in> set (db_state_events s) \<and> \<not> referenced s i"
  using dag_reachable_heads [OF assms] by (simp add: heads_ok_def)

definition ex_dag :: Store where
  "ex_dag = TxAdvanceStateDAG (TxAdvanceStateDAG empty_store ''!r'' ''$b'' True [''$a'']) ''!r'' ''$a'' True []"

lemma ex_dag_steps:
  "advance_ok empty_store ''!r'' ''$b'' True [''$a'']"
  "db_state_events s = [(''$b'', ''!r'')] \<Longrightarrow> \<forall>g \<in> set (db_edges s). se_event_id g = ''$b'' \<Longrightarrow>
   advance_ok s ''!r'' ''$a'' True []"
  by (simp_all add: advance_ok_def empty_store_def)

lemma ex_dag_reachable: "dag_reachable ex_dag"
proof -
  have "dag_reachable empty_store" by (rule dag_empty) (simp_all add: empty_store_def)
  then have 1: "dag_reachable (TxAdvanceStateDAG empty_store ''!r'' ''$b'' True [''$a''])"
    by (rule dag_advance [OF _ ex_dag_steps(1)])
  have 2: "db_state_events (TxAdvanceStateDAG empty_store ''!r'' ''$b'' True [''$a'']) = [(''$b'', ''!r'')]"
    and 3: "\<forall>g \<in> set (db_edges (TxAdvanceStateDAG empty_store ''!r'' ''$b'' True [''$a''])). se_event_id g = ''$b''"
    by code_simp+
  show ?thesis unfolding ex_dag_def by (rule dag_advance [OF 1 ex_dag_steps(2) [OF 2 3]])
qed

theorem state_dag_heads_witness: "(''!r'', ''$a'') \<notin> set (db_heads ex_dag)"
proof -
  have ref: "referenced ex_dag ''$a''" by code_simp
  show ?thesis unfolding state_dag_heads [OF ex_dag_reachable] using ref by (simp only: simp_thms)
qed

text \<open>
  Undoing the extremity change of a stored event that is then rejected restores none of its
  previous events: the leaf test finds the rejected event itself among the stored children.
\<close>

theorem undo_restores_nothing:
  assumes "TxGetEvent s (er_event_id e) = Some e" and "er_room_id e = room"
    and "dec_struct [(''prev_events'', dec_slice [] dec_string)] (er_json e) [] = (True, prevs)"
  shows "UndoExtremitiesForRejected s room (er_event_id e) prevs = RemoveForwardExtremity s room (er_event_id e)"
proof -
  have e: "e \<in> set (db_events s)" using TxGetEvent_in [OF assms(1)] by simp
  have leaf: "\<not> EventIsDAGLeaf t room p" if "p \<in> set prevs" "db_events t = db_events s" for p t
    using that e assms(2,3) by (auto simp: EventIsDAGLeaf_def list_ex_iff)
  have "fold (\<lambda>prev s. if \<not> EventIsDAGLeaf s room prev then s
        else case TxGetEvent s prev of None \<Rightarrow> s
             | Some ev \<Rightarrow> AddForwardExtremity s room prev (er_depth ev)) ps t = t"
    if "set ps \<subseteq> set prevs" "db_events t = db_events s" for ps t
    using that by (induction ps) (simp_all add: leaf)
  moreover have "db_events (RemoveForwardExtremity s room (er_event_id e)) = db_events s"
    by (simp add: RemoveForwardExtremity_def)
  ultimately show ?thesis by (simp add: UndoExtremitiesForRejected_def)
qed

theorem undo_restores_nothing_witness:
  "UndoExtremitiesForRejected ex_fork ''!r'' ''$c'' [''$b''] = RemoveForwardExtremity ex_fork ''!r'' ''$c''"
proof -
  let ?c = "(ex_row ''$c'' [''$b''] 3)\<lparr>er_stream := 3\<rparr>"
  have "TxGetEvent ex_fork ''$c'' = Some ?c" by code_simp
  moreover have id: "er_event_id ?c = ''$c''" and room: "er_room_id ?c = ''!r''" by (simp_all add: ex_row_def)
  ultimately have 1: "TxGetEvent ex_fork (er_event_id ?c) = Some ?c" by (simp only:)
  have 3: "dec_struct [(''prev_events'', dec_slice [] dec_string)] (er_json ?c) [] = (True, [''$b''])"
    by code_simp
  show ?thesis using undo_restores_nothing [OF 1 room 3] unfolding id .
qed

end
