(* ===== verification/Event_State.thy ===== *)
theory Event_State
  imports Storage State_Res Auth
begin

section \<open>State at events and the current state (\<open>internal/eventstate\<close>)\<close>

text \<open>
  The maintenance of state: the snapshot of the state at each event, state resolution over the
  snapshots of a room's forward extremities, the state-DAG variant of both (MSC4242), and the
  checks on receipt of a state-DAG event. A state map is the Go map from type, a zero byte and the
  state key to the event ID. \<open>Inl ResolutionPanic\<close> is the panic of \<open>orderPowerEvents\<close>.
\<close>

datatype es_error =
    ResolutionPanic
  | BadEvent event_error
  | StateAfterUnknown string
  | NoStateDAG
  | MissingPrevStateEvents
  | CreateReferencesEarlier
  | EmptyPrevStateEvents
  | TooManyPrevStateEvents
  | ErrMissingPrevState
  | PrevStateInOtherRoom string
  | PrevStateNotState string
  | PrevStateRejected string
  | StateEventUnknown string
  | AuthFailed auth_error

type_synonym state_map = "string gomap"

definition state_key_of :: "string \<Rightarrow> string \<Rightarrow> string" where
  "state_key_of eventType stateKey = eventType @ [CHR 0x00] @ stateKey"

definition stateRowsToMap :: "StateRow list \<Rightarrow> state_map" where
  "stateRowsToMap rows =
     fold (\<lambda>r. gm_put (state_key_of (sr_type r) (sr_state_key r)) (sr_event_id r)) rows []"

definition stateMapToRows :: "string \<Rightarrow> state_map \<Rightarrow> StateRow list" where
  "stateMapToRows roomID m =
     concat (map (\<lambda>(key, i).
       case index_byte (CHR 0x00) key of
         None \<Rightarrow> []
       | Some p \<Rightarrow> [\<lparr>sr_room_id = roomID, sr_type = take p key, sr_state_key = drop (p + 1) key,
                    sr_event_id = i\<rparr>]) m)"

subsection \<open>Candidates of a resolution\<close>

text \<open>The power-level cache only saves work: a lookup gives the parsed content of the stored event.\<close>

definition power_levels_at :: "Store \<Rightarrow> string \<Rightarrow> PowerLevels option" where
  "power_levels_at s i =
     (case TxGetEvent s i of
        None \<Rightarrow> None
      | Some row \<Rightarrow>
          if er_type row \<noteq> ''m.room.power_levels'' then None
          else (case ParsePowerLevels (er_content row) of Inl _ \<Rightarrow> None | Inr pl \<Rightarrow> Some pl))"

text \<open>The loop over the auth events: power levels, create content, create sender.\<close>

fun auth_context :: "Store \<Rightarrow> string list \<Rightarrow> PowerLevels option \<times> raw \<times> string
     \<Rightarrow> PowerLevels option \<times> raw \<times> string" where
  "auth_context s [] acc = acc"
| "auth_context s (aid # aids) (pl, createContent, createSender) =
     auth_context s aids
       (case TxGetEvent s aid of
          None \<Rightarrow> (pl, createContent, createSender)
        | Some row \<Rightarrow>
            if er_type row = ''m.room.power_levels'' \<and> er_state_key row = []
            then (power_levels_at s aid, createContent, createSender)
            else if er_type row = ''m.room.create'' \<and> er_state_key row = []
            then (pl, er_content row, er_sender row)
            else (pl, createContent, createSender))"

definition senderPowerLevel :: "Store \<Rightarrow> string \<Rightarrow> string list \<Rightarrow> Rules \<Rightarrow> Event \<Rightarrow> int" where
  "senderPowerLevel s sender authEvents rules ev =
     (let (pl, content0, sender0) = auth_context s authEvents (None, None, []);
          room = stringField ev ''room_id'';
          (createContent, createSender) =
            (if content0 = None \<and> CreatorPrivileged rules \<and> room \<noteq> [] then
               (case TxGetStateEvent s room ''m.room.create'' [] of
                  None \<Rightarrow> (content0, sender0)
                | Some i \<Rightarrow> (case TxGetEvent s i of
                     None \<Rightarrow> (content0, sender0)
                   | Some createEv \<Rightarrow> (er_content createEv, er_sender createEv)))
             else (content0, sender0));
          create = (if createContent = None then None
                    else case ParseCreate createContent of Inl _ \<Rightarrow> None | Inr c \<Rightarrow> Some c)
      in if CreatorPrivileged rules
            \<and> (case create of None \<Rightarrow> False | Some c \<Rightarrow> IsPrivileged c sender createSender)
           then MaxCreatorPowerLevel
         else case pl of
           None \<Rightarrow> (case create of
                     Some c \<Rightarrow> if CreatorOf c createSender = sender then 100 else 0
                   | None \<Rightarrow> 0)
         | Some p \<Rightarrow> UserLevel p sender)"

definition isPowerEvent :: "string \<Rightarrow> raw \<Rightarrow> bool" where
  "isPowerEvent eventType content =
     (if eventType \<in> {''m.room.create'', ''m.room.power_levels'', ''m.room.join_rules''} then True
      else if eventType = ''m.room.member'' then
        (case content of
           None \<Rightarrow> False
         | Some j \<Rightarrow> snd (dec_struct [(''third_party_invite'', dec_raw)] j None) \<noteq> None)
      else False)"

definition buildEventMeta :: "Store \<Rightarrow> Rules \<Rightarrow> EventRow \<Rightarrow> EventMeta" where
  "buildEventMeta s rules row =
     (let meta = \<lparr>em_id = er_event_id row, em_type = er_type row, em_state_key = er_state_key row,
                  em_sender = er_sender row, em_depth = er_depth row, em_ts = er_origin_server_ts row,
                  em_power = isPowerEvent (er_type row) (er_content row), em_auth = [], em_prev = [],
                  em_level = 0\<rparr>
      in case New (er_json row) (Version rules) of
           Inl _ \<Rightarrow> meta
         | Inr ev \<Rightarrow>
             let auth = (if StateDAGs rules
                         then (case TxCalculatedAuth s (er_event_id row) of None \<Rightarrow> [] | Some a \<Rightarrow> a)
                         else AuthEvents ev);
                 prev = (if StateDAGs rules then PrevStateEvents ev else PrevEvents ev)
             in meta\<lparr>em_auth := auth, em_prev := prev,
                  em_level := senderPowerLevel s (er_sender row) auth rules ev\<rparr>)"

subsection \<open>Resolution over candidates\<close>

text \<open>Keeping the first occurrence of each ID.\<close>

definition first_occurrences :: "string list \<Rightarrow> string list" where
  "first_occurrences ids = rev (remdups (rev ids))"

definition apply_order :: "EventMeta list \<Rightarrow> string list \<Rightarrow> state_map" where
  "apply_order cands ordered =
     fold (\<lambda>i m. case by_id cands i of
                    None \<Rightarrow> m
                  | Some c \<Rightarrow> gm_put (state_key_of (em_type c) (em_state_key c)) i m) ordered []"

definition resolveOverCandidates :: "Store \<Rightarrow> string list \<Rightarrow> Rules \<Rightarrow> es_error + state_map" where
  "resolveOverCandidates s candIDs rules =
     (if candIDs = [] then Inr []
      else
        let cands = map (buildEventMeta s rules) (TxEventsByIDs s (first_occurrences candIDs))
        in case Resolve cands (StateResVersion rules) of
             None \<Rightarrow> Inl ResolutionPanic
           | Some ordered \<Rightarrow> Inr (apply_order cands ordered))"

text \<open>The union of the state events in the snapshots of some events, missing ones left out.\<close>

definition snapshot_candidates :: "Store \<Rightarrow> string list \<Rightarrow> string list" where
  "snapshot_candidates s ids =
     concat (map (\<lambda>i. case TxGetEventState s i of None \<Rightarrow> [] | Some rows \<Rightarrow> map sr_event_id rows) ids)"

subsection \<open>Snapshots and the current state\<close>

definition snapshot_base :: "Store \<Rightarrow> string \<Rightarrow> string list \<Rightarrow> Rules \<Rightarrow> es_error + state_map" where
  "snapshot_base s roomID prevs rules =
     (case prevs of
        [] \<Rightarrow> Inr []
      | [p] \<Rightarrow>
          (case TxGetEventState s p of
             Some rows \<Rightarrow> Inr (stateRowsToMap rows)
           | None \<Rightarrow> Inr (stateRowsToMap (TxGetRoomState s roomID)))
      | _ \<Rightarrow> resolveOverCandidates s (snapshot_candidates s prevs) rules)"

definition snapshotForEventTx :: "Store \<Rightarrow> EventRow \<Rightarrow> Rules \<Rightarrow> es_error + StateRow list" where
  "snapshotForEventTx s row rules =
     (let (prevs, stateKey) =
            (case New (er_json row) (Version rules) of
               Inr ev \<Rightarrow> (PrevEvents ev, StateKey ev)
             | Inl _ \<Rightarrow> ((case er_prev_events row of None \<Rightarrow> [] | Some p \<Rightarrow> p), None))
      in case snapshot_base s (er_room_id row) prevs rules of
           Inl e \<Rightarrow> Inl e
         | Inr base \<Rightarrow>
             Inr (stateMapToRows (er_room_id row)
               (case stateKey of
                  Some k \<Rightarrow> if er_event_id row \<noteq> []
                            then gm_put (state_key_of (er_type row) k) (er_event_id row) base else base
                | None \<Rightarrow> base)))"

text \<open>The state after each of some events, resolved; an event without a snapshot is an error.\<close>

definition resolveSnapshotsTx :: "Store \<Rightarrow> string list \<Rightarrow> Rules \<Rightarrow> es_error + state_map" where
  "resolveSnapshotsTx s ids rules =
     (case find (\<lambda>i. TxGetEventState s i = None) ids of
        Some i \<Rightarrow> Inl (StateAfterUnknown i)
      | None \<Rightarrow>
          (case ids of
             [i] \<Rightarrow> Inr (stateRowsToMap (the (TxGetEventState s i)))
           | _ \<Rightarrow> resolveOverCandidates s (snapshot_candidates s ids) rules))"

definition recomputeStateDAGCurrentStateTx :: "Store \<Rightarrow> string \<Rightarrow> Rules \<Rightarrow> es_error + Store" where
  "recomputeStateDAGCurrentStateTx s roomID rules =
     (let heads = TxStateDAGExtremities s roomID
      in if heads = [] then Inr s
         else case resolveSnapshotsTx s heads rules of
           Inl e \<Rightarrow> Inl e
         | Inr state \<Rightarrow> Inr (TxSetRoomState s roomID (stateMapToRows roomID state)))"

definition recomputeCurrentStateTx :: "Store \<Rightarrow> string \<Rightarrow> Rules \<Rightarrow> es_error + Store" where
  "recomputeCurrentStateTx s roomID rules =
     (if StateDAGs rules then recomputeStateDAGCurrentStateTx s roomID rules
      else case TxForwardExtremities s roomID of
        [] \<Rightarrow> Inr s
      | [e] \<Rightarrow>
          (case TxGetEventState s (fe_event_id e) of
             Some rows \<Rightarrow> Inr (TxSetRoomState s roomID rows)
           | None \<Rightarrow> Inr (TxSetRoomState s roomID (TxGetRoomState s roomID)))
      | exts \<Rightarrow>
          (case resolveOverCandidates s (snapshot_candidates s (map fe_event_id exts)) rules of
             Inl e \<Rightarrow> Inl e
           | Inr resolved \<Rightarrow> Inr (TxSetRoomState s roomID (stateMapToRows roomID resolved))))"

subsection \<open>State-DAG rooms\<close>

text \<open>The token of a third-party invite's signed block, \<open>""\<close> where there is none.\<close>

definition signed_token :: "json \<Rightarrow> string" where
  "signed_token tp =
     (let (ok, t) = dec_struct [(''signed'', dec_struct (str_field ''token''))] tp []
      in if ok then t else [])"

definition add_auth :: "state_map \<Rightarrow> string \<Rightarrow> string \<Rightarrow> string list \<Rightarrow> string list" where
  "add_auth before typ sk out =
     (case gm_get before (state_key_of typ sk) of
        None \<Rightarrow> out
      | Some i \<Rightarrow> if i \<in> set out then out else out @ [i])"

definition calculatedAuthEvents :: "Rules \<Rightarrow> state_map \<Rightarrow> Event \<Rightarrow> string list" where
  "calculatedAuthEvents rules before ev =
     (let ty = stringField ev ''type''; sender = stringField ev ''sender''
      in if ty = ''m.room.create'' then []
         else
           let out0 = (if RoomIDIsCreateHash rules then [] else add_auth before ''m.room.create'' [] []);
               out1 = add_auth before ''m.room.member'' sender (add_auth before ''m.room.power_levels'' [] out0)
           in if ty \<noteq> ''m.room.member'' then out1
              else
                let out2 = add_auth before ''m.room.member'' (case StateKey ev of Some t \<Rightarrow> t | None \<Rightarrow> []) out1
                in (case ParseMember (Some (Content ev)) of
                      Inl _ \<Rightarrow> out2
                    | Inr mc \<Rightarrow>
                        let out3 = (if mc_membership mc \<in> {MembershipJoin, MembershipInvite, ''knock''}
                                    then add_auth before ''m.room.join_rules'' [] out2 else out2);
                            out4 = (if mc_authorised_via mc \<noteq> []
                                    then add_auth before ''m.room.member'' (mc_authorised_via mc) out3 else out3)
                        in (case mc_third_party mc of
                              None \<Rightarrow> out4
                            | Some tp \<Rightarrow>
                                if signed_token tp \<noteq> []
                                then add_auth before ''m.room.third_party_invite'' (signed_token tp) out4
                                else out4)))"

definition maintainStateDAGTx :: "Store \<Rightarrow> EventRow \<Rightarrow> Rules \<Rightarrow> es_error + Store" where
  "maintainStateDAGTx s row rules =
     (case New (er_json row) (Version rules) of
        Inl e \<Rightarrow> Inl (BadEvent e)
      | Inr ev \<Rightarrow>
          let prevs = PrevStateEvents ev
          in (case (if prevs = [] then Inr [] else resolveSnapshotsTx s prevs rules) of
                Inl e \<Rightarrow> Inl e
              | Inr before \<Rightarrow>
                  let s1 = TxSaveCalculatedAuth s (er_room_id row) (er_event_id row)
                             (calculatedAuthEvents rules before ev);
                      after = (case StateKey ev of
                                 None \<Rightarrow> before
                               | Some k \<Rightarrow> gm_put (state_key_of (stringField ev ''type'') k)
                                            (er_event_id row) before);
                      s2 = TxSaveEventState s1 (er_event_id row) (er_room_id row)
                             (stateMapToRows (er_room_id row) after);
                      s3 = TxAdvanceStateDAG s2 (er_room_id row) (er_event_id row)
                             (StateKey ev \<noteq> None) prevs
                  in recomputeStateDAGCurrentStateTx s3 (er_room_id row) rules))"

subsection \<open>The entry points\<close>

definition maintain_tx :: "EventRow \<Rightarrow> Rules \<Rightarrow> Store \<Rightarrow> es_error + Store" where
  "maintain_tx row rules s =
     (if StateDAGs rules then maintainStateDAGTx s row rules
      else case snapshotForEventTx s row rules of
        Inl e \<Rightarrow> Inl e
      | Inr snap \<Rightarrow>
          recomputeCurrentStateTx (TxSaveEventState s (er_event_id row) (er_room_id row) snap)
            (er_room_id row) rules)"

definition Maintain :: "EventRow \<Rightarrow> Rules \<Rightarrow> Store \<Rightarrow> es_error option \<times> Store" where
  "Maintain row rules s = WithRoomWrite (maintain_tx row rules) s"

definition seed_tx :: "string \<Rightarrow> Rules \<Rightarrow> EventRow \<Rightarrow> StateRow list \<Rightarrow> Store \<Rightarrow> es_error + Store" where
  "seed_tx roomID rules joinRow stateRows s =
     (let base0 = stateRowsToMap stateRows;
          base = (if er_event_id joinRow \<noteq> [] \<and> er_type joinRow \<noteq> []
                  then gm_put (state_key_of (er_type joinRow) (er_state_key joinRow)) (er_event_id joinRow) base0
                  else base0);
          s1 = TxSaveEventState s (er_event_id joinRow) roomID (stateMapToRows roomID base);
          s2 = TxSetForwardExtremities s1 roomID
                 [\<lparr>fe_room_id = roomID, fe_event_id = er_event_id joinRow, fe_depth = er_depth joinRow\<rparr>]
      in recomputeCurrentStateTx s2 roomID rules)"

definition SeedRemoteJoin :: "string \<Rightarrow> Rules \<Rightarrow> EventRow \<Rightarrow> StateRow list \<Rightarrow> Store \<Rightarrow> es_error option \<times> Store" where
  "SeedRemoteJoin roomID rules joinRow stateRows s = WithRoomWrite (seed_tx roomID rules joinRow stateRows) s"

subsection \<open>Checks on receipt of a state-DAG event\<close>

definition MaxPrevStateEvents :: nat where "MaxPrevStateEvents = 20"

definition load_state :: "Store \<Rightarrow> state_map \<Rightarrow> string \<Rightarrow> string \<Rightarrow> es_error + EventRow option" where
  "load_state s state typ sk =
     (case gm_get state (state_key_of typ sk) of
        None \<Rightarrow> Inr None
      | Some i \<Rightarrow> (case TxGetEvent s i of None \<Rightarrow> Inl (StateEventUnknown i) | Some row \<Rightarrow> Inr (Some row)))"

definition content_of :: "EventRow option \<Rightarrow> raw" where
  "content_of r = (case r of None \<Rightarrow> None | Some row \<Rightarrow> er_content row)"

definition snapshotFromState ::
  "Store \<Rightarrow> state_map \<Rightarrow> string \<Rightarrow> string \<Rightarrow> string \<Rightarrow> raw \<Rightarrow> es_error + StateSnapshot" where
  "snapshotFromState s state sender stateKey eventType content =
     bind_result (load_state s state ''m.room.create'' []) (\<lambda>create.
     bind_result (load_state s state ''m.room.join_rules'' []) (\<lambda>joinRules.
     bind_result (load_state s state ''m.room.power_levels'' []) (\<lambda>powerLevels.
     bind_result (load_state s state ''m.room.guest_access'' []) (\<lambda>guestAccess.
     bind_result (load_state s state ''m.room.member'' sender) (\<lambda>senderMember.
     bind_result (if eventType = ''m.room.member'' \<and> stateKey \<noteq> sender
                  then load_state s state ''m.room.member'' stateKey else Inr None) (\<lambda>targetMember.
     bind_result (if eventType = ''m.room.member'' then
                    (case ParseMember content of
                       Inl _ \<Rightarrow> Inr None
                     | Inr mc \<Rightarrow> (case mc_third_party mc of
                         None \<Rightarrow> Inr None
                       | Some tp \<Rightarrow> if signed_token tp \<noteq> []
                                    then load_state s state ''m.room.third_party_invite'' (signed_token tp)
                                    else Inr None))
                  else Inr None) (\<lambda>invite.
     Inr (zero_snapshot\<lparr>ss_create := content_of create,
            ss_create_sender := (case create of None \<Rightarrow> [] | Some row \<Rightarrow> er_sender row),
            ss_join_rules := content_of joinRules, ss_power_level := content_of powerLevels,
            ss_guest_access := content_of guestAccess, ss_sender_member := content_of senderMember,
            ss_target_member := content_of targetMember,
            ss_third_party_invite := content_of invite\<rparr>))))))))"

text \<open>The checks on each \<open>prev_state_event\<close>, in order.\<close>

fun check_prev_states :: "Store \<Rightarrow> Rules \<Rightarrow> string \<Rightarrow> string list \<Rightarrow> es_error + unit" where
  "check_prev_states s rules roomID [] = Inr ()"
| "check_prev_states s rules roomID (i # is) =
     (case TxGetEvent s i of
        None \<Rightarrow> Inl ErrMissingPrevState
      | Some row \<Rightarrow>
          if er_room_id row \<noteq> roomID then Inl (PrevStateInOtherRoom i)
          else if (case New (er_json row) (Version rules) of Inl _ \<Rightarrow> True | Inr pe \<Rightarrow> \<not> IsState pe)
            then Inl (PrevStateNotState i)
          else if IsEventRejected s i then Inl (PrevStateRejected i)
          else check_prev_states s rules roomID is)"

definition auth_result :: "auth_error + unit \<Rightarrow> es_error + unit" where
  "auth_result r = (case r of Inl e \<Rightarrow> Inl (AuthFailed e) | Inr u \<Rightarrow> Inr u)"

definition CheckStateDAGEvent ::
  "(string \<Rightarrow> string \<Rightarrow> string \<Rightarrow> bool) \<Rightarrow> Store \<Rightarrow> Event \<Rightarrow> bool \<Rightarrow> bool \<Rightarrow> es_error + unit" where
  "CheckStateDAGEvent ed_verify s ev restrictedAuthorised senderIsGuest =
     (let rules = ev_rules ev; ty = stringField ev ''type''; sender = stringField ev ''sender'';
          room = stringField ev ''room_id'';
          stateKey = (case StateKey ev of Some k \<Rightarrow> k | None \<Rightarrow> []); isState = (StateKey ev \<noteq> None);
          content = Some (Content ev); prevs = PrevStateEvents ev
      in if \<not> StateDAGs rules then Inl NoStateDAG
         else if gm_get (ev_fields ev) ''prev_state_events'' = None then Inl MissingPrevStateEvents
         else if ty = ''m.room.create'' \<and> isState \<and> stateKey = [] then
           (if prevs \<noteq> [] \<or> PrevEvents ev \<noteq> [] then Inl CreateReferencesEarlier
            else auth_result (Authorize ed_verify rules ty stateKey sender content zero_snapshot True))
         else if prevs = [] then Inl EmptyPrevStateEvents
         else if MaxPrevStateEvents < length prevs then Inl TooManyPrevStateEvents
         else
           bind_result (check_prev_states s rules room prevs) (\<lambda>_.
           bind_result (resolveSnapshotsTx s prevs rules) (\<lambda>before.
           bind_result (snapshotFromState s before sender stateKey ty content) (\<lambda>st.
             auth_result (Authorize ed_verify rules ty stateKey sender content
               (st\<lparr>ss_restricted_authorised := restrictedAuthorised, ss_sender_is_guest := senderIsGuest,
                   ss_only_prev_is_create :=
                     (case prevs of
                        [p] \<Rightarrow> (case TxGetEvent s p of
                                 Some row \<Rightarrow> er_type row = ''m.room.create'' | None \<Rightarrow> False)
                      | _ \<Rightarrow> False)\<rparr>) isState)))))"

end
