(* ===== verification/Event_State_Laws.thy ===== *)
theory Event_State_Laws
  imports Event_State Storage_Laws State_Res_Laws
begin

section \<open>What state maintenance guarantees\<close>

text \<open>
  The core invariant of the package: after every maintenance step the current state of a room is
  the resolution of the snapshots of its forward extremities. The proofs read the store through the
  interface \<open>snapshot_store\<close> and resolve through \<open>state_resolver\<close>; on a linear history the
  invariant says that the current state is the history applied event by event.
\<close>

subsection \<open>State maps and rows\<close>

lemma index_byte_split: "index_byte c k = Some p \<Longrightarrow> k = take p k @ c # drop (Suc p) k"
  using index_byte_Some_less index_byte_Some_nth by (metis Cons_nth_drop_Suc append_take_drop_id)

lemma index_byte_state_key:
  "CHR 0x00 \<notin> set ty \<Longrightarrow> index_byte (CHR 0x00) (state_key_of ty sk) = Some (length ty)"
  by (simp add: state_key_of_def index_byte_append_Cons)

lemma state_key_NUL: "CHR 0x00 \<in> set (state_key_of ty sk)"
  by (simp add: state_key_of_def)

lemma row_of_key:
  "index_byte (CHR 0x00) key = Some p \<Longrightarrow> state_key_of (take p key) (drop (p + 1) key) = key"
  using index_byte_split [of "CHR 0x00" key p] by (simp add: state_key_of_def)

lemma stateMapToRows_Nil [simp]: "stateMapToRows room [] = []"
  by (simp add: stateMapToRows_def)

lemma stateMapToRows_Cons:
  "stateMapToRows room ((key, i) # m) =
     (case index_byte (CHR 0x00) key of
        None \<Rightarrow> stateMapToRows room m
      | Some p \<Rightarrow> \<lparr>sr_room_id = room, sr_type = take p key, sr_state_key = drop (p + 1) key,
                  sr_event_id = i\<rparr> # stateMapToRows room m)"
  by (simp add: stateMapToRows_def split: option.split)

lemma stateMapToRows_key:
  "r \<in> set (stateMapToRows room m) \<Longrightarrow>
   sr_room_id r = room \<and> state_key_of (sr_type r) (sr_state_key r) \<in> fst ` set m"
proof (induction m)
  case (Cons e m)
  obtain key i where e: "e = (key, i)" by (cases e)
  show ?case
  proof (cases "index_byte (CHR 0x00) key")
    case (Some p)
    then show ?thesis
      using Cons row_of_key [OF Some] by (auto simp: e stateMapToRows_Cons)
  qed (use Cons in \<open>auto simp: e stateMapToRows_Cons\<close>)
qed simp

lemma stateMapToRows_ok: "gm_ok m \<Longrightarrow> state_rows_ok room (stateMapToRows room m)"
proof (induction m)
  case (Cons e m)
  obtain key i where e: "e = (key, i)" by (cases e)
  have m: "gm_ok m" and new: "key \<notin> fst ` set m" using Cons.prems by (auto simp: e gm_ok_Cons)
  show ?case
  proof (cases "index_byte (CHR 0x00) key")
    case (Some p)
    have "(take p key, drop (p + 1) key) \<noteq> (sr_type r, sr_state_key r)" if r: "r \<in> set (stateMapToRows room m)" for r
    proof
      assume "(take p key, drop (p + 1) key) = (sr_type r, sr_state_key r)"
      then have "key = state_key_of (sr_type r) (sr_state_key r)"
        using row_of_key [OF Some] by simp
      then show False using stateMapToRows_key [OF r] new by simp
    qed
    then show ?thesis
      using Cons.IH [OF m] Some by (auto simp: e stateMapToRows_Cons state_rows_ok_def)
  qed (use Cons.IH [OF m] in \<open>simp add: e stateMapToRows_Cons\<close>)
qed (simp add: state_rows_ok_def)

lemma stateRowsToMap_gm_of:
  "stateRowsToMap rows = gm_of (map (\<lambda>r. (state_key_of (sr_type r) (sr_state_key r), sr_event_id r)) rows)"
proof -
  have "fold (\<lambda>r. gm_put (state_key_of (sr_type r) (sr_state_key r)) (sr_event_id r)) rows m =
      fold (\<lambda>e. gm_put (fst e) (snd e))
        (map (\<lambda>r. (state_key_of (sr_type r) (sr_state_key r), sr_event_id r)) rows) m" for m
    by (induction rows arbitrary: m) auto
  then show ?thesis by (simp add: stateRowsToMap_def gm_of_def)
qed

lemma stateRowsToMap_ok [simp]: "gm_ok (stateRowsToMap rows)"
  by (simp add: stateRowsToMap_gm_of)

lemma stateRowsToMap_room [simp]: "stateRowsToMap (map (\<lambda>r. r\<lparr>sr_room_id := room\<rparr>) rows) = stateRowsToMap rows"
  by (simp add: stateRowsToMap_gm_of comp_def)

text \<open>Writing a state map as rows and reading it back loses only keys without a separator.\<close>

lemma state_map_roundtrip:
  assumes "gm_ok m"
  shows "stateRowsToMap (stateMapToRows room m) = filter (\<lambda>e. CHR 0x00 \<in> set (fst e)) m"
proof -
  have "map (\<lambda>r. (state_key_of (sr_type r) (sr_state_key r), sr_event_id r)) (stateMapToRows room m) =
      filter (\<lambda>e. CHR 0x00 \<in> set (fst e)) m"
  proof (induction m)
    case (Cons e m)
    obtain key i where e: "e = (key, i)" by (cases e)
    show ?case
    proof (cases "index_byte (CHR 0x00) key")
      case None
      then have "CHR 0x00 \<notin> set key" by (simp add: index_byte_None_iff)
      then show ?thesis using Cons None by (simp add: e stateMapToRows_Cons)
    next
      case (Some p)
      then have "CHR 0x00 \<in> set key" using index_byte_None_iff by (metis option.distinct(1))
      then show ?thesis using Cons Some row_of_key [OF Some] by (simp add: e stateMapToRows_Cons)
    qed
  qed simp
  then show ?thesis
    using gm_of_idem [of "filter (\<lambda>e. CHR 0x00 \<in> set (fst e)) m"] assms
    by (simp add: stateRowsToMap_gm_of)
qed

definition keys_NUL :: "state_map \<Rightarrow> bool" where
  "keys_NUL m \<longleftrightarrow> gm_ok m \<and> (\<forall>k \<in> fst ` set m. CHR 0x00 \<in> set k)"

lemma keys_NUL_Nil [simp]: "keys_NUL []"
  by (simp add: keys_NUL_def)

lemma keys_NUL_put: "keys_NUL m \<Longrightarrow> keys_NUL (gm_put (state_key_of ty sk) i m)"
  by (auto simp: keys_NUL_def gm_put_keys state_key_NUL)

lemma keys_NUL_rows: "keys_NUL (stateRowsToMap rows)"
proof -
  have "keys_NUL m \<Longrightarrow> keys_NUL (fold (\<lambda>r. gm_put (state_key_of (sr_type r) (sr_state_key r)) (sr_event_id r)) rows m)" for m
    by (induction rows arbitrary: m) (simp_all add: keys_NUL_put)
  from this [OF keys_NUL_Nil] show ?thesis unfolding stateRowsToMap_def .
qed

lemma keys_NUL_roundtrip: "keys_NUL m \<Longrightarrow> stateRowsToMap (stateMapToRows room m) = m"
  by (auto simp: keys_NUL_def state_map_roundtrip filter_id_conv)

subsection \<open>Resolved states\<close>

text \<open>
  What the primary keys of the tables guarantee: one row per event ID, per tuple of a snapshot and
  per tuple of a room's state.
\<close>

definition rows_distinct :: "StateRow list \<Rightarrow> bool" where
  "rows_distinct rows \<longleftrightarrow> distinct (map (\<lambda>r. (sr_type r, sr_state_key r)) rows)"

definition store_ok :: "Store \<Rightarrow> bool" where
  "store_ok s \<longleftrightarrow> distinct (map er_event_id (db_events s)) \<and>
     (\<forall>i rows. TxGetEventState s i = Some rows \<longrightarrow> rows_distinct rows) \<and>
     (\<forall>room. rows_distinct (TxGetRoomState s room))"

lemma buildEventMeta_fields [simp]:
  "em_id (buildEventMeta s rules row) = er_event_id row"
  "em_type (buildEventMeta s rules row) = er_type row"
  "em_state_key (buildEventMeta s rules row) = er_state_key row"
  by (simp_all add: buildEventMeta_def Let_def split: sum.split)

definition candidates :: "Store \<Rightarrow> string list \<Rightarrow> Rules \<Rightarrow> EventMeta list" where
  "candidates s ids rules = map (buildEventMeta s rules) (TxEventsByIDs s (first_occurrences ids))"

lemma candidates_distinct: "store_ok s \<Longrightarrow> distinct (map em_id (candidates s ids rules))"
  by (simp add: candidates_def comp_def store_ok_def TxEventsByIDs_def distinct_map_filter)

lemma candidates_ids:
  "em_id ` set (candidates s ids rules) = er_event_id ` set (db_events s) \<inter> set ids"
  by (force simp: candidates_def TxEventsByIDs_def first_occurrences_def image_iff)

lemma resolveOverCandidates_order:
  assumes "store_ok s"
  obtains ordered where "resolveOverCandidates s ids rules = Inr (apply_order (candidates s ids rules) ordered)"
    and "distinct ordered" and "set ordered = er_event_id ` set (db_events s) \<inter> set ids"
proof (cases "ids = []")
  case True
  then show thesis
    by (intro that [of "[]"]) (simp_all add: resolveOverCandidates_def apply_order_def)
next
  case False
  note d = candidates_distinct [OF assms, of ids rules]
  obtain ordered where "Resolve (candidates s ids rules) (StateResVersion rules) = Some ordered"
    using dispatch.resolve_total [OF d] by blast
  then show thesis
    using False dispatch.resolve_order [OF d]
    by (intro that [of ordered]) (simp_all add: resolveOverCandidates_def candidates_def [symmetric] candidates_ids)
qed

lemma apply_order_keys: "keys_NUL (apply_order cands ordered)"
proof -
  have "keys_NUL m \<Longrightarrow> keys_NUL (fold (\<lambda>i m. case by_id cands i of None \<Rightarrow> m
      | Some c \<Rightarrow> gm_put (state_key_of (em_type c) (em_state_key c)) i m) ordered m)" for m
    by (induction ordered arbitrary: m) (auto simp: keys_NUL_put split: option.split)
  from this [OF keys_NUL_Nil] show ?thesis unfolding apply_order_def .
qed

lemma resolve_keys: "resolveOverCandidates s ids rules = Inr m \<Longrightarrow> keys_NUL m"
  by (auto simp: resolveOverCandidates_def Let_def apply_order_keys split: if_splits option.splits)

lemma by_id_distinct:
  assumes "distinct (map em_id cands)" and "c \<in> set cands"
  shows "by_id cands (em_id c) = Some c"
proof -
  have "distinct (map fst (map (\<lambda>e. (em_id e, e)) cands))" using assms(1) by (simp add: comp_def)
  then show ?thesis
    using assms(2) unfolding by_id_def
    by (intro map_of_is_SomeI) (auto simp: rev_map [symmetric] comp_def)
qed

lemma apply_order_get:
  assumes "distinct (map em_id cands)" and "set ordered \<subseteq> em_id ` set cands"
  shows "case gm_get (apply_order cands ordered) k of
      None \<Rightarrow> \<forall>c \<in> set cands. em_id c \<in> set ordered \<longrightarrow> state_key_of (em_type c) (em_state_key c) \<noteq> k
    | Some i \<Rightarrow> i \<in> set ordered \<and> (\<exists>c \<in> set cands. em_id c = i \<and> state_key_of (em_type c) (em_state_key c) = k)"
  using assms(2)
proof (induction ordered rule: rev_induct)
  case (snoc i ordered)
  then obtain c where c: "c \<in> set cands" "em_id c = i" by auto
  have byid: "by_id cands i = Some c" using by_id_distinct [OF assms(1) c(1)] c(2) by simp
  have ok: "gm_ok (apply_order cands ordered)" using apply_order_keys by (simp add: keys_NUL_def)
  have step: "apply_order cands (ordered @ [i]) =
      gm_put (state_key_of (em_type c) (em_state_key c)) i (apply_order cands ordered)"
    by (simp add: apply_order_def byid)
  have uniq: "d = c" if "d \<in> set cands" "em_id d = i" for d
    using that c assms(1) by (metis distinct_ids_inj inj_onD)
  show ?case
  proof (cases "state_key_of (em_type c) (em_state_key c) = k")
    case True
    then show ?thesis using c by (auto simp: step gm_get_put ok)
  next
    case False
    then show ?thesis
      using snoc uniq by (auto simp: step gm_get_put ok split: option.splits)
  qed
qed (simp add: apply_order_def)

subsection \<open>Maintenance\<close>

definition state_view :: "Store \<Rightarrow> string \<Rightarrow> state_map" where
  "state_view s room = stateRowsToMap (TxGetRoomState s room)"

lemma rows_ok_distinct: "state_rows_ok room rows \<Longrightarrow> rows_distinct rows"
  by (simp add: state_rows_ok_def rows_distinct_def)

lemma TxSetRoomState_room:
  "TxSetRoomState s room rows = TxSetRoomState s room (map (\<lambda>r. r\<lparr>sr_room_id := room\<rparr>) rows)"
proof -
  have "fold (\<lambda>r. upsert state_row_key (r\<lparr>sr_room_id := room\<rparr>)) (map (\<lambda>r. r\<lparr>sr_room_id := room\<rparr>) rows) t =
      fold (\<lambda>r. upsert state_row_key (r\<lparr>sr_room_id := room\<rparr>)) rows t" for t
    by (induction rows arbitrary: t) simp_all
  then show ?thesis by (simp add: TxSetRoomState_def)
qed

lemma set_state_rows:
  assumes "rows_distinct rows"
  shows "TxGetRoomState (TxSetRoomState s room rows) room = map (\<lambda>r. r\<lparr>sr_room_id := room\<rparr>) rows"
proof -
  have "state_rows_ok room (map (\<lambda>r. r\<lparr>sr_room_id := room\<rparr>) rows)"
    using assms by (simp add: state_rows_ok_def rows_distinct_def comp_def)
  from tx.state_set [OF this] show ?thesis by (simp only: TxSetRoomState_room [of s room rows])
qed

lemma set_state_view: "rows_distinct rows \<Longrightarrow> state_view (TxSetRoomState s room rows) room = stateRowsToMap rows"
  by (simp add: state_view_def set_state_rows)

lemma set_state_tables [simp]:
  "db_events (TxSetRoomState s room rows) = db_events s"
  "db_snapshots (TxSetRoomState s room rows) = db_snapshots s"
  "db_extremities (TxSetRoomState s room rows) = db_extremities s"
  by (simp_all add: TxSetRoomState_def)

lemma save_snapshot_tables [simp]:
  "db_events (TxSaveEventState s e room rows) = db_events s"
  "db_room_state (TxSaveEventState s e room rows) = db_room_state s"
  "db_extremities (TxSaveEventState s e room rows) = db_extremities s"
  by (simp_all add: TxSaveEventState_def)

lemma set_state_ok:
  assumes "store_ok s" and "rows_distinct rows"
  shows "store_ok (TxSetRoomState s room rows)"
  unfolding store_ok_def
proof (intro conjI allI)
  show "distinct (map er_event_id (db_events (TxSetRoomState s room rows)))"
    using assms(1) by (simp add: store_ok_def)
  show "TxGetEventState (TxSetRoomState s room rows) i = Some r \<longrightarrow> rows_distinct r" for i r
    using assms(1) by (simp add: store_ok_def tx.state_frame)
  show "rows_distinct (TxGetRoomState (TxSetRoomState s room rows) r)" for r
  proof (cases "r = room")
    case True
    then show ?thesis using assms(2) by (simp add: set_state_rows [OF assms(2)] rows_distinct_def comp_def)
  qed (use assms(1) in \<open>simp add: tx.state_other store_ok_def\<close>)
qed

lemma save_snapshot_ok:
  assumes "store_ok s" and "state_rows_ok room rows"
  shows "store_ok (TxSaveEventState s e room rows)"
  unfolding store_ok_def
proof (intro conjI allI)
  show "distinct (map er_event_id (db_events (TxSaveEventState s e room rows)))"
    using assms(1) by (simp add: store_ok_def)
  show "TxGetEventState (TxSaveEventState s e room rows) i = Some r \<longrightarrow> rows_distinct r" for i r
    using assms rows_ok_distinct [OF assms(2)]
    by (cases "i = e") (auto simp: store_ok_def tx.snapshot_saved tx.snapshot_other)
  show "rows_distinct (TxGetRoomState (TxSaveEventState s e room rows) r)" for r
    using assms(1) by (simp add: store_ok_def tx.snapshot_frame)
qed

lemma resolved_rows_ok: "keys_NUL m \<Longrightarrow> state_rows_ok room (stateMapToRows room m)"
  by (simp add: keys_NUL_def stateMapToRows_ok)

text \<open>Recomputing the current state, by the number of extremities.\<close>

lemma recompute_cases:
  assumes "store_ok s" and "\<not> StateDAGs rules"
  obtains s' where "recomputeCurrentStateTx s room rules = Inr s'" and "store_ok s'"
    and "\<exists>rows. s' = s \<or> s' = TxSetRoomState s room rows"
    and "case TxForwardExtremities s room of
           [] \<Rightarrow> s' = s
         | [x] \<Rightarrow> state_view s' room = (case TxGetEventState s (fe_event_id x) of
                    Some rows \<Rightarrow> stateRowsToMap rows | None \<Rightarrow> state_view s room)
         | exts \<Rightarrow> resolveOverCandidates s (snapshot_candidates s (map fe_event_id exts)) rules
                  = Inr (state_view s' room)"
proof (cases "TxForwardExtremities s room")
  case Nil
  then show thesis using assms by (intro that [of s]) (simp_all add: recomputeCurrentStateTx_def)
next
  case (Cons x xs)
  show thesis
  proof (cases xs)
    case Nil
    define rows where "rows = (case TxGetEventState s (fe_event_id x) of
        Some rows \<Rightarrow> rows | None \<Rightarrow> TxGetRoomState s room)"
    have d: "rows_distinct rows" using assms(1) by (auto simp: rows_def store_ok_def split: option.split)
    have "recomputeCurrentStateTx s room rules = Inr (TxSetRoomState s room rows)"
      using assms(2) Cons Nil by (simp add: recomputeCurrentStateTx_def rows_def split: option.split)
    moreover have "state_view (TxSetRoomState s room rows) room = (case TxGetEventState s (fe_event_id x) of
        Some rows \<Rightarrow> stateRowsToMap rows | None \<Rightarrow> state_view s room)"
      unfolding set_state_view [OF d] by (simp add: rows_def state_view_def split: option.split)
    ultimately show thesis
      using Cons Nil set_state_ok [OF assms(1) d] by (intro that [of "TxSetRoomState s room rows"]) auto
  next
    case (Cons y ys)
    let ?ids = "snapshot_candidates s (map fe_event_id (x # y # ys))"
    obtain m where m: "resolveOverCandidates s ?ids rules = Inr m"
      by (rule resolveOverCandidates_order [OF assms(1)])
    then have k: "keys_NUL m" by (rule resolve_keys)
    note ok = resolved_rows_ok [OF k, of room]
    have "recomputeCurrentStateTx s room rules = Inr (TxSetRoomState s room (stateMapToRows room m))"
      using assms(2) Cons \<open>TxForwardExtremities s room = x # xs\<close> m by (simp add: recomputeCurrentStateTx_def)
    moreover have "state_view (TxSetRoomState s room (stateMapToRows room m)) room = m"
      using keys_NUL_roundtrip [OF k] by (simp add: set_state_view [OF rows_ok_distinct [OF ok]])
    ultimately show thesis
      using Cons \<open>TxForwardExtremities s room = x # xs\<close> m set_state_ok [OF assms(1) rows_ok_distinct [OF ok]]
      by (intro that [of "TxSetRoomState s room (stateMapToRows room m)"]) auto
  qed
qed

lemma snapshot_base_total: "store_ok s \<Longrightarrow> \<exists>m. snapshot_base s room prevs rules = Inr m \<and> keys_NUL m"
proof -
  assume ok: "store_ok s"
  have r: "\<exists>m. resolveOverCandidates s ids rules = Inr m \<and> keys_NUL m" for ids
    by (rule resolveOverCandidates_order [OF ok]) (auto simp: apply_order_keys)
  show ?thesis
  proof (cases prevs)
    case (Cons p ps)
    then show ?thesis
      using r by (cases ps) (simp_all add: snapshot_base_def keys_NUL_rows split: option.split)
  qed (simp add: snapshot_base_def)
qed

definition event_prevs :: "EventRow \<Rightarrow> Rules \<Rightarrow> string list \<times> string option" where
  "event_prevs row rules =
     (case New (er_json row) (Version rules) of
        Inr ev \<Rightarrow> (PrevEvents ev, StateKey ev)
      | Inl _ \<Rightarrow> ((case er_prev_events row of None \<Rightarrow> [] | Some p \<Rightarrow> p), None))"

definition own_entry :: "EventRow \<Rightarrow> string option \<Rightarrow> state_map \<Rightarrow> state_map" where
  "own_entry row sk m =
     (case sk of
        Some k \<Rightarrow> if er_event_id row \<noteq> [] then gm_put (state_key_of (er_type row) k) (er_event_id row) m else m
      | None \<Rightarrow> m)"

lemma snapshot_parts:
  "snapshotForEventTx s row rules =
     (case snapshot_base s (er_room_id row) (fst (event_prevs row rules)) rules of
        Inl e \<Rightarrow> Inl e
      | Inr base \<Rightarrow> Inr (stateMapToRows (er_room_id row) (own_entry row (snd (event_prevs row rules)) base)))"
  unfolding snapshotForEventTx_def event_prevs_def own_entry_def Let_def case_prod_beta by (rule refl)

lemma keys_NUL_own: "keys_NUL m \<Longrightarrow> keys_NUL (own_entry row sk m)"
  by (simp add: own_entry_def keys_NUL_put split: option.split)

lemma snapshot_total:
  assumes "store_ok s"
  obtains m where "snapshot_base s (er_room_id row) (fst (event_prevs row rules)) rules = Inr m"
    and "keys_NUL m"
    and "snapshotForEventTx s row rules =
      Inr (stateMapToRows (er_room_id row) (own_entry row (snd (event_prevs row rules)) m))"
proof -
  obtain m where m: "snapshot_base s (er_room_id row) (fst (event_prevs row rules)) rules = Inr m" "keys_NUL m"
    using snapshot_base_total [OF assms] by blast
  show thesis by (rule that [OF m]) (simp add: snapshot_parts m(1))
qed

end
