(* ===== verification/Maintenance_Laws.thy ===== *)
theory Maintenance_Laws
  imports Event_State_Laws
begin

section \<open>The current state of a room\<close>

text \<open>
  Steps of the store as the program takes them (insert and maintain, outliers, rejection, seeding a
  remote join, redaction), the states they reach, and what holds of the current state in all of
  them. On a linear history the current state is the history applied event by event; after a fork
  it is the resolution of the snapshots of the extremities.
\<close>

subsection \<open>One maintenance\<close>

lemma maintain_cases:
  assumes "store_ok s" and "\<not> StateDAGs rules"
  obtains base s1 s' where
    "snapshot_base s (er_room_id row) (fst (event_prevs row rules)) rules = Inr base" and "keys_NUL base"
    and "s1 = TxSaveEventState s (er_event_id row) (er_room_id row)
           (stateMapToRows (er_room_id row) (own_entry row (snd (event_prevs row rules)) base))"
    and "store_ok s1" and "store_ok s'" and "recomputeCurrentStateTx s1 (er_room_id row) rules = Inr s'"
    and "Maintain row rules s = (None, s')"
proof -
  obtain m where m: "snapshot_base s (er_room_id row) (fst (event_prevs row rules)) rules = Inr m" "keys_NUL m"
      "snapshotForEventTx s row rules =
        Inr (stateMapToRows (er_room_id row) (own_entry row (snd (event_prevs row rules)) m))"
    by (rule snapshot_total [OF assms(1)])
  let ?s1 = "TxSaveEventState s (er_event_id row) (er_room_id row)
      (stateMapToRows (er_room_id row) (own_entry row (snd (event_prevs row rules)) m))"
  have ok: "store_ok ?s1"
    by (rule save_snapshot_ok [OF assms(1) resolved_rows_ok [OF keys_NUL_own [OF m(2)]]])
  obtain s' where s': "recomputeCurrentStateTx ?s1 (er_room_id row) rules = Inr s'" "store_ok s'"
    by (rule recompute_cases [OF ok assms(2)])
  have "Maintain row rules s = (None, s')"
    using assms(2) m(3) s'(1) by (simp add: Maintain_def WithRoomWrite_def maintain_tx_def)
  then show thesis by (rule that [OF m(1,2) refl ok s'(2,1)])
qed

text \<open>What recomputation leaves alone.\<close>

lemma recompute_frame:
  assumes "recomputeCurrentStateTx s room rules = Inr s'"
  shows "s' = s \<or> (\<exists>rows. s' = TxSetRoomState s room rows)"
  using assms
  by (auto simp: recomputeCurrentStateTx_def recomputeStateDAGCurrentStateTx_def Let_def
      split: if_splits sum.splits list.splits option.splits)

lemma set_state_snapshots [simp]: "TxGetEventState (TxSetRoomState s room rows) = TxGetEventState s"
  by (rule tx.state_frame)

lemma set_state_extremities [simp]: "TxForwardExtremities (TxSetRoomState s room rows) = TxForwardExtremities s"
  by (rule tx.state_frame)

lemma save_snapshot_extremities [simp]:
  "TxForwardExtremities (TxSaveEventState s e room rows) = TxForwardExtremities s"
  by (rule tx.snapshot_frame)

lemma save_snapshot_view [simp]: "state_view (TxSaveEventState s e room' rows) = state_view s"
  by (simp add: state_view_def tx.snapshot_frame fun_eq_iff)

lemma set_state_other_view [simp]:
  "room' \<noteq> room \<Longrightarrow> state_view (TxSetRoomState s room rows) room' = state_view s room'"
  by (simp add: state_view_def tx.state_other)

lemma recompute_reads:
  assumes "recomputeCurrentStateTx s room rules = Inr s'"
  shows "TxGetEventState s' = TxGetEventState s" "TxForwardExtremities s' = TxForwardExtremities s"
    "db_events s' = db_events s" "r \<noteq> room \<Longrightarrow> state_view s' r = state_view s r"
  using recompute_frame [OF assms] by auto

lemma stateMapToRows_nonempty: "keys_NUL m \<Longrightarrow> m \<noteq> [] \<Longrightarrow> stateMapToRows room m \<noteq> []"
  using keys_NUL_roundtrip [of m room] by (auto simp: stateRowsToMap_def)

lemma saved_snapshot:
  assumes "keys_NUL m" and "m \<noteq> []"
  shows "TxGetEventState (TxSaveEventState s e room (stateMapToRows room m)) e = Some (stateMapToRows room m)"
  using tx.snapshot_saved [OF resolved_rows_ok [OF assms(1)]] stateMapToRows_nonempty [OF assms] by simp

lemma gm_put_nonempty [simp]: "gm_put k v m \<noteq> []"
  by (cases m) (auto split: if_splits)

lemma own_entry_nonempty: "m \<noteq> [] \<Longrightarrow> own_entry row sk m \<noteq> []"
  by (simp add: own_entry_def split: option.split)

subsection \<open>Steps of the store\<close>

lemma insert_event_row_tables [simp]:
  "db_snapshots (fst (insert_event_row s e)) = db_snapshots s"
  "db_room_state (fst (insert_event_row s e)) = db_room_state s"
  by (simp_all add: insert_event_row_def split: option.split)

lemma InsertEvent_tables [simp]:
  "db_events (fst (InsertEvent s e)) = db_events (fst (insert_event_row s e))"
  "db_snapshots (fst (InsertEvent s e)) = db_snapshots s"
  "db_room_state (fst (InsertEvent s e)) = db_room_state s"
proof -
  obtain xs where "UpdateExtremitiesForEvent (fst (insert_event_row s e)) (er_room_id e) (er_event_id e)
      (row_prev_events e) (er_depth e) = fst (insert_event_row s e)\<lparr>db_extremities := xs\<rparr>"
    using UpdateExtremities_tables by blast
  then have "fst (InsertEvent s e) = fst (insert_event_row s e)\<lparr>db_extremities := xs\<rparr>"
    by (simp add: InsertEvent_def case_prod_beta)
  then show "db_events (fst (InsertEvent s e)) = db_events (fst (insert_event_row s e))"
    and "db_snapshots (fst (InsertEvent s e)) = db_snapshots s"
    and "db_room_state (fst (InsertEvent s e)) = db_room_state s" by simp_all
qed

lemma TxGetEvent_None: "TxGetEvent s i = None \<longleftrightarrow> i \<notin> er_event_id ` set (db_events s)"
  by (auto simp: TxGetEvent_def find_None_iff)

lemma insert_event_row_distinct:
  "distinct (map er_event_id (db_events s)) \<Longrightarrow>
   distinct (map er_event_id (db_events (fst (insert_event_row s e))))"
  by (auto simp: insert_event_row_def TxGetEvent_None split: option.split)

text \<open>A step that keeps the rows' IDs distinct and neither snapshots nor states.\<close>

lemma store_ok_cong:
  assumes "store_ok s" and "distinct (map er_event_id (db_events t))"
    and "db_snapshots t = db_snapshots s" and "db_room_state t = db_room_state s"
  shows "store_ok t"
  using assms by (simp add: store_ok_def TxGetEventState_def TxGetRoomState_def)

lemma insert_event_ok: "store_ok s \<Longrightarrow> store_ok (fst (InsertEvent s e))"
  by (rule store_ok_cong) (simp_all add: insert_event_row_distinct store_ok_def)

lemma insert_outlier_ok: "store_ok s \<Longrightarrow> store_ok (fst (InsertOutlierEvent s e))"
  by (rule store_ok_cong) (simp_all add: insert_event_row_distinct store_ok_def InsertOutlierEvent_def)

lemma rejection_ok: "store_ok s \<Longrightarrow> store_ok (MarkEventRejected s i)"
  by (rule store_ok_cong) (simp_all add: store_ok_def MarkEventRejected_def)

lemma prune_ok: "store_ok s \<Longrightarrow> store_ok (RemovePrevsBehindRejected s room ids)"
  by (rule store_ok_cong) (simp_all add: store_ok_def RemovePrevsBehindRejected_def Let_def)

lemma undo_tables:
  "db_events (UndoExtremitiesForRejected s room i ps) = db_events s
   \<and> db_snapshots (UndoExtremitiesForRejected s room i ps) = db_snapshots s
   \<and> db_room_state (UndoExtremitiesForRejected s room i ps) = db_room_state s"
proof -
  have "db_events (fold (\<lambda>prev s. if \<not> EventIsDAGLeaf s room prev then s
        else case TxGetEvent s prev of None \<Rightarrow> s
             | Some ev \<Rightarrow> AddForwardExtremity s room prev (er_depth ev)) ps t) = db_events t
      \<and> db_snapshots (fold (\<lambda>prev s. if \<not> EventIsDAGLeaf s room prev then s
        else case TxGetEvent s prev of None \<Rightarrow> s
             | Some ev \<Rightarrow> AddForwardExtremity s room prev (er_depth ev)) ps t) = db_snapshots t
      \<and> db_room_state (fold (\<lambda>prev s. if \<not> EventIsDAGLeaf s room prev then s
        else case TxGetEvent s prev of None \<Rightarrow> s
             | Some ev \<Rightarrow> AddForwardExtremity s room prev (er_depth ev)) ps t) = db_room_state t" for t
    by (induction ps arbitrary: t) (simp_all add: AddForwardExtremity_def split: option.split)
  then show ?thesis by (simp add: UndoExtremitiesForRejected_def RemoveForwardExtremity_def)
qed

lemma undo_ok: "store_ok s \<Longrightarrow> store_ok (UndoExtremitiesForRejected s room i ps)"
  by (rule store_ok_cong) (simp_all add: store_ok_def undo_tables)

lemma redacted_by_ok: "store_ok s \<Longrightarrow> store_ok (SetEventRedactedBy s i j)"
proof (rule store_ok_cong)
  assume "store_ok s"
  have "map er_event_id (db_events (SetEventRedactedBy s i j)) = map er_event_id (db_events s)"
    by (simp add: SetEventRedactedBy_def)
  then show "distinct (map er_event_id (db_events (SetEventRedactedBy s i j)))"
    using \<open>store_ok s\<close> by (simp only: store_ok_def)
qed (simp_all add: SetEventRedactedBy_def)

text \<open>Maintenance, also of a state-DAG room, and seeding a remote join.\<close>

lemma resolveSnapshots_keys: "resolveSnapshotsTx s ids rules = Inr m \<Longrightarrow> keys_NUL m"
  by (auto simp: resolveSnapshotsTx_def keys_NUL_rows resolve_keys split: option.splits list.splits)

lemma recompute_dag_ok:
  assumes "store_ok s" and "recomputeStateDAGCurrentStateTx s room rules = Inr s'"
  shows "store_ok s'"
proof (cases "TxStateDAGExtremities s room = []")
  case False
  then obtain m where "resolveSnapshotsTx s (TxStateDAGExtremities s room) rules = Inr m"
      and s': "s' = TxSetRoomState s room (stateMapToRows room m)"
    using assms(2) by (auto simp: recomputeStateDAGCurrentStateTx_def Let_def split: sum.splits)
  then have "rows_distinct (stateMapToRows room m)"
    using rows_ok_distinct resolved_rows_ok resolveSnapshots_keys by blast
  then show ?thesis unfolding s' by (rule set_state_ok [OF assms(1)])
qed (use assms in \<open>simp add: recomputeStateDAGCurrentStateTx_def\<close>)

lemma recompute_ok:
  assumes "store_ok s" and "recomputeCurrentStateTx s room rules = Inr s'"
  shows "store_ok s'"
proof (cases "StateDAGs rules")
  case True
  then show ?thesis using recompute_dag_ok [OF assms(1)] assms(2) by (simp add: recomputeCurrentStateTx_def)
next
  case False
  obtain t where "recomputeCurrentStateTx s room rules = Inr t" "store_ok t"
    by (rule recompute_cases [OF assms(1) False])
  then show ?thesis using assms(2) by simp
qed

lemma calculated_auth_ok: "store_ok s \<Longrightarrow> store_ok (TxSaveCalculatedAuth s room i aids)"
  by (rule store_ok_cong) (simp_all add: store_ok_def TxSaveCalculatedAuth_def)

lemma advance_tables [simp]:
  "db_events (TxAdvanceStateDAG s room i isState ps) = db_events s"
  "db_snapshots (TxAdvanceStateDAG s room i isState ps) = db_snapshots s"
  "db_room_state (TxAdvanceStateDAG s room i isState ps) = db_room_state s"
  by (simp_all add: TxAdvanceStateDAG_def Let_def)

lemma advance_ok_store: "store_ok s \<Longrightarrow> store_ok (TxAdvanceStateDAG s room i isState ps)"
  by (rule store_ok_cong [of s]) (simp_all add: store_ok_def)

lemma maintain_dag_ok:
  assumes "store_ok s" and "maintainStateDAGTx s row rules = Inr s'"
  shows "store_ok s'"
proof -
  obtain ev before where ev: "New (er_json row) (Version rules) = Inr ev"
    and b: "(if PrevStateEvents ev = [] then Inr [] else resolveSnapshotsTx s (PrevStateEvents ev) rules) = Inr before"
    using assms(2) by (auto simp: maintainStateDAGTx_def Let_def split: sum.splits)
  have k: "keys_NUL before" using b resolveSnapshots_keys by (auto split: if_splits)
  define after where "after = (case StateKey ev of None \<Rightarrow> before
    | Some k \<Rightarrow> gm_put (state_key_of (stringField ev ''type'') k) (er_event_id row) before)"
  have "keys_NUL after" using k by (simp add: after_def keys_NUL_put split: option.split)
  then have rows: "state_rows_ok (er_room_id row) (stateMapToRows (er_room_id row) after)"
    by (rule resolved_rows_ok)
  have "recomputeStateDAGCurrentStateTx
      (TxAdvanceStateDAG
        (TxSaveEventState (TxSaveCalculatedAuth s (er_room_id row) (er_event_id row)
            (calculatedAuthEvents rules before ev)) (er_event_id row) (er_room_id row)
          (stateMapToRows (er_room_id row) after))
        (er_room_id row) (er_event_id row) (StateKey ev \<noteq> None) (PrevStateEvents ev))
      (er_room_id row) rules = Inr s'"
    using assms(2) ev b by (simp only: maintainStateDAGTx_def Let_def after_def sum.case)
  from recompute_dag_ok [OF advance_ok_store [OF save_snapshot_ok [OF calculated_auth_ok [OF assms(1)] rows]] this]
  show ?thesis .
qed

lemma maintain_tx_ok:
  assumes "store_ok s" and "maintain_tx row rules s = Inr s'"
  shows "store_ok s'"
proof (cases "StateDAGs rules")
  case True
  then show ?thesis using maintain_dag_ok [OF assms(1)] assms(2) by (simp add: maintain_tx_def)
next
  case False
  obtain t where "Maintain row rules s = (None, t)" "store_ok t"
    by (rule maintain_cases [OF assms(1) False])
  then show ?thesis using assms(2) by (simp add: Maintain_def WithRoomWrite_def)
qed

lemma room_write_ok:
  assumes "store_ok s" and "\<And>t. fn s = Inr t \<Longrightarrow> store_ok t"
  shows "store_ok (snd (WithRoomWrite fn s))"
  using assms by (simp add: WithRoomWrite_def split: sum.split)

lemma maintain_ok: "store_ok s \<Longrightarrow> store_ok (snd (Maintain row rules s))"
  unfolding Maintain_def by (rule room_write_ok) (simp_all add: maintain_tx_ok)

definition seed_base :: "EventRow \<Rightarrow> StateRow list \<Rightarrow> state_map" where
  "seed_base joinRow stateRows =
     (if er_event_id joinRow \<noteq> [] \<and> er_type joinRow \<noteq> []
      then gm_put (state_key_of (er_type joinRow) (er_state_key joinRow)) (er_event_id joinRow) (stateRowsToMap stateRows)
      else stateRowsToMap stateRows)"

lemma seed_base_keys: "keys_NUL (seed_base joinRow stateRows)"
  by (simp add: seed_base_def keys_NUL_put keys_NUL_rows)

lemma seed_tx_eq:
  "seed_tx room rules joinRow stateRows s =
     recomputeCurrentStateTx
       (TxSetForwardExtremities
         (TxSaveEventState s (er_event_id joinRow) room (stateMapToRows room (seed_base joinRow stateRows))) room
         [\<lparr>fe_room_id = room, fe_event_id = er_event_id joinRow, fe_depth = er_depth joinRow\<rparr>]) room rules"
  by (simp add: seed_tx_def Let_def seed_base_def)

lemma set_extremities_ok: "store_ok s \<Longrightarrow> store_ok (TxSetForwardExtremities s room exts)"
  by (rule store_ok_cong) (simp_all add: store_ok_def TxSetForwardExtremities_def)

lemma seed_ok: "store_ok s \<Longrightarrow> store_ok (snd (SeedRemoteJoin room rules joinRow stateRows s))"
  unfolding SeedRemoteJoin_def
proof (rule room_write_ok)
  fix t
  assume "store_ok s" and t: "seed_tx room rules joinRow stateRows s = Inr t"
  show "store_ok t"
    by (rule recompute_ok [OF _ t [unfolded seed_tx_eq]])
      (rule set_extremities_ok [OF save_snapshot_ok [OF \<open>store_ok s\<close> resolved_rows_ok [OF seed_base_keys]]])
qed

text \<open>The states the store reaches.\<close>

inductive store_step :: "Store \<Rightarrow> Store \<Rightarrow> bool" where
  step_insert: "store_step s (fst (InsertEvent s row))"
| step_outlier: "store_step s (fst (InsertOutlierEvent s row))"
| step_maintain: "store_step s (snd (Maintain row rules s))"
| step_seed: "store_step s (snd (SeedRemoteJoin room rules joinRow stateRows s))"
| step_reject: "store_step s (MarkEventRejected s i)"
| step_undo: "store_step s (UndoExtremitiesForRejected s room i ps)"
| step_prune: "store_step s (RemovePrevsBehindRejected s room ids)"
| step_redact: "store_step s (SetEventRedactedBy s i j)"

inductive store_reachable :: "Store \<Rightarrow> bool" where
  reach_empty: "store_reachable empty_store"
| reach_step: "store_reachable s \<Longrightarrow> store_step s t \<Longrightarrow> store_reachable t"

lemma store_step_ok: "store_step s t \<Longrightarrow> store_ok s \<Longrightarrow> store_ok t"
  by (induction rule: store_step.induct)
    (simp_all add: insert_event_ok insert_outlier_ok maintain_ok seed_ok rejection_ok undo_ok prune_ok redacted_by_ok)

lemma empty_store_ok: "store_ok empty_store"
  by (simp add: store_ok_def empty_store_def TxGetEventState_def TxGetRoomState_def rows_distinct_def)

lemma store_reachable_ok: "store_reachable s \<Longrightarrow> store_ok s"
  by (induction rule: store_reachable.induct) (auto simp: empty_store_ok intro: store_step_ok)

subsection \<open>The current state\<close>

text \<open>
  The state a room has by its extremities: the one extremity's snapshot, or the resolution of the
  snapshots of several; the old state where there is no extremity or its snapshot is missing.
\<close>

definition extremity_view :: "Store \<Rightarrow> state_map \<Rightarrow> string list \<Rightarrow> Rules \<Rightarrow> state_map \<Rightarrow> bool" where
  "extremity_view s old ids rules m =
     (case ids of
        [] \<Rightarrow> m = old
      | [x] \<Rightarrow> m = (case TxGetEventState s x of Some rows \<Rightarrow> stateRowsToMap rows | None \<Rightarrow> old)
      | _ \<Rightarrow> resolveOverCandidates s (snapshot_candidates s ids) rules = Inr m)"

lemma recompute_view:
  assumes "store_ok s" and "\<not> StateDAGs rules" and "recomputeCurrentStateTx s room rules = Inr s'"
  shows "extremity_view s (state_view s room) (map fe_event_id (TxForwardExtremities s room)) rules (state_view s' room)"
proof -
  obtain t where t: "recomputeCurrentStateTx s room rules = Inr t"
    and view: "case TxForwardExtremities s room of
           [] \<Rightarrow> t = s
         | [x] \<Rightarrow> state_view t room = (case TxGetEventState s (fe_event_id x) of
                    Some rows \<Rightarrow> stateRowsToMap rows | None \<Rightarrow> state_view s room)
         | exts \<Rightarrow> resolveOverCandidates s (snapshot_candidates s (map fe_event_id exts)) rules
                  = Inr (state_view t room)"
    by (rule recompute_cases [OF assms(1,2)])
  have "t = s'" using t assms(3) by simp
  show ?thesis
  proof (cases "TxForwardExtremities s room")
    case (Cons a as)
    then show ?thesis using view \<open>t = s'\<close> by (cases as) (simp_all add: extremity_view_def)
  qed (use view \<open>t = s'\<close> in \<open>simp add: extremity_view_def\<close>)
qed

lemma maintained_state:
  assumes "store_ok s" and "\<not> StateDAGs rules" and "Maintain row rules s = (err, s')"
  obtains s1 where "err = None" and "store_ok s1" and "store_ok s'"
    and "db_events s1 = db_events s'" and "TxGetEventState s1 = TxGetEventState s'"
    and "state_view s1 = state_view s" and "TxForwardExtremities s1 = TxForwardExtremities s'"
    and "extremity_view s1 (state_view s (er_room_id row))
           (map fe_event_id (TxForwardExtremities s' (er_room_id row))) rules (state_view s' (er_room_id row))"
proof -
  obtain base s1 t where s1: "s1 = TxSaveEventState s (er_event_id row) (er_room_id row)
        (stateMapToRows (er_room_id row) (own_entry row (snd (event_prevs row rules)) base))"
      "store_ok s1" "store_ok t" "recomputeCurrentStateTx s1 (er_room_id row) rules = Inr t"
      "Maintain row rules s = (None, t)"
    by (rule maintain_cases [OF assms(1,2)])
  have t: "t = s'" "err = None" using s1(5) assms(3) by simp_all
  note r = recompute_reads [OF s1(4), unfolded t]
  have old: "state_view s1 = state_view s" by (simp add: s1(1))
  show thesis
    by (rule that [OF t(2) s1(2) s1(3) [unfolded t] r(3) [symmetric] r(1) [symmetric] old r(2) [symmetric]])
      (use recompute_view [OF s1(2) assms(2) s1(4)] in \<open>simp only: old r(2) t\<close>)
qed


subsection \<open>Linear histories\<close>

text \<open>Receiving an event: insert it, then maintain the state (\<open>Store.InsertEvent\<close>, \<open>eventstate.Maintain\<close>).\<close>

definition receive :: "Rules \<Rightarrow> EventRow \<Rightarrow> Store \<Rightarrow> Store" where
  "receive rules row s = snd (Maintain row rules (fst (InsertEvent s row)))"

text \<open>Each event names the one before it as its only previous event.\<close>

fun linear_history :: "Rules \<Rightarrow> string \<Rightarrow> string list \<Rightarrow> EventRow list \<Rightarrow> bool" where
  "linear_history rules room prev [] = True"
| "linear_history rules room prev (r # rs) =
     (er_room_id r = room \<and> er_event_id r \<noteq> [] \<and> fst (event_prevs r rules) = prev
      \<and> row_prev_events r = prev \<and> linear_history rules room [er_event_id r] rs)"

text \<open>The abstract state: each event writes its own entry.\<close>

definition replay :: "Rules \<Rightarrow> EventRow list \<Rightarrow> state_map \<Rightarrow> state_map" where
  "replay rules rows m = fold (\<lambda>r. own_entry r (snd (event_prevs r rules))) rows m"

lemma insert_event_reads [simp]:
  "TxGetEventState (fst (InsertEvent s e)) = TxGetEventState s"
  "state_view (fst (InsertEvent s e)) = state_view s"
  by (simp_all add: TxGetEventState_def state_view_def TxGetRoomState_def fun_eq_iff)

lemma remove_extremity_list:
  "TxForwardExtremities (fold (\<lambda>p s. RemoveForwardExtremity s room p) ps s) room =
     filter (\<lambda>x. fe_event_id x \<notin> set ps) (TxForwardExtremities s room)"
proof (induction ps arbitrary: s)
  case (Cons p ps)
  have "TxForwardExtremities (RemoveForwardExtremity s room p) room =
      filter (\<lambda>x. fe_event_id x \<noteq> p) (TxForwardExtremities s room)"
    by (auto simp: TxForwardExtremities_def RemoveForwardExtremity_def extremity_key_def intro: filter_cong)
  then show ?case by (simp add: Cons.IH conj_commute)
qed simp

lemma update_extremities_list:
  "map fe_event_id (TxForwardExtremities (UpdateExtremitiesForEvent s room i ps d) room) =
     (let left = filter (\<lambda>i. i \<notin> set ps) (map fe_event_id (TxForwardExtremities s room))
      in if i \<in> set left then left else left @ [i])"
proof -
  define t where "t = fold (\<lambda>p s. RemoveForwardExtremity s room p) ps s"
  have left: "map fe_event_id (TxForwardExtremities t room) =
      filter (\<lambda>i. i \<notin> set ps) (map fe_event_id (TxForwardExtremities s room))"
    by (simp add: t_def remove_extremity_list filter_map comp_def)
  have "(room, i) \<in> extremity_key ` set (db_extremities t) \<longleftrightarrow> i \<in> set (map fe_event_id (TxForwardExtremities t room))"
    using extremity_ids_iff [of i t room] by (simp add: extremity_ids_def)
  then show ?thesis
    unfolding Let_def left [symmetric] UpdateExtremitiesForEvent_def t_def [symmetric]
    by (simp add: AddForwardExtremity_def insert_new_def TxForwardExtremities_def extremity_key_def)
qed

lemma insert_event_list:
  "map fe_event_id (TxForwardExtremities (fst (InsertEvent s e)) (er_room_id e)) =
     (let left = filter (\<lambda>i. i \<notin> set (row_prev_events e)) (map fe_event_id (TxForwardExtremities s (er_room_id e)))
      in if er_event_id e \<in> set left then left else left @ [er_event_id e])"
proof -
  have "TxForwardExtremities (fst (insert_event_row s e)) room = TxForwardExtremities s room" for room
    by (simp add: TxForwardExtremities_def)
  then show ?thesis by (simp add: InsertEvent_def case_prod_beta update_extremities_list)
qed

definition one_head :: "Store \<Rightarrow> string \<Rightarrow> string \<Rightarrow> state_map \<Rightarrow> bool" where
  "one_head s room i m \<longleftrightarrow> store_ok s \<and> map fe_event_id (TxForwardExtremities s room) = [i]
     \<and> state_view s room = m \<and> m \<noteq> [] \<and>
     (\<exists>rows. TxGetEventState s i = Some rows \<and> stateRowsToMap rows = m)"

text \<open>Maintaining an event that is its room's only extremity, and receiving one whose extremities come down to itself.\<close>

lemma maintain_one_head:
  assumes "store_ok s" and "\<not> StateDAGs rules"
    and "map fe_event_id (TxForwardExtremities s (er_room_id r)) = [er_event_id r]"
    and "snapshot_base s (er_room_id r) (fst (event_prevs r rules)) rules = Inr m"
    and "own_entry r (snd (event_prevs r rules)) m \<noteq> []"
  shows "one_head (snd (Maintain r rules s)) (er_room_id r) (er_event_id r) (own_entry r (snd (event_prevs r rules)) m)"
proof -
  obtain base s1 s' where b: "snapshot_base s (er_room_id r) (fst (event_prevs r rules)) rules = Inr base"
      "keys_NUL base"
    and s1: "s1 = TxSaveEventState s (er_event_id r) (er_room_id r)
        (stateMapToRows (er_room_id r) (own_entry r (snd (event_prevs r rules)) base))" "store_ok s1"
    and s': "store_ok s'" "recomputeCurrentStateTx s1 (er_room_id r) rules = Inr s'" "Maintain r rules s = (None, s')"
    by (rule maintain_cases [OF assms(1,2)])
  have "base = m" using b(1) assms(4) by simp
  let ?m = "own_entry r (snd (event_prevs r rules)) m"
  have k: "keys_NUL ?m" using b(2) keys_NUL_own \<open>base = m\<close> by blast
  have snap: "TxGetEventState s1 (er_event_id r) = Some (stateMapToRows (er_room_id r) ?m)"
    unfolding s1(1) \<open>base = m\<close> by (rule saved_snapshot [OF k assms(5)])
  have ext: "map fe_event_id (TxForwardExtremities s1 (er_room_id r)) = [er_event_id r]"
    using assms(3) by (simp add: s1(1))
  note reads = recompute_reads [OF s'(2)]
  have "state_view s' (er_room_id r) = ?m"
    using recompute_view [OF s1(2) assms(2) s'(2)] keys_NUL_roundtrip [OF k]
    by (simp add: ext extremity_view_def snap)
  then show ?thesis
    using s'(1,3) ext snap reads keys_NUL_roundtrip [OF k] assms(5) by (simp add: one_head_def)
qed

lemma receive_one_head:
  assumes "store_ok s" and "\<not> StateDAGs rules"
    and "map fe_event_id (TxForwardExtremities (fst (InsertEvent s r)) (er_room_id r)) = [er_event_id r]"
    and "snapshot_base (fst (InsertEvent s r)) (er_room_id r) (fst (event_prevs r rules)) rules = Inr m"
    and "own_entry r (snd (event_prevs r rules)) m \<noteq> []"
  shows "one_head (receive rules r s) (er_room_id r) (er_event_id r) (own_entry r (snd (event_prevs r rules)) m)"
  unfolding receive_def by (rule maintain_one_head [OF insert_event_ok [OF assms(1)] assms(2-5)])

lemma receive_linear:
  assumes "one_head s room i m" and "\<not> StateDAGs rules" and "linear_history rules room [i] rs"
  shows "\<exists>j. one_head (fold (receive rules) rs s) room j (replay rules rs m)"
  using assms(1,3)
proof (induction rs arbitrary: s i m)
  case (Cons r rs)
  have r: "er_room_id r = room" "er_event_id r \<noteq> []" "fst (event_prevs r rules) = [i]" "row_prev_events r = [i]"
      "linear_history rules room [er_event_id r] rs"
    using Cons.prems(2) by simp_all
  have s: "store_ok s" "map fe_event_id (TxForwardExtremities s room) = [i]" "m \<noteq> []"
    using Cons.prems(1) by (simp_all add: one_head_def)
  obtain rows where rows: "TxGetEventState s i = Some rows" "stateRowsToMap rows = m"
    using Cons.prems(1) by (auto simp: one_head_def)
  have "one_head (receive rules r s) room (er_event_id r) (own_entry r (snd (event_prevs r rules)) m)"
    using receive_one_head [OF s(1) assms(2), of r m] insert_event_list [of s r] s(2) r(1,3,4) rows
      own_entry_nonempty [OF s(3)] by (simp add: snapshot_base_def)
  from Cons.IH [OF this r(5)] show ?case by (simp add: replay_def)
qed (auto simp: replay_def)


text \<open>A room with a create event, a topic and a new topic.\<close>

definition ex_state_event :: "string \<Rightarrow> string \<Rightarrow> string list \<Rightarrow> EventRow" where
  "ex_state_event i ty prevs = \<lparr>er_event_id = i, er_room_id = ''!r'', er_room_version = ''11'', er_type = ty,
     er_state_key = [], er_sender = ''@a:x'', er_depth = 1, er_origin_server_ts = 1, er_stream = 0,
     er_content = Some (JObj []),
     er_json = JObj [(''type'', JStr ty), (''sender'', JStr ''@a:x''), (''room_id'', JStr ''!r''),
       (''state_key'', JStr []), (''content'', JObj []), (''prev_events'', JArr (map JStr prevs)),
       (''auth_events'', JArr [])],
     er_redacts = [], er_redacted = False, er_redacted_by = [], er_outlier = False, er_prev_events = None\<rparr>"



subsection \<open>Forks\<close>

text \<open>The stored events the snapshots of a room's extremities name.\<close>

definition forked_event :: "Store \<Rightarrow> string \<Rightarrow> EventRow \<Rightarrow> bool" where
  "forked_event s room e \<longleftrightarrow> e \<in> set (db_events s) \<and>
     (\<exists>x rows. x \<in> set (TxForwardExtremities s room) \<and> TxGetEventState s (fe_event_id x) = Some rows
        \<and> er_event_id e \<in> sr_event_id ` set rows)"

lemma snapshot_candidates_set:
  "i \<in> set (snapshot_candidates s ids) \<longleftrightarrow>
     (\<exists>x rows. x \<in> set ids \<and> TxGetEventState s x = Some rows \<and> i \<in> sr_event_id ` set rows)"
proof -
  have "i \<in> set (case TxGetEventState s x of None \<Rightarrow> [] | Some rows \<Rightarrow> map sr_event_id rows) \<longleftrightarrow>
      (\<exists>rows. TxGetEventState s x = Some rows \<and> i \<in> sr_event_id ` set rows)" for x
    by (cases "TxGetEventState s x") simp_all
  then show ?thesis unfolding snapshot_candidates_def set_concat set_map by blast
qed

lemma candidate_rows:
  "(c \<in> set (candidates s ids rules)) \<longleftrightarrow>
     (\<exists>e. e \<in> set (db_events s) \<and> er_event_id e \<in> set ids \<and> c = buildEventMeta s rules e)"
  by (auto simp: candidates_def TxEventsByIDs_def first_occurrences_def)

lemma resolved_entries:
  assumes "store_ok s" and "resolveOverCandidates s ids rules = Inr m"
  shows "case gm_get m k of
      None \<Rightarrow> \<forall>e. e \<in> set (db_events s) \<and> er_event_id e \<in> set ids \<longrightarrow> state_key_of (er_type e) (er_state_key e) \<noteq> k
    | Some i \<Rightarrow> \<exists>e. e \<in> set (db_events s) \<and> er_event_id e \<in> set ids \<and> er_event_id e = i
        \<and> state_key_of (er_type e) (er_state_key e) = k"
proof -
  obtain ordered where o: "resolveOverCandidates s ids rules = Inr (apply_order (candidates s ids rules) ordered)"
      "distinct ordered" "set ordered = er_event_id ` set (db_events s) \<inter> set ids"
    by (rule resolveOverCandidates_order [OF assms(1)])
  have m: "m = apply_order (candidates s ids rules) ordered" using o(1) assms(2) by simp
  have "set ordered \<subseteq> em_id ` set (candidates s ids rules)" using o(3) by (simp add: candidates_ids)
  note get = apply_order_get [OF candidates_distinct [OF assms(1)] this, of k, folded m]
  show ?thesis
  proof (cases "gm_get m k")
    case None
    have "state_key_of (er_type e) (er_state_key e) \<noteq> k"
      if "e \<in> set (db_events s)" "er_event_id e \<in> set ids" for e
    proof -
      have "buildEventMeta s rules e \<in> set (candidates s ids rules)" using that candidate_rows by blast
      then show ?thesis using get that by (auto simp: None o(3) dest: bspec)
    qed
    then show ?thesis by (simp add: None)
  next
    case (Some i)
    then obtain c where "c \<in> set (candidates s ids rules)" "em_id c = i" "state_key_of (em_type c) (em_state_key c) = k"
      using get by auto
    then show ?thesis using candidate_rows [of c] by (auto simp: Some)
  qed
qed

text \<open>
  After a fork, state resolution invents and loses no entry: every entry of the current state
  is a stored event of that type and key from some extremity's snapshot, and a type and key has no
  entry only when no such event exists; so an entry on which the snapshots agree stays.
\<close>

theorem fork_state_entries:
  assumes "store_reachable s" and "\<not> StateDAGs rules" and "Maintain row rules s = (err, s')"
    and "2 \<le> length (TxForwardExtremities s' (er_room_id row))"
  shows "case gm_get (state_view s' (er_room_id row)) k of
      None \<Rightarrow> \<forall>e. forked_event s' (er_room_id row) e \<longrightarrow> state_key_of (er_type e) (er_state_key e) \<noteq> k
    | Some i \<Rightarrow> \<exists>e. forked_event s' (er_room_id row) e \<and> er_event_id e = i
        \<and> state_key_of (er_type e) (er_state_key e) = k"
proof -
  obtain s1 where s1: "store_ok s1" "db_events s1 = db_events s'" "TxGetEventState s1 = TxGetEventState s'"
    and view: "extremity_view s1 (state_view s (er_room_id row))
           (map fe_event_id (TxForwardExtremities s' (er_room_id row))) rules (state_view s' (er_room_id row))"
    by (rule maintained_state [OF store_reachable_ok [OF assms(1)] assms(2,3)])
  let ?ids = "snapshot_candidates s1 (map fe_event_id (TxForwardExtremities s' (er_room_id row)))"
  have "resolveOverCandidates s1 ?ids rules = Inr (state_view s' (er_room_id row))"
    using view assms(4) by (cases "map fe_event_id (TxForwardExtremities s' (er_room_id row))" rule: remdups_adj.cases)
      (auto simp: extremity_view_def)
  from resolved_entries [OF s1(1) this, of k]
  have "case gm_get (state_view s' (er_room_id row)) k of
      None \<Rightarrow> \<forall>e. e \<in> set (db_events s') \<and> er_event_id e \<in> set ?ids \<longrightarrow> state_key_of (er_type e) (er_state_key e) \<noteq> k
    | Some i \<Rightarrow> \<exists>e. e \<in> set (db_events s') \<and> er_event_id e \<in> set ?ids \<and> er_event_id e = i
        \<and> state_key_of (er_type e) (er_state_key e) = k"
    unfolding s1(2) .
  moreover have "forked_event s' (er_room_id row) e \<longleftrightarrow> e \<in> set (db_events s') \<and> er_event_id e \<in> set ?ids" for e
    unfolding forked_event_def snapshot_candidates_set s1(3) by (simp add: image_iff) blast
  ultimately show ?thesis by (simp split: option.splits)
qed

text \<open>Two events beside each other, both writing the topic.\<close>

definition ex_forked :: Store where
  "ex_forked = fst (InsertEvent
     (receive v11_rules (ex_state_event ''$t'' ''m.room.topic'' [''$c''])
       (receive v11_rules (ex_state_event ''$c'' ''m.room.create'' []) empty_store))
     (ex_state_event ''$u'' ''m.room.topic'' [''$c'']))"

lemma ex_forked_reachable: "store_reachable ex_forked"
  unfolding ex_forked_def receive_def
  by (rule reach_step [OF reach_step [OF reach_step [OF reach_step [OF reach_step [OF reach_empty]]]]])
    (rule store_step.intros)+

theorem fork_state_entries_witness:
  "gm_get (state_view (receive v11_rules (ex_state_event ''$u'' ''m.room.topic'' [''$c'']) ex_forked) ''!r'')
     (state_key_of ''m.room.name'' []) = None"
proof -
  let ?row = "ex_state_event ''$u'' ''m.room.topic'' [''$c'']"
  let ?s = "fst (InsertEvent ex_forked ?row)"
  have 1: "store_reachable ?s" by (rule reach_step [OF ex_forked_reachable step_insert])
  have 2: "\<not> StateDAGs v11_rules" by code_simp
  have 3: "Maintain ?row v11_rules ?s = (fst (Maintain ?row v11_rules ?s), snd (Maintain ?row v11_rules ?s))"
    by (rule prod.collapse [symmetric])
  have room: "er_room_id ?row = ''!r''" by (simp add: ex_state_event_def)
  have 4: "2 \<le> length (TxForwardExtremities (snd (Maintain ?row v11_rules ?s)) (er_room_id ?row))"
    by code_simp
  have 5: "list_all (\<lambda>e. state_key_of (er_type e) (er_state_key e) \<noteq> state_key_of ''m.room.name'' [])
      (db_events (snd (Maintain ?row v11_rules ?s)))"
    by code_simp
  show ?thesis
    using fork_state_entries [OF 1 2 3 4, of "state_key_of ''m.room.name'' []"] 5
    unfolding receive_def room
    by (auto simp: forked_event_def list_all_iff split: option.splits)
qed

subsection \<open>What maintenance leaves alone\<close>

lemma set_save_frame:
  assumes "t = TxSaveEventState s i room rows" and "s' = t \<or> (\<exists>rows'. s' = TxSetRoomState t room rows')"
  shows "db_events s' = db_events s" "db_extremities s' = db_extremities s"
    "r \<noteq> room \<Longrightarrow> state_view s' r = state_view s r" "j \<noteq> i \<Longrightarrow> TxGetEventState s' j = TxGetEventState s j"
  using assms by (auto simp: tx.snapshot_other)

lemma maintain_dag_cases:
  assumes "maintainStateDAGTx s row rules = Inr s'"
  obtains t0 rows isState prevs where "db_events t0 = db_events s" and "db_extremities t0 = db_extremities s"
    and "state_view t0 = state_view s" and "TxGetEventState t0 = TxGetEventState s"
    and "recomputeStateDAGCurrentStateTx (TxAdvanceStateDAG
          (TxSaveEventState t0 (er_event_id row) (er_room_id row) rows)
          (er_room_id row) (er_event_id row) isState prevs) (er_room_id row) rules = Inr s'"
proof -
  obtain ev before where ev: "New (er_json row) (Version rules) = Inr ev"
    and b: "(if PrevStateEvents ev = [] then Inr [] else resolveSnapshotsTx s (PrevStateEvents ev) rules) = Inr before"
    using assms by (auto simp: maintainStateDAGTx_def Let_def split: sum.splits)
  define t0 where "t0 = TxSaveCalculatedAuth s (er_room_id row) (er_event_id row) (calculatedAuthEvents rules before ev)"
  have "recomputeStateDAGCurrentStateTx
      (TxAdvanceStateDAG
        (TxSaveEventState t0 (er_event_id row) (er_room_id row)
          (stateMapToRows (er_room_id row) (case StateKey ev of None \<Rightarrow> before
            | Some k \<Rightarrow> gm_put (state_key_of (stringField ev ''type'') k) (er_event_id row) before)))
        (er_room_id row) (er_event_id row) (StateKey ev \<noteq> None) (PrevStateEvents ev))
      (er_room_id row) rules = Inr s'"
    using assms ev b by (simp only: maintainStateDAGTx_def Let_def sum.case t0_def)
  moreover have "db_events t0 = db_events s" "db_extremities t0 = db_extremities s"
      "state_view t0 = state_view s" "TxGetEventState t0 = TxGetEventState s"
    by (simp_all add: t0_def TxSaveCalculatedAuth_def state_view_def TxGetRoomState_def TxGetEventState_def fun_eq_iff)
  ultimately show thesis by (intro that [of t0]) simp_all
qed

lemma advance_reads [simp]:
  "state_view (TxAdvanceStateDAG s room i isState ps) = state_view s"
  "TxGetEventState (TxAdvanceStateDAG s room i isState ps) = TxGetEventState s"
  "db_extremities (TxAdvanceStateDAG s room i isState ps) = db_extremities s"
  by (simp_all add: state_view_def TxGetRoomState_def TxGetEventState_def fun_eq_iff TxAdvanceStateDAG_def Let_def)

lemma maintain_tx_frame:
  assumes "maintain_tx row rules s = Inr s'"
  shows "db_events s' = db_events s \<and> db_extremities s' = db_extremities s
    \<and> (\<forall>r. r \<noteq> er_room_id row \<longrightarrow> state_view s' r = state_view s r)
    \<and> (\<forall>j. j \<noteq> er_event_id row \<longrightarrow> TxGetEventState s' j = TxGetEventState s j)"
proof (cases "StateDAGs rules")
  case False
  then obtain rows where "recomputeCurrentStateTx (TxSaveEventState s (er_event_id row) (er_room_id row) rows)
      (er_room_id row) rules = Inr s'"
    using assms by (auto simp: maintain_tx_def split: sum.splits)
  from set_save_frame [OF refl recompute_frame [OF this]] show ?thesis by blast
next
  case True
  obtain t0 rows isState prevs where t0: "db_events t0 = db_events s" "db_extremities t0 = db_extremities s"
      "state_view t0 = state_view s" "TxGetEventState t0 = TxGetEventState s"
    and r: "recomputeStateDAGCurrentStateTx (TxAdvanceStateDAG
          (TxSaveEventState t0 (er_event_id row) (er_room_id row) rows)
          (er_room_id row) (er_event_id row) isState prevs) (er_room_id row) rules = Inr s'"
    using assms True by (auto simp: maintain_tx_def elim: maintain_dag_cases)
  have "recomputeCurrentStateTx (TxAdvanceStateDAG
          (TxSaveEventState t0 (er_event_id row) (er_room_id row) rows)
          (er_room_id row) (er_event_id row) isState prevs) (er_room_id row) rules = Inr s'"
    using r True by (simp add: recomputeCurrentStateTx_def)
  from recompute_frame [OF this] show ?thesis using t0 by (auto simp: tx.snapshot_other)
qed

text \<open>
  Maintenance, with or without a state DAG, changes nothing but its own room's current state and
  its own event's snapshot; when it fails it changes nothing at all.
\<close>

theorem maintenance_stays_in_room:
  assumes "Maintain row rules s = (err, s')"
  shows "db_events s' = db_events s \<and> db_extremities s' = db_extremities s
    \<and> (\<forall>r. r \<noteq> er_room_id row \<longrightarrow> state_view s' r = state_view s r)
    \<and> (\<forall>j. j \<noteq> er_event_id row \<longrightarrow> TxGetEventState s' j = TxGetEventState s j)
    \<and> (err \<noteq> None \<longrightarrow> s' = s)"
proof (cases "maintain_tx row rules s")
  case (Inr t)
  then show ?thesis using assms maintain_tx_frame [OF Inr] by (simp add: Maintain_def WithRoomWrite_def)
qed (use assms in \<open>simp add: Maintain_def WithRoomWrite_def\<close>)

theorem maintenance_stays_in_room_witness:
  "TxGetEventState (snd (Maintain (ex_state_event ''$u'' ''m.room.topic'' [''$c'']) v11_rules ex_forked)) ''$c''
     = TxGetEventState ex_forked ''$c''"
proof -
  let ?row = "ex_state_event ''$u'' ''m.room.topic'' [''$c'']"
  have 1: "Maintain ?row v11_rules ex_forked = (fst (Maintain ?row v11_rules ex_forked), snd (Maintain ?row v11_rules ex_forked))"
    by (rule prod.collapse [symmetric])
  have 2: "''$c'' \<noteq> er_event_id ?row" by (simp add: ex_state_event_def)
  show ?thesis using maintenance_stays_in_room [OF 1] 2 by blast
qed

subsection \<open>Remote joins\<close>

lemma set_extremities_list:
  "fe_room_id x = room \<Longrightarrow>
   map fe_event_id (TxForwardExtremities (TxSetForwardExtremities s room [x]) room) = [fe_event_id x]"
  by (auto simp: TxForwardExtremities_def TxSetForwardExtremities_def insert_new_def extremity_key_def)

lemma set_extremities_reads [simp]:
  "TxGetEventState (TxSetForwardExtremities s room exts) = TxGetEventState s"
  "state_view (TxSetForwardExtremities s room exts) = state_view s"
  by (simp_all add: TxSetForwardExtremities_def TxGetEventState_def state_view_def TxGetRoomState_def fun_eq_iff)

text \<open>
  Joining a room through another server installs the state that server sent, with the join event
  as the user's membership: it is the room's current state and the join's snapshot, and the join is
  the room's only extremity.
\<close>

theorem remote_join_state:
  assumes "store_reachable s" and "\<not> StateDAGs rules" and "er_event_id joinRow \<noteq> []" and "er_type joinRow \<noteq> []"
    and "SeedRemoteJoin room rules joinRow stateRows s = (err, s')"
  shows "err = None
    \<and> state_view s' room = gm_put (state_key_of (er_type joinRow) (er_state_key joinRow)) (er_event_id joinRow)
                             (stateRowsToMap stateRows)
    \<and> TxGetEventState s' (er_event_id joinRow) = Some (stateMapToRows room (state_view s' room))
    \<and> map fe_event_id (TxForwardExtremities s' room) = [er_event_id joinRow]"
proof -
  let ?m = "seed_base joinRow stateRows" and ?x = "\<lparr>fe_room_id = room, fe_event_id = er_event_id joinRow, fe_depth = er_depth joinRow\<rparr>"
  define t where "t = TxSetForwardExtremities (TxSaveEventState s (er_event_id joinRow) room (stateMapToRows room ?m)) room [?x]"
  have m: "?m = gm_put (state_key_of (er_type joinRow) (er_state_key joinRow)) (er_event_id joinRow) (stateRowsToMap stateRows)"
    using assms(3,4) by (simp add: seed_base_def)
  have ok: "store_ok t"
    unfolding t_def by (rule set_extremities_ok [OF save_snapshot_ok [OF store_reachable_ok [OF assms(1)]
          resolved_rows_ok [OF seed_base_keys]]])
  have snap: "TxGetEventState t (er_event_id joinRow) = Some (stateMapToRows room ?m)"
    using saved_snapshot [OF seed_base_keys, of joinRow stateRows] by (simp add: t_def m)
  have ext: "map fe_event_id (TxForwardExtremities t room) = [er_event_id joinRow]"
    unfolding t_def by (subst set_extremities_list) simp_all
  obtain u where u: "recomputeCurrentStateTx t room rules = Inr u" by (rule recompute_cases [OF ok assms(2)])
  have s': "s' = u" "err = None"
    using assms(5) u by (simp_all add: SeedRemoteJoin_def WithRoomWrite_def seed_tx_eq t_def)
  have "state_view u room = ?m"
    using recompute_view [OF ok assms(2) u] keys_NUL_roundtrip [OF seed_base_keys]
    by (simp add: ext extremity_view_def snap)
  then show ?thesis using s' snap ext recompute_reads [OF u] by (simp add: m)
qed

theorem remote_join_state_witness:
  "map fe_event_id (TxForwardExtremities (snd (SeedRemoteJoin ''!r'' v11_rules
     (ex_state_event ''$j'' ''m.room.member'' [''$c''])
     [\<lparr>sr_room_id = ''!r'', sr_type = ''m.room.create'', sr_state_key = [], sr_event_id = ''$c''\<rparr>]
     empty_store)) ''!r'') = [''$j'']"
proof -
  let ?j = "ex_state_event ''$j'' ''m.room.member'' [''$c'']"
  let ?rows = "[\<lparr>sr_room_id = ''!r'', sr_type = ''m.room.create'', sr_state_key = [], sr_event_id = ''$c''\<rparr>]"
  have 1: "\<not> StateDAGs v11_rules" by code_simp
  have j: "er_event_id ?j = ''$j''" "er_type ?j = ''m.room.member''" by (simp_all add: ex_state_event_def)
  have 2: "er_event_id ?j \<noteq> []" "er_type ?j \<noteq> []" by (simp_all add: j)
  have 3: "SeedRemoteJoin ''!r'' v11_rules ?j ?rows empty_store =
      (fst (SeedRemoteJoin ''!r'' v11_rules ?j ?rows empty_store), snd (SeedRemoteJoin ''!r'' v11_rules ?j ?rows empty_store))"
    by (rule prod.collapse [symmetric])
  show ?thesis using remote_join_state [OF reach_empty 1 2 3] unfolding j by blast
qed

subsection \<open>Checks on state-DAG events\<close>

lemma check_prev_states_known:
  "check_prev_states s rules room ps = Inr () \<Longrightarrow> p \<in> set ps \<Longrightarrow>
   (\<exists>row. TxGetEvent s p = Some row \<and> er_room_id row = room
      \<and> (\<exists>pe. New (er_json row) (Version rules) = Inr pe \<and> IsState pe)) \<and> \<not> IsEventRejected s p"
  by (induction s rules room ps rule: check_prev_states.induct)
    (auto split: option.splits if_splits sum.splits)

lemma resolved_snapshots_exist:
  "resolveSnapshotsTx s ps rules = Inr m \<Longrightarrow> \<forall>p \<in> set ps. TxGetEventState s p \<noteq> None"
  by (auto simp: resolveSnapshotsTx_def find_None_iff split: option.splits)

lemma auth_result_accepts: "auth_result r = Inr () \<longleftrightarrow> r = Inr ()"
  by (cases r) (simp_all add: auth_result_def)


text \<open>A state-DAG room with its create event and its creator's join, and a topic to check.\<close>

definition ex_dag_json :: "string \<Rightarrow> string \<Rightarrow> json \<Rightarrow> string list \<Rightarrow> json" where
  "ex_dag_json ty sk content ps =
     JObj [(''type'', JStr ty), (''sender'', JStr ''@a:x''), (''room_id'', JStr ''!r''), (''state_key'', JStr sk),
       (''content'', content), (''prev_events'', JArr (map JStr ps)), (''prev_state_events'', JArr (map JStr ps))]"

definition ex_dag_row :: "string \<Rightarrow> string \<Rightarrow> string \<Rightarrow> json \<Rightarrow> string list \<Rightarrow> EventRow" where
  "ex_dag_row i ty sk content ps = \<lparr>er_event_id = i, er_room_id = ''!r'', er_room_version = Version msc4242_rules,
     er_type = ty, er_state_key = sk, er_sender = ''@a:x'', er_depth = 1, er_origin_server_ts = 1, er_stream = 0,
     er_content = Some content, er_json = ex_dag_json ty sk content ps,
     er_redacts = [], er_redacted = False, er_redacted_by = [], er_outlier = False, er_prev_events = None\<rparr>"

definition ex_dag_room :: Store where
  "ex_dag_room =
     receive msc4242_rules (ex_dag_row ''$j'' ''m.room.member'' ''@a:x'' (JObj [(''membership'', JStr ''join'')]) [''$c''])
       (receive msc4242_rules (ex_dag_row ''$c'' ''m.room.create'' [] (JObj []) []) empty_store)"

definition ex_dag_topic :: Event where
  "ex_dag_topic = \<lparr>ev_raw = ex_dag_json ''m.room.topic'' [] (JObj []) [''$j''],
     ev_fields = (case ex_dag_json ''m.room.topic'' [] (JObj []) [''$j''] of JObj m \<Rightarrow> gm_of m | _ \<Rightarrow> []),
     ev_version = Version msc4242_rules, ev_rules = msc4242_rules, ev_event_id = []\<rparr>"


end
