(* ===== verification/Membership.thy ===== *)
theory Membership
  imports Storage
begin

section \<open>Memberships (\<open>storage/rooms.go\<close>)\<close>

text \<open>
  The denormalised membership table and the queries over a user's member events. An update of a
  membership wins by causal order: the event's depth, then its stream position.
\<close>

subsection \<open>The membership table\<close>

definition membership_key :: "MembershipRow \<Rightarrow> string \<times> string" where
  "membership_key m = (mr_room_id m, mr_user_id m)"

definition membership_order :: "MembershipRow \<Rightarrow> int \<times> int" where
  "membership_order m = (mr_depth m, mr_stream m)"

text \<open>
  The \<open>ON CONFLICT DO UPDATE\<close>: each column takes the new value under the same condition, except
  \<open>forgotten\<close>, which a join clears in any case.
\<close>

definition newer :: "MembershipRow \<Rightarrow> MembershipRow \<Rightarrow> bool" where
  "newer m old \<longleftrightarrow> mr_depth m > mr_depth old \<or> mr_depth m = mr_depth old \<and> mr_stream m \<ge> mr_stream old"

definition merge_membership :: "MembershipRow \<Rightarrow> MembershipRow \<Rightarrow> MembershipRow" where
  "merge_membership m old =
     (let taken = (if newer m old then m else old)
      in taken\<lparr>mr_forgotten := (if mr_membership m = ''join'' then False else mr_forgotten old)\<rparr>)"

fun on_conflict :: "('r \<Rightarrow> 'k) \<Rightarrow> ('r \<Rightarrow> 'r) \<Rightarrow> 'r \<Rightarrow> 'r list \<Rightarrow> 'r list" where
  "on_conflict key update r [] = [r]"
| "on_conflict key update r (x # xs) =
     (if key x = key r then update x # xs else x # on_conflict key update r xs)"

definition UpsertMembership :: "Store \<Rightarrow> MembershipRow \<Rightarrow> Store" where
  "UpsertMembership s m =
     s\<lparr>db_memberships := on_conflict membership_key (merge_membership m) (m\<lparr>mr_forgotten := False\<rparr>)
        (db_memberships s)\<rparr>"

definition ForceUpsertMembership :: "Store \<Rightarrow> MembershipRow \<Rightarrow> Store" where
  "ForceUpsertMembership s m =
     s\<lparr>db_memberships := on_conflict membership_key
         (\<lambda>old. m\<lparr>mr_forgotten := (if mr_membership m = ''join'' then False else mr_forgotten old)\<rparr>)
         (m\<lparr>mr_forgotten := False\<rparr>) (db_memberships s)\<rparr>"

definition GetMembership :: "Store \<Rightarrow> string \<Rightarrow> string \<Rightarrow> MembershipRow option" where
  "GetMembership s roomID userID = find (\<lambda>m. membership_key m = (roomID, userID)) (db_memberships s)"

definition Members :: "Store \<Rightarrow> string \<Rightarrow> string \<Rightarrow> MembershipRow list" where
  "Members s roomID membershipFilter =
     sort_key mr_stream (filter (\<lambda>m. mr_room_id m = roomID
       \<and> (membershipFilter = [] \<or> mr_membership m = membershipFilter)) (db_memberships s))"

definition RoomsForUser :: "Store \<Rightarrow> string \<Rightarrow> string list" where
  "RoomsForUser s userID =
     map mr_room_id (filter (\<lambda>m. mr_user_id m = userID \<and> mr_membership m = ''join'') (db_memberships s))"

definition JoinedUserIDs :: "Store \<Rightarrow> string \<Rightarrow> string list" where
  "JoinedUserIDs s roomID =
     map mr_user_id (filter (\<lambda>m. mr_room_id m = roomID \<and> mr_membership m = ''join'') (db_memberships s))"

definition JoinedOrInvitedUserIDs :: "Store \<Rightarrow> string \<Rightarrow> string list" where
  "JoinedOrInvitedUserIDs s roomID =
     map mr_user_id (filter (\<lambda>m. mr_room_id m = roomID \<and> mr_membership m \<in> {''join'', ''invite''})
       (db_memberships s))"

definition SetForgotten :: "Store \<Rightarrow> string \<Rightarrow> string \<Rightarrow> bool \<Rightarrow> Store" where
  "SetForgotten s roomID userID forgotten =
     s\<lparr>db_memberships := map (\<lambda>m. if membership_key m = (roomID, userID)
         then m\<lparr>mr_forgotten := forgotten\<rparr> else m) (db_memberships s)\<rparr>"

text \<open>
  The event and its membership in one transaction: the membership row carries the event's stream
  position. A rejected event is inserted without extremity maintenance.
\<close>

definition InsertEventWithMembership :: "Store \<Rightarrow> EventRow \<Rightarrow> MembershipRow option \<Rightarrow> bool \<Rightarrow> Store \<times> int" where
  "InsertEventWithMembership s e m maintainExtremities =
     (let (s1, stream) = insert_event_row s e;
          s2 = (case m of None \<Rightarrow> s1 | Some r \<Rightarrow> UpsertMembership s1 (r\<lparr>mr_stream := stream\<rparr>))
      in if \<not> maintainExtremities then (s2, stream)
         else (UpdateExtremitiesForEvent s2 (er_room_id e) (er_event_id e) (row_prev_events e) (er_depth e), stream))"

subsection \<open>Queries over member events\<close>

text \<open>
  \<open>content->>'key'\<close>: \<open>None\<close> for SQL's NULL, the string without quotes, and otherwise the value's
  text, which PostgreSQL writes (\<open>pg_text\<close>).
\<close>

definition content_text :: "(json \<Rightarrow> string) \<Rightarrow> string \<Rightarrow> EventRow \<Rightarrow> string option" where
  "content_text pg_text key e =
     (case er_content e of
        Some (JObj kvs) \<Rightarrow>
          (case map_of (rev kvs) key of
             None \<Rightarrow> None
           | Some JNull \<Rightarrow> None
           | Some (JStr v) \<Rightarrow> Some v
           | Some j \<Rightarrow> Some (pg_text j))
      | _ \<Rightarrow> None)"

definition member_events :: "Store \<Rightarrow> string \<Rightarrow> string \<Rightarrow> EventRow list" where
  "member_events s roomID userID =
     filter (\<lambda>e. er_room_id e = roomID \<and> er_type e = ''m.room.member'' \<and> er_state_key e = userID) (db_events s)"

text \<open>\<open>ORDER BY stream_ordering DESC LIMIT 1\<close>.\<close>

definition latest_by_stream :: "EventRow list \<Rightarrow> EventRow option" where
  "latest_by_stream es =
     (case sort_key er_stream es of [] \<Rightarrow> None | _ \<Rightarrow> Some (last (sort_key er_stream es)))"

definition LatestMembershipEvent :: "Store \<Rightarrow> string \<Rightarrow> string \<Rightarrow> EventRow option" where
  "LatestMembershipEvent s roomID userID = latest_by_stream (member_events s roomID userID)"

text \<open>A NULL cannot be scanned into the \<open>string\<close> of the first query: that is an error, \<open>None\<close> here.\<close>

definition NewlyJoinedAfter :: "(json \<Rightarrow> string) \<Rightarrow> Store \<Rightarrow> string \<Rightarrow> string \<Rightarrow> int \<Rightarrow> bool option" where
  "NewlyJoinedAfter pg_text s roomID userID since =
     (let text = content_text pg_text ''membership'';
          after = filter (\<lambda>e. er_stream e > since) (member_events s roomID userID);
          upto = filter (\<lambda>e. er_stream e \<le> since) (member_events s roomID userID)
      in case latest_by_stream after of
           None \<Rightarrow> Some False
         | Some e \<Rightarrow>
             (case text e of
                None \<Rightarrow> None
              | Some m \<Rightarrow>
                  if m \<noteq> ''join'' then Some False
                  else
                    let prior = (case latest_by_stream upto of None \<Rightarrow> None | Some p \<Rightarrow> text p);
                        hasNonJoin = list_ex (\<lambda>e. case text e of None \<Rightarrow> False | Some t \<Rightarrow> t \<noteq> ''join'') after
                    in Some (prior \<noteq> Some ''join'' \<or> hasNonJoin)))"

subsection \<open>Laws\<close>

lemma on_conflict_find:
  assumes "\<And>x. key x = key r \<Longrightarrow> key (update x) = key r"
  shows "find (\<lambda>x. key x = k) (on_conflict key update r xs) =
     (if key r = k then (case find (\<lambda>x. key x = k) xs of None \<Rightarrow> Some r | Some x \<Rightarrow> Some (update x))
      else find (\<lambda>x. key x = k) xs)"
  using assms by (induction xs) auto

lemma merge_key: "membership_key m = membership_key old \<Longrightarrow> membership_key (merge_membership m old) = membership_key old"
  by (simp add: merge_membership_def membership_key_def Let_def)

lemma get_upsert:
  "GetMembership (UpsertMembership s m) room user =
     (if membership_key m = (room, user)
      then (case GetMembership s room user of
              None \<Rightarrow> Some (m\<lparr>mr_forgotten := False\<rparr>)
            | Some old \<Rightarrow> Some (merge_membership m old))
      else GetMembership s room user)"
proof -
  let ?m = "m\<lparr>mr_forgotten := False\<rparr>"
  have k: "membership_key ?m = membership_key m" by (simp add: membership_key_def)
  have "membership_key (merge_membership m x) = membership_key ?m" if "membership_key x = membership_key ?m" for x
    using that merge_key [of m x] by (simp add: k)
  then show ?thesis
    unfolding GetMembership_def UpsertMembership_def by (simp add: on_conflict_find k)
qed

text \<open>Writing memberships of one user, in any order: the causally latest one stays.\<close>

lemma merge_order:
  "membership_order (merge_membership m old) = max (membership_order old) (membership_order m)"
  by (auto simp: merge_membership_def newer_def membership_order_def Let_def max_def less_eq_prod_def less_prod_def)

definition stands_for :: "MembershipRow \<Rightarrow> MembershipRow \<Rightarrow> bool" where
  "stands_for m r \<longleftrightarrow> m\<lparr>mr_forgotten := False\<rparr> = r\<lparr>mr_forgotten := False\<rparr>"

lemma merge_stands_for: "stands_for m0 old \<Longrightarrow> stands_for m (merge_membership m old) \<or> stands_for m0 (merge_membership m old)"
  by (simp add: stands_for_def merge_membership_def Let_def)

lemma stands_for_order: "stands_for q r \<Longrightarrow> membership_order r = membership_order q"
proof -
  assume eq: "stands_for q r"
  have "mr_depth (q\<lparr>mr_forgotten := False\<rparr>) = mr_depth (r\<lparr>mr_forgotten := False\<rparr>)"
    and "mr_stream (q\<lparr>mr_forgotten := False\<rparr>) = mr_stream (r\<lparr>mr_forgotten := False\<rparr>)"
    using eq unfolding stands_for_def by (simp_all only:)
  then show ?thesis by (simp add: membership_order_def)
qed

lemma upserts_latest:
  assumes "\<forall>m \<in> set ms. membership_key m = (room, user)" and "GetMembership s room user = Some r0"
    and "stands_for m0 r0"
  shows "\<exists>m \<in> insert m0 (set ms). \<exists>r. GetMembership (fold (\<lambda>m s. UpsertMembership s m) ms s) room user = Some r
           \<and> stands_for m r \<and> (\<forall>m' \<in> insert m0 (set ms). membership_order m' \<le> membership_order m)"
  using assms
proof (induction ms arbitrary: s r0 m0)
  case Nil
  then show ?case by auto
next
  case (Cons m ms)
  let ?r = "merge_membership m r0"
  have get: "GetMembership (UpsertMembership s m) room user = Some ?r"
    using Cons.prems by (simp add: get_upsert)
  obtain q where q: "q \<in> {m, m0}" "stands_for q ?r"
    using merge_stands_for [OF Cons.prems(3), of m] by auto
  have max: "membership_order q = max (membership_order m0) (membership_order m)"
    using merge_order [of m r0] stands_for_order [OF q(2)] stands_for_order [OF Cons.prems(3)] by simp
  obtain p r where p: "p \<in> insert q (set ms)"
      "GetMembership (fold (\<lambda>m s. UpsertMembership s m) ms (UpsertMembership s m)) room user = Some r"
      "stands_for p r" "\<forall>m' \<in> insert q (set ms). membership_order m' \<le> membership_order p"
    using Cons.IH [OF _ get q(2)] Cons.prems(1) by auto
  have "membership_order m \<le> membership_order p" "membership_order m0 \<le> membership_order p"
    using p(4) max by (metis insertI1 max.bounded_iff)+
  then show ?case using p q(1) by (intro bexI [of _ p]) auto
qed

lemma upserts_not_forgotten:
  "GetMembership s room user = Some r0 \<Longrightarrow> \<not> mr_forgotten r0 \<Longrightarrow>
   GetMembership (fold (\<lambda>m s. UpsertMembership s m) ms s) room user = Some r \<Longrightarrow> \<not> mr_forgotten r"
proof (induction ms arbitrary: s r0)
  case (Cons m ms)
  have "\<not> mr_forgotten (merge_membership m r0)" using Cons.prems(2) by (simp add: merge_membership_def Let_def)
  then show ?case
    using Cons.IH [of "UpsertMembership s m" "if membership_key m = (room, user) then merge_membership m r0 else r0"] Cons.prems
    by (simp add: get_upsert split: if_splits)
qed simp

lemma upserts_causal:
  assumes "\<forall>m \<in> set ms. membership_key m = (room, user)" and "ms \<noteq> []" and "GetMembership s room user = None"
  obtains m where "m \<in> set ms" and "\<forall>m' \<in> set ms. membership_order m' \<le> membership_order m"
    and "GetMembership (fold (\<lambda>m s. UpsertMembership s m) ms s) room user = Some (m\<lparr>mr_forgotten := False\<rparr>)"
proof -
  obtain m0 rest where ms: "ms = m0 # rest" using assms(2) by (cases ms) auto
  have get: "GetMembership (UpsertMembership s m0) room user = Some (m0\<lparr>mr_forgotten := False\<rparr>)"
    using assms by (simp add: ms get_upsert)
  obtain m r where m: "m \<in> insert m0 (set rest)" "stands_for m r"
      "GetMembership (fold (\<lambda>m s. UpsertMembership s m) rest (UpsertMembership s m0)) room user = Some r"
      "\<forall>m' \<in> insert m0 (set rest). membership_order m' \<le> membership_order m"
    using upserts_latest [OF _ get, of rest m0] assms(1) by (auto simp: ms stands_for_def)
  have "\<not> mr_forgotten r" by (rule upserts_not_forgotten [OF get _ m(3)]) simp
  then have "r = r\<lparr>mr_forgotten := False\<rparr>" by simp
  then have "r = m\<lparr>mr_forgotten := False\<rparr>" using m(2) by (simp only: stands_for_def)
  then show thesis using m ms by (intro that [of m]) simp_all
qed


definition ex_membership :: "string \<Rightarrow> int \<Rightarrow> MembershipRow" where
  "ex_membership m d = \<lparr>mr_room_id = ''!r'', mr_user_id = ''@b:y'', mr_membership = m, mr_event_id = m,
     mr_display_name = [], mr_avatar_url = [], mr_forgotten = False, mr_stream = 7 - d, mr_depth = d\<rparr>"


end
