(* ===== verification/Event_Access.thy ===== *)
theory Event_Access
  imports Membership Event_State
begin

section \<open>Visibility of history and redaction (\<open>eventstate/visibility.go\<close>, \<open>redact.go\<close>)\<close>

text \<open>
  Who may see an event: the room's history visibility in effect at the event's depth against the
  user's membership there. How a redaction event is applied to its target. The previous state events
  of a new event in a state-DAG room.
\<close>

subsection \<open>The histories a decision reads\<close>

record MemberHistoryRow =
  mh_user_id :: string
  mh_membership :: string
  mh_stream :: int
  mh_depth :: int

record HistoryVisibilityRow =
  hv_visibility :: string
  hv_stream :: int
  hv_depth :: int

text \<open>
  Scanning a NULL into a Go \<open>string\<close> fails and ends the query, so one event without the member makes
  the result \<open>None\<close>. Rows of equal depth come in no particular order; the table's is taken.
\<close>

definition scan_history :: "(EventRow \<Rightarrow> string option) \<Rightarrow> (EventRow \<Rightarrow> string \<Rightarrow> 'r) \<Rightarrow> EventRow list \<Rightarrow> 'r list option" where
  "scan_history text row es =
     (if list_ex (\<lambda>e. text e = None) es then None
      else Some (map (\<lambda>e. row e (the (text e))) (filter (\<lambda>e. text e \<noteq> Some []) (sort_key er_depth es))))"

definition visibility_events :: "Store \<Rightarrow> string \<Rightarrow> EventRow list" where
  "visibility_events s roomID =
     filter (\<lambda>e. er_room_id e = roomID \<and> er_type e = ''m.room.history_visibility'' \<and> er_state_key e = [])
       (db_events s)"

definition HistoryVisibilityChanges :: "(json \<Rightarrow> string) \<Rightarrow> Store \<Rightarrow> string \<Rightarrow> HistoryVisibilityRow list option" where
  "HistoryVisibilityChanges pg_text s roomID =
     scan_history (content_text pg_text ''history_visibility'')
       (\<lambda>e t. \<lparr>hv_visibility = t, hv_stream = er_stream e, hv_depth = er_depth e\<rparr>) (visibility_events s roomID)"

definition MemberEventsForUser ::
  "(json \<Rightarrow> string) \<Rightarrow> Store \<Rightarrow> string \<Rightarrow> string \<Rightarrow> int \<Rightarrow> MemberHistoryRow list option" where
  "MemberEventsForUser pg_text s roomID userID upTo =
     scan_history (content_text pg_text ''membership'')
       (\<lambda>e t. \<lparr>mh_user_id = userID, mh_membership = t, mh_stream = er_stream e, mh_depth = er_depth e\<rparr>)
       (filter (\<lambda>e. er_stream e \<le> upTo) (member_events s roomID userID))"

record VisibilityEvaluator =
  ve_user_id :: string
  ve_changes :: "HistoryVisibilityRow list"
  ve_members :: "MemberHistoryRow list"

definition NewVisibilityEvaluator ::
  "(json \<Rightarrow> string) \<Rightarrow> Store \<Rightarrow> string \<Rightarrow> string \<Rightarrow> int \<Rightarrow> VisibilityEvaluator option" where
  "NewVisibilityEvaluator pg_text s roomID userID upTo =
     (case HistoryVisibilityChanges pg_text s roomID of
        None \<Rightarrow> None
      | Some hv \<Rightarrow>
          (case MemberEventsForUser pg_text s roomID userID upTo of
             None \<Rightarrow> None
           | Some mh \<Rightarrow> Some \<lparr>ve_user_id = userID, ve_changes = hv, ve_members = mh\<rparr>))"

subsection \<open>Deciding visibility\<close>

text \<open>Missing keys of the two priority maps read as 0.\<close>

definition visPriority :: "string \<Rightarrow> nat" where
  "visPriority v =
     (case map_of [(''world_readable'', 0), (''shared'', 1), (''invited'', 2), (''joined'', 3)] v of
        Some n \<Rightarrow> n | None \<Rightarrow> 0)"

definition membershipPriority :: "string \<Rightarrow> nat" where
  "membershipPriority m =
     (case map_of [(''join'', 0), (''invite'', 1), (''knock'', 2), (''leave'', 3), (''ban'', 4)] m of
        Some n \<Rightarrow> n | None \<Rightarrow> 0)"

text \<open>A loop over a history that breaks at the first entry behind the position.\<close>

fun latest_value :: "('r \<Rightarrow> bool) \<Rightarrow> ('r \<Rightarrow> string) \<Rightarrow> string \<Rightarrow> 'r list \<Rightarrow> string" where
  "latest_value inside value cur [] = cur"
| "latest_value inside value cur (c # cs) = (if inside c then latest_value inside value (value c) cs else cur)"

text \<open>The same loop with the value before the last change: \<open>(old, vis, changed)\<close>.\<close>

fun latest_change :: "int \<Rightarrow> string \<times> string \<times> bool \<Rightarrow> HistoryVisibilityRow list \<Rightarrow> string \<times> string \<times> bool" where
  "latest_change depth acc [] = acc"
| "latest_change depth (old, vis, changed) (c # cs) =
     (if hv_depth c \<le> depth then latest_change depth (vis, hv_visibility c, True) cs else (old, vis, changed))"

definition effectiveVisibility :: "VisibilityEvaluator \<Rightarrow> int \<Rightarrow> string \<Rightarrow> string" where
  "effectiveVisibility v depth eventType =
     (let (old, vis, changed) = latest_change depth (''shared'', ''shared'', False) (ve_changes v)
      in if eventType = ''m.room.history_visibility'' \<and> changed \<and> visPriority old < visPriority vis
         then old else vis)"

definition membershipAt :: "VisibilityEvaluator \<Rightarrow> int \<Rightarrow> string" where
  "membershipAt v depth = latest_value (\<lambda>m. mh_depth m \<le> depth) mh_membership ''leave'' (ve_members v)"

definition membershipBefore :: "VisibilityEvaluator \<Rightarrow> int \<Rightarrow> string" where
  "membershipBefore v depth = latest_value (\<lambda>m. mh_depth m < depth) mh_membership ''leave'' (ve_members v)"

definition CanSee :: "VisibilityEvaluator \<Rightarrow> int \<Rightarrow> string \<Rightarrow> bool" where
  "CanSee v depth eventType =
     (let vis = effectiveVisibility v depth eventType; m = membershipAt v depth
      in if vis = ''world_readable'' \<or> vis = ''shared'' then True
         else if m = ''join'' then True
         else if m = ''invite'' then vis = ''invited''
         else False)"

definition membershipOf :: "raw \<Rightarrow> string" where
  "membershipOf content =
     (let (ok, m) = unmarshal (dec_struct (str_field ''membership'')) [] content in if ok then m else [])"

definition CanSeeRow :: "VisibilityEvaluator \<Rightarrow> EventRow \<Rightarrow> bool" where
  "CanSeeRow v ev =
     (let vis = effectiveVisibility v (er_depth ev) (er_type ev)
      in if vis = ''world_readable'' \<or> vis = ''shared'' then True
         else if er_type ev = ''m.room.member'' \<and> er_state_key ev = ve_user_id v then
           (let membership = membershipOf (er_content ev);
                prev = membershipBefore v (er_depth ev);
                eff = (if membershipPriority prev < membershipPriority membership then prev else membership)
            in if membership = ''leave'' \<and> (prev = ''join'' \<or> prev = ''invite'') then True
               else if eff = ''join'' then True
               else if eff = ''invite'' then vis = ''invited''
               else False)
         else CanSee v (er_depth ev) (er_type ev))"

text \<open>
  The filter of \<open>/messages\<close>: without an evaluator, also when it could not be loaded, every event is kept.
\<close>

definition LatestEvent :: "Store \<Rightarrow> string \<Rightarrow> EventRow option" where
  "LatestEvent s roomID = latest_by_stream (filter (\<lambda>e. er_room_id e = roomID \<and> \<not> er_outlier e) (db_events s))"

definition messages_keep :: "(json \<Rightarrow> string) \<Rightarrow> Store \<Rightarrow> string \<Rightarrow> string \<Rightarrow> EventRow \<Rightarrow> bool" where
  "messages_keep pg_text s roomID userID e =
     (let vis = (case LatestEvent s roomID of
                   None \<Rightarrow> None
                 | Some latest \<Rightarrow> NewVisibilityEvaluator pg_text s roomID userID (er_stream latest))
      in case vis of None \<Rightarrow> True | Some v \<Rightarrow> CanSeeRow v e)"

subsection \<open>Applying a redaction\<close>

definition domainOf :: "string \<Rightarrow> string" where
  "domainOf userID = (case index_byte (CHR '':'') userID of Some i \<Rightarrow> drop (i + 1) userID | None \<Rightarrow> [])"

text \<open>The room's power levels as \<open>ApplyRedaction\<close> reads them; \<open>default_pl\<close> where none can be read.\<close>

definition redaction_power_levels :: "Store \<Rightarrow> string \<Rightarrow> PowerLevels" where
  "redaction_power_levels s roomID =
     (case TxGetStateEvent s roomID ''m.room.power_levels'' [] of
        None \<Rightarrow> default_pl
      | Some i \<Rightarrow>
          (case TxGetEvent s i of
             None \<Rightarrow> default_pl
           | Some plEv \<Rightarrow> (case ParsePowerLevels (er_content plEv) of Inl _ \<Rightarrow> default_pl | Inr pl \<Rightarrow> pl)))"

definition ApplyRedaction :: "Store \<Rightarrow> EventRow \<Rightarrow> string \<times> Store" where
  "ApplyRedaction s redaction =
     (if er_type redaction \<noteq> ''m.room.redaction'' \<or> er_redacts redaction = [] then ([], s)
      else case TxGetEvent s (er_redacts redaction) of
        None \<Rightarrow> ([], s)
      | Some target \<Rightarrow>
          if er_room_id target \<noteq> er_room_id redaction then ([], s)
          else if er_redacted target then (er_event_id target, s)
          else
            let pl = redaction_power_levels s (er_room_id redaction);
                dom = domainOf (er_sender redaction)
            in if UserLevel pl (er_sender redaction) \<ge> pl_redact pl
               then (er_event_id target, SetEventRedactedBy s (er_event_id target) (er_event_id redaction))
               else if dom \<noteq> [] \<and> dom = domainOf (er_sender target)
               then (er_event_id target, SetEventRedactedBy s (er_event_id target) (er_event_id redaction))
               else ([], s))"

subsection \<open>Previous state events of a new event\<close>

definition PrevStateEventsForNew :: "Store \<Rightarrow> string \<Rightarrow> string \<Rightarrow> string \<Rightarrow> string \<Rightarrow> string list" where
  "PrevStateEventsForNew s roomID eventType sender stateKey =
     (let heads = TxStateDAGExtremities s roomID
      in if eventType \<noteq> ''m.room.member'' \<or> stateKey = [] \<or> stateKey = sender then heads
         else if list_ex (\<lambda>u. domainOf u = domainOf stateKey) (JoinedUserIDs s roomID) then heads
         else case TxGetStateEvent s roomID ''m.room.member'' stateKey of
           None \<Rightarrow> heads
         | Some memberID \<Rightarrow>
             if memberID = [] \<or> memberID \<in> set heads then heads
             else (if length heads \<ge> MaxPrevStateEvents then take (MaxPrevStateEvents - 1) heads else heads)
                  @ [memberID])"

end
