(* ===== verification/Event_Access_Laws.thy ===== *)
theory Event_Access_Laws
  imports Event_Access Maintenance_Laws
begin

section \<open>What visibility and redaction guarantee\<close>

subsection \<open>Histories\<close>

lemma latest_value_last:
  "sorted (map f rs) \<Longrightarrow> latest_value (\<lambda>r. f r \<le> d) val cur rs =
     (if filter (\<lambda>r. f r \<le> d) rs = [] then cur else val (last (filter (\<lambda>r. f r \<le> d) rs)))"
proof (induction rs arbitrary: cur)
  case (Cons c cs)
  then have "\<not> f c \<le> d \<Longrightarrow> filter (\<lambda>r. f r \<le> d) cs = []" by (auto simp: filter_empty_conv)
  then show ?case using Cons by auto
qed simp

lemma sorted_last_max: "sorted (map f xs) \<Longrightarrow> x \<in> set xs \<Longrightarrow> f x \<le> (f (last xs) :: int)"
  by (induction xs) (auto simp: last_in_set)

lemma scan_history_rows:
  assumes "scan_history text row es = Some rows" and "\<And>e t. depth (row e t) = er_depth e"
  shows "sorted (map depth rows)"
    and "r \<in> set rows \<longleftrightarrow> (\<exists>e \<in> set es. \<exists>t. text e = Some t \<and> t \<noteq> [] \<and> r = row e t)"
proof -
  have some: "text e \<noteq> None" if "e \<in> set es" for e
    using assms(1) that by (auto simp: scan_history_def list_ex_iff split: if_splits)
  have rows: "rows = map (\<lambda>e. row e (the (text e))) (filter (\<lambda>e. text e \<noteq> Some []) (sort_key er_depth es))"
    using assms(1) by (auto simp: scan_history_def split: if_splits)
  have "map depth rows = map er_depth (filter (\<lambda>e. text e \<noteq> Some []) (sort_key er_depth es))"
    by (simp add: rows assms(2))
  then show "sorted (map depth rows)" by (simp add: sorted_filter)
  show "r \<in> set rows \<longleftrightarrow> (\<exists>e \<in> set es. \<exists>t. text e = Some t \<and> t \<noteq> [] \<and> r = row e t)"
    using some by (force simp: rows image_iff)
qed

text \<open>The membership at a depth comes from the user's latest member event there.\<close>

lemma membership_at_event:
  assumes "NewVisibilityEvaluator pg_text s room user upTo = Some v" and "membershipAt v d = m" and "m \<noteq> ''leave''"
  shows "\<exists>e \<in> set (member_events s room user). er_stream e \<le> upTo \<and> er_depth e \<le> d
     \<and> content_text pg_text ''membership'' e = Some m
     \<and> (\<forall>e' \<in> set (member_events s room user). er_stream e' \<le> upTo \<and> er_depth e' \<le> d
           \<and> content_text pg_text ''membership'' e' \<noteq> Some [] \<longrightarrow> er_depth e' \<le> er_depth e)"
proof -
  let ?es = "filter (\<lambda>e. er_stream e \<le> upTo) (member_events s room user)"
  let ?text = "content_text pg_text ''membership''"
  let ?row = "\<lambda>e t. \<lparr>mh_user_id = user, mh_membership = t, mh_stream = er_stream e, mh_depth = er_depth e\<rparr>"
  obtain mh where mh: "scan_history ?text ?row ?es = Some mh" "ve_members v = mh"
    using assms(1) by (auto simp: NewVisibilityEvaluator_def MemberEventsForUser_def split: option.splits)
  note rows = scan_history_rows [OF mh(1), of mh_depth]
  let ?xs = "filter (\<lambda>r. mh_depth r \<le> d) mh"
  have sorted: "sorted (map mh_depth mh)" using rows(1) by simp
  have ne: "?xs \<noteq> []" and m: "m = mh_membership (last ?xs)"
    using assms(2,3) mh(2) by (auto simp: membershipAt_def latest_value_last [OF sorted] split: if_splits)
  then have "last ?xs \<in> set ?xs" using last_in_set by blast
  then obtain e t where e: "e \<in> set ?es" "?text e = Some t" "last ?xs = ?row e t" "er_depth e \<le> d"
    using rows(2) [of "last ?xs"] by auto
  have "er_depth e' \<le> er_depth e" if e': "e' \<in> set ?es" "er_depth e' \<le> d" "?text e' \<noteq> Some []" for e'
  proof -
    have "?text e' \<noteq> None" using mh(1) e'(1) by (auto simp: scan_history_def list_ex_iff split: if_splits)
    then obtain t' where t': "?text e' = Some t'" by auto
    then have "?row e' t' \<in> set mh" using rows(2) [of "?row e' t'"] e' by auto
    then have "?row e' t' \<in> set ?xs" using e'(2) by simp
    from sorted_last_max [OF sorted_filter [OF sorted] this] show ?thesis using e(3) by simp
  qed
  then show ?thesis using e m by (intro bexI [of _ e]) auto
qed

text \<open>
  C15: Where the visibility in effect at an event is \<open>invited\<close> or \<open>joined\<close> (or a value the code does not
  know), a user sees the event, its own member events aside, only if the user's latest member event at
  or before the event's depth is a join, or an invite under \<open>invited\<close>.
\<close>

theorem seen_event_authorised:
  assumes "NewVisibilityEvaluator pg_text s room user upTo = Some v" and "CanSeeRow v ev"
    and "effectiveVisibility v (er_depth ev) (er_type ev) \<notin> {''world_readable'', ''shared''}"
    and "er_type ev \<noteq> ''m.room.member'' \<or> er_state_key ev \<noteq> user"
  shows "\<exists>e \<in> set (member_events s room user). er_stream e \<le> upTo \<and> er_depth e \<le> er_depth ev
     \<and> (content_text pg_text ''membership'' e = Some ''join''
        \<or> content_text pg_text ''membership'' e = Some ''invite''
          \<and> effectiveVisibility v (er_depth ev) (er_type ev) = ''invited'')
     \<and> (\<forall>e' \<in> set (member_events s room user). er_stream e' \<le> upTo \<and> er_depth e' \<le> er_depth ev
           \<and> content_text pg_text ''membership'' e' \<noteq> Some [] \<longrightarrow> er_depth e' \<le> er_depth e)"
proof -
  have user: "ve_user_id v = user"
    using assms(1) by (auto simp: NewVisibilityEvaluator_def split: option.splits)
  have "CanSee v (er_depth ev) (er_type ev)"
    using assms(2-4) user by (auto simp: CanSeeRow_def Let_def split: if_splits)
  then have m: "membershipAt v (er_depth ev) = ''join'' \<or> membershipAt v (er_depth ev) = ''invite''
      \<and> effectiveVisibility v (er_depth ev) (er_type ev) = ''invited''"
    using assms(3) by (auto simp: CanSee_def Let_def split: if_splits)
  then have "membershipAt v (er_depth ev) \<noteq> ''leave''" by auto
  from membership_at_event [OF assms(1) refl this] m show ?thesis by (elim bexE) (rule bexI, auto)
qed

text \<open>A private room, one member who joined late, and a message from before.\<close>

definition ex_access_event :: "string \<Rightarrow> string \<Rightarrow> string \<Rightarrow> json \<Rightarrow> int \<Rightarrow> EventRow" where
  "ex_access_event i ty sk content d = (ex_state_event i ty [])\<lparr>er_state_key := sk, er_content := Some content,
     er_depth := d, er_stream := d\<rparr>"

definition ex_private :: "json \<Rightarrow> Store" where
  "ex_private visibility = empty_store\<lparr>db_events :=
     [ex_access_event ''$h'' ''m.room.history_visibility'' [] visibility 1,
      ex_access_event ''$m'' ''m.room.message'' [] (JObj []) 2,
      ex_access_event ''$j'' ''m.room.member'' ''@b:y'' (JObj [(''membership'', JStr ''join'')]) 3,
      ex_access_event ''$n'' ''m.room.message'' [] (JObj []) 4]\<rparr>"

definition ex_joined_only :: json where
  "ex_joined_only = JObj [(''history_visibility'', JStr ''joined'')]"

definition no_text :: "json \<Rightarrow> string" where "no_text j = []"

theorem seen_event_authorised_witness:
  "\<exists>e \<in> set (member_events (ex_private ex_joined_only) ''!r'' ''@b:y''). er_depth e \<le> 4"
proof -
  let ?v = "\<lparr>ve_user_id = ''@b:y'', ve_changes = [\<lparr>hv_visibility = ''joined'', hv_stream = 1, hv_depth = 1\<rparr>],
     ve_members = [\<lparr>mh_user_id = ''@b:y'', mh_membership = ''join'', mh_stream = 3, mh_depth = 3\<rparr>]\<rparr>"
  let ?ev = "ex_access_event ''$n'' ''m.room.message'' [] (JObj []) 4"
  have 1: "NewVisibilityEvaluator no_text (ex_private ex_joined_only) ''!r'' ''@b:y'' 9 = Some ?v" by code_simp
  have 2: "CanSeeRow ?v ?ev" by code_simp
  have 3: "effectiveVisibility ?v (er_depth ?ev) (er_type ?ev) \<notin> {''world_readable'', ''shared''}" by code_simp
  have 4: "er_type ?ev \<noteq> ''m.room.member'' \<or> er_state_key ?ev \<noteq> ''@b:y''" by code_simp
  have 5: "er_depth ?ev = 4" by code_simp
  show ?thesis using seen_event_authorised [OF 1 2 3 4] unfolding 5 by blast
qed

text \<open>Who may see an event under one visibility.\<close>

definition visible_under :: "string \<Rightarrow> string \<Rightarrow> bool" where
  "visible_under vis membership \<longleftrightarrow> vis = ''world_readable'' \<or> vis = ''shared'' \<or> membership = ''join''
     \<or> vis = ''invited'' \<and> membership = ''invite''"

definition known_visibilities :: "string list" where
  "known_visibilities = [''world_readable'', ''shared'', ''invited'', ''joined'']"

text \<open>
  A change of the history visibility is itself visible to whoever could see it under the value before
  or under the new one, whichever of the four values they are.
\<close>

theorem visibility_change_seen:
  assumes "latest_change d (''shared'', ''shared'', False) (ve_changes v) = (old, new, True)"
    and "old \<in> set known_visibilities" and "new \<in> set known_visibilities"
  shows "CanSee v d ''m.room.history_visibility'' \<longleftrightarrow>
     visible_under old (membershipAt v d) \<or> visible_under new (membershipAt v d)"
proof -
  have "\<forall>old \<in> set known_visibilities. \<forall>new \<in> set known_visibilities.
      (let vis = (if visPriority old < visPriority new then old else new)
       in visible_under vis m \<longleftrightarrow> visible_under old m \<or> visible_under new m)" for m
    by (auto simp: known_visibilities_def visPriority_def visible_under_def)
  then have key: "visible_under (if visPriority old < visPriority new then old else new) m \<longleftrightarrow>
      visible_under old m \<or> visible_under new m" for m
    using assms(2,3) by (simp add: Let_def)
  have "CanSee v d ty \<longleftrightarrow> visible_under (effectiveVisibility v d ty) (membershipAt v d)" for ty
    by (auto simp: CanSee_def visible_under_def Let_def)
  moreover have "effectiveVisibility v d ''m.room.history_visibility'' = (if visPriority old < visPriority new then old else new)"
    by (simp add: effectiveVisibility_def assms(1))
  ultimately show ?thesis using key by simp
qed

theorem visibility_change_seen_witness:
  "CanSee \<lparr>ve_user_id = ''@b:y'', ve_changes = [\<lparr>hv_visibility = ''joined'', hv_stream = 1, hv_depth = 1\<rparr>], ve_members = []\<rparr>
     1 ''m.room.history_visibility''"
proof -
  let ?v = "\<lparr>ve_user_id = ''@b:y'', ve_changes = [\<lparr>hv_visibility = ''joined'', hv_stream = 1, hv_depth = 1\<rparr>], ve_members = []\<rparr>"
  have 1: "latest_change 1 (''shared'', ''shared'', False) (ve_changes ?v) = (''shared'', ''joined'', True)" by code_simp
  have 2: "''shared'' \<in> set known_visibilities" "''joined'' \<in> set known_visibilities"
    by (simp_all add: known_visibilities_def)
  show ?thesis using visibility_change_seen [OF 1 2] by (simp add: visible_under_def)
qed

text \<open>
  One history-visibility event whose content lacks the value (the auth rules accept it) turns the
  filter off for the whole room: reading the history fails for every user, and a request that could
  not load it keeps every event.
\<close>

theorem missing_value_unfilters_room:
  assumes "e \<in> set (visibility_events s room)" and "content_text pg_text ''history_visibility'' e = None"
  shows "NewVisibilityEvaluator pg_text s room user upTo = None \<and> messages_keep pg_text s room user ev"
proof -
  have none: "NewVisibilityEvaluator pg_text s room u x = None" for u x
    using assms by (auto simp: NewVisibilityEvaluator_def HistoryVisibilityChanges_def scan_history_def list_ex_iff)
  then show ?thesis by (simp add: messages_keep_def Let_def split: option.split)
qed

theorem missing_value_unfilters_room_witness:
  "messages_keep no_text (ex_private (JObj [])) ''!r'' ''@c:z'' (ex_access_event ''$m'' ''m.room.message'' [] (JObj []) 2)"
proof -
  let ?e = "ex_access_event ''$h'' ''m.room.history_visibility'' [] (JObj []) 1"
  have 1: "?e \<in> set (visibility_events (ex_private (JObj [])) ''!r'')"
    by (simp add: visibility_events_def ex_private_def ex_access_event_def ex_state_event_def)
  have 2: "content_text no_text ''history_visibility'' ?e = None" by code_simp
  show ?thesis using missing_value_unfilters_room [OF 1 2] by blast
qed

subsection \<open>Redactions\<close>

lemma TxGetEvent_redacted:
  "TxGetEvent (SetEventRedactedBy s i j) k =
     map_option (\<lambda>e. if k = i then e\<lparr>er_redacted := True, er_redacted_by := j\<rparr> else e) (TxGetEvent s k)"
proof -
  have "find (\<lambda>e. er_event_id e = k) (map (\<lambda>e. if er_event_id e = i then e\<lparr>er_redacted := True, er_redacted_by := j\<rparr> else e) es) =
      map_option (\<lambda>e. if k = i then e\<lparr>er_redacted := True, er_redacted_by := j\<rparr> else e) (find (\<lambda>e. er_event_id e = k) es)" for es
    by (induction es) auto
  then show ?thesis by (simp add: TxGetEvent_def SetEventRedactedBy_def)
qed



end
