(* ===== verification/Genesis.thy ===== *)
theory Genesis
  imports Room_Types Events
begin

section \<open>Creating a room (\<open>rooms/create.go\<close>)\<close>

text \<open>
  The first five events of a room: create, the creator's join, power levels, join rules and history
  visibility, each naming the one before it. In room version 12 the room's ID is the hash of its
  create event. Parameters: the hash, the signature, the random parts (\<open>suffix\<close> of the n-th legacy
  event ID, \<open>localpart\<close> of the fallback room ID), and \<open>any_number\<close>, how \<open>encoding/json\<close> writes back
  a number literal it has read into an \<open>any\<close>, for literals other than integers up to \<open>2 ^ 53\<close>.
\<close>

datatype genesis_error =
    UnsupportedRoomVersion Version
  | BadPowerOverride
  | AdditionalCreatorsNotArray
  | AdditionalCreatorsNotUserIDs
  | CreatorListedInOverride
  | AdditionalCreatorListedInOverride
  | BuildFailed event_error

definition PresetPrivateChat :: string where "PresetPrivateChat = ''private_chat''"
definition PresetTrustedPrivateChat :: string where "PresetTrustedPrivateChat = ''trusted_private_chat''"
definition PresetPublicChat :: string where "PresetPublicChat = ''public_chat''"

subsection \<open>Initial contents\<close>

definition levels_json :: "int gomap \<Rightarrow> json" where
  "levels_json m = JObj (map (\<lambda>(k, v). (k, json_int v)) m)"

text \<open>\<open>json.Marshal\<close> of a \<open>PowerLevels\<close>: the fields in order, \<open>notifications\<close> only if not empty.\<close>

definition power_levels_json :: "PowerLevels \<Rightarrow> json" where
  "power_levels_json pl = JObj
     ([(''users'', levels_json (pl_users pl)),
       (''users_default'', json_int (pl_users_default pl)),
       (''events'', levels_json (pl_events pl)),
       (''events_default'', json_int (pl_events_default pl)),
       (''state_default'', json_int (pl_state_default pl)),
       (''ban'', json_int (pl_ban pl)),
       (''kick'', json_int (pl_kick pl)),
       (''redact'', json_int (pl_redact pl)),
       (''invite'', json_int (pl_invite pl))]
      @ (if pl_notifications pl = [] then [] else [(''notifications'', levels_json (pl_notifications pl))]))"

definition put_all :: "'v gomap \<Rightarrow> 'v gomap \<Rightarrow> 'v gomap" where
  "put_all dst src = fold (\<lambda>e. gm_put (fst e) (snd e)) src dst"

definition nonzero :: "int \<Rightarrow> int \<Rightarrow> int" where
  "nonzero src dst = (if src \<noteq> 0 then src else dst)"

definition mergePowerLevels :: "PowerLevels \<Rightarrow> PowerLevels \<Rightarrow> PowerLevels" where
  "mergePowerLevels dst src = \<lparr>
     pl_users = put_all (pl_users dst) (pl_users src),
     pl_users_default = nonzero (pl_users_default src) (pl_users_default dst),
     pl_events = put_all (pl_events dst) (pl_events src),
     pl_events_default = nonzero (pl_events_default src) (pl_events_default dst),
     pl_state_default = nonzero (pl_state_default src) (pl_state_default dst),
     pl_ban = nonzero (pl_ban src) (pl_ban dst),
     pl_kick = nonzero (pl_kick src) (pl_kick dst),
     pl_redact = nonzero (pl_redact src) (pl_redact dst),
     pl_invite = nonzero (pl_invite src) (pl_invite dst),
     pl_notifications = put_all (pl_notifications dst) (pl_notifications src)\<rparr>"

definition initial_pl :: "string \<Rightarrow> string \<Rightarrow> bool \<Rightarrow> PowerLevels" where
  "initial_pl creator preset privilegedCreator = \<lparr>
     pl_users = (if privilegedCreator then [] else [(creator, 100)]),
     pl_users_default = 0,
     pl_events = gm_put ''m.room.tombstone'' (if privilegedCreator then 150 else 100)
       (gm_of [(''m.room.name'', 50), (''m.room.power_levels'', 100), (''m.room.history_visibility'', 100),
               (''m.room.canonical_alias'', 50), (''m.room.avatar'', 50), (''m.room.topic'', 50),
               (''m.room.encryption'', 100)]),
     pl_events_default = 0, pl_state_default = 50, pl_ban = 50, pl_kick = 50, pl_redact = 50,
     pl_invite = (if preset = PresetPrivateChat \<or> preset = PresetTrustedPrivateChat then 0 else 50),
     pl_notifications = []\<rparr>"

definition InitialPowerLevels :: "string \<Rightarrow> string \<Rightarrow> raw \<Rightarrow> bool \<Rightarrow> genesis_error + json" where
  "InitialPowerLevels creator preset override privilegedCreator =
     (let pl = initial_pl creator preset privilegedCreator
      in case override of
           None \<Rightarrow> Inr (power_levels_json pl)
         | Some j \<Rightarrow>
             (let (ok, ov) = dec_struct pl_fields j zero_pl
              in if ok then Inr (power_levels_json (mergePowerLevels pl ov)) else Inl BadPowerOverride))"

definition InitialJoinRules :: "string \<Rightarrow> json" where
  "InitialJoinRules preset =
     JObj [(''join_rule'', JStr (if preset = PresetPublicChat then JoinRulePublic else JoinRuleInvite))]"

definition InitialHistoryVisibility :: "string \<Rightarrow> json" where
  "InitialHistoryVisibility preset = JObj [(''history_visibility'', JStr ''shared'')]"

subsection \<open>User IDs and additional creators\<close>

definition alphanumeric :: "char \<Rightarrow> bool" where
  "alphanumeric c = list_ex (\<lambda>(first, final). first \<le> c \<and> c \<le> final)
     [(CHR ''a'', CHR ''z''), (CHR ''A'', CHR ''Z''), (CHR ''0'', CHR ''9'')]"

definition isValidUserID :: "string \<Rightarrow> bool" where
  "isValidUserID s =
     (case s of
        [] \<Rightarrow> False
      | c # rest \<Rightarrow>
          if length s < 2 \<or> c \<noteq> CHR ''@'' then False
          else case index_byte (CHR '':'') rest of
            None \<Rightarrow> False
          | Some i \<Rightarrow>
              let localpart = take i rest; domain = drop (i + 1) rest
              in if i = 0 \<or> domain = [] then False
                 else if \<not> list_all (\<lambda>c. alphanumeric c \<or> c \<in> set ''._=-/+'') localpart then False
                 else
                   (case last_index_byte (CHR '':'') domain of
                      Some p \<Rightarrow>
                        if 0 < p \<and> p + 1 < length domain
                        then list_all is_digit (drop (p + 1) domain)
                             \<and> list_all (\<lambda>c. alphanumeric c \<or> c \<in> set ''.-'') (take p domain)
                        else list_all (\<lambda>c. alphanumeric c \<or> c \<in> set ''.-'') domain
                    | None \<Rightarrow> list_all (\<lambda>c. alphanumeric c \<or> c \<in> set ''.-'') domain))"

definition containsUser :: "string list \<Rightarrow> string \<Rightarrow> bool" where
  "containsUser list s = list_ex (\<lambda>v. v = s) list"

fun collect_creators :: "json list \<Rightarrow> string list \<Rightarrow> genesis_error + string list" where
  "collect_creators [] out = Inr out"
| "collect_creators (JStr s # es) out =
     (if \<not> isValidUserID s then Inl AdditionalCreatorsNotUserIDs
      else collect_creators es (if containsUser out s then out else out @ [s]))"
| "collect_creators (_ # es) out = Inl AdditionalCreatorsNotUserIDs"

text \<open>An absent value and \<open>null\<close> are both the nil \<open>any\<close>.\<close>

definition validateAdditionalCreators :: "json option \<Rightarrow> genesis_error + string list" where
  "validateAdditionalCreators v =
     (case v of
        None \<Rightarrow> Inr []
      | Some JNull \<Rightarrow> Inr []
      | Some (JArr arr) \<Rightarrow> collect_creators arr []
      | Some _ \<Rightarrow> Inl AdditionalCreatorsNotArray)"

definition ValidatePrivilegedPowerOverride :: "string \<Rightarrow> string list \<Rightarrow> raw \<Rightarrow> genesis_error + unit" where
  "ValidatePrivilegedPowerOverride creator additional override =
     (case override of
        None \<Rightarrow> Inr ()
      | Some j \<Rightarrow>
          if creator = [] then Inr ()
          else
            (let (ok, users) = dec_struct [(''users'', dec_map None dec_raw)] j []
             in if \<not> ok \<or> users = [] then Inr ()
                else if gm_get users creator \<noteq> None then Inl CreatorListedInOverride
                else if list_ex (\<lambda>ac. gm_get users ac \<noteq> None) additional then Inl AdditionalCreatorListedInOverride
                else Inr ()))"

subsection \<open>The genesis events\<close>

text \<open>Decoding into an \<open>any\<close> and encoding again: numbers pass through \<open>float64\<close>.\<close>

fun remarshal :: "(string \<Rightarrow> json) \<Rightarrow> json \<Rightarrow> json" where
  "remarshal num JNull = JNull"
| "remarshal num (JBool b) = JBool b"
| "remarshal num (JNum s) =
     (case parse_int64 s of
        Some i \<Rightarrow> if \<bar>i\<bar> \<le> 2 ^ 53 \<and> s \<noteq> ''-0'' then JNum (format_int i) else num s
      | None \<Rightarrow> num s)"
| "remarshal num (JStr s) = JStr s"
| "remarshal num (JArr xs) = JArr (map (remarshal num) xs)"
| "remarshal num (JObj kvs) = JObj (gm_of (map (\<lambda>(k, v). (k, remarshal num v)) kvs))"

definition merge_creation :: "(string \<Rightarrow> json) \<Rightarrow> raw \<Rightarrow> json gomap \<Rightarrow> json gomap" where
  "merge_creation num creationContent m =
     (case creationContent of
        None \<Rightarrow> m
      | Some j \<Rightarrow>
          (case unmarshal_obj j of
             None \<Rightarrow> m
           | Some extra \<Rightarrow>
               fold (\<lambda>(k, v). gm_put k (remarshal num v))
                 (filter (\<lambda>e. fst e \<noteq> ''room_version'' \<and> fst e \<noteq> ''creator'') extra) m))"

definition invited_creators :: "string \<Rightarrow> string list \<Rightarrow> string list \<Rightarrow> string list" where
  "invited_creators creator additional invitees =
     fold (\<lambda>inv as. if inv \<noteq> [] \<and> inv \<noteq> creator \<and> \<not> containsUser as inv then as @ [inv] else as)
       invitees additional"

definition create_content ::
  "(string \<Rightarrow> json) \<Rightarrow> Rules \<Rightarrow> Version \<Rightarrow> string \<Rightarrow> string \<Rightarrow> raw \<Rightarrow> bool \<Rightarrow> string list
     \<Rightarrow> genesis_error + json gomap" where
  "create_content num rules version creator preset creationContent isDirect invitees =
     (let base = gm_put ''m.federate'' (JBool True) (gm_put ''room_version'' (JStr version) []);
          base1 = (if CreateOmitsCreator rules then base else gm_put ''creator'' (JStr creator) base);
          content = merge_creation num creationContent base1
      in if \<not> CreatorPrivileged rules then Inr content
         else
           bind_result (validateAdditionalCreators (gm_get content ''additional_creators'')) (\<lambda>additional0.
             let additional = (if preset = PresetTrustedPrivateChat \<and> isDirect
                               then invited_creators creator additional0 invitees else additional0)
             in Inr (if additional \<noteq> [] then gm_put ''additional_creators'' (json_strings additional) content
                     else gm_del ''additional_creators'' content)))"

definition genesis_builder ::
  "Rules \<Rightarrow> string \<Rightarrow> string \<Rightarrow> string \<Rightarrow> string \<Rightarrow> json \<Rightarrow> int \<Rightarrow> int \<Rightarrow> string list \<Rightarrow> string list \<Rightarrow> Builder" where
  "genesis_builder rules eventType stateKey sender roomID content ts depth prev auth = \<lparr>
     b_type = eventType, b_state_key = Some stateKey, b_sender = sender, b_room_id = roomID,
     b_content = Some content, b_redacts = [], b_unsigned = None, b_prev_events = prev, b_auth_events = auth,
     b_prev_state_events = (if StateDAGs rules then prev else []), b_depth = depth,
     b_origin_server_ts = ts, b_origin = []\<rparr>"

definition buildAndSign ::
  "(string \<Rightarrow> string) \<Rightarrow> (string \<Rightarrow> string \<Rightarrow> string) \<Rightarrow> string \<Rightarrow> string \<Rightarrow> SigningKey \<Rightarrow> Version \<Rightarrow> string \<Rightarrow> string
     \<Rightarrow> string \<Rightarrow> string \<Rightarrow> json \<Rightarrow> int \<Rightarrow> int \<Rightarrow> string list \<Rightarrow> string list \<Rightarrow> genesis_error + Event" where
  "buildAndSign sha256 ed_sign suffix serverName key version eventType stateKey sender roomID content ts depth prev auth =
     (case Get version of
        None \<Rightarrow> Inl (UnsupportedRoomVersion version)
      | Some rules \<Rightarrow>
          (case BuildForVersion sha256 ed_sign suffix
                  (genesis_builder rules eventType stateKey sender roomID content ts depth prev auth)
                  serverName key version of
             Inl e \<Rightarrow> Inl (BuildFailed e)
           | Inr ev \<Rightarrow> Inr ev))"

definition BuildV12RoomID :: "(string \<Rightarrow> string) \<Rightarrow> string \<Rightarrow> Version \<Rightarrow> Event \<Rightarrow> string \<Rightarrow> string" where
  "BuildV12RoomID sha256 localpart version createEvent serverName =
     (case Get version of
        None \<Rightarrow> stringField createEvent ''room_id''
      | Some rules \<Rightarrow>
          if \<not> RoomIDIsCreateHash rules then stringField createEvent ''room_id''
          else (case ReferenceHashBase64URL sha256 (ev_raw createEvent) rules of
                  Inl _ \<Rightarrow> CHR ''!'' # localpart @ CHR '':'' # serverName
                | Inr h \<Rightarrow> CHR ''!'' # h))"

record InitialEventsResult =
  ir_room_id :: string
  ir_events :: "Event list"
  ir_version :: Version
  ir_create :: Event

definition join_content :: "Profile option \<Rightarrow> json" where
  "join_content profile =
     (let m = gm_put ''membership'' (JStr MembershipJoin) [];
          m1 = (case profile of
                  None \<Rightarrow> m
                | Some p \<Rightarrow>
                    put_when (prof_avatar_url p \<noteq> []) ''avatar_url'' (JStr (prof_avatar_url p))
                      (put_when (prof_displayname p \<noteq> []) ''displayname'' (JStr (prof_displayname p)) m))
      in JObj m1)"

definition override_or :: "json gomap \<Rightarrow> string \<Rightarrow> json \<Rightarrow> json" where
  "override_or overrides k content = (case gm_get overrides k of Some j \<Rightarrow> j | None \<Rightarrow> content)"

definition BuildInitialEvents ::
  "(string \<Rightarrow> string) \<Rightarrow> (string \<Rightarrow> string \<Rightarrow> string) \<Rightarrow> (nat \<Rightarrow> string) \<Rightarrow> string \<Rightarrow> (string \<Rightarrow> json)
     \<Rightarrow> string \<Rightarrow> Version \<Rightarrow> string \<Rightarrow> string \<Rightarrow> raw \<Rightarrow> raw \<Rightarrow> bool \<Rightarrow> string list \<Rightarrow> string \<Rightarrow> SigningKey
     \<Rightarrow> int \<Rightarrow> json gomap \<Rightarrow> Profile option \<Rightarrow> genesis_error + InitialEventsResult" where
  "BuildInitialEvents sha256 ed_sign suffix localpart any_number
     roomID version creator preset powerOverride creationContent isDirect invitees serverName key now
     stateOverrides creatorProfile =
     (case Get version of
        None \<Rightarrow> Inl (UnsupportedRoomVersion version)
      | Some rules \<Rightarrow>
          let hash = RoomIDIsCreateHash rules;
              build = (\<lambda>n room eventType stateKey content depth prev auth.
                         buildAndSign sha256 ed_sign (suffix n) serverName key version eventType stateKey creator
                           room content now depth prev auth)
          in bind_result (create_content any_number rules version creator preset creationContent isDirect invitees)
               (\<lambda>createContent.
             bind_result (build 0 (if hash then [] else roomID) ''m.room.create'' [] (JObj createContent) 0 [] [])
               (\<lambda>createEv.
             let v12RoomID = (if hash then BuildV12RoomID sha256 localpart version createEv serverName else roomID);
                 room = v12RoomID; createID = EventID sha256 createEv
             in bind_result (InitialPowerLevels creator preset powerOverride (CreatorPrivileged rules)) (\<lambda>plRaw.
             bind_result (build 1 room ''m.room.member'' creator (join_content creatorProfile) 1 [createID]
                            (if hash then [] else [createID])) (\<lambda>creatorJoin.
             let joinID = EventID sha256 creatorJoin;
                 plAuth = (if hash then [joinID] else [createID, joinID])
             in bind_result (build 2 room ''m.room.power_levels'' []
                               (override_or stateOverrides ''m.room.power_levels'' plRaw) 2 [joinID] plAuth) (\<lambda>plEv.
             let plID = EventID sha256 plEv
             in bind_result (build 3 room ''m.room.join_rules'' []
                               (override_or stateOverrides ''m.room.join_rules'' (InitialJoinRules preset)) 3
                               [plID] (plAuth @ [plID])) (\<lambda>jrEv.
             bind_result (build 4 room ''m.room.history_visibility'' []
                            (override_or stateOverrides ''m.room.history_visibility'' (InitialHistoryVisibility preset)) 4
                            [EventID sha256 jrEv] (plAuth @ [plID])) (\<lambda>hvEv.
             Inr \<lparr>ir_room_id = v12RoomID, ir_events = [createEv, creatorJoin, plEv, jrEv, hvEv],
                  ir_version = version, ir_create = createEv\<rparr>))))))))"

end
