(* ===== verification/Canonical_Laws.thy ===== *)
theory Canonical_Laws
  imports Events_Laws
begin

section \<open>When encoding, hashing and signing succeed\<close>

text \<open>
  Canonical encoding fails only on a number it cannot write. So an event whose numbers are integers in
  the canonical range can be redacted, hashed and signed.
\<close>

fun numbers_ok :: "json \<Rightarrow> bool" where
  "numbers_ok (JNum n) = (\<not> isl (encodeNumber n))"
| "numbers_ok (JArr xs) = (\<forall>x \<in> set xs. numbers_ok x)"
| "numbers_ok (JObj m) = (\<forall>e \<in> set m. numbers_ok (snd e))"
| "numbers_ok _ = True"

lemma collect_Inr_iff: "(\<exists>bs. collect rs = Inr bs) \<longleftrightarrow> (\<forall>r \<in> set rs. \<exists>b. r = Inr b)"
  by (induction rs rule: collect.induct) (auto split: sum.splits)

lemma member_bytes_Inr_iff: "(\<exists>b. member_bytes k r = Inr b) \<longleftrightarrow> (\<exists>b. r = Inr b)"
  by (cases r) (simp_all add: member_bytes_def)

lemma encode_succeeds_iff: "(\<exists>b. encode j = Inr b) \<longleftrightarrow> numbers_ok j"
proof (induction j rule: numbers_ok.induct)
  case (2 xs)
  have "(\<exists>b. encode (JArr xs) = Inr b) \<longleftrightarrow> (\<exists>bs. collect (map encode xs) = Inr bs)" by (auto split: sum.splits)
  also have "\<dots> \<longleftrightarrow> (\<forall>x \<in> set xs. \<exists>b. encode x = Inr b)" by (simp add: collect_Inr_iff)
  finally show ?case using 2 by simp
next
  case (3 m)
  let ?rs = "map (\<lambda>(k, r). member_bytes k r) (sort_key fst (map (\<lambda>(k, v). (k, encode v)) m))"
  have "(\<exists>b. encode (JObj m) = Inr b) \<longleftrightarrow> (\<exists>bs. collect ?rs = Inr bs)" by (auto split: sum.splits)
  also have "\<dots> \<longleftrightarrow> (\<forall>e \<in> set m. \<exists>b. encode (snd e) = Inr b)"
    by (simp add: collect_Inr_iff case_prod_beta member_bytes_Inr_iff)
  finally show ?case using 3 by simp
next
  case (1 n)
  show ?case by (cases "encodeNumber n") simp_all
qed simp_all

lemma gm_of_values: "snd ` set (gm_of kvs) \<subseteq> snd ` set kvs"
proof
  fix v assume "v \<in> snd ` set (gm_of kvs)"
  then obtain k where "(k, v) \<in> set (gm_of kvs)" by auto
  then have "gm_get (gm_of kvs) k = Some v" by (intro map_of_is_SomeI gm_ok_distinct gm_ok_gm_of)
  then have "(k, v) \<in> set (rev kvs)" unfolding gm_get_gm_of by (rule map_of_SomeD)
  then show "v \<in> snd ` set kvs" by force
qed

lemma numbers_ok_obj: "numbers_ok (JObj m) \<longleftrightarrow> (\<forall>v \<in> snd ` set m. numbers_ok v)"
  by simp

lemma numbers_ok_gm_of: "\<forall>v \<in> snd ` set kvs. numbers_ok v \<Longrightarrow> numbers_ok (JObj (gm_of kvs))"
  unfolding numbers_ok_obj using gm_of_values [of kvs] by blast

lemma numbers_ok_go_any: "numbers_ok j \<Longrightarrow> numbers_ok (go_any j)"
proof (induction j rule: numbers_ok.induct)
  case (3 m)
  then have "\<forall>v \<in> snd ` set (map (\<lambda>(k, v). (k, go_any v)) m). numbers_ok v" by auto
  then show ?case unfolding go_any.simps by (rule numbers_ok_gm_of)
qed simp_all

lemma Canonical_succeeds: "numbers_ok j \<Longrightarrow> \<exists>b. Canonical j = Inr b"
  unfolding Canonical_def by (simp add: encode_succeeds_iff numbers_ok_go_any)

lemma encodeNumber_int: "\<bar>i\<bar> \<le> max_canonical_int \<Longrightarrow> encodeNumber (format_int i) = Inr (format_int i)"
proof -
  assume i: "\<bar>i\<bar> \<le> max_canonical_int"
  then have "parse_int64 (format_int i) = Some i"
    by (intro parse_int64_format_int) (auto simp: max_canonical_int_def int64_min_def int64_max_def)
  then show ?thesis using i by (auto simp: encodeNumber_def)
qed

lemma numbers_ok_json_int: "\<bar>i\<bar> \<le> max_canonical_int \<Longrightarrow> numbers_ok (json_int i)"
  by (simp add: json_int_def encodeNumber_int)

lemma numbers_ok_get: "numbers_ok (JObj m) \<Longrightarrow> gm_get m k = Some v \<Longrightarrow> numbers_ok v"
  by (force dest: map_of_SomeD)

lemma numbers_ok_put: "numbers_ok (JObj m) \<Longrightarrow> numbers_ok v \<Longrightarrow> numbers_ok (JObj (gm_put k v m))"
  by (auto dest!: gm_put_set simp del: gm_put.simps)

lemma numbers_ok_filter: "numbers_ok (JObj m) \<Longrightarrow> numbers_ok (JObj (filter p m))"
  by simp

lemma unmarshal_obj_numbers: "numbers_ok j \<Longrightarrow> unmarshal_obj j = Some m \<Longrightarrow> numbers_ok (JObj m)"
  by (cases j) (simp_all, use numbers_ok_gm_of in force)

lemma keep_part_numbers:
  assumes "numbers_ok (JObj content)" and "numbers_ok (JObj pruned)"
    and "\<And>j j'. numbers_ok j \<Longrightarrow> f j = Some j' \<Longrightarrow> numbers_ok j'"
  shows "numbers_ok (JObj (keep_part on k f content pruned))"
proof (cases "on \<and> Option.bind (gm_get content k) f \<noteq> None")
  case True
  then obtain j j' where j: "gm_get content k = Some j" "f j = Some j'" by (cases "gm_get content k") auto
  have "numbers_ok j'" using assms(3) [OF numbers_ok_get [OF assms(1) j(1)] j(2)] .
  from numbers_ok_put [OF assms(2) this] show ?thesis using True j by (simp only: keep_part_def option.case if_True)
next
  case False
  then have "keep_part on k f content pruned = pruned"
    by (cases "gm_get content k") (auto simp: keep_part_def)
  then show ?thesis using assms(2) by simp
qed

lemma extractSigned_numbers: "numbers_ok j \<Longrightarrow> extractSigned j = Some j' \<Longrightarrow> numbers_ok j'"
proof -
  assume j: "numbers_ok j" and "extractSigned j = Some j'"
  then obtain obj signed where "unmarshal_obj j = Some obj" "gm_get obj ''signed'' = Some signed" "j' = JObj [(''signed'', signed)]"
    by (auto simp: extractSigned_def split: option.splits)
  then show ?thesis using numbers_ok_get [OF unmarshal_obj_numbers [OF j]] by simp
qed

lemma redactRelation_numbers: "numbers_ok j \<Longrightarrow> redactRelation j = Some j' \<Longrightarrow> numbers_ok j'"
proof -
  assume j: "numbers_ok j" and "redactRelation j = Some j'"
  then obtain obj p where "unmarshal_obj j = Some obj" "j' = JObj (filter p obj)"
    by (auto simp: redactRelation_def Let_def split: option.splits if_splits)
  then show ?thesis using numbers_ok_filter [OF unmarshal_obj_numbers [OF j]] by simp
qed

lemma redact_content_numbers: "numbers_ok c \<Longrightarrow> numbers_ok (redact_content r ty c)"
proof (cases "unmarshal_obj c")
  case (Some m)
  assume c: "numbers_ok c"
  note m = unmarshal_obj_numbers [OF c Some]
  obtain ks all where k: "contentKeep r ty = (ks, all)" by (cases "contentKeep r ty")
  have "numbers_ok (JObj (keep_part b ''m.relates_to'' redactRelation m
      (keep_part b' ''third_party_invite'' extractSigned m (filter p m))))" for b b' p
    by (rule keep_part_numbers [OF m keep_part_numbers [OF m numbers_ok_filter [OF m] extractSigned_numbers]
        redactRelation_numbers])
  then show ?thesis using c by (simp only: redact_content_def k Some Let_def option.case prod.case split: if_split) simp
qed (simp add: redact_content_def case_prod_beta)

lemma Redact_numbers: "numbers_ok j \<Longrightarrow> Redact j r = Some m \<Longrightarrow> numbers_ok (JObj m)"
proof -
  assume j: "numbers_ok j" and m: "Redact j r = Some m"
  then obtain full where full: "unmarshal_obj j = Some full" by (auto simp: Redact_def split: option.splits)
  note n = unmarshal_obj_numbers [OF j full]
  let ?c = "case gm_get full ''content'' of None \<Rightarrow> JObj [] | Some c \<Rightarrow> redact_content r (string_in full ''type'') c"
  have "numbers_ok ?c" using redact_content_numbers [OF numbers_ok_get [OF n]] by (simp split: option.split)
  then have "numbers_ok (JObj (gm_put ''content'' ?c (filter (\<lambda>e. fst e \<in> set (topLevelKeep r)) full)))"
    by (intro numbers_ok_put numbers_ok_filter n)
  moreover have "m = gm_put ''content'' ?c (filter (\<lambda>e. fst e \<in> set (topLevelKeep r)) full)"
    using m full by (simp add: Redact_def Let_def del: gm_put.simps)
  ultimately show ?thesis by (simp only:)
qed

lemma hash_and_sign_succeeds:
  assumes "gm_ok obj" and "numbers_ok (JObj obj)" and "gm_get obj ''signatures'' = None"
  shows "\<exists>signed. hash_and_sign sha ed_sign srv key rules obj = Inr signed"
proof -
  have "\<exists>c. Canonical (JObj (gm_del ''hashes'' (gm_del ''signatures'' (gm_del ''unsigned'' obj)))) = Inr c"
    using assms(2) by (intro Canonical_succeeds) (simp add: gm_del_def)
  then obtain ch where ch: "ContentHash sha (JObj obj) = Inr ch"
    by (auto simp: ContentHash_def unmarshal_obj_JObj [OF assms(1)] simp del: unmarshal_obj.simps)
  let ?obj = "gm_put ''hashes'' (JObj [(''sha256'', JStr ch)]) obj"
  have ok: "gm_ok ?obj" using assms(1) by (rule gm_ok_put)
  have n: "numbers_ok (JObj ?obj)" using assms(2) by (rule numbers_ok_put) simp
  obtain m where m: "Redact (JObj ?obj) rules = Some m" using Redact_total [OF unmarshal_obj_JObj [OF ok]] by blast
  have "numbers_ok (JObj (gm_del ''unsigned'' (gm_del ''signatures'' m)))"
    using Redact_numbers [OF n m] by (simp add: gm_del_def)
  from Canonical_succeeds [OF this] obtain bytes where "signable (JObj m) m = Inr bytes"
    unfolding signable_JObj by blast
  moreover have "gm_get ?obj ''signatures'' = None" using assms(1,3) by (simp add: gm_get_put)
  ultimately show ?thesis
    using unmarshal_obj_JObj [OF ok] unmarshal_obj_JObj [OF Redact_ok [OF m]]
    by (simp add: hash_and_sign_def ch SignRedacted_def m SignedBytes_def del: unmarshal_obj.simps gm_put.simps)
qed

end
