(* ===== verification/Genesis_Laws.thy ===== *)
theory Genesis_Laws
  imports Genesis Auth_Laws Canonical_Laws
begin

section \<open>What room creation guarantees\<close>

subsection \<open>Power levels written and read back\<close>

definition int64_range :: "int \<Rightarrow> bool" where
  "int64_range i \<longleftrightarrow> int64_min \<le> i \<and> i \<le> int64_max"

definition pl_storable :: "PowerLevels \<Rightarrow> bool" where
  "pl_storable pl \<longleftrightarrow>
     (\<forall>m \<in> {pl_users pl, pl_events pl, pl_notifications pl}. gm_ok m \<and> (\<forall>v \<in> snd ` set m. int64_range v))
     \<and> (\<forall>i \<in> {pl_users_default pl, pl_events_default pl, pl_state_default pl, pl_ban pl, pl_kick pl,
               pl_redact pl, pl_invite pl}. int64_range i)"

lemma dec_int64_json_int [simp]: "int64_range i \<Longrightarrow> dec_int64 (json_int i) old = (True, i)"
  by (simp add: json_int_def int64_range_def parse_int64_format_int)

lemma dec_ptr_json_int [simp]: "int64_range i \<Longrightarrow> dec_ptr 0 dec_int64 (json_int i) old = (True, Some i)"
  using dec_int64_json_int [of i] by (simp add: json_int_def split: option.split)

lemma dec_levels:
  "\<forall>v \<in> snd ` set m. int64_range v \<Longrightarrow>
     dec_members 0 dec_int64 (map (\<lambda>(k, v). (k, json_int v)) m) acc = (True, fold (\<lambda>e. gm_put (fst e) (snd e)) m acc)"
  by (induction m arbitrary: acc) auto

lemma dec_levels_json [simp]:
  "gm_ok m \<Longrightarrow> \<forall>v \<in> snd ` set m. int64_range v \<Longrightarrow> dec_map 0 dec_int64 (levels_json m) [] = (True, m)"
  by (simp add: levels_json_def dec_levels gm_of_idem flip: gm_of_def)

lemma folded_level_names:
  "go_fold ''users'' = ''USERS''"
  "go_fold ''users_default'' = ''USERS_DEFAULT''"
  "go_fold ''events'' = ''EVENTS''"
  "go_fold ''events_default'' = ''EVENTS_DEFAULT''"
  "go_fold ''state_default'' = ''STATE_DEFAULT''"
  "go_fold ''ban'' = ''BAN''"
  "go_fold ''kick'' = ''KICK''"
  "go_fold ''redact'' = ''REDACT''"
  "go_fold ''invite'' = ''INVITE''"
  "go_fold ''notifications'' = ''NOTIFICATIONS''"
  by code_simp+

lemma pl_field_names:
  "find_field pl_fields ''users'' = Some (fld (dec_map 0 dec_int64) pl_users pl_users_update)"
  "find_field pl_fields ''users_default'' = Some (fld dec_int64 pl_users_default pl_users_default_update)"
  "find_field pl_fields ''events'' = Some (fld (dec_map 0 dec_int64) pl_events pl_events_update)"
  "find_field pl_fields ''events_default'' = Some (fld dec_int64 pl_events_default pl_events_default_update)"
  "find_field pl_fields ''state_default'' = Some (fld dec_int64 pl_state_default pl_state_default_update)"
  "find_field pl_fields ''ban'' = Some (fld dec_int64 pl_ban pl_ban_update)"
  "find_field pl_fields ''kick'' = Some (fld dec_int64 pl_kick pl_kick_update)"
  "find_field pl_fields ''redact'' = Some (fld dec_int64 pl_redact pl_redact_update)"
  "find_field pl_fields ''invite'' = Some (fld dec_int64 pl_invite pl_invite_update)"
  "find_field pl_fields ''notifications'' = Some (fld (dec_map 0 dec_int64) pl_notifications pl_notifications_update)"
  by (simp_all add: pl_fields_def folded_level_names del: go_fold.simps)

lemma proposal_field_names:
  "find_field proposal_fields ''users'' = Some (fld (dec_map 0 dec_int64) pp_users pp_users_update)"
  "find_field proposal_fields ''users_default'' = Some (fld (dec_ptr 0 dec_int64) pp_users_default pp_users_default_update)"
  "find_field proposal_fields ''events'' = Some (fld (dec_map 0 dec_int64) pp_events pp_events_update)"
  "find_field proposal_fields ''events_default'' = Some (fld (dec_ptr 0 dec_int64) pp_events_default pp_events_default_update)"
  "find_field proposal_fields ''state_default'' = Some (fld (dec_ptr 0 dec_int64) pp_state_default pp_state_default_update)"
  "find_field proposal_fields ''ban'' = Some (fld (dec_ptr 0 dec_int64) pp_ban pp_ban_update)"
  "find_field proposal_fields ''kick'' = Some (fld (dec_ptr 0 dec_int64) pp_kick pp_kick_update)"
  "find_field proposal_fields ''redact'' = Some (fld (dec_ptr 0 dec_int64) pp_redact pp_redact_update)"
  "find_field proposal_fields ''invite'' = Some (fld (dec_ptr 0 dec_int64) pp_invite pp_invite_update)"
  "find_field proposal_fields ''notifications'' = Some (fld (dec_map 0 dec_int64) pp_notifications pp_notifications_update)"
  by (simp_all add: proposal_fields_def folded_level_names del: go_fold.simps)

lemma dec_fields_Cons:
  "dec_fields fs ((k, j) # kvs) r =
     (case find_field fs k of
        None \<Rightarrow> dec_fields fs kvs r
      | Some d \<Rightarrow> (fst (d j r) \<and> fst (dec_fields fs kvs (snd (d j r))), snd (dec_fields fs kvs (snd (d j r)))))"
  by (simp add: case_prod_unfold Let_def split: option.split)

lemma parse_power_levels_json:
  assumes "pl_storable pl"
  shows "ParsePowerLevels (Some (power_levels_json pl)) = Inr pl"
proof -
  have "dec_struct pl_fields (power_levels_json pl) default_pl = (True, pl)"
    using assms by (simp add: power_levels_json_def pl_storable_def dec_fields_Cons pl_field_names fld_def
        default_pl_def zero_pl_def del: dec_fields.simps(2) dec_map.simps dec_int64.simps dec_ptr.simps)
  then show ?thesis by (simp add: ParsePowerLevels_def)
qed

lemma proposal_of_levels:
  assumes "pl_storable pl"
  shows "dec_struct proposal_fields (power_levels_json pl) zero_proposal = (True,
     \<lparr>pp_users = pl_users pl, pp_users_default = Some (pl_users_default pl), pp_events = pl_events pl,
      pp_events_default = Some (pl_events_default pl), pp_state_default = Some (pl_state_default pl),
      pp_ban = Some (pl_ban pl), pp_kick = Some (pl_kick pl), pp_redact = Some (pl_redact pl),
      pp_invite = Some (pl_invite pl), pp_notifications = pl_notifications pl\<rparr>)"
  using assms by (simp add: power_levels_json_def pl_storable_def dec_fields_Cons proposal_field_names fld_def
      zero_proposal_def del: dec_fields.simps(2) dec_map.simps dec_int64.simps dec_ptr.simps)

subsection \<open>What a built genesis event says\<close>

lemma legacy_object_get:
  "gm_get (legacy_object b i) ''type'' = Some (JStr (b_type b))"
  "gm_get (legacy_object b i) ''sender'' = Some (JStr (b_sender b))"
  "gm_get (legacy_object b i) ''room_id'' = Some (JStr (b_room_id b))"
  "gm_get (legacy_object b i) ''content'' = Some (nonNil (b_content b))"
  "gm_get (legacy_object b i) ''depth'' = Some (json_int (b_depth b))"
  "gm_get (legacy_object b i) ''prev_events'' = Some (legacyRefs (b_prev_events b))"
  "gm_get (legacy_object b i) ''auth_events'' = Some (legacyRefs (b_auth_events b))"
  "gm_get (legacy_object b i) ''state_key'' = map_option JStr (b_state_key b)"
  by (simp_all add: legacy_object_def setString_def gm_get_put put_when_get del: gm_put.simps split: option.split)

lemma build_object_room:
  "gm_get (build_object b r) ''room_id'' =
     (if b_room_id b \<noteq> [] \<or> \<not> RoomIDIsCreateHash r \<or> b_type b \<noteq> ''m.room.create''
      then Some (JStr (b_room_id b)) else None)"
  by (simp add: build_object_def setString_def gm_get_put put_when_get del: gm_put.simps split: option.split)

definition built_object :: "Builder \<Rightarrow> Rules \<Rightarrow> string \<Rightarrow> json gomap" where
  "built_object b rules i = (if EventFormatV1 rules then legacy_object b i else build_object b rules)"

lemma BuildForVersion_fields:
  assumes "BuildForVersion sha ed_sign suffix b srv key version = Inr ev" and "Get version = Some rules"
  obtains i where "ev_rules ev = rules" and "ev_raw ev = JObj (ev_fields ev)" and "gm_ok (ev_fields ev)"
    and "ev_event_id ev = (if EventFormatV1 rules then i else [])"
    and "\<And>k. k \<noteq> ''hashes'' \<Longrightarrow> k \<noteq> ''signatures'' \<Longrightarrow>
           gm_get (ev_fields ev) k = gm_get (built_object b rules i) k"
proof -
  obtain i signed where signed: "hash_and_sign sha ed_sign srv key rules (built_object b rules i) = Inr signed"
    and ev: "ev_rules ev = rules" "ev_raw ev = signed" "unmarshal_obj signed = Some (ev_fields ev)"
      "ev_event_id ev = (if EventFormatV1 rules then i else [])"
  proof (cases "EventFormatV1 rules")
    case True
    with assms that show thesis
      by (auto simp: BuildForVersion_def BuildLegacy_def New_def built_object_def Let_def split: sum.splits option.splits)
  next
    case False
    with assms have "Build sha ed_sign b srv key version = Inr ev" by (simp add: BuildForVersion_def)
    then show thesis by (rule Build_cases) (use assms(2) False in \<open>auto simp: built_object_def intro: that\<close>)
  qed
  have "gm_ok (built_object b rules i)" by (simp add: built_object_def)
  from hash_and_sign_hash [OF signed this] obtain m where m: "signed = JObj m" "gm_ok m"
    "\<And>k. k \<noteq> ''hashes'' \<Longrightarrow> k \<noteq> ''signatures'' \<Longrightarrow> gm_get m k = gm_get (built_object b rules i) k"
    by auto
  have "ev_fields ev = m" using ev(3) m(1) unmarshal_obj_JObj [OF m(2)] by simp
  then show thesis using ev m by (intro that [of i]) simp_all
qed

text \<open>What a genesis event reads as.\<close>

definition reads_as :: "Event \<Rightarrow> Rules \<Rightarrow> string \<Rightarrow> string \<Rightarrow> string \<Rightarrow> json \<Rightarrow> bool" where
  "reads_as ev rules ty sk sender content \<longleftrightarrow> ev_rules ev = rules \<and> stringField ev ''type'' = ty
     \<and> StateKey ev = Some sk \<and> stringField ev ''sender'' = sender \<and> Content ev = content"

lemma buildAndSign_rules:
  assumes "buildAndSign sha ed_sign suffix srv key version ty sk sender room content ts depth prev auth = Inr ev"
    and "Get version = Some rules"
  shows "BuildForVersion sha ed_sign suffix (genesis_builder rules ty sk sender room content ts depth prev auth)
           srv key version = Inr ev"
  using assms by (auto simp: buildAndSign_def split: sum.splits)

lemma buildAndSign_reads:
  assumes "buildAndSign sha ed_sign suffix srv key version ty sk sender room content ts depth prev auth = Inr ev"
    and "Get version = Some rules"
  shows "reads_as ev rules ty sk sender content"
proof -
  let ?b = "genesis_builder rules ty sk sender room content ts depth prev auth"
  obtain i where ev: "ev_rules ev = rules"
    "\<And>k. k \<noteq> ''hashes'' \<Longrightarrow> k \<noteq> ''signatures'' \<Longrightarrow> gm_get (ev_fields ev) k = gm_get (built_object ?b rules i) k"
    using BuildForVersion_fields [OF buildAndSign_rules [OF assms] assms(2)] by metis
  have "gm_get (ev_fields ev) ''type'' = Some (JStr ty)" "gm_get (ev_fields ev) ''sender'' = Some (JStr sender)"
    "gm_get (ev_fields ev) ''state_key'' = Some (JStr sk)" "gm_get (ev_fields ev) ''content'' = Some content"
    by (simp_all add: ev built_object_def build_object_get legacy_object_get genesis_builder_def nonNil_def)
  then show ?thesis by (simp add: reads_as_def ev stringField_def string_in_def StateKey_def Content_def)
qed

subsection \<open>The contents of the genesis events\<close>

lemma folded_create_names:
  "go_fold ''creator'' = ''CREATOR''" "go_fold ''room_version'' = ''ROOM_VERSION''"
  "go_fold ''predecessor'' = ''PREDECESSOR''" "go_fold ''type'' = ''TYPE''" "go_fold ''m.federate'' = ''M.FEDERATE''"
  "go_fold ''additional_creators'' = ''ADDITIONAL_CREATORS''"
  by code_simp+

lemma create_field_names:
  "find_field create_fields ''creator'' = Some (fld dec_string cc_creator cc_creator_update)"
  "find_field create_fields ''room_version'' = Some (fld dec_string cc_room_version cc_room_version_update)"
  "find_field create_fields ''m.federate'' = Some (fld (dec_ptr False dec_bool) cc_federate cc_federate_update)"
  "find_field create_fields ''additional_creators'' =
     Some (fld (dec_slice [] dec_string) cc_additional_creators cc_additional_creators_update)"
  by (simp_all add: create_fields_def folded_create_names del: go_fold.simps)

text \<open>Without creation content from the client the create event parses, with the creator implied or named.\<close>

lemma create_content_parses:
  assumes "create_content num rules version creator preset None isDirect invitees = Inr content" and "version \<noteq> []"
  shows "\<exists>c. ParseCreate (Some (JObj content)) = Inr c \<and> dec_struct create_fields (JObj content) zero_create = (True, c)
     \<and> cc_creator c = (if CreateOmitsCreator rules then [] else creator) \<and> cc_federate c = Some True"
proof -
  let ?base = "gm_put ''m.federate'' (JBool True) (gm_put ''room_version'' (JStr version) [])"
  let ?base1 = "if CreateOmitsCreator rules then ?base else gm_put ''creator'' (JStr creator) ?base"
  have base: "?base = [(''m.federate'', JBool True), (''room_version'', JStr version)]"
    "gm_put ''creator'' (JStr creator) ?base =
       [(''creator'', JStr creator), (''m.federate'', JBool True), (''room_version'', JStr version)]"
    by code_simp+
  have put: "gm_put ''additional_creators'' j ?base1 = (''additional_creators'', j) # ?base1" for j
  proof -
    have "gm_put ''additional_creators'' j ?base = (''additional_creators'', j) # ?base"
      "gm_put ''additional_creators'' j (gm_put ''creator'' (JStr creator) ?base)
         = (''additional_creators'', j) # gm_put ''creator'' (JStr creator) ?base" by code_simp+
    then show ?thesis by (cases "CreateOmitsCreator rules") (simp_all only: if_True if_False)
  qed
  have del: "gm_del ''additional_creators'' ?base1 = ?base1"
    by (simp add: base gm_del_def)
  have "content = ?base1 \<or> (\<exists>as. content = gm_put ''additional_creators'' (json_strings as) ?base1)"
    using assms(1) del
    by (auto simp: create_content_def Let_def merge_creation_def bind_result_Inr_iff simp del: gm_put.simps split: if_splits)
  then show ?thesis
    unfolding put base
    by (elim disjE exE) (simp_all add: ParseCreate_def dec_fields_Cons create_field_names fld_def zero_create_def assms(2)
        json_strings_def dec_elems_strings del: dec_fields.simps(2) go_fold.simps)
qed

lemma folded_member_names:
  "go_fold ''membership'' = ''MEMBERSHIP''" "go_fold ''avatar_url'' = ''AVATAR_URL''"
  "go_fold ''displayname'' = ''DISPLAYNAME''"
  by code_simp+

lemma member_field_names:
  "find_field member_fields ''membership'' = Some (fld dec_string mc_membership mc_membership_update)"
  "find_field member_fields ''avatar_url'' = Some (fld dec_string mc_avatar_url mc_avatar_url_update)"
  "find_field member_fields ''displayname'' = Some (fld dec_string mc_displayname mc_displayname_update)"
  by (simp_all add: member_fields_def folded_member_names del: go_fold.simps)

lemma join_content_parses:
  "\<exists>mc. ParseMember (Some (join_content profile)) = Inr mc \<and> mc_membership mc = MembershipJoin"
proof -
  have puts: "gm_put ''membership'' j [] = [(''membership'', j)]"
    "gm_put ''displayname'' d [(''membership'', j)] = [(''displayname'', d), (''membership'', j)]"
    "gm_put ''avatar_url'' a [(''membership'', j)] = [(''avatar_url'', a), (''membership'', j)]"
    "gm_put ''avatar_url'' a [(''displayname'', d), (''membership'', j)] =
       [(''avatar_url'', a), (''displayname'', d), (''membership'', j)]" for a d j :: json
    by code_simp+
  show ?thesis
    by (cases profile)
      (simp_all add: ParseMember_def join_content_def Let_def put_when_def puts dec_fields_Cons member_field_names fld_def
        del: gm_put.simps dec_fields.simps(2) go_fold.simps)
qed

lemma initial_pl_storable: "pl_storable (initial_pl creator preset privileged)"
proof -
  let ?ev = "gm_of [(''m.room.name'', 50), (''m.room.power_levels'', 100), (''m.room.history_visibility'', 100),
    (''m.room.canonical_alias'', 50), (''m.room.avatar'', 50), (''m.room.topic'', 50), (''m.room.encryption'', 100 :: int)]"
  have ev: "pl_events (initial_pl creator preset privileged) = gm_put ''m.room.tombstone'' (if privileged then 150 else 100) ?ev"
    by (simp add: initial_pl_def)
  have "\<forall>b. \<forall>v \<in> snd ` set (gm_put ''m.room.tombstone'' (if b then 150 else 100) ?ev). int64_range v" by code_simp
  moreover have "\<forall>b. \<forall>v \<in> snd ` set (if b then [] else [(creator, 100)]). int64_range v"
    by (simp add: int64_range_def int64_min_def int64_max_def)
  moreover have "gm_ok [(creator, 100 :: int)]" by (simp add: gm_ok_def)
  ultimately show ?thesis
    by (simp add: pl_storable_def ev) (simp add: initial_pl_def int64_range_def int64_min_def int64_max_def)
qed

subsection \<open>The genesis events pass the authorization rules\<close>

text \<open>The state the earlier events of a genesis leave, as the rules read it.\<close>

definition event_in :: "Event list \<Rightarrow> string \<Rightarrow> string \<Rightarrow> Event option" where
  "event_in seen ty sk = find (\<lambda>e. stringField e ''type'' = ty \<and> StateKey e = Some sk) seen"

definition state_after :: "Event list \<Rightarrow> string \<Rightarrow> StateSnapshot" where
  "state_after seen sender = zero_snapshot\<lparr>
     ss_create := map_option Content (event_in seen ''m.room.create'' []),
     ss_create_sender := (case event_in seen ''m.room.create'' [] of None \<Rightarrow> [] | Some e \<Rightarrow> stringField e ''sender''),
     ss_join_rules := map_option Content (event_in seen ''m.room.join_rules'' []),
     ss_power_level := map_option Content (event_in seen ''m.room.power_levels'' []),
     ss_sender_member := map_option Content (event_in seen ''m.room.member'' sender),
     ss_only_prev_is_create := (map (\<lambda>e. stringField e ''type'') seen = [''m.room.create''])\<rparr>"

fun accepted_in_order ::
  "(string \<Rightarrow> string \<Rightarrow> string \<Rightarrow> bool) \<Rightarrow> Rules \<Rightarrow> Event list \<Rightarrow> Event list \<Rightarrow> bool" where
  "accepted_in_order edv rules seen [] = True"
| "accepted_in_order edv rules seen (e # es) =
     (Authorize edv rules (stringField e ''type'') (case StateKey e of Some k \<Rightarrow> k | None \<Rightarrow> [])
        (stringField e ''sender'') (Some (Content e)) (state_after seen (stringField e ''sender'')) (IsState e) = Inr ()
      \<and> accepted_in_order edv rules (seen @ [e]) es)"

lemma Authorize_in_room:
  assumes "ParseCreate (ss_create st) = Inr c" and "sender \<noteq> []" and "effective_power_levels c st = Inr pl"
    and "ty \<noteq> ''m.room.create''"
  shows "Authorize edv rules ty sk sender (Some content) st isState =
     authorize_by_type edv rules ty sk sender (Some content) st isState c pl"
  using assms by (auto simp: Authorize_def ParseCreate_def split: option.splits)

lemma authorize_own_state:
  assumes "membership_in (ss_sender_member st) = Some MembershipJoin"
    and "ty \<in> {''m.room.join_rules'', ''m.room.history_visibility''}"
    and "EventLevel pl ty True \<le> user_level rules c st pl sender"
  shows "authorize_by_type edv rules ty [] sender content st isState c pl = Inr ()"
proof -
  have "ty \<noteq> ''m.room.member''" "ty \<noteq> ''m.room.power_levels''" "ty \<in> set generic_state_types"
    using assms(2) by (auto simp: generic_state_types_def)
  then show ?thesis
    using assms(1,3) by (simp add: authorize_by_type_def checkOwnedState_def del: split_paired_All)
qed

lemma creator_level:
  assumes "CreatorPrivileged rules \<or> gm_get (pl_users pl) creator = Some 100"
    and "CreatorOf c (ss_create_sender st) = creator" and "creator \<noteq> []"
  shows "user_level rules c st pl creator \<ge> 100"
    and "CreatorPrivileged rules \<Longrightarrow> user_level rules c st pl creator = 2 ^ 62"
  using assms by (auto simp: user_level_def IsPrivileged_iff UserLevel_def)

lemma checkMap_from_nothing:
  "\<forall>v \<in> snd ` set m. v \<le> level \<Longrightarrow> checkMap name level m [] = Inr ()"
proof -
  assume "\<forall>v \<in> snd ` set m. v \<le> level"
  then have "check_map_changes name level [] m = Inr ()" by (induction m) (auto simp: Let_def)
  then show ?thesis by (simp add: checkMap_def)
qed

lemma initial_events_level:
  "\<forall>v \<in> snd ` set (pl_events (initial_pl creator preset privileged)). 0 \<le> v \<and> v \<le> (if privileged then 150 else 100)"
proof -
  let ?ev = "\<lambda>b. gm_put ''m.room.tombstone'' (if b then 150 else 100)
    (gm_of [(''m.room.name'', 50), (''m.room.power_levels'', 100), (''m.room.history_visibility'', 100),
      (''m.room.canonical_alias'', 50), (''m.room.avatar'', 50), (''m.room.topic'', 50), (''m.room.encryption'', 100 :: int)])"
  have "\<forall>b. \<forall>v \<in> snd ` set (?ev b). 0 \<le> v \<and> v \<le> (if b then 150 else 100)" by code_simp
  then show ?thesis by (simp add: initial_pl_def del: gm_put.simps)
qed

lemma initial_event_levels:
  "EventLevel (initial_pl creator preset privileged) ''m.room.join_rules'' True = 50"
  "EventLevel (initial_pl creator preset privileged) ''m.room.history_visibility'' True = 100"
  by (simp_all add: EventLevel_def initial_pl_def gm_get_put gm_get_gm_of del: gm_put.simps)

lemma initial_levels_accepted:
  assumes "level \<ge> 100" and "privileged \<longrightarrow> level \<ge> 150"
  shows "checkPowerLevelsProposal rules creator (Some (power_levels_json (initial_pl creator preset privileged))) level
     (default_pl\<lparr>pl_users := [(creator, 100)]\<rparr>) = Inr ()"
proof -
  let ?pl = "initial_pl creator preset privileged" and ?cur = "default_pl\<lparr>pl_users := [(creator, 100)]\<rparr>"
  have events: "checkMap ''events'' level (pl_events ?pl) (pl_events default_pl) = Inr ()"
    using assms initial_events_level [of creator preset privileged]
    by (simp add: default_pl_def zero_pl_def, intro checkMap_from_nothing) (cases privileged, force+)
  have notifications: "checkMap ''notifications'' level (pl_notifications ?pl) (pl_notifications default_pl) = Inr ()"
    by (simp add: initial_pl_def default_pl_def zero_pl_def checkMap_def)
  have scalars: "pl_users_default ?pl = pl_users_default ?cur" "pl_events_default ?pl = pl_events_default ?cur"
    "pl_state_default ?pl = pl_state_default ?cur" "pl_ban ?pl = pl_ban ?cur" "pl_kick ?pl = pl_kick ?cur"
    "pl_redact ?pl = pl_redact ?cur" "pl_invite ?pl \<le> 50" "pl_invite ?cur = 0"
    by (simp_all add: initial_pl_def default_pl_def zero_pl_def)
  have users: "check_user_changes creator level u (pl_users ?pl) = Inr ()"
    "check_user_removals creator level u' (pl_users ?cur) = Inr ()" for u u'
    by (simp_all add: initial_pl_def)
  show ?thesis
    using assms(1) scalars
    by (simp add: checkPowerLevelsProposal_def unmarshal_def proposal_of_levels [OF initial_pl_storable] scalar_permissions_def
        events notifications users del: dec_struct.simps)
qed

text \<open>The five events of a successful creation, with what each was built from.\<close>

lemma BuildInitialEvents_cases:
  assumes "BuildInitialEvents sha ed_sign suffix localpart num roomID version creator preset override creation
      isDirect invitees srv key now overrides profile = Inr res" and "Get version = Some rules"
  obtains cc pl cr jn pw jr hv room where
    "create_content num rules version creator preset creation isDirect invitees = Inr cc"
    "InitialPowerLevels creator preset override (CreatorPrivileged rules) = Inr pl"
    "buildAndSign sha ed_sign (suffix 0) srv key version ''m.room.create'' [] creator
       (if RoomIDIsCreateHash rules then [] else roomID) (JObj cc) now 0 [] [] = Inr cr"
    "room = (if RoomIDIsCreateHash rules then BuildV12RoomID sha localpart version cr srv else roomID)"
    "buildAndSign sha ed_sign (suffix 1) srv key version ''m.room.member'' creator creator room
       (join_content profile) now 1 [EventID sha cr] (if RoomIDIsCreateHash rules then [] else [EventID sha cr]) = Inr jn"
    "buildAndSign sha ed_sign (suffix 2) srv key version ''m.room.power_levels'' [] creator room
       (override_or overrides ''m.room.power_levels'' pl) now 2 [EventID sha jn]
       (if RoomIDIsCreateHash rules then [EventID sha jn] else [EventID sha cr, EventID sha jn]) = Inr pw"
    "buildAndSign sha ed_sign (suffix 3) srv key version ''m.room.join_rules'' [] creator room
       (override_or overrides ''m.room.join_rules'' (InitialJoinRules preset)) now 3 [EventID sha pw]
       ((if RoomIDIsCreateHash rules then [EventID sha jn] else [EventID sha cr, EventID sha jn]) @ [EventID sha pw]) = Inr jr"
    "buildAndSign sha ed_sign (suffix 4) srv key version ''m.room.history_visibility'' [] creator room
       (override_or overrides ''m.room.history_visibility'' (InitialHistoryVisibility preset)) now 4 [EventID sha jr]
       ((if RoomIDIsCreateHash rules then [EventID sha jn] else [EventID sha cr, EventID sha jn]) @ [EventID sha pw]) = Inr hv"
    "ir_events res = [cr, jn, pw, jr, hv]" "ir_room_id res = room"
  using assms by (auto simp: BuildInitialEvents_def Let_def bind_result_Inr_iff)

lemma reads_as_simps:
  "reads_as e rules ty sk s c \<Longrightarrow> stringField e ''type'' = ty"
  "reads_as e rules ty sk s c \<Longrightarrow> StateKey e = Some sk"
  "reads_as e rules ty sk s c \<Longrightarrow> stringField e ''sender'' = s"
  "reads_as e rules ty sk s c \<Longrightarrow> Content e = c"
  by (simp_all add: reads_as_def)

lemma genesis_accepted:
  assumes "reads_as cr rules ''m.room.create'' [] creator (JObj cc)"
    and "reads_as jn rules ''m.room.member'' creator creator (join_content profile)"
    and "reads_as pw rules ''m.room.power_levels'' [] creator
           (power_levels_json (initial_pl creator preset (CreatorPrivileged rules)))"
    and "reads_as jr rules ''m.room.join_rules'' [] creator joinRules"
    and "reads_as hv rules ''m.room.history_visibility'' [] creator visibility"
    and "ParseCreate (Some (JObj cc)) = Inr c" and "dec_struct create_fields (JObj cc) zero_create = (True, c)"
    and "cc_creator c \<in> {[], creator}" and "cc_federate c = Some True" and "creator \<noteq> []"
  shows "accepted_in_order edv rules [] [cr, jn, pw, jr, hv]"
proof -
  let ?pl = "initial_pl creator preset (CreatorPrivileged rules)"
  let ?join = "join_content profile"
  note simps = assms(1-5) [THEN reads_as_simps(1)] assms(1-5) [THEN reads_as_simps(2)]
    assms(1-5) [THEN reads_as_simps(3)] assms(1-5) [THEN reads_as_simps(4)]
  obtain mc where mc: "ParseMember (Some ?join) = Inr mc" "mc_membership mc = MembershipJoin"
    using join_content_parses by blast
  then have joined: "membership_in (Some ?join) = Some MembershipJoin" by (simp add: membership_in_def)
  let ?s0 = "state_after [] creator" and ?s1 = "state_after [cr] creator" and ?s2 = "state_after [cr, jn] creator"
  let ?s3 = "state_after [cr, jn, pw] creator" and ?s4 = "state_after [cr, jn, pw, jr] creator"
  have st: "ss_create ?s0 = None" "ss_create ?s1 = Some (JObj cc)" "ss_create ?s2 = Some (JObj cc)"
    "ss_create ?s3 = Some (JObj cc)" "ss_create ?s4 = Some (JObj cc)"
    "ss_power_level ?s1 = None" "ss_power_level ?s2 = None"
    "ss_power_level ?s3 = Some (power_levels_json ?pl)" "ss_power_level ?s4 = Some (power_levels_json ?pl)"
    "ss_create_sender ?s1 = creator" "ss_create_sender ?s2 = creator" "ss_create_sender ?s3 = creator" "ss_create_sender ?s4 = creator"
    "ss_sender_member ?s2 = Some ?join" "ss_sender_member ?s3 = Some ?join" "ss_sender_member ?s4 = Some ?join"
    "ss_only_prev_is_create ?s1"
    by (simp_all add: state_after_def event_in_def zero_snapshot_def simps)
  have creator: "CreatorOf c creator = creator" using assms(8) by (auto simp: CreatorOf_def)
  let ?def = "default_pl\<lparr>pl_users := [(creator, 100)]\<rparr>"
  have pl: "effective_power_levels c ?s1 = Inr ?def" "effective_power_levels c ?s2 = Inr ?def"
    "effective_power_levels c ?s3 = Inr ?pl" "effective_power_levels c ?s4 = Inr ?pl"
    by (simp_all add: effective_power_levels_def st creator parse_power_levels_json [OF initial_pl_storable])
  have level: "gm_get (pl_users ?def) creator = Some 100"
    "CreatorPrivileged rules \<or> gm_get (pl_users ?pl) creator = Some 100"
    by (simp_all add: initial_pl_def)
  have create: "Authorize edv rules ''m.room.create'' [] creator (Some (JObj cc)) ?s0 True = Inr ()"
    using assms(7,8) by (auto simp: Authorize_def authorize_create_def st unmarshal_def simp del: dec_struct.simps)
  have "authorize_by_type edv rules ''m.room.member'' creator creator (Some ?join) ?s1 True c ?def = Inr ()"
    using assms(9,10) by (simp add: authorize_by_type_def authorizeMember_def authorize_join_def mc st creator)
  then have join: "Authorize edv rules ''m.room.member'' creator creator (Some ?join) ?s1 True = Inr ()"
    using Authorize_in_room [OF _ assms(10) pl(1)] assms(6) by (simp add: st)
  have l2: "user_level rules c ?s2 ?def creator \<ge> 100" "CreatorPrivileged rules \<longrightarrow> user_level rules c ?s2 ?def creator = 2 ^ 62"
    using creator_level [OF disjI2 [OF level(1)] _ assms(10), of c ?s2] by (auto simp: st creator)
  have "checkPowerLevelsProposal rules creator (Some (power_levels_json ?pl)) (user_level rules c ?s2 ?def creator) ?def = Inr ()"
    using l2 by (intro initial_levels_accepted) auto
  then have "authorize_by_type edv rules ''m.room.power_levels'' [] creator (Some (power_levels_json ?pl)) ?s2 True c ?def = Inr ()"
    using l2(1) by (simp add: authorize_by_type_def st joined EventLevel_def default_pl_def zero_pl_def)
  then have levels: "Authorize edv rules ''m.room.power_levels'' [] creator (Some (power_levels_json ?pl)) ?s2 True = Inr ()"
    using Authorize_in_room [OF _ assms(10) pl(2)] assms(6) by (simp add: st)
  have "user_level rules c ?s3 ?pl creator \<ge> 100" "user_level rules c ?s4 ?pl creator \<ge> 100"
    using creator_level(1) [OF level(2) _ assms(10), of c ?s3] creator_level(1) [OF level(2) _ assms(10), of c ?s4]
    by (simp_all add: st creator)
  then have "authorize_by_type edv rules ''m.room.join_rules'' [] creator (Some joinRules) ?s3 True c ?pl = Inr ()"
    "authorize_by_type edv rules ''m.room.history_visibility'' [] creator (Some visibility) ?s4 True c ?pl = Inr ()"
    by (auto intro!: authorize_own_state simp: st joined initial_event_levels)
  then have rest: "Authorize edv rules ''m.room.join_rules'' [] creator (Some joinRules) ?s3 True = Inr ()"
    "Authorize edv rules ''m.room.history_visibility'' [] creator (Some visibility) ?s4 True = Inr ()"
    using Authorize_in_room [OF _ assms(10) pl(3)] Authorize_in_room [OF _ assms(10) pl(4)] assms(6)
    by (simp_all add: st)
  have "IsState cr" "IsState jn" "IsState pw" "IsState jr" "IsState hv"
    using assms(1-5) by (auto simp: reads_as_def StateKey_def IsState_def split: option.splits)
  then show ?thesis using create join levels rest by (simp add: simps)
qed

subsection \<open>The genesis events form a chain in one room\<close>

lemma modern_rules:
  assumes "Get v = Some r"
  shows "StateDAGs r \<Longrightarrow> \<not> EventFormatV1 r" and "RoomIDIsCreateHash r \<Longrightarrow> \<not> EventFormatV1 r"
    and "RoomIDIsCreateHash r \<Longrightarrow> EventIDFormat r = EventIDSHA256URLSafe"
  using assms by (auto simp: Get_Some_iff registration_order_def rules_defs)

lemma signed_reference_hash:
  assumes "SignRedacted ed_sign srv key j r = Inr signed" and "unmarshal_obj j = Some full"
  shows "\<exists>h. referenceHash sha signed r = Inr h"
proof -
  from assms obtain redacted bytes sigs where red: "Redact j r = Some redacted"
    and b: "signable (JObj redacted) redacted = Inr bytes"
    and signed: "signed = JObj (gm_put ''signatures'' (signatures_json sigs) full)"
    by (rule SignRedacted_cases)
  have "unmarshal_obj signed = Some (gm_put ''signatures'' (signatures_json sigs) full)"
    unfolding signed by (intro unmarshal_obj_JObj gm_ok_put unmarshal_obj_ok [OF assms(2)])
  then obtain m where m: "Redact signed r = Some m" using Redact_total by blast
  have "signable (JObj m) m = Inr bytes"
    using b put_signatures_redacted(2) [OF assms(2) red m [unfolded signed]] unfolding signable_JObj by simp
  then show ?thesis by (simp add: referenceHash_def m signable_JObj)
qed

lemma eventRefs_legacy:
  "EventFormatV1 (ev_rules e) \<Longrightarrow> gm_get (ev_fields e) f = Some (legacyRefs xs) \<Longrightarrow> eventRefs e f = xs"
proof -
  have "dec_elems [] (dec_slice None dec_raw) (map (\<lambda>i. JArr [JStr i, JObj []]) xs) [] =
      (True, map (\<lambda>i. [Some (JStr i), Some (JObj [])]) xs)" by (induction xs) auto
  moreover have "concat (map (\<lambda>p. case p of [] \<Rightarrow> [] | x # _ \<Rightarrow>
        (let (ok1, i) = unmarshal dec_string [] x in if ok1 then [i] else []))
        (map (\<lambda>i. [Some (JStr i), Some (JObj [])]) xs)) = xs"
    by (induction xs) (auto simp: unmarshal_def)
  moreover assume "EventFormatV1 (ev_rules e)" "gm_get (ev_fields e) f = Some (legacyRefs xs)"
  ultimately show ?thesis by (simp add: eventRefs_def legacyRefs_def comp_def)
qed

text \<open>Where an event stands in its room.\<close>

lemma buildAndSign_place:
  assumes "buildAndSign sha ed_sign suffix srv key version ty sk sender room content ts depth prev auth = Inr ev"
    and "Get version = Some rules" and "int64_range depth"
  shows "PrevEvents ev = prev" and "Depth ev = depth"
    and "if StateDAGs rules then PrevStateEvents ev = prev else AuthEvents ev = auth"
    and "room \<noteq> [] \<or> \<not> RoomIDIsCreateHash rules \<or> ty \<noteq> ''m.room.create'' \<Longrightarrow> stringField ev ''room_id'' = room"
    and "room = [] \<Longrightarrow> RoomIDIsCreateHash rules \<Longrightarrow> ty = ''m.room.create'' \<Longrightarrow> gm_get (ev_fields ev) ''room_id'' = None"
proof -
  let ?b = "genesis_builder rules ty sk sender room content ts depth prev auth"
  obtain i where ev: "ev_rules ev = rules"
    "\<And>k. k \<noteq> ''hashes'' \<Longrightarrow> k \<noteq> ''signatures'' \<Longrightarrow> gm_get (ev_fields ev) k = gm_get (built_object ?b rules i) k"
    using BuildForVersion_fields [OF buildAndSign_rules [OF assms(1,2)] assms(2)] by metis
  note get = ev(2) built_object_def build_object_get legacy_object_get build_object_room
  have refs: "gm_get (ev_fields ev) f = Some (if EventFormatV1 rules then legacyRefs xs else json_strings xs)
      \<Longrightarrow> eventRefs ev f = xs" for f xs
    by (cases "EventFormatV1 rules") (simp_all add: ev(1) eventRefs_legacy eventRefs_strings)
  show "PrevEvents ev = prev"
    unfolding PrevEvents_def by (rule refs) (simp add: get genesis_builder_def)
  show "Depth ev = depth"
    using assms(3) by (simp add: Depth_def int_field_def get genesis_builder_def del: dec_int64.simps)
  show "if StateDAGs rules then PrevStateEvents ev = prev else AuthEvents ev = auth"
    using modern_rules(1) [OF assms(2)]
    by (auto simp: PrevStateEvents_def AuthEvents_def get genesis_builder_def intro!: refs)
  show "room \<noteq> [] \<or> \<not> RoomIDIsCreateHash rules \<or> ty \<noteq> ''m.room.create'' \<Longrightarrow> stringField ev ''room_id'' = room"
    by (auto simp: stringField_def string_in_def get genesis_builder_def)
  show "room = [] \<Longrightarrow> RoomIDIsCreateHash rules \<Longrightarrow> ty = ''m.room.create'' \<Longrightarrow> gm_get (ev_fields ev) ''room_id'' = None"
    using modern_rules(2) [OF assms(2)] by (simp add: get genesis_builder_def)
qed

lemma build_reference_hash:
  assumes "buildAndSign sha ed_sign suffix srv key version ty sk sender room content ts depth prev auth = Inr ev"
    and "Get version = Some rules" and "\<not> EventFormatV1 rules"
  shows "\<exists>h. referenceHash sha (ev_raw ev) rules = Inr h"
proof -
  let ?b = "genesis_builder rules ty sk sender room content ts depth prev auth"
  have "Build sha ed_sign ?b srv key version = Inr ev"
    using buildAndSign_rules [OF assms(1,2)] assms(2,3) by (simp add: BuildForVersion_def)
  then obtain signed where s: "hash_and_sign sha ed_sign srv key rules (build_object ?b rules) = Inr signed"
    "ev_raw ev = signed"
    by (rule Build_cases) (use assms(2) in auto)
  from hash_and_sign_cases [OF s(1) build_object_ok] obtain ch where
    "SignRedacted ed_sign srv key (JObj (gm_put ''hashes'' (JObj [(''sha256'', JStr ch)]) (build_object ?b rules))) rules
       = Inr signed" by metis
  from signed_reference_hash [OF this unmarshal_obj_JObj [OF gm_ok_put [OF build_object_ok]]] s(2)
  show ?thesis by simp
qed

text \<open>
  The five genesis events form a chain: each names the one before it in \<open>prev_events\<close>, the depths
  are 0 to 4, and all but the create event carry the room's ID. Where the room's ID is the create
  event's hash, it is the create event's ID with the sigil swapped, and the create event carries no
  room ID; otherwise it is the ID asked for.
\<close>

theorem genesis_chain:
  assumes "BuildInitialEvents sha ed_sign suffix localpart num roomID version creator preset override creation
      isDirect invitees srv key now overrides profile = Inr res"
    and "Get version = Some rules"
  shows "\<exists>cr jn pw jr hv. ir_events res = [cr, jn, pw, jr, hv]
     \<and> map PrevEvents (ir_events res) = [[], [EventID sha cr], [EventID sha jn], [EventID sha pw], [EventID sha jr]]
     \<and> map Depth (ir_events res) = [0, 1, 2, 3, 4]
     \<and> map (\<lambda>e. stringField e ''room_id'') [jn, pw, jr, hv] = replicate 4 (ir_room_id res)
     \<and> (if RoomIDIsCreateHash rules
        then gm_get (ev_fields cr) ''room_id'' = None
          \<and> (\<exists>h. EventID sha cr = CHR ''$'' # h \<and> ir_room_id res = CHR ''!'' # h)
        else ir_room_id res = roomID \<and> stringField cr ''room_id'' = roomID)"
  using assms
proof (rule BuildInitialEvents_cases, goal_cases)
  case (1 cc pl cr jn pw jr hv room)
  have range: "int64_range 0" "int64_range 1" "int64_range 2" "int64_range 3" "int64_range 4"
    by (simp_all add: int64_range_def int64_min_def int64_max_def)
  note place = buildAndSign_place [OF 1(3) assms(2) range(1)] buildAndSign_place [OF 1(5) assms(2) range(2)]
    buildAndSign_place [OF 1(6) assms(2) range(3)] buildAndSign_place [OF 1(7) assms(2) range(4)]
    buildAndSign_place [OF 1(8) assms(2) range(5)]
  have "if RoomIDIsCreateHash rules
        then gm_get (ev_fields cr) ''room_id'' = None \<and> (\<exists>h. EventID sha cr = CHR ''$'' # h \<and> room = CHR ''!'' # h)
        else room = roomID \<and> stringField cr ''room_id'' = roomID"
  proof (cases "RoomIDIsCreateHash rules")
    case True
    note m = modern_rules(2,3) [OF assms(2) True]
    obtain h where "referenceHash sha (ev_raw cr) rules = Inr h"
      using build_reference_hash [OF 1(3) assms(2) m(1)] by blast
    moreover have "ev_rules cr = rules" using buildAndSign_reads [OF 1(3) assms(2)] by (simp add: reads_as_def)
    moreover obtain i where "ev_event_id cr = (if EventFormatV1 rules then i else [])"
      using BuildForVersion_fields [OF buildAndSign_rules [OF 1(3) assms(2)] assms(2)] by metis
    ultimately show ?thesis
      using True m 1(4) place(5) assms(2)
      by (simp add: EventID_def BuildV12RoomID_def ReferenceHashBase64URL_def)
  next
    case False
    then show ?thesis using 1(4) place(4) by simp
  qed
  moreover have "map PrevEvents [cr, jn, pw, jr, hv] = [[], [EventID sha cr], [EventID sha jn], [EventID sha pw], [EventID sha jr]]"
    "map Depth [cr, jn, pw, jr, hv] = [0, 1, 2, 3, 4]"
    by (simp_all only: list.map place(1,2,6,7,11,12,16,17,21,22))
  moreover have "map (\<lambda>e. stringField e ''room_id'') [jn, pw, jr, hv] = replicate 4 room"
    using place(9,14,19,24) by (simp add: numeral_eq_Suc)
  ultimately show ?case
    unfolding 1(9,10)
    by (intro exI [of _ cr] exI [of _ jn] exI [of _ pw] exI [of _ jr] exI [of _ hv] conjI) (rule refl | assumption)+
qed

subsection \<open>Room creation succeeds\<close>

lemma numbers_ok_when: "numbers_ok (JObj m) \<Longrightarrow> numbers_ok v \<Longrightarrow> numbers_ok (JObj (put_when b k v m))"
  by (simp only: put_when_def numbers_ok_put split: if_split) simp

lemma built_object_numbers:
  assumes "numbers_ok content" and "\<bar>ts\<bar> \<le> max_canonical_int" and "\<bar>depth\<bar> \<le> max_canonical_int"
  shows "numbers_ok (JObj (built_object (genesis_builder rules ty sk sender room content ts depth prev auth) rules i))"
proof -
  have strs: "numbers_ok (json_strings xs)" "numbers_ok (legacyRefs xs)" "numbers_ok (JStr v)" "numbers_ok (JObj [])"
    for xs v by (simp_all add: json_strings_def legacyRefs_def)
  show ?thesis
    unfolding built_object_def legacy_object_def build_object_def setString_def genesis_builder_def Builder.simps
      nonNil_def option.case
    using assms numbers_ok_json_int [OF assms(2)] numbers_ok_json_int [OF assms(3)]
    by (simp only: numbers_ok_put numbers_ok_when strs split: if_split option.split) simp
qed

lemma buildAndSign_succeeds:
  assumes "Get version = Some rules"
    and "numbers_ok content" and "\<bar>ts\<bar> \<le> max_canonical_int" and "\<bar>depth\<bar> \<le> max_canonical_int"
  shows "\<exists>ev. buildAndSign sha ed_sign suffix srv key version ty sk sender room content ts depth prev auth = Inr ev"
proof -
  let ?b = "genesis_builder rules ty sk sender room content ts depth prev auth"
  let ?i = "CHR ''$'' # suffix @ CHR '':'' # srv"
  have "gm_ok (built_object ?b rules ?i)" "gm_get (built_object ?b rules ?i) ''signatures'' = None"
    by (simp_all add: built_object_def legacy_object_def build_object_def setString_def genesis_builder_def
        gm_get_put put_when_get del: gm_put.simps split: option.split)
  from hash_and_sign_succeeds [OF this(1) built_object_numbers [OF assms(2-4)] this(2)]
  obtain signed where s: "hash_and_sign sha ed_sign srv key rules (built_object ?b rules ?i) = Inr signed" by blast
  have "gm_ok (built_object ?b rules ?i)" by (simp add: built_object_def)
  from hash_and_sign_cases [OF s this] obtain m where "signed = JObj m" by blast
  then have "\<exists>ev. BuildForVersion sha ed_sign suffix ?b srv key version = Inr ev"
    using s assms(1)
    by (cases "EventFormatV1 rules")
      (simp_all add: BuildForVersion_def BuildLegacy_def Build_def New_def built_object_def Let_def)
  then show ?thesis using assms(1) by (auto simp: buildAndSign_def)
qed

lemma create_content_succeeds:
  "\<exists>cc. create_content num rules version creator preset None isDirect invitees = Inr cc \<and> numbers_ok (JObj cc)"
proof -
  let ?base = "gm_put ''m.federate'' (JBool True) (gm_put ''room_version'' (JStr version) [])"
  let ?base1 = "if CreateOmitsCreator rules then ?base else gm_put ''creator'' (JStr creator) ?base"
  have n: "numbers_ok (JObj ?base1)" by (simp del: gm_put.simps numbers_ok.simps(3) add: numbers_ok_put) (simp)
  have "numbers_ok (json_strings as)" for as by (simp add: json_strings_def)
  with n have "numbers_ok (JObj (gm_put ''additional_creators'' (json_strings as) ?base1))"
    "numbers_ok (JObj (gm_del ''additional_creators'' ?base1))" for as
    unfolding gm_del_def by (blast intro: numbers_ok_put numbers_ok_filter)+
  moreover have "gm_get ?base1 ''additional_creators'' = None" by (simp add: gm_get_put)
  ultimately show ?thesis
    using n unfolding create_content_def Let_def merge_creation_def
    by (simp add: validateAdditionalCreators_def del: gm_put.simps numbers_ok.simps(3))
qed

lemma initial_pl_numbers: "numbers_ok (power_levels_json (initial_pl creator preset privileged))"
proof -
  let ?pl = "initial_pl creator preset privileged"
  have levels: "\<forall>v \<in> snd ` set m. \<bar>v\<bar> \<le> max_canonical_int \<Longrightarrow> numbers_ok (levels_json m)" for m
    by (force simp: levels_json_def intro!: numbers_ok_json_int)
  have "numbers_ok (levels_json (pl_events ?pl))"
    using initial_events_level [of creator preset privileged]
    by (intro levels ballI) (cases privileged, auto simp: max_canonical_int_def)
  moreover have "numbers_ok (levels_json (pl_users ?pl))"
    by (rule levels) (simp add: initial_pl_def max_canonical_int_def)
  moreover have "numbers_ok (json_int i)" if "i \<in> {0, 50}" for i
    using that by (intro numbers_ok_json_int) (auto simp: max_canonical_int_def)
  ultimately show ?thesis by (simp add: power_levels_json_def) (simp add: initial_pl_def)
qed

lemma genesis_built_and_accepted:
  assumes "Get version = Some rules" and "\<bar>now\<bar> \<le> max_canonical_int" and "creator \<noteq> []"
  shows "\<exists>res. BuildInitialEvents sha ed_sign suffix localpart num roomID version creator preset None None
      isDirect invitees srv key now [] profile = Inr res
    \<and> accepted_in_order edv rules [] (ir_events res)"
proof -
  have depth: "\<bar>0\<bar> \<le> max_canonical_int" "\<bar>1\<bar> \<le> max_canonical_int" "\<bar>2\<bar> \<le> max_canonical_int"
    "\<bar>3\<bar> \<le> max_canonical_int" "\<bar>4\<bar> \<le> max_canonical_int" by (simp_all add: max_canonical_int_def)
  have contents: "numbers_ok (join_content profile)" "numbers_ok (InitialJoinRules preset)"
    "numbers_ok (InitialHistoryVisibility preset)"
  proof -
    have "numbers_ok (JObj (gm_put ''membership'' (JStr MembershipJoin) []))" by simp
    then show "numbers_ok (join_content profile)"
      unfolding join_content_def Let_def by (cases profile) (simp_all add: numbers_ok_when del: numbers_ok.simps(3) gm_put.simps)
  qed (simp_all add: InitialJoinRules_def InitialHistoryVisibility_def)
  note build = buildAndSign_succeeds [OF assms(1) _ assms(2)]
  let ?hash = "RoomIDIsCreateHash rules" and ?pl = "power_levels_json (initial_pl creator preset (CreatorPrivileged rules))"
  let ?build = "\<lambda>n. buildAndSign sha ed_sign (suffix n) srv key version"
  obtain cc where cc: "create_content num rules version creator preset None isDirect invitees = Inr cc" "numbers_ok (JObj cc)"
    using create_content_succeeds by blast
  obtain cr where cr: "?build 0 ''m.room.create'' [] creator (if ?hash then [] else roomID) (JObj cc) now 0 [] [] = Inr cr"
    using build [OF cc(2) depth(1)] by blast
  let ?room = "if ?hash then BuildV12RoomID sha localpart version cr srv else roomID"
  obtain jn where jn: "?build 1 ''m.room.member'' creator creator ?room (join_content profile) now 1 [EventID sha cr]
      (if ?hash then [] else [EventID sha cr]) = Inr jn"
    using build [OF contents(1) depth(2)] by blast
  let ?auth = "if ?hash then [EventID sha jn] else [EventID sha cr, EventID sha jn]"
  obtain pw where pw: "?build 2 ''m.room.power_levels'' [] creator ?room ?pl now 2 [EventID sha jn] ?auth = Inr pw"
    using build [OF initial_pl_numbers depth(3)] by blast
  obtain jr where jr: "?build 3 ''m.room.join_rules'' [] creator ?room (InitialJoinRules preset) now 3 [EventID sha pw]
      (?auth @ [EventID sha pw]) = Inr jr"
    using build [OF contents(2) depth(4)] by blast
  obtain hv where hv: "?build 4 ''m.room.history_visibility'' [] creator ?room (InitialHistoryVisibility preset) now 4
      [EventID sha jr] (?auth @ [EventID sha pw]) = Inr hv"
    using build [OF contents(3) depth(5)] by blast
  have pl: "InitialPowerLevels creator preset None (CreatorPrivileged rules) = Inr ?pl"
    by (simp add: InitialPowerLevels_def)
  have "Get [] = None" by code_simp
  then have "version \<noteq> []" using assms(1) by auto
  from create_content_parses [OF cc(1) this] obtain c where c: "ParseCreate (Some (JObj cc)) = Inr c"
    "dec_struct create_fields (JObj cc) zero_create = (True, c)" "cc_creator c \<in> {[], creator}" "cc_federate c = Some True"
    by auto
  note reads = buildAndSign_reads [OF _ assms(1)]
  have "accepted_in_order edv rules [] [cr, jn, pw, jr, hv]"
    by (rule genesis_accepted [OF reads [OF cr] reads [OF jn] reads [OF pw] reads [OF jr] reads [OF hv] c assms(3)])
  then show ?thesis
    using assms(1) cc(1) cr jn pw jr hv pl
    by (simp add: BuildInitialEvents_def Let_def override_or_def)
qed

text \<open>
  \<open>ParsePowerLevels\<close> reads back the power levels \<open>json.Marshal\<close> writes, whatever the levels are (as
  \<open>int64\<close> values).
\<close>

theorem power_levels_roundtrip:
  assumes "pl_storable pl"
  shows "ParsePowerLevels (Some (power_levels_json pl)) = Inr pl"
  by (rule parse_power_levels_json [OF assms])

text \<open>
  C17: Creating a room of a known version without overrides succeeds, whatever the preset, the invited
  users and the creator's profile, as long as the time is in the canonical integer range; and every one
  of its events is accepted by the authorization rules in the state the earlier ones leave.
\<close>

theorem genesis_authorised:
  assumes "Get version = Some rules" and "\<bar>now\<bar> \<le> max_canonical_int" and "creator \<noteq> []"
  shows "\<exists>res. BuildInitialEvents sha ed_sign suffix localpart num roomID version creator preset None None
      isDirect invitees srv key now [] profile = Inr res
    \<and> accepted_in_order edv rules [] (ir_events res)"
  by (rule genesis_built_and_accepted [OF assms])

definition ex_genesis :: "genesis_error + InitialEventsResult" where
  "ex_genesis = BuildInitialEvents id toy_sign (\<lambda>n. []) ''l'' JNum ''!r:x'' ''12'' ''@a:x'' PresetPrivateChat
     None None False [] ''x'' ex_key 5 [] None"

lemma ex_version: "Get ''12'' = Some v12_rules" "\<bar>5\<bar> \<le> max_canonical_int" "''@a:x'' \<noteq> []"
  by code_simp+

theorem genesis_authorised_witness:
  "\<exists>res. ex_genesis = Inr res \<and> accepted_in_order toy_verify v12_rules [] (ir_events res)"
  unfolding ex_genesis_def by (rule genesis_authorised [OF ex_version])

theorem genesis_chain_witness: "\<exists>res. ex_genesis = Inr res \<and> map Depth (ir_events res) = [0, 1, 2, 3, 4]"
proof -
  obtain res where res: "ex_genesis = Inr res"
    using genesis_built_and_accepted [OF ex_version] unfolding ex_genesis_def by blast
  from genesis_chain [OF this [unfolded ex_genesis_def] ex_version(1)]
  have "map Depth (ir_events res) = [0, 1, 2, 3, 4]" by (elim exE conjE)
  with res show ?thesis by (intro exI [of _ res] conjI)
qed

theorem power_levels_roundtrip_witness:
  "ParsePowerLevels (Some (power_levels_json (initial_pl ''@a:x'' PresetPublicChat False))) =
     Inr (initial_pl ''@a:x'' PresetPublicChat False)"
  by (rule power_levels_roundtrip [OF initial_pl_storable])

end
