(* ===== verification/Fed_Verify.thy ===== *)
theory Fed_Verify
  imports Event_Access
begin

section \<open>Verification of inbound events (\<open>federation/fedverify\<close>)\<close>

text \<open>
  \<open>Verifier.Verify\<close>: which signatures make an event of another server pass. The published keys of the
  other servers are the parameter \<open>keys\<close>, from a server and a key ID to the key, \<open>None\<close> where it could not
  be fetched. The order in which the keys of a server are tried does not matter: one good signature is
  enough, and of the errors only that there was one is kept.
\<close>

datatype verify_error =
    UnknownVersion Version
  | ParseFailed
  | RedactFailed
  | NoOriginNoSender
  | NoValidSignature string

record VerifyResult =
  vr_event_id :: string
  vr_origin :: string
  vr_signed :: bool
  vr_valid :: bool
  vr_err :: "verify_error option"

definition zero_result :: VerifyResult where
  "zero_result = \<lparr>vr_event_id = [], vr_origin = [], vr_signed = False, vr_valid = False, vr_err = None\<rparr>"

record SignedFields =
  sf_origin :: string
  sf_event_id :: string
  sf_sender :: string
  sf_signatures :: signatures

definition signed_fields :: "SignedFields fields" where
  "signed_fields =
     [(''origin'', fld dec_string sf_origin sf_origin_update),
      (''event_id'', fld dec_string sf_event_id sf_event_id_update),
      (''sender'', fld dec_string sf_sender sf_sender_update),
      (''signatures'', fld dec_signatures sf_signatures sf_signatures_update)]"

definition zero_signed :: SignedFields where
  "zero_signed = \<lparr>sf_origin = [], sf_event_id = [], sf_sender = [], sf_signatures = []\<rparr>"

definition signatures_of :: "signatures \<Rightarrow> string \<Rightarrow> string gomap" where
  "signatures_of sigs entity = (case gm_get sigs entity of None \<Rightarrow> [] | Some m \<Rightarrow> m)"

text \<open>One signature of an entity, checked with the key the entity publishes under the key ID.\<close>

definition signature_ok ::
  "(string \<Rightarrow> string \<Rightarrow> string option) \<Rightarrow> (string \<Rightarrow> string \<Rightarrow> string \<Rightarrow> bool) \<Rightarrow> json \<Rightarrow> string
     \<Rightarrow> string \<times> string \<Rightarrow> bool" where
  "signature_ok keys ed_verify body entity = (\<lambda>(keyID, sig).
     case keys entity keyID of
       None \<Rightarrow> False
     | Some pub \<Rightarrow> (case VerifyJSONWith ed_verify sig entity keyID pub body of Inl _ \<Rightarrow> False | Inr _ \<Rightarrow> True))"

text \<open>The loop over the candidate entities: whether one had signatures, and whether one of them verified.\<close>

fun try_entities :: "(string \<Rightarrow> string \<times> string \<Rightarrow> bool) \<Rightarrow> signatures \<Rightarrow> string list \<Rightarrow> bool \<Rightarrow> bool \<times> bool" where
  "try_entities good sigs [] signed = (signed, False)"
| "try_entities good sigs (entity # es) signed =
     (if entity = [] \<or> signatures_of sigs entity = [] then try_entities good sigs es signed
      else if list_ex (good entity) (signatures_of sigs entity) then (True, True)
      else try_entities good sigs es True)"

definition Verify ::
  "(string \<Rightarrow> string) \<Rightarrow> (string \<Rightarrow> string \<Rightarrow> string option) \<Rightarrow> (string \<Rightarrow> string \<Rightarrow> string \<Rightarrow> bool) \<Rightarrow> json
     \<Rightarrow> Version \<Rightarrow> VerifyResult" where
  "Verify sha256 keys ed_verify j version =
     (case Get version of
        None \<Rightarrow> zero_result\<lparr>vr_err := Some (UnknownVersion version)\<rparr>
      | Some rules \<Rightarrow>
          let (ok, ev) = dec_struct signed_fields j zero_signed
          in if \<not> ok then zero_result\<lparr>vr_err := Some ParseFailed\<rparr>
             else
               let senderDomain = domainOf (sf_sender ev);
                   eventID = (if EventFormatV1 rules then sf_event_id ev
                              else case EventIDFromRaw sha256 j rules of Inl _ \<Rightarrow> [] | Inr i \<Rightarrow> i);
                   origin = (if sf_origin ev = [] then senderDomain else sf_origin ev)
               in case Redact j rules of
                    None \<Rightarrow> zero_result\<lparr>vr_event_id := eventID, vr_origin := origin, vr_err := Some RedactFailed\<rparr>
                  | Some redacted \<Rightarrow>
                      let sigs = sf_signatures ev;
                          (signed, valid) = try_entities (signature_ok keys ed_verify (JObj redacted)) sigs
                                              [senderDomain, sf_origin ev] False;
                          res = zero_result\<lparr>vr_event_id := eventID, vr_origin := senderDomain,
                                  vr_signed := signed, vr_valid := valid\<rparr>
                      in if valid then res
                         else if senderDomain = [] \<and> sf_origin ev = [] then res\<lparr>vr_err := Some NoOriginNoSender\<rparr>
                         else if signatures_of sigs senderDomain = [] \<and> signatures_of sigs (sf_origin ev) = []
                         then res\<lparr>vr_signed := False\<rparr>
                         else if signed then res\<lparr>vr_err := Some (NoValidSignature senderDomain)\<rparr>
                         else res)"

text \<open>The test every caller makes of the result.\<close>

definition passes :: "VerifyResult \<Rightarrow> bool" where
  "passes r \<longleftrightarrow> vr_err r = None \<and> \<not> (vr_signed r \<and> \<not> vr_valid r)"

subsection \<open>What verification guarantees\<close>

lemma try_entities_valid:
  "snd (try_entities good sigs es signed) \<longleftrightarrow>
     (\<exists>e \<in> set es. e \<noteq> [] \<and> list_ex (good e) (signatures_of sigs e))"
  by (induction good sigs es signed rule: try_entities.induct) auto

lemma try_entities_signed:
  "\<not> snd (try_entities good sigs es signed) \<Longrightarrow> fst (try_entities good sigs es signed) \<longleftrightarrow>
     signed \<or> (\<exists>e \<in> set es. e \<noteq> [] \<and> signatures_of sigs e \<noteq> [])"
  by (induction good sigs es signed rule: try_entities.induct) auto

lemma passes_iff:
  "passes (Verify sha256 keys ed_verify j version) \<longleftrightarrow>
     (\<exists>rules redacted ev es. Get version = Some rules
        \<and> dec_struct signed_fields j zero_signed = (True, ev) \<and> Redact j rules = Some redacted
        \<and> es = {domainOf (sf_sender ev), sf_origin ev} - {[]} \<and> es \<noteq> {}
        \<and> ((\<exists>e \<in> es. \<exists>(keyID, sig) \<in> set (signatures_of (sf_signatures ev) e).
              \<exists>pub. keys e keyID = Some pub \<and> VerifyJSONWith ed_verify sig e keyID pub (JObj redacted) = Inr ())
           \<or> (\<forall>e \<in> es. signatures_of (sf_signatures ev) e = [])))"
proof (cases "Get version")
  case None
  then show ?thesis by (simp add: Verify_def passes_def)
next
  case rules: (Some rules)
  obtain ok ev where ev: "dec_struct signed_fields j zero_signed = (ok, ev)" by fastforce
  show ?thesis
  proof (cases "ok \<and> Redact j rules \<noteq> None")
    case False
    then show ?thesis using rules ev by (auto simp: Verify_def passes_def)
  next
    case True
    then obtain redacted where r: "Redact j rules = Some redacted" by blast
    let ?sigs = "sf_signatures ev"
    let ?es = "[domainOf (sf_sender ev), sf_origin ev]"
    let ?good = "signature_ok keys ed_verify (JObj redacted)"
    obtain signed valid where t: "try_entities ?good ?sigs ?es False = (signed, valid)" by fastforce
    have v: "valid \<longleftrightarrow> (\<exists>e \<in> set ?es. e \<noteq> [] \<and> list_ex (?good e) (signatures_of ?sigs e))"
      using try_entities_valid [of ?good ?sigs ?es False] by (simp add: t del: try_entities.simps)
    have s: "\<not> valid \<Longrightarrow> signed \<longleftrightarrow> (\<exists>e \<in> set ?es. e \<noteq> [] \<and> signatures_of ?sigs e \<noteq> [])"
      using try_entities_signed [of ?good ?sigs ?es False] by (simp add: t del: try_entities.simps)
    have some: "valid \<Longrightarrow> set ?es - {[]} \<noteq> {}" using v by auto
    have good: "?good e (k, sig) \<longleftrightarrow>
        (\<exists>pub. keys e k = Some pub \<and> VerifyJSONWith ed_verify sig e k pub (JObj redacted) = Inr ())" for e k sig
      by (auto simp: signature_ok_def split: option.splits sum.splits)
    have "passes (Verify sha256 keys ed_verify j version) \<longleftrightarrow>
        valid \<or> (\<not> signed \<and> set ?es - {[]} \<noteq> {})"
      using rules ev True r t s v by (auto simp: Verify_def passes_def zero_result_def Let_def simp del: try_entities.simps)
    also have "\<dots> \<longleftrightarrow> set ?es - {[]} \<noteq> {}
        \<and> ((\<exists>e \<in> set ?es - {[]}. \<exists>(k, sig) \<in> set (signatures_of ?sigs e). ?good e (k, sig))
           \<or> (\<forall>e \<in> set ?es - {[]}. signatures_of ?sigs e = []))"
      using v s some by (auto simp: list_ex_iff)
    finally show ?thesis using rules ev True r by (simp add: good)
  qed
qed


text \<open>
  The server named in \<open>origin\<close> is asked also when the sender's server is known: an event of a user of
  another server passes with the signature of the server its \<open>origin\<close> names alone.
\<close>

definition forged_event :: json where
  "forged_event = JObj [(''type'', JStr ''m.room.message''), (''sender'', JStr ''@victim:good''),
     (''origin'', JStr ''evil''), (''room_id'', JStr ''!r:good''), (''content'', JObj []), (''depth'', JNum ''2''),
     (''signatures'', JObj [(''evil'', JObj [(''ed25519:1'', JStr ''AAAA'')])])]"

lemma origin_signature_is_enough:
  "passes (Verify (\<lambda>m. m) (\<lambda>server keyID. if server = ''evil'' then Some ''key'' else None)
     (\<lambda>pub msg sig. pub = ''key'') forged_event ''10'')"
  by code_simp

text \<open>An event nobody has signed passes too.\<close>

definition unsigned_event :: json where
  "unsigned_event = JObj [(''type'', JStr ''m.room.message''), (''sender'', JStr ''@victim:good''),
     (''room_id'', JStr ''!r:good''), (''content'', JObj []), (''depth'', JNum ''2'')]"

lemma unsigned_event_passes:
  "passes (Verify (\<lambda>m. m) (\<lambda>server keyID. None) (\<lambda>pub msg sig. False) unsigned_event ''10'')"
  by code_simp

end
