(* ===== verification/Room_Tables.thy ===== *)
theory Room_Tables
  imports Event_Access Ids
begin

section \<open>Rooms, aliases, relations and restricted joins (\<open>internal/storage\<close>)\<close>

text \<open>
  The tables around the events: the room rows and aliases of \<open>rooms.go\<close>, the index of relations of
  \<open>relations.go\<close>, the timeline gaps of \<open>gaps.go\<close>, the memberships a server has in rooms whose state it
  does not hold (\<open>outofband.go\<close>), and the verdict on a restricted join (\<open>restricted.go\<close>), which reads
  the state, the memberships and the rooms.
\<close>

subsection \<open>Rooms (\<open>rooms.go\<close>)\<close>

definition GetRoom :: "Store \<Rightarrow> string \<Rightarrow> RoomRow option" where
  "GetRoom s roomID = find (\<lambda>r. rr_room_id r = roomID) (db_rooms s)"

definition RoomExists :: "Store \<Rightarrow> string \<Rightarrow> bool" where
  "RoomExists s roomID = list_ex (\<lambda>r. rr_room_id r = roomID) (db_rooms s)"

text \<open>A second row for a room violates the primary key.\<close>

definition CreateRoom :: "Store \<Rightarrow> RoomRow \<Rightarrow> Store option" where
  "CreateRoom s r =
     (if RoomExists s (rr_room_id r) then None
      else Some (s\<lparr>db_rooms := db_rooms s @ [r\<lparr>rr_unpartial_stream := 0\<rparr>]\<rparr>))"

definition update_room :: "string \<Rightarrow> (RoomRow \<Rightarrow> RoomRow) \<Rightarrow> Store \<Rightarrow> Store" where
  "update_room roomID f s = s\<lparr>db_rooms := map (\<lambda>r. if rr_room_id r = roomID then f r else r) (db_rooms s)\<rparr>"

definition NextSyncStream :: "Store \<Rightarrow> int \<times> Store" where
  "NextSyncStream s = (db_next_stream s, s\<lparr>db_next_stream := db_next_stream s + 1\<rparr>)"

text \<open>Clearing the flag records a stream position, drawn also when there is no such room.\<close>

definition SetRoomPartialState :: "Store \<Rightarrow> string \<Rightarrow> bool \<Rightarrow> Store" where
  "SetRoomPartialState s roomID partial =
     (if \<not> partial then
        (let (streamID, s1) = NextSyncStream s
         in update_room roomID (\<lambda>r. r\<lparr>rr_partial_state := partial, rr_unpartial_stream := streamID\<rparr>) s1)
      else update_room roomID (\<lambda>r. r\<lparr>rr_partial_state := partial\<rparr>) s)"

definition RoomUnpartialStateStream :: "Store \<Rightarrow> string \<Rightarrow> int option" where
  "RoomUnpartialStateStream s roomID = map_option rr_unpartial_stream (GetRoom s roomID)"

definition PartialRooms :: "Store \<Rightarrow> RoomRow list" where
  "PartialRooms s = filter rr_partial_state (db_rooms s)"

definition SetRoomServersInRoom :: "Store \<Rightarrow> string \<Rightarrow> string list \<Rightarrow> Store" where
  "SetRoomServersInRoom s roomID servers = update_room roomID (\<lambda>r. r\<lparr>rr_servers := servers\<rparr>) s"

text \<open>The flag is whether a row was updated.\<close>

definition SetRoomVisibility :: "Store \<Rightarrow> string \<Rightarrow> bool \<Rightarrow> bool \<times> Store" where
  "SetRoomVisibility s roomID isPublic =
     (RoomExists s roomID, update_room roomID (\<lambda>r. r\<lparr>rr_is_public := isPublic\<rparr>) s)"

definition EnsureRoom :: "Store \<Rightarrow> RoomRow \<Rightarrow> Store" where
  "EnsureRoom s r =
     (case CreateRoom s r of
        Some s1 \<Rightarrow> s1
      | None \<Rightarrow> update_room (rr_room_id r)
                  (\<lambda>old. if rr_creator old = [] then old\<lparr>rr_creator := rr_creator r\<rparr> else old) s)"

subsection \<open>Aliases\<close>

definition CreateAlias :: "Store \<Rightarrow> AliasRow \<Rightarrow> Store" where
  "CreateAlias s a = s\<lparr>db_aliases := insert_new al_alias a (db_aliases s)\<rparr>"

definition SetAliasForRoom :: "Store \<Rightarrow> AliasRow \<Rightarrow> Store" where
  "SetAliasForRoom s a = s\<lparr>db_aliases := upsert al_alias a (db_aliases s)\<rparr>"

definition LookupAlias :: "Store \<Rightarrow> string \<Rightarrow> string option" where
  "LookupAlias s alias = map_option al_room_id (find (\<lambda>a. al_alias a = alias) (db_aliases s))"

definition AliasCreator :: "Store \<Rightarrow> string \<Rightarrow> string option" where
  "AliasCreator s alias = map_option al_creator (find (\<lambda>a. al_alias a = alias) (db_aliases s))"

definition AliasesForRoom :: "Store \<Rightarrow> string \<Rightarrow> string list" where
  "AliasesForRoom s roomID = map al_alias (filter (\<lambda>a. al_room_id a = roomID) (db_aliases s))"

definition DeleteAlias :: "Store \<Rightarrow> string \<Rightarrow> Store" where
  "DeleteAlias s alias = s\<lparr>db_aliases := filter (\<lambda>a. al_alias a \<noteq> alias) (db_aliases s)\<rparr>"

subsection \<open>Relations and gaps\<close>

definition InsertRelation :: "Store \<Rightarrow> RelationRow \<Rightarrow> Store" where
  "InsertRelation s r = s\<lparr>db_relations := insert_new rl_event_id r (db_relations s)\<rparr>"

text \<open>A reference: the parent's ID and the relation's type; both empty where there is none.\<close>

definition ref_fields :: "(string \<times> string) fields" where
  "ref_fields =
     [(''event_id'', \<lambda>j (e, t). let (ok, v) = dec_string j e in (ok, (v, t))),
      (''rel_type'', \<lambda>j (e, t). let (ok, v) = dec_string j t in (ok, (e, v)))]"

definition relation_fields :: "((string \<times> string) \<times> string \<times> string) fields" where
  "relation_fields =
     [(''m.relates_to'', \<lambda>j (a, b). let (ok, v) = dec_struct ref_fields j a in (ok, (v, b))),
      (''m.relationship'', \<lambda>j (a, b). let (ok, v) = dec_struct ref_fields j b in (ok, (a, v)))]"

definition relation_of :: "raw \<Rightarrow> (string \<times> string) option" where
  "relation_of content =
     (let (ok, rel, old) = unmarshal (dec_struct relation_fields) (([], []), ([], [])) content;
          complete = (\<lambda>(p, t). p \<noteq> [] \<and> t \<noteq> [])
      in if \<not> ok then None
         else if complete rel then Some rel
         else if complete old then Some old else None)"

definition IndexRelationFromRow :: "Store \<Rightarrow> EventRow \<Rightarrow> Store" where
  "IndexRelationFromRow s row =
     (case relation_of (er_content row) of
        None \<Rightarrow> s
      | Some (parent, relType) \<Rightarrow>
          InsertRelation s \<lparr>rl_event_id = er_event_id row, rl_room_id = er_room_id row, rl_parent = parent,
            rl_rel_type = relType, rl_event_type = er_type row, rl_sender = er_sender row,
            rl_stream = er_stream row\<rparr>)"

definition RecordTimelineGap :: "Store \<Rightarrow> string \<Rightarrow> int \<Rightarrow> Store" where
  "RecordTimelineGap s roomID stream = s\<lparr>db_gaps := insert_new id (roomID, stream) (db_gaps s)\<rparr>"

text \<open>\<open>MAX\<close> over no rows is \<open>NULL\<close>, which cannot be scanned: no gap.\<close>

definition TimelineGapSince :: "Store \<Rightarrow> string \<Rightarrow> int \<Rightarrow> int \<times> bool" where
  "TimelineGapSince s roomID since =
     (case map snd (filter (\<lambda>g. fst g = roomID \<and> snd g > since) (db_gaps s)) of
        [] \<Rightarrow> (0, False)
      | g # gs \<Rightarrow> (let m = fold max gs g in (m, m > 0)))"

subsection \<open>Out-of-band memberships (\<open>outofband.go\<close>)\<close>

definition HasRoomState :: "Store \<Rightarrow> string \<Rightarrow> bool" where
  "HasRoomState s roomID = (TxGetStateEvent s roomID ''m.room.create'' [] \<noteq> None)"

definition InsertOutOfBandMembership :: "Store \<Rightarrow> EventRow \<Rightarrow> MembershipRow \<Rightarrow> bool \<Rightarrow> Store \<times> int" where
  "InsertOutOfBandMembership s e m force =
     (let (s1, stream) = insert_event_row s (e\<lparr>er_redacts := [], er_redacted := False, er_outlier := False\<rparr>);
          row = m\<lparr>mr_event_id := er_event_id e, mr_stream := stream, mr_depth := er_depth e\<rparr>
      in if \<not> force then (UpsertMembership s1 row, stream)
         else (s1\<lparr>db_memberships := on_conflict membership_key
                    (\<lambda>old. row\<lparr>mr_forgotten := mr_forgotten old\<rparr>)
                    (row\<lparr>mr_forgotten := False\<rparr>) (db_memberships s1)\<rparr>, stream))"

subsection \<open>Queries of the ingestion path\<close>

definition AnyRejected :: "Store \<Rightarrow> string list \<Rightarrow> bool" where
  "AnyRejected s ids = list_ex (\<lambda>i. i \<in> set ids) (db_rejected s)"

text \<open>A reference stored as empty is \<open>NULL\<close>, so the empty ID finds nothing.\<close>

definition RedactionForEvent :: "Store \<Rightarrow> string \<Rightarrow> EventRow option" where
  "RedactionForEvent s redactedEventID =
     (if redactedEventID = [] then None
      else find (\<lambda>e. er_redacts e = redactedEventID) (db_events s))"

text \<open>The result is the \<open>event_id\<close> member of the event, which from room version 3 on no event has.\<close>

definition referencing_fields :: "(string \<times> raw) fields" where
  "referencing_fields =
     [(''event_id'', \<lambda>j (e, p). let (ok, v) = dec_string j e in (ok, (v, p))),
      (''prev_events'', \<lambda>j (e, p). (True, (e, Some j)))]"

definition EventIDsReferencingPrev :: "Store \<Rightarrow> string \<Rightarrow> string \<Rightarrow> string list" where
  "EventIDsReferencingPrev s roomID prevID =
     concat (map (\<lambda>e.
       let (ok, eventID, prevs) = dec_struct referencing_fields (er_json e) ([], None)
       in if \<not> ok then []
          else case prevs of
            None \<Rightarrow> []
          | Some v \<Rightarrow>
              (let (ok1, arr) = dec_slice [] dec_string v []
               in if prevID \<in> set (if ok1 then arr else case ref_pairs v of None \<Rightarrow> [] | Some is \<Rightarrow> is)
                  then [eventID] else []))
       (filter (\<lambda>e. er_room_id e = roomID) (db_events s)))"

definition state_content :: "Store \<Rightarrow> string \<Rightarrow> string \<Rightarrow> string \<Rightarrow> EventRow option" where
  "state_content s roomID typ sk =
     (case TxGetStateEvent s roomID typ sk of None \<Rightarrow> None | Some i \<Rightarrow> TxGetEvent s i)"

subsection \<open>Restricted joins (\<open>restricted.go\<close>)\<close>

datatype RestrictedJoinVerdict =
    RestrictedJoinNotAuthorised
  | JoinAuthorised
  | RestrictedJoinUnableToAuthorise

definition joined :: "Store \<Rightarrow> string \<Rightarrow> string \<Rightarrow> bool" where
  "joined s roomID userID =
     (case GetMembership s roomID userID of None \<Rightarrow> False | Some m \<Rightarrow> mr_membership m = MembershipJoin)"

definition ServerHasJoinedMember :: "Store \<Rightarrow> string \<Rightarrow> string \<Rightarrow> bool" where
  "ServerHasJoinedMember s roomID serverName = list_ex (\<lambda>u. DomainOf u = serverName) (JoinedUserIDs s roomID)"

definition roomCreator :: "Store \<Rightarrow> string \<Rightarrow> string" where
  "roomCreator s roomID =
     (case state_content s roomID ''m.room.create'' [] of
        None \<Rightarrow> []
      | Some ev \<Rightarrow>
          (let (ok, c) = unmarshal (dec_struct (str_field ''creator'')) [] (er_content ev)
           in if \<not> ok then [] else if c \<noteq> [] then c else er_sender ev))"

text \<open>No power-levels event: everyone may invite; one that is missing or unreadable: nobody.\<close>

definition authoriserCanInvite :: "Store \<Rightarrow> string \<Rightarrow> string \<Rightarrow> bool" where
  "authoriserCanInvite s roomID user =
     (case TxGetStateEvent s roomID ''m.room.power_levels'' [] of
        None \<Rightarrow> True
      | Some i \<Rightarrow>
          (case TxGetEvent s i of
             None \<Rightarrow> False
           | Some ev \<Rightarrow>
               (case ParsePowerLevels (er_content ev) of
                  Inl _ \<Rightarrow> False
                | Inr pl \<Rightarrow>
                    UserLevel pl user \<ge> pl_invite pl
                    \<or> (user = roomCreator s roomID
                       \<and> (case GetRoom s roomID of
                            None \<Rightarrow> False
                          | Some room \<Rightarrow> (case Get (rr_version room) of
                              None \<Rightarrow> False | Some rules \<Rightarrow> CreatorPrivileged rules))))))"

text \<open>The walk over the allowed rooms: whether the user is in one, and whether the server is in all up to there.\<close>

fun in_allowed_rooms :: "Store \<Rightarrow> string \<Rightarrow> string \<Rightarrow> bool \<Rightarrow> string list \<Rightarrow> bool \<times> bool" where
  "in_allowed_rooms s user server all [] = (False, all)"
| "in_allowed_rooms s user server all (room # rooms) =
     (if \<not> ServerHasJoinedMember s room server then in_allowed_rooms s user server False rooms
      else if joined s room user then (True, all)
      else in_allowed_rooms s user server all rooms)"

definition RestrictedJoinAuthorised :: "Store \<Rightarrow> string \<Rightarrow> string \<Rightarrow> string \<Rightarrow> string \<Rightarrow> RestrictedJoinVerdict" where
  "RestrictedJoinAuthorised s roomID joiningUserID authorisingUserID serverName =
     (case state_content s roomID ''m.room.join_rules'' [] of
        None \<Rightarrow> RestrictedJoinNotAuthorised
      | Some ev \<Rightarrow>
          let allowedRooms = AllowRooms (er_content ev)
          in if allowedRooms = [] then RestrictedJoinNotAuthorised
             else
               let (inAllowed, participatesInAll) = in_allowed_rooms s joiningUserID serverName True allowedRooms
               in if \<not> inAllowed then
                    (if \<not> participatesInAll then RestrictedJoinUnableToAuthorise
                     else RestrictedJoinNotAuthorised)
                  else if authorisingUserID = [] then RestrictedJoinNotAuthorised
                  else if \<not> joined s roomID authorisingUserID then RestrictedJoinNotAuthorised
                  else if \<not> authoriserCanInvite s roomID authorisingUserID then RestrictedJoinNotAuthorised
                  else JoinAuthorised)"

definition RestrictedJoinAuthoriser :: "Store \<Rightarrow> string \<Rightarrow> string \<Rightarrow> string" where
  "RestrictedJoinAuthoriser s roomID serverName =
     (let creator = roomCreator s roomID
      in if creator \<noteq> [] \<and> DomainOf creator = serverName \<and> joined s roomID creator then creator
         else case find (\<lambda>u. DomainOf u = serverName \<and> authoriserCanInvite s roomID u) (JoinedUserIDs s roomID) of
                None \<Rightarrow> []
              | Some u \<Rightarrow> u)"

subsection \<open>Laws\<close>

lemma in_allowed_rooms_iff:
  "in_allowed_rooms s user server all rooms = (a, b) \<Longrightarrow>
     a = (\<exists>r \<in> set rooms. ServerHasJoinedMember s r server \<and> joined s r user)
   \<and> (\<not> a \<longrightarrow> b = (all \<and> (\<forall>r \<in> set rooms. ServerHasJoinedMember s r server)))"
  by (induction s user server all rooms rule: in_allowed_rooms.induct) (auto split: if_splits)

text \<open>
  A restricted join is authorised exactly when the joining user is a joined member of an allowed room
  this server takes part in, and the named authoriser is a joined member of the room itself who may
  invite; it is left undecided exactly when no such allowed room is known and this server is missing
  from one of them.
\<close>

theorem restricted_join_verdict:
  "let allowed = (case state_content s room ''m.room.join_rules'' [] of
                    None \<Rightarrow> [] | Some ev \<Rightarrow> AllowRooms (er_content ev));
       member = (\<exists>r \<in> set allowed. ServerHasJoinedMember s r server \<and> joined s r user)
   in (RestrictedJoinAuthorised s room user authoriser server = JoinAuthorised
         \<longleftrightarrow> member \<and> authoriser \<noteq> [] \<and> joined s room authoriser \<and> authoriserCanInvite s room authoriser)
    \<and> (RestrictedJoinAuthorised s room user authoriser server = RestrictedJoinUnableToAuthorise
         \<longleftrightarrow> \<not> member \<and> (\<exists>r \<in> set allowed. \<not> ServerHasJoinedMember s r server))"
proof (cases "state_content s room ''m.room.join_rules'' []")
  case None
  then show ?thesis by (simp add: RestrictedJoinAuthorised_def)
next
  case (Some ev)
  obtain a b where ab: "in_allowed_rooms s user server True (AllowRooms (er_content ev)) = (a, b)"
    by (cases "in_allowed_rooms s user server True (AllowRooms (er_content ev))")
  show ?thesis using in_allowed_rooms_iff [OF ab] Some ab
    by (auto simp: RestrictedJoinAuthorised_def Let_def split: if_splits)
qed

text \<open>An authoriser this server picks is one of its joined users of the room, and may invite or is the creator.\<close>

lemma authoriser_picked:
  assumes "RestrictedJoinAuthoriser s room server = u" and "u \<noteq> []"
  shows "DomainOf u = server \<and> (authoriserCanInvite s room u \<and> u \<in> set (JoinedUserIDs s room)
           \<or> u = roomCreator s room \<and> joined s room u)"
  using assms unfolding RestrictedJoinAuthoriser_def Let_def find_Some_iff
  by (auto split: if_splits option.splits simp: find_Some_iff)

end
