(* ===== verification/Server_Acl.thy ===== *)
theory Server_Acl
  imports Storage
begin

section \<open>Server access control lists (\<open>federation/serveracl.go\<close>)\<close>

text \<open>
  Which servers a room's \<open>m.room.server_acl\<close> event lets take part. Server names are ASCII; of the
  standard library, \<open>strings.ToLower\<close> (on ASCII letters and the two other letters whose lower case is
  ASCII) and \<open>net.ParseIP\<close> are written out.
\<close>

subsection \<open>The standard library\<close>

definition lower :: "char \<Rightarrow> char" where
  "lower c = (if CHR ''A'' \<le> c \<and> c \<le> CHR ''Z'' then char_of ((of_char c :: nat) + 32) else c)"

text \<open>\<open>strings.ToLower\<close>: U+0130 becomes \<open>i\<close>, U+212A becomes \<open>k\<close>.\<close>

fun ToLower :: "string \<Rightarrow> string" where
  "ToLower [] = []"
| "ToLower [a] = [lower a]"
| "ToLower [a, b] = (if a = CHR 0xC4 \<and> b = CHR 0xB0 then ''i'' else lower a # ToLower [b])"
| "ToLower (a # b # c # r) =
     (if a = CHR 0xC4 \<and> b = CHR 0xB0 then CHR ''i'' # ToLower (c # r)
      else if a = CHR 0xE2 \<and> b = CHR 0x84 \<and> c = CHR 0xAA then CHR ''k'' # ToLower r
      else lower a # ToLower (b # c # r))"

text \<open>One field of an IPv4 address: at most three digits, no leading zero, at most 255.\<close>

definition ipv4_field :: "string \<Rightarrow> bool" where
  "ipv4_field s \<longleftrightarrow> s \<noteq> [] \<and> length s \<le> 3 \<and> (length s = 1 \<or> hd s \<noteq> CHR ''0'')
     \<and> (case digits_val 0 s of Some n \<Rightarrow> n \<le> 255 | None \<Rightarrow> False)"

fun split_on :: "char \<Rightarrow> string \<Rightarrow> string list" where
  "split_on c [] = [[]]"
| "split_on c (x # xs) =
     (if x = c then [] # split_on c xs
      else case split_on c xs of [] \<Rightarrow> [[x]] | f # fs \<Rightarrow> (x # f) # fs)"

definition parseIPv4 :: "string \<Rightarrow> bool" where
  "parseIPv4 s \<longleftrightarrow> length (split_on (CHR ''.'') s) = 4 \<and> list_all ipv4_field (split_on (CHR ''.'') s)"

definition is_hex :: "char \<Rightarrow> bool" where
  "is_hex c \<longleftrightarrow> is_digit c \<or> CHR ''a'' \<le> c \<and> c \<le> CHR ''f'' \<or> CHR ''A'' \<le> c \<and> c \<le> CHR ''F''"

text \<open>
  The loop over the 16-bit groups of an IPv6 address: \<open>n\<close> groups read so far, whether an ellipsis
  was seen, and the rest. At the end the address is complete, or an ellipsis stands for a group.
\<close>

definition ipv6_end :: "nat \<Rightarrow> bool \<Rightarrow> bool" where
  "ipv6_end n ellipsis \<longleftrightarrow> (if n < 8 then ellipsis else \<not> ellipsis)"

function ipv6_groups :: "nat \<Rightarrow> bool \<Rightarrow> string \<Rightarrow> bool" where
  "ipv6_groups n ellipsis s =
     (if 8 \<le> n then s = [] \<and> ipv6_end n ellipsis
      else
        let group = takeWhile is_hex s; rest = dropWhile is_hex s
        in if group = [] \<or> 4 < length group then False
           else case rest of
             [] \<Rightarrow> ipv6_end (n + 1) ellipsis
           | c # r \<Rightarrow>
               if c = CHR ''.'' then (ellipsis \<or> n = 6) \<and> n \<le> 6 \<and> parseIPv4 s \<and> ipv6_end (n + 2) ellipsis
               else if c \<noteq> CHR '':'' then False
               else case r of
                 [] \<Rightarrow> False
               | d # r' \<Rightarrow>
                   if d = CHR '':'' then
                     \<not> ellipsis \<and> (if r' = [] then ipv6_end (n + 1) True else ipv6_groups (n + 1) True r')
                   else ipv6_groups (n + 1) ellipsis r)"
  by pat_completeness auto
termination
  by (relation "measure (\<lambda>(n, _, _). 8 - n)") auto

declare ipv6_groups.simps [simp del]

definition parseIPv6 :: "string \<Rightarrow> bool" where
  "parseIPv6 s =
     (if take 2 s = ''::'' then drop 2 s = [] \<or> ipv6_groups 0 True (drop 2 s) else ipv6_groups 0 False s)"

text \<open>The first dot, colon or percent sign decides the format; an address with a zone is no \<open>net.IP\<close>.\<close>

definition ParseIP :: "string \<Rightarrow> bool" where
  "ParseIP s =
     (case find (\<lambda>c. c \<in> set ''.:%'') s of
        Some c \<Rightarrow>
          if c = CHR ''.'' then parseIPv4 s
          else if c = CHR '':'' then CHR ''%'' \<notin> set s \<and> parseIPv6 s
          else False
      | None \<Rightarrow> False)"

subsection \<open>Glob patterns\<close>

text \<open>\<open>globMatchAtFold\<close>: the stars at the front are collapsed and the rest is tried at every offset.\<close>

function globMatchAtFold :: "string \<Rightarrow> string \<Rightarrow> bool" where
  "globMatchAtFold pattern name =
     (if pattern = ''*'' then True
      else if pattern = [] then name = []
      else if name = [] then list_all (\<lambda>c. c = CHR ''*'') pattern
      else if hd pattern = CHR ''*'' then
        (let rest = dropWhile (\<lambda>c. c = CHR ''*'') pattern
         in list_ex (\<lambda>i. globMatchAtFold rest (drop i name)) [0..<length name + 1])
      else if hd pattern = CHR ''?'' then globMatchAtFold (tl pattern) (tl name)
      else hd pattern = hd name \<and> globMatchAtFold (tl pattern) (tl name))"
  by pat_completeness auto
termination
proof (relation "measure (\<lambda>(pattern, _). length pattern)", goal_cases)
  case (2 pattern name rest i)
  then have "length (dropWhile (\<lambda>c. c = CHR ''*'') pattern) < length pattern"
    by (cases pattern) (auto simp: le_imp_less_Suc length_dropWhile_le)
  then show ?case using 2 by simp
qed auto

declare globMatchAtFold.simps [simp del]

definition globMatchFold :: "string \<Rightarrow> string \<Rightarrow> bool" where
  "globMatchFold pattern name = globMatchAtFold (ToLower pattern) (ToLower name)"

subsection \<open>The decision\<close>

record serverACL =
  acl_allow_ip_literals :: bool
  acl_allow :: "string list"
  acl_deny :: "string list"

record AclContent =
  ac_allow_ip_literals :: "bool option"
  ac_allow :: "string list"
  ac_deny :: "string list"

definition acl_fields :: "AclContent fields" where
  "acl_fields =
     [(''allow_ip_literals'', fld (dec_ptr False dec_bool) ac_allow_ip_literals ac_allow_ip_literals_update),
      (''allow'', fld (dec_slice [] dec_string) ac_allow ac_allow_update),
      (''deny'', fld (dec_slice [] dec_string) ac_deny ac_deny_update)]"

text \<open>An ACL that cannot be read is none.\<close>

definition parse_acl :: "raw \<Rightarrow> serverACL option" where
  "parse_acl content =
     (let (ok, c) = unmarshal (dec_struct acl_fields)
            \<lparr>ac_allow_ip_literals = None, ac_allow = [], ac_deny = []\<rparr> content
      in if \<not> ok then None
         else Some \<lparr>acl_allow_ip_literals = (case ac_allow_ip_literals c of None \<Rightarrow> True | Some b \<Rightarrow> b),
                    acl_allow = ac_allow c, acl_deny = ac_deny c\<rparr>)"

definition serverACLForRoom :: "Store \<Rightarrow> string \<Rightarrow> serverACL option" where
  "serverACLForRoom s roomID =
     (case TxGetStateEvent s roomID ''m.room.server_acl'' [] of
        None \<Rightarrow> None
      | Some i \<Rightarrow>
          if i = [] then None
          else (case TxGetEvent s i of None \<Rightarrow> None | Some ev \<Rightarrow> parse_acl (er_content ev)))"

definition allDigits :: "string \<Rightarrow> bool" where
  "allDigits s \<longleftrightarrow> list_all is_digit s \<and> s \<noteq> []"

definition strip_port :: "string \<Rightarrow> string" where
  "strip_port server =
     (case last_index_byte (CHR '':'') server of
        None \<Rightarrow> server
      | Some i \<Rightarrow> if i + 1 < length server \<and> allDigits (drop (i + 1) server) then take i server else server)"

definition ip_literal :: "string \<Rightarrow> bool" where
  "ip_literal name \<longleftrightarrow> has_prefix name ''['' \<and> name \<noteq> [] \<and> last name = CHR '']'' \<or> ParseIP name"

definition acl_allows :: "serverACL option \<Rightarrow> string \<Rightarrow> bool" where
  "acl_allows acl server =
     (case acl of
        None \<Rightarrow> True
      | Some a \<Rightarrow>
          let name = strip_port server
          in if \<not> acl_allow_ip_literals a \<and> ip_literal name then False
             else if list_ex (\<lambda>rule. globMatchFold rule name) (acl_deny a) then False
             else list_ex (\<lambda>rule. globMatchFold rule name) (acl_allow a))"

text \<open>\<open>checkServerACL\<close>: whether a request is refused; \<open>origin\<close> is empty where none can be read.\<close>

definition checkServerACL :: "Store \<Rightarrow> string \<Rightarrow> string \<Rightarrow> bool" where
  "checkServerACL s origin roomID \<longleftrightarrow>
     origin \<noteq> [] \<and> serverACLForRoom s roomID \<noteq> None \<and> \<not> acl_allows (serverACLForRoom s roomID) origin"

subsection \<open>What the list decides\<close>

text \<open>The language of a pattern: a star stands for any string, a question mark for one byte.\<close>

inductive glob :: "string \<Rightarrow> string \<Rightarrow> bool" where
  glob_nil: "glob [] []"
| glob_star: "glob p n \<Longrightarrow> glob (CHR ''*'' # p) (pre @ n)"
| glob_any: "glob p n \<Longrightarrow> glob (CHR ''?'' # p) (c # n)"
| glob_char: "glob p n \<Longrightarrow> c \<noteq> CHR ''*'' \<Longrightarrow> c \<noteq> CHR ''?'' \<Longrightarrow> glob (c # p) (c # n)"

inductive_simps glob_Nil: "glob [] n"
inductive_simps glob_Cons: "glob (c # p) n"

lemma glob_star_iff: "glob (CHR ''*'' # p) n \<longleftrightarrow> (\<exists>i \<le> length n. glob p (drop i n))"
proof
  assume "glob (CHR ''*'' # p) n"
  then obtain pre m where "n = pre @ m" "glob p m" by (auto simp: glob_Cons)
  then show "\<exists>i \<le> length n. glob p (drop i n)" by (intro exI [of _ "length pre"]) simp
next
  assume "\<exists>i \<le> length n. glob p (drop i n)"
  then obtain i where "glob p (drop i n)" by blast
  from glob_star [OF this, of "take i n"] show "glob (CHR ''*'' # p) n" by simp
qed

lemma glob_empty_name: "glob p [] \<longleftrightarrow> list_all (\<lambda>c. c = CHR ''*'') p"
  by (induction p) (auto simp: glob_Nil glob_star_iff glob_Cons)

lemma glob_stars:
  "glob (CHR ''*'' # p) n \<longleftrightarrow> (\<exists>i \<le> length n. glob (dropWhile (\<lambda>c. c = CHR ''*'') p) (drop i n))"
proof (induction p)
  case (Cons c p)
  show ?case
  proof (cases "c = CHR ''*''")
    case True
    have "glob (CHR ''*'' # c # p) n \<longleftrightarrow> (\<exists>i \<le> length n. \<exists>j \<le> length (drop i n). glob p (drop j (drop i n)))"
      by (simp add: True glob_star_iff)
    also have "\<dots> \<longleftrightarrow> (\<exists>i \<le> length n. glob p (drop i n))"
    proof
      assume "\<exists>i \<le> length n. \<exists>j \<le> length (drop i n). glob p (drop j (drop i n))"
      then obtain i j where "i \<le> length n" "j \<le> length n - i" "glob p (drop (i + j) n)" by (auto simp: add.commute)
      then show "\<exists>i \<le> length n. glob p (drop i n)" by (intro exI [of _ "i + j"]) simp
    next
      assume "\<exists>i \<le> length n. glob p (drop i n)"
      then show "\<exists>i \<le> length n. \<exists>j \<le> length (drop i n). glob p (drop j (drop i n))"
        by (intro exI [of _ 0]) simp
    qed
    finally show ?thesis using Cons True by (simp add: glob_star_iff)
  qed (simp add: glob_star_iff)
qed (simp add: glob_star_iff)

lemma globMatchAtFold_glob: "globMatchAtFold p n \<longleftrightarrow> glob p n"
proof (induction p n rule: globMatchAtFold.induct)
  case (1 p n)
  show ?case
  proof (cases "p = ''*'' \<or> p = [] \<or> n = []")
    case True
    have "glob ''*'' n" using glob_star [OF glob_nil, of n] by simp
    then show ?thesis using True by (auto simp: globMatchAtFold.simps [of p n] glob_Nil glob_empty_name)
  next
    case False
    then obtain c p' d n' where e: "p = c # p'" "n = d # n'" by (cases p; cases n) auto
    let ?rest = "dropWhile (\<lambda>c. c = CHR ''*'') p"
    show ?thesis
    proof (cases "c = CHR ''*''")
      case True
      then have "globMatchAtFold p n \<longleftrightarrow> list_ex (\<lambda>i. globMatchAtFold ?rest (drop i n)) [0..<length n + 1]"
        using False by (subst globMatchAtFold.simps) (simp add: e Let_def)
      also have "\<dots> \<longleftrightarrow> (\<exists>i \<in> {0..<length n + 1}. globMatchAtFold ?rest (drop i n))"
        by (simp only: list_ex_iff set_upt)
      also have "\<dots> \<longleftrightarrow> (\<exists>i \<in> {0..<length n + 1}. glob ?rest (drop i n))"
      proof (intro bex_cong refl)
        fix i assume "i \<in> {0..<length n + 1}"
        then have "i \<in> set [0..<length n + 1]" by (simp only: set_upt)
        moreover have "\<not> p = ''*''" "\<not> p = []" "\<not> n = []" "hd p = CHR ''*''" using False True e by auto
        ultimately show "globMatchAtFold ?rest (drop i n) \<longleftrightarrow> glob ?rest (drop i n)" using 1(1) by blast
      qed
      also have "\<dots> \<longleftrightarrow> (\<exists>i \<le> length n. glob ?rest (drop i n))" by (auto simp: less_Suc_eq_le)
      also have "\<dots> \<longleftrightarrow> glob p n" using glob_stars [of p' n] True by (simp add: e)
      finally show ?thesis .
    next
      case star: False
      then show ?thesis
        using 1(2,3) False by (subst globMatchAtFold.simps) (auto simp: e glob_Cons)
    qed
  qed
qed

definition listed :: "string list \<Rightarrow> string \<Rightarrow> bool" where
  "listed patterns name \<longleftrightarrow> (\<exists>p \<in> set patterns. glob (ToLower p) (ToLower name))"

text \<open>
  C23: A room's access control list admits exactly the servers that no \<open>deny\<close> pattern matches and some
  \<open>allow\<close> pattern does, in the usual reading of the patterns, without regard to case and port, and
  that are no IP literal where those are excluded.
\<close>

theorem acl_decision:
  "acl_allows (Some a) server \<longleftrightarrow>
     (if acl_allow_ip_literals a then True else \<not> ip_literal (strip_port server))
     \<and> \<not> listed (acl_deny a) (strip_port server) \<and> listed (acl_allow a) (strip_port server)"
  by (auto simp: acl_allows_def Let_def list_ex_iff globMatchFold_def globMatchAtFold_glob listed_def)

text \<open>A list with a flag that is no boolean is no list: it admits every server.\<close>

lemma bad_flag_disables_acl:
  "parse_acl (Some (JObj [(''allow_ip_literals'', JStr x), (''allow'', JArr []), (''deny'', JArr [JStr ''*''])])) = None"
  by code_simp

end
