(* ===== verification/Fed_Ingest.thy ===== *)
theory Fed_Ingest
  imports Fed_Verify Room_Tables Event_State Server_Acl
begin

section \<open>Events fetched from other servers (\<open>federation/pdus.go\<close>)\<close>

text \<open>
  How an event another server hands over is verified, judged and stored: \<open>persistVerifiedPDU\<close> for the
  events of \<open>get_missing_events\<close> and \<open>event_auth\<close>, and the reconciliation of a room's state with a
  \<open>state_ids\<close> snapshot. What the other servers answer, their published keys, SHA-256 and ed25519 are
  the fields of \<open>Peers\<close>: each request is made once per event, so an answer is a function of the request.
  The writers of a room take turns (\<open>ingestMu\<close>, the room's stripe lock); an event's processing is one
  function of the state here. What the code asks of components that keep no table of \<open>Store\<close> is recorded in
  order in \<open>sv_calls\<close>.
\<close>

subsection \<open>The server and its peers\<close>

record Peers =
  own_server :: string
  own_key :: SigningKey
  clock :: int
  sha256 :: "string \<Rightarrow> string"
  ed_sign :: "string \<Rightarrow> string \<Rightarrow> string"
  ed_verify :: "string \<Rightarrow> string \<Rightarrow> string \<Rightarrow> bool"
  random_localpart :: "string \<Rightarrow> string"
  published_keys :: "string \<Rightarrow> string \<Rightarrow> string option"
  missing_events :: "string \<Rightarrow> string \<Rightarrow> string list \<Rightarrow> string \<Rightarrow> json list option"
  missing_state_dag :: "string \<Rightarrow> string \<Rightarrow> string list \<Rightarrow> string \<Rightarrow> int \<Rightarrow> json list option"
  event_auth :: "string \<Rightarrow> string \<Rightarrow> string \<Rightarrow> json list option"
  state_ids :: "string \<Rightarrow> string \<Rightarrow> string \<Rightarrow> (string list \<times> string list) option"
  get_event :: "string \<Rightarrow> string \<Rightarrow> json option"

text \<open>
  The calls into push notification, the sync notifier, device lists, push rules, account data, application services and
  outbound delivery. \<open>sv_txns\<close> holds the handled transactions of other servers, \<open>sv_client_txns\<close> the events that answered the
  transactions of clients (\<open>event_txns\<close>).
\<close>

datatype call =
    NotifyInbound string string int bool
  | NotifyUsers "string list"
  | RemoteMembershipNotify string string string
  | NotifyRoomMembers string
  | EvictRemoteDeviceList string
  | CopyRulesForRoom "string list" string string
  | CopyTags string string string
  | BroadcastPDUToRoom string string
  | NoteDestinationAlive string
  | HandleEDU string json
  | DeliverPush string string int
  | RecordDeviceListChange string bool
  | BroadcastDeviceListForUser string
  | BroadcastDeviceListDelete string string
  | SaveStrippedState string string
  | QueryAppServiceUser string
  | QueueInvite string string string
  | BroadcastPDUToRoomExcept string string string
  | RecordDeviceListJoin string
  | KeepStripped string "json list"

record Server =
  sv_store :: Store
  sv_partial_events :: "(string \<times> string) list"
  sv_guests :: "string list"
  sv_txns :: "(string \<times> string) list"
  sv_client_txns :: "((string \<times> string \<times> string) \<times> string) list"
  sv_calls :: "call list"

abbreviation on_store :: "(Store \<Rightarrow> Store) \<Rightarrow> Server \<Rightarrow> Server" where
  "on_store f sv \<equiv> sv\<lparr>sv_store := f (sv_store sv)\<rparr>"

definition log_call :: "call \<Rightarrow> Server \<Rightarrow> Server" where
  "log_call c sv = sv\<lparr>sv_calls := sv_calls sv @ [c]\<rparr>"

definition IsLocalUser :: "Peers \<Rightarrow> string \<Rightarrow> bool" where
  "IsLocalUser p userID =
     (case index_byte (CHR '':'') userID of None \<Rightarrow> False | Some i \<Rightarrow> drop (i + 1) userID = own_server p)"

definition verify :: "Peers \<Rightarrow> json \<Rightarrow> Version \<Rightarrow> VerifyResult" where
  "verify p j version = Verify (sha256 p) (published_keys p) (ed_verify p) j version"

subsection \<open>Reading an event\<close>

record PDU =
  pdu_event_id :: string
  pdu_room_id :: string
  pdu_type :: string
  pdu_sender :: string
  pdu_depth :: int
  pdu_ts :: int
  pdu_content :: raw
  pdu_redacts :: string
  pdu_state_key :: "string option"
  pdu_signatures :: signatures

definition pdu_fields :: "PDU fields" where
  "pdu_fields =
     [(''event_id'', fld dec_string pdu_event_id pdu_event_id_update),
      (''room_id'', fld dec_string pdu_room_id pdu_room_id_update),
      (''type'', fld dec_string pdu_type pdu_type_update),
      (''sender'', fld dec_string pdu_sender pdu_sender_update),
      (''depth'', fld dec_int64 pdu_depth pdu_depth_update),
      (''origin_server_ts'', fld dec_int64 pdu_ts pdu_ts_update),
      (''content'', fld dec_raw pdu_content pdu_content_update),
      (''redacts'', fld dec_string pdu_redacts pdu_redacts_update),
      (''state_key'', fld (dec_ptr [] dec_string) pdu_state_key pdu_state_key_update)]"

definition zero_pdu :: PDU where
  "zero_pdu = \<lparr>pdu_event_id = [], pdu_room_id = [], pdu_type = [], pdu_sender = [], pdu_depth = 0, pdu_ts = 0,
     pdu_content = None, pdu_redacts = [], pdu_state_key = None, pdu_signatures = []\<rparr>"

definition read_pdu :: "json \<Rightarrow> PDU option" where
  "read_pdu j = (let (ok, ev) = dec_struct pdu_fields j zero_pdu in if ok then Some ev else None)"

definition pdu_key :: "PDU \<Rightarrow> string" where
  "pdu_key ev = (case pdu_state_key ev of None \<Rightarrow> [] | Some k \<Rightarrow> k)"

definition pdu_row :: "string \<Rightarrow> string \<Rightarrow> json \<Rightarrow> PDU \<Rightarrow> EventRow" where
  "pdu_row eventID roomID j ev =
     \<lparr>er_event_id = eventID, er_room_id = roomID, er_room_version = [], er_type = pdu_type ev,
      er_state_key = pdu_key ev, er_sender = pdu_sender ev, er_depth = pdu_depth ev,
      er_origin_server_ts = pdu_ts ev, er_stream = 0, er_content = pdu_content ev, er_json = j,
      er_redacts = pdu_redacts ev, er_redacted = False, er_redacted_by = [], er_outlier = False,
      er_prev_events = None\<rparr>"

definition authEventIDsFromRaw :: "json \<Rightarrow> string list" where
  "authEventIDsFromRaw j =
     (let (ok, auth) = dec_struct [(''auth_events'', dec_raw)] j None
      in if \<not> ok then []
         else case auth of
           None \<Rightarrow> []
         | Some v \<Rightarrow>
             (let (ok1, is) = dec_slice [] dec_string v []
              in if ok1 then is
                 else let (ok2, pairs) = dec_slice [] (dec_slice None dec_raw) v []
                      in if \<not> ok2 then []
                         else concat (map (\<lambda>p. case p of
                                [] \<Rightarrow> []
                              | x # _ \<Rightarrow> (let (ok3, i) = unmarshal dec_string [] x in if ok3 then [i] else [])) pairs)))"

text \<open>\<open>prevEventIDs\<close> is \<open>ParsePrevEvents\<close> written a second time.\<close>

abbreviation prevEventIDs :: "json \<Rightarrow> string list" where
  "prevEventIDs \<equiv> ParsePrevEvents"

definition hasUnknownPrevEvents :: "Store \<Rightarrow> json \<Rightarrow> bool" where
  "hasUnknownPrevEvents s j =
     (prevEventIDs j \<noteq> [] \<and> length (TxEventsByIDs s (prevEventIDs j)) \<noteq> length (prevEventIDs j))"

definition hasUnknownAuthEvents :: "Store \<Rightarrow> json \<Rightarrow> bool" where
  "hasUnknownAuthEvents s j =
     (authEventIDsFromRaw j \<noteq> []
      \<and> length (TxEventsByIDs s (authEventIDsFromRaw j)) \<noteq> length (authEventIDsFromRaw j))"

definition authReferencesRejected :: "Store \<Rightarrow> json \<Rightarrow> bool" where
  "authReferencesRejected s j = (TxRejectedEventIDs s (authEventIDsFromRaw j) \<noteq> [])"

definition authInOtherRoom :: "Store \<Rightarrow> string \<Rightarrow> json \<Rightarrow> bool" where
  "authInOtherRoom s roomID j =
     list_ex (\<lambda>aid. case TxGetEvent s aid of
                     None \<Rightarrow> False
                   | Some aev \<Rightarrow> er_room_id aev \<noteq> [] \<and> er_room_id aev \<noteq> roomID) (authEventIDsFromRaw j)"

text \<open>
  The walk behind the known ancestors: \<open>seen\<close> are the IDs taken off the queue, \<open>n\<close> how many more may
  be, of the 5000 the code allows. The result is the first unknown ancestor.
\<close>

function frontier_walk :: "Store \<Rightarrow> nat \<Rightarrow> string list \<Rightarrow> string list \<Rightarrow> string" where
  "frontier_walk s n seen [] = []"
| "frontier_walk s n seen (i # queue) =
     (if i = [] \<or> i \<in> set seen then frontier_walk s n seen queue
      else case n of
        0 \<Rightarrow> []
      | Suc m \<Rightarrow>
          (case TxGetEvent s i of
             None \<Rightarrow> i
           | Some e \<Rightarrow> frontier_walk s m (i # seen) (queue @ prevEventIDs (er_json e))))"
  by pat_completeness auto
termination
  by (relation "measures [\<lambda>(s, n, seen, queue). n, \<lambda>(s, n, seen, queue). length queue]") auto

definition unknownDeepFrontier :: "Store \<Rightarrow> json \<Rightarrow> string" where
  "unknownDeepFrontier s j = frontier_walk s 5000 [] (prevEventIDs j)"

subsection \<open>The state an event is judged against\<close>

definition state_raw :: "Store \<Rightarrow> string \<Rightarrow> string \<Rightarrow> string \<Rightarrow> raw" where
  "state_raw s roomID typ sk = (case state_content s roomID typ sk of None \<Rightarrow> None | Some ev \<Rightarrow> er_content ev)"

text \<open>The member content that may name a third-party invite: the event's own, the target's, or the sender's.\<close>

definition member_of_raw :: "raw \<Rightarrow> MemberContent option" where
  "member_of_raw r = (case r of None \<Rightarrow> None | Some _ \<Rightarrow> (case ParseMember r of Inl _ \<Rightarrow> None | Inr mc \<Rightarrow> Some mc))"

definition memberStateSnapshotCtx :: "Store \<Rightarrow> string \<Rightarrow> string \<Rightarrow> string \<Rightarrow> raw \<Rightarrow> StateSnapshot" where
  "memberStateSnapshotCtx s roomID sender target content =
     (let st = zero_snapshot\<lparr>
            ss_create := state_raw s roomID ''m.room.create'' [],
            ss_create_sender := (case state_content s roomID ''m.room.create'' [] of
                                   None \<Rightarrow> [] | Some ev \<Rightarrow> er_sender ev),
            ss_join_rules := state_raw s roomID ''m.room.join_rules'' [],
            ss_power_level := state_raw s roomID ''m.room.power_levels'' [],
            ss_guest_access := state_raw s roomID ''m.room.guest_access'' [],
            ss_sender_member := state_raw s roomID ''m.room.member'' sender,
            ss_target_member := (if target \<noteq> sender \<and> target \<noteq> []
                                 then state_raw s roomID ''m.room.member'' target else None)\<rparr>;
          mc = (case member_of_raw content of
                  Some mc \<Rightarrow> Some mc
                | None \<Rightarrow> (case member_of_raw (ss_target_member st) of
                    Some mc \<Rightarrow> Some mc
                  | None \<Rightarrow> member_of_raw (ss_sender_member st)));
          token = (case mc of
                     None \<Rightarrow> []
                   | Some mc \<Rightarrow> (case mc_third_party mc of None \<Rightarrow> [] | Some tp \<Rightarrow> signed_token tp))
      in if token = [] then st
         else st\<lparr>ss_third_party_invite := state_raw s roomID ''m.room.third_party_invite'' token\<rparr>)"

subsection \<open>Memberships and redactions of an inbound event\<close>

record MemberFields =
  mf_membership :: string
  mf_displayname :: string
  mf_avatar_url :: string

definition member_row_fields :: "MemberFields fields" where
  "member_row_fields =
     [(''membership'', fld dec_string mf_membership mf_membership_update),
      (''displayname'', fld dec_string mf_displayname mf_displayname_update),
      (''avatar_url'', fld dec_string mf_avatar_url mf_avatar_url_update)]"

text \<open>The row carries the depth as stream position until the insertion sets the event's.\<close>

definition membershipRowFromContent :: "string \<Rightarrow> string \<Rightarrow> raw \<Rightarrow> string \<Rightarrow> int \<Rightarrow> MembershipRow option" where
  "membershipRowFromContent roomID userID content eventID depth =
     (let (ok, mc) = unmarshal (dec_struct member_row_fields)
            \<lparr>mf_membership = [], mf_displayname = [], mf_avatar_url = []\<rparr> content
      in if \<not> ok \<or> mf_membership mc = [] then None
         else Some \<lparr>mr_room_id = roomID, mr_user_id = userID, mr_membership = mf_membership mc,
                mr_event_id = eventID, mr_display_name = mf_displayname mc, mr_avatar_url = mf_avatar_url mc,
                mr_forgotten = False, mr_stream = depth, mr_depth = depth\<rparr>)"

text \<open>The membership of a content, also when decoding it fails on the way.\<close>

definition loose_membership :: "raw \<Rightarrow> string" where
  "loose_membership content = snd (unmarshal (dec_struct (str_field ''membership'')) [] content)"

definition applyRemoteMembership :: "string \<Rightarrow> string \<Rightarrow> raw \<Rightarrow> string \<Rightarrow> int \<Rightarrow> Server \<Rightarrow> Server" where
  "applyRemoteMembership roomID userID content eventID depth sv =
     (case membershipRowFromContent roomID userID content eventID depth of
        None \<Rightarrow> sv
      | Some row \<Rightarrow>
          let stream = (case TxGetEvent (sv_store sv) eventID of None \<Rightarrow> depth | Some ev \<Rightarrow> er_stream ev)
          in log_call (RemoteMembershipNotify roomID userID (mr_membership row))
               (on_store (\<lambda>s. UpsertMembership s (row\<lparr>mr_stream := stream\<rparr>)) sv))"

text \<open>A redaction applies to its target; any other event looks for a redaction of it that came before.\<close>

definition apply_redactions :: "PDU \<Rightarrow> EventRow \<Rightarrow> Store \<Rightarrow> Store" where
  "apply_redactions ev row s =
     (if pdu_redacts ev \<noteq> [] \<and> pdu_type ev = ''m.room.redaction'' then snd (ApplyRedaction s row)
      else if pdu_redacts ev = [] \<and> pdu_type ev \<noteq> ''m.room.redaction''
      then (case RedactionForEvent s (er_event_id row) of
              None \<Rightarrow> s | Some red \<Rightarrow> snd (ApplyRedaction s red))
      else s)"

text \<open>The insertion fails on an event without a content, which the column refuses.\<close>

definition insert_pdu :: "Store \<Rightarrow> EventRow \<Rightarrow> MembershipRow option \<Rightarrow> bool \<Rightarrow> (Store \<times> int) option" where
  "insert_pdu s row m maintainExtremities =
     (if er_content row = None then None else Some (InsertEventWithMembership s row m maintainExtremities))"

end
