(* ===== verification/Fed_Fetch.thy ===== *)
theory Fed_Fetch
  imports Fed_Ingest
begin

section \<open>Filling gaps and reconciling state (\<open>federation/pdus.go\<close>, \<open>federation/statedag.go\<close>)\<close>

text \<open>
  The events fetched from another server: those of a state DAG in topological order, those of a gap, of an
  auth chain, and of a \<open>state_ids\<close> snapshot. A Go map is walked in the order of its keys here; the code
  leaves that order open.
\<close>

subsection \<open>Events of a state DAG\<close>

datatype stateDAGVerdict = stateDAGAccepted | stateDAGRejected | stateDAGMissing

definition parseStateDAGPDU :: "Peers \<Rightarrow> string \<Rightarrow> Rules \<Rightarrow> json \<Rightarrow> Event option" where
  "parseStateDAGPDU p roomID rules j =
     (case unmarshal_obj j of
        None \<Rightarrow> None
      | Some members \<Rightarrow>
          if gm_get members ''auth_events'' \<noteq> None then None
          else case New j (Version rules) of
            Inl _ \<Rightarrow> None
          | Inr ev \<Rightarrow>
              if gm_get (ev_fields ev) ''prev_state_events'' = None then None
              else if stringField ev ''type'' \<noteq> ''m.room.create'' \<and> stringField ev ''room_id'' \<noteq> roomID then None
              else
                let res = verify p j (Version rules)
                in if vr_err res \<noteq> None \<or> \<not> vr_signed res \<or> \<not> vr_valid res then None else Some ev)"

definition stateDAGRow :: "Peers \<Rightarrow> string \<Rightarrow> Event \<Rightarrow> bool \<Rightarrow> EventRow" where
  "stateDAGRow p roomID ev outlier =
     \<lparr>er_event_id = EventID (sha256 p) ev, er_room_id = roomID, er_room_version = [],
      er_type = stringField ev ''type'', er_state_key = (case StateKey ev of None \<Rightarrow> [] | Some k \<Rightarrow> k),
      er_sender = stringField ev ''sender'', er_depth = Depth ev, er_origin_server_ts = OriginServerTS ev,
      er_stream = 0, er_content = Some (Content ev), er_json = ev_raw ev, er_redacts = stringField ev ''redacts'',
      er_redacted = False, er_redacted_by = [], er_outlier = outlier,
      er_prev_events = Some (PrevEvents ev)\<rparr>"

text \<open>
  \<open>applyStateDAGEvent\<close>: the event's verdict, stored when it is not missing. The row's stream position is
  the one the insertion gives.
\<close>

definition applyStateDAGEvent :: "Peers \<Rightarrow> string \<Rightarrow> Rules \<Rightarrow> Event \<Rightarrow> bool \<Rightarrow> Store \<Rightarrow> stateDAGVerdict \<times> Store" where
  "applyStateDAGEvent p roomID rules ev outlier s =
     (let check = CheckStateDAGEvent (ed_verify p) s ev False False
      in if check = Inl ErrMissingPrevState then (stateDAGMissing, s)
         else
           let row = stateDAGRow p roomID ev outlier;
               (s1, stream) = InsertEventWithMembership s row None False
           in case check of
                Inl _ \<Rightarrow> (stateDAGRejected, MarkEventRejected s1 (er_event_id row))
              | Inr _ \<Rightarrow>
                  (let s2 = IndexRelationFromRow s1 (row\<lparr>er_stream := stream\<rparr>);
                       (err, s3) = Maintain (row\<lparr>er_stream := stream\<rparr>) rules s2
                   in if err \<noteq> None then (stateDAGRejected, MarkEventRejected s3 (er_event_id row))
                      else (stateDAGAccepted, s3)))"

text \<open>
  Kahn's algorithm: \<open>indeg\<close> counts the references of each event into the batch, \<open>ready\<close> holds the events
  without open references. A reference that is listed twice is counted and released twice.
\<close>

definition dag_parents :: "Event gomap \<Rightarrow> Event \<Rightarrow> string list" where
  "dag_parents byID ev = filter (\<lambda>q. q \<in> fst ` set byID) (PrevStateEvents ev)"

definition dag_children :: "Event gomap \<Rightarrow> string \<Rightarrow> string list" where
  "dag_children byID q =
     concat (map (\<lambda>(i, ev). map (\<lambda>_. i) (filter (\<lambda>r. r = q) (dag_parents byID ev))) byID)"

fun release :: "(string \<times> int) list \<Rightarrow> string list \<Rightarrow> (string \<times> int) list \<times> string list" where
  "release indeg [] = (indeg, [])"
| "release indeg (c # cs) =
     (let indeg1 = map (\<lambda>(i, n). if i = c then (i, n - 1) else (i, n)) indeg;
          (indeg2, ready) = release indeg1 cs
      in (indeg2, (if map_of indeg1 c = Some 0 then c # ready else ready)))"

definition open_refs :: "(string \<times> int) list \<Rightarrow> nat" where
  "open_refs indeg = sum_list (map (\<lambda>e. nat (snd e)) indeg)"

lemma open_refs_step:
  "open_refs (map (\<lambda>(i, n). if i = c then (i, n - 1) else (i, n)) indeg)
     + (if map_of (map (\<lambda>(i, n). if i = c then (i, n - 1) else (i, n)) indeg) c = Some 0 then 1 else 0)
   \<le> open_refs indeg"
proof (induction indeg)
  case Nil
  show ?case by (simp add: open_refs_def)
next
  case (Cons e indeg)
  obtain i n where e: "e = (i, n)" by (cases e)
  have mono: "open_refs (map (\<lambda>(i, n). if i = c then (i, n - 1) else (i, n)) xs) \<le> open_refs xs" for xs
    unfolding open_refs_def map_map comp_def by (rule sum_list_mono) auto
  show ?case using Cons mono [of indeg] by (cases "i = c") (auto simp: e open_refs_def)
qed

lemma release_measure: "release indeg cs = (indeg', new) \<Longrightarrow> open_refs indeg' + length new \<le> open_refs indeg"
proof (induction indeg cs arbitrary: indeg' new rule: release.induct)
  case (2 indeg c cs)
  let ?i = "map (\<lambda>(i, n). if i = c then (i, n - 1) else (i, n)) indeg"
  obtain j r where r: "release ?i cs = (j, r)" by fastforce
  then have "open_refs j + length r \<le> open_refs ?i" using 2 by simp
  moreover have "indeg' = j" "new = (if map_of ?i c = Some 0 then c # r else r)" using 2(2) r by simp_all
  ultimately show ?case using open_refs_step [of c indeg] by (auto split: if_splits)
qed simp

definition dag_order :: "Event gomap \<Rightarrow> string \<Rightarrow> int \<times> string" where
  "dag_order byID i = ((case gm_get byID i of None \<Rightarrow> 0 | Some ev \<Rightarrow> Depth ev), i)"

function topo_loop :: "Event gomap \<Rightarrow> (string \<times> int) list \<Rightarrow> string list \<Rightarrow> string list" where
  "topo_loop byID indeg ready =
     (case sort_key (dag_order byID) ready of
        [] \<Rightarrow> []
      | i # rest \<Rightarrow>
          (let (indeg1, new) = release indeg (dag_children byID i)
           in i # topo_loop byID indeg1 (rest @ new)))"
  by pat_completeness auto
termination
proof (relation "measure (\<lambda>(byID, indeg, ready). open_refs indeg + length ready)", goal_cases)
  case (2 byID indeg ready i rest r indeg1 new)
  then have "length ready = Suc (length rest)" by (metis length_Cons length_sort)
  moreover have "open_refs indeg1 + length new \<le> open_refs indeg"
    using 2 release_measure [of indeg "dag_children byID i"] by simp
  ultimately show ?case by simp
qed simp

declare topo_loop.simps [simp del]

definition topoSortStateDAG :: "Event gomap \<Rightarrow> Event list" where
  "topoSortStateDAG byID =
     (let indeg = map (\<lambda>(i, ev). (i, int (length (dag_parents byID ev)))) byID;
          ready = map fst (filter (\<lambda>e. snd e = 0) indeg)
      in map (\<lambda>i. the (gm_get byID i)) (topo_loop byID indeg ready))"

text \<open>A batch: the events held already keep their verdict, the others are applied in order.\<close>

definition batch_events :: "Peers \<Rightarrow> string \<Rightarrow> Rules \<Rightarrow> json list \<Rightarrow> Event gomap" where
  "batch_events p roomID rules js =
     fold (\<lambda>j m. case parseStateDAGPDU p roomID rules j of
                   None \<Rightarrow> m | Some ev \<Rightarrow> gm_put (EventID (sha256 p) ev) ev m) js []"

definition apply_one :: "Peers \<Rightarrow> string \<Rightarrow> Rules \<Rightarrow> Event \<Rightarrow> stateDAGVerdict gomap \<times> Store
     \<Rightarrow> stateDAGVerdict gomap \<times> Store" where
  "apply_one p roomID rules ev = (\<lambda>(verdicts, s).
     let (v, s1) = applyStateDAGEvent p roomID rules ev True s
     in (gm_put (EventID (sha256 p) ev) v verdicts, s1))"

definition applyStateDAGEvents :: "Peers \<Rightarrow> string \<Rightarrow> Rules \<Rightarrow> json list \<Rightarrow> Store \<Rightarrow> stateDAGVerdict gomap \<times> Store" where
  "applyStateDAGEvents p roomID rules js s =
     (let byID = batch_events p roomID rules js;
          known = map er_event_id (TxEventsByIDs s (map fst byID));
          verdicts = gm_of (map (\<lambda>i. (i, if IsEventRejected s i then stateDAGRejected else stateDAGAccepted)) known);
          new = filter (\<lambda>e. fst e \<notin> set known) byID
      in fold (apply_one p roomID rules) (topoSortStateDAG new) (verdicts, s))"

text \<open>\<open>fillStateDAG\<close>: at most eight rounds, the limit doubling; \<open>earliest\<close> stays what it was at the start.\<close>

fun fill_rounds :: "Peers \<Rightarrow> string \<Rightarrow> Rules \<Rightarrow> string \<Rightarrow> string \<Rightarrow> string list \<Rightarrow> nat \<Rightarrow> int \<Rightarrow> Store \<Rightarrow> Store" where
  "fill_rounds p roomID rules eventID origin earliest 0 limit s = s"
| "fill_rounds p roomID rules eventID origin earliest (Suc n) limit s =
     (case missing_state_dag p origin roomID earliest eventID limit of
        None \<Rightarrow> s
      | Some [] \<Rightarrow> s
      | Some evs \<Rightarrow>
          (let (verdicts, s1) = applyStateDAGEvents p roomID rules evs s
           in if list_ex (\<lambda>v. snd v = stateDAGMissing) verdicts
              then fill_rounds p roomID rules eventID origin earliest n (limit * 2) s1 else s1))"

definition stateDAGFillRounds :: nat where "stateDAGFillRounds = 8"

definition fillStateDAG :: "Peers \<Rightarrow> string \<Rightarrow> Rules \<Rightarrow> string \<Rightarrow> string \<Rightarrow> Store \<Rightarrow> Store" where
  "fillStateDAG p roomID rules eventID origin s =
     fill_rounds p roomID rules eventID origin (TxStateDAGExtremities s roomID) stateDAGFillRounds 10 s"

subsection \<open>One fetched event\<close>

datatype persist_error =
    PduSyntax | WrongRoom | InvalidStateDAGEvent | MissingPrevState | VerificationFailedPDU | NotCanonical
  | NoEventID | InsertFailed

text \<open>The verdict on a fetched event, before it is stored.\<close>

definition fetched_rejected :: "Peers \<Rightarrow> string \<Rightarrow> Rules \<Rightarrow> json \<Rightarrow> PDU \<Rightarrow> bool \<Rightarrow> Store \<Rightarrow> bool" where
  "fetched_rejected p roomID rules j ev authorize s =
     (if authReferencesRejected s j \<or> authInOtherRoom s roomID j then True
      else authorize
        \<and> (case Authorize (ed_verify p) rules (pdu_type ev) (pdu_key ev) (pdu_sender ev) (pdu_content ev)
                 (memberStateSnapshotCtx s roomID (pdu_sender ev) (pdu_key ev) (pdu_content ev))
                 (pdu_state_key ev \<noteq> None) of
              Inl _ \<Rightarrow> True | Inr _ \<Rightarrow> False))"

text \<open>What follows the insertion of a fetched event.\<close>

definition after_fetched :: "string \<Rightarrow> Rules \<Rightarrow> json \<Rightarrow> PDU \<Rightarrow> EventRow \<Rightarrow> bool \<Rightarrow> Server \<Rightarrow> Server" where
  "after_fetched roomID rules j ev row rejected sv =
     (let s0 = sv_store sv;
          s1 = (if rejected then MarkEventRejected s0 (er_event_id row) else s0);
          s2 = (if hasUnknownPrevEvents s1 j then RecordTimelineGap s1 roomID (er_stream row) else s1);
          s3 = IndexRelationFromRow (apply_redactions ev row s2) row
      in if rejected then sv\<lparr>sv_store := s3\<rparr>
         else
           let sv4 = sv\<lparr>sv_store := snd (Maintain row rules s3)\<rparr>
           in (case pdu_state_key ev of
                 None \<Rightarrow> sv4
               | Some k \<Rightarrow>
                   if pdu_type ev = ''m.room.member''
                   then applyRemoteMembership roomID k (pdu_content ev) (er_event_id row) (pdu_depth ev) sv4
                   else sv4))"

definition persistVerifiedPDU ::
  "Peers \<Rightarrow> string \<Rightarrow> Version \<Rightarrow> Rules \<Rightarrow> json \<Rightarrow> bool \<Rightarrow> Server \<Rightarrow> persist_error option \<times> Server" where
  "persistVerifiedPDU p roomID version rules j authorize sv =
     (case read_pdu j of
        None \<Rightarrow> (Some PduSyntax, sv)
      | Some ev \<Rightarrow>
          if pdu_room_id ev \<noteq> [] \<and> pdu_room_id ev \<noteq> roomID then (Some WrongRoom, sv)
          else if StateDAGs rules then
            (case parseStateDAGPDU p roomID rules j of
               None \<Rightarrow> (Some InvalidStateDAGEvent, sv)
             | Some sev \<Rightarrow>
                 (let (v, s1) = applyStateDAGEvent p roomID rules sev (\<not> authorize) (sv_store sv)
                  in (if v = stateDAGMissing then Some MissingPrevState else None, sv\<lparr>sv_store := s1\<rparr>)))
          else if \<not> passes (verify p j version) then (Some VerificationFailedPDU, sv)
          else if authorize \<and> AtLeast version 6 \<and> isl (Canonical j) then (Some NotCanonical, sv)
          else
            let eventID = (if pdu_event_id ev \<noteq> [] then pdu_event_id ev else vr_event_id (verify p j version))
            in if eventID = [] then (Some NoEventID, sv)
               else
                 let row = pdu_row eventID roomID j ev;
                     rejected = fetched_rejected p roomID rules j ev authorize (sv_store sv)
                 in case insert_pdu (sv_store sv) row None (\<not> rejected) of
                      None \<Rightarrow> (Some InsertFailed, sv)
                    | Some (s1, stream) \<Rightarrow>
                        (None, after_fetched roomID rules j ev (row\<lparr>er_stream := stream\<rparr>) rejected
                                 (sv\<lparr>sv_store := s1\<rparr>)))"

subsection \<open>Filling a gap\<close>

definition eventIDOf :: "Peers \<Rightarrow> Version \<Rightarrow> json \<Rightarrow> string" where
  "eventIDOf p version j =
     (let i = snd (dec_struct (str_field ''event_id'') j [])
      in if i \<noteq> [] then i else vr_event_id (verify p j version))"

text \<open>The first pass: an event is poison when it is not canonical or does not verify.\<close>

definition is_poison :: "Peers \<Rightarrow> Version \<Rightarrow> json \<Rightarrow> bool" where
  "is_poison p version j \<longleftrightarrow> AtLeast version 6 \<and> isl (Canonical j) \<or> \<not> passes (verify p j version)"

definition poison_ids :: "Peers \<Rightarrow> Version \<Rightarrow> json list \<Rightarrow> string list" where
  "poison_ids p version js =
     filter (\<lambda>i. i \<noteq> []) (map (eventIDOf p version) (filter (is_poison p version) js))"

definition valid_ids :: "Peers \<Rightarrow> Version \<Rightarrow> json list \<Rightarrow> string list" where
  "valid_ids p version js =
     filter (\<lambda>i. i \<noteq> []) (map (eventIDOf p version) (filter (\<lambda>j. \<not> is_poison p version j) js))"

definition keep_fetched :: "Peers \<Rightarrow> Version \<Rightarrow> json list \<Rightarrow> json \<Rightarrow> bool" where
  "keep_fetched p version js j \<longleftrightarrow>
     eventIDOf p version j \<in> set (valid_ids p version js)
     \<and> (\<forall>prev \<in> set (prevEventIDs j). prev \<notin> set (poison_ids p version js))"

definition fetchMissingEventsFor :: "Peers \<Rightarrow> string \<Rightarrow> string \<Rightarrow> string \<Rightarrow> Server \<Rightarrow> Server" where
  "fetchMissingEventsFor p roomID eventID origin sv =
     (if origin = [] \<or> origin = own_server p then sv
      else case LatestEvent (sv_store sv) roomID of
        None \<Rightarrow> sv
      | Some latest \<Rightarrow>
          let exts = map fe_event_id (TxForwardExtremities (sv_store sv) roomID);
              earliest = (if exts = [] then [er_event_id latest] else exts)
          in case missing_events p origin roomID earliest eventID of
               None \<Rightarrow> sv
             | Some js \<Rightarrow>
                 (case GetRoom (sv_store sv) roomID of
                    None \<Rightarrow> sv
                  | Some room \<Rightarrow>
                      (case Get (rr_version room) of
                         None \<Rightarrow> sv
                       | Some rules \<Rightarrow>
                           fold (\<lambda>j sv. snd (persistVerifiedPDU p roomID (rr_version room) rules j True sv))
                             (filter (keep_fetched p (rr_version room) js) js) sv)))"

definition firstUnknownPrev :: "Store \<Rightarrow> json \<Rightarrow> string" where
  "firstUnknownPrev s j =
     (case find (\<lambda>i. i \<noteq> [] \<and> TxGetEvent s i = None) (prevEventIDs j) of None \<Rightarrow> [] | Some i \<Rightarrow> i)"

definition fetchAuthChainFor :: "Peers \<Rightarrow> string \<Rightarrow> string \<Rightarrow> string \<Rightarrow> Server \<Rightarrow> Server" where
  "fetchAuthChainFor p roomID eventID origin sv =
     (if origin = [] \<or> origin = own_server p then sv
      else case event_auth p origin roomID eventID of
        None \<Rightarrow> sv
      | Some js \<Rightarrow>
          (case GetRoom (sv_store sv) roomID of
             None \<Rightarrow> sv
           | Some room \<Rightarrow>
               (case Get (rr_version room) of
                  None \<Rightarrow> sv
                | Some rules \<Rightarrow>
                    fold (\<lambda>j sv. snd (persistVerifiedPDU p roomID (rr_version room) rules j False sv)) js sv)))"

end
