(* ===== verification/Fed_Reconcile.thy ===== *)
theory Fed_Reconcile
  imports Fed_Fetch
begin

section \<open>Reconciling a room's state (\<open>federation/pdus.go\<close>)\<close>

text \<open>
  \<open>reconcileStateFrom\<close>: a \<open>state_ids\<close> snapshot is fetched from another server, its unknown events are
  judged by their auth events and stored as outliers, and what the snapshot holds beyond the room's
  current state is added to it.
\<close>

subsection \<open>Fetching the snapshot\<close>

text \<open>The unknown events of the snapshot: those that could be fetched, and the IDs of the others.\<close>

definition fetch_unknown :: "Peers \<Rightarrow> string \<Rightarrow> string list \<Rightarrow> Store \<Rightarrow> json gomap \<times> string list" where
  "fetch_unknown p server ids s =
     (let unknown = filter (\<lambda>i. TxGetEvent s i = None) ids
      in (gm_of (concat (map (\<lambda>i. case get_event p server i of None \<Rightarrow> [] | Some j \<Rightarrow> [(i, j)]) unknown)),
          filter (\<lambda>i. get_event p server i = None) unknown))"

text \<open>
  The test of one auth event: it could not be fetched, it is another room's, it is not known at all, or
  it was rejected earlier.
\<close>

definition bad_auth :: "Store \<Rightarrow> string \<Rightarrow> json gomap \<Rightarrow> string list \<Rightarrow> string \<Rightarrow> bool" where
  "bad_auth s roomID raws unfetchable aid \<longleftrightarrow>
     aid \<in> set unfetchable
     \<or> (case gm_get raws aid of
          Some authRaw \<Rightarrow>
            (let (ok, room) = dec_struct (str_field ''room_id'') authRaw []
             in ok \<and> room \<noteq> [] \<and> room \<noteq> roomID)
        | None \<Rightarrow>
            (case TxGetEvent s aid of
               Some aev \<Rightarrow> er_room_id aev \<noteq> [] \<and> er_room_id aev \<noteq> roomID
             | None \<Rightarrow> True))
     \<or> IsEventRejected s aid"

text \<open>One pass over the fetched events, and the loop of passes until nothing changes.\<close>

definition reject_pass :: "(json \<Rightarrow> bool) \<Rightarrow> json gomap \<Rightarrow> string list \<Rightarrow> string list" where
  "reject_pass bad raws rejected =
     fold (\<lambda>(i, j) r. if i \<in> set r then r else if bad j then i # r else r) raws rejected"

lemma reject_pass_set:
  "set (reject_pass bad raws rejected) = set rejected \<union> fst ` {e \<in> set raws. bad (snd e)}"
proof (induction raws arbitrary: rejected)
  case Nil
  show ?case by (simp add: reject_pass_def)
next
  case (Cons e raws)
  obtain i j where e: "e = (i, j)" by (cases e)
  let ?r = "if i \<in> set rejected then rejected else if bad j then i # rejected else rejected"
  have "set (reject_pass bad (e # raws) rejected) = set (reject_pass bad raws ?r)"
    by (simp add: reject_pass_def e)
  also have "\<dots> = set ?r \<union> fst ` {e \<in> set raws. bad (snd e)}" by (rule Cons)
  also have "\<dots> = set rejected \<union> fst ` ((if bad j then {e} else {}) \<union> {e \<in> set raws. bad (snd e)})"
    by (cases "i \<in> set rejected") (simp_all add: e insert_absorb)
  also have "(if bad j then {e} else {}) \<union> {e \<in> set raws. bad (snd e)} = {e' \<in> set (e # raws). bad (snd e')}"
    by (auto simp: e)
  finally show ?case .
qed

function reject_loop :: "(json \<Rightarrow> bool) \<Rightarrow> json gomap \<Rightarrow> string list \<Rightarrow> string list" where
  "reject_loop bad raws rejected =
     (let rejected1 = reject_pass bad raws rejected
      in if set rejected1 = set rejected then rejected else reject_loop bad raws rejected1)"
  by pat_completeness auto
termination
proof (relation "measure (\<lambda>(bad, raws, rejected). card (fst ` set raws - set rejected))", goal_cases)
  case (2 bad raws rejected rejected1)
  then have s: "set rejected1 = set rejected \<union> fst ` {e \<in> set raws. bad (snd e)}"
    by (simp add: reject_pass_set)
  then have "fst ` set raws - set rejected1 \<subset> fst ` set raws - set rejected" using 2(2) by auto
  then show ?case by (simp add: psubset_card_mono)
qed simp

declare reject_loop.simps [simp del]

text \<open>The IDs rejected: those the loop finds, and all fetched ones when an auth event could not be fetched.\<close>

definition snapshot_rejected :: "Store \<Rightarrow> string \<Rightarrow> json gomap \<Rightarrow> string list \<Rightarrow> string list \<Rightarrow> string list" where
  "snapshot_rejected s roomID raws unfetchable authIDs =
     (let rejected = reject_loop (\<lambda>j. list_ex (bad_auth s roomID raws unfetchable) (authEventIDsFromRaw j)) raws []
      in if list_ex (\<lambda>i. i \<in> set unfetchable) authIDs then map fst raws @ rejected else rejected)"

subsection \<open>Storing a fetched event\<close>

definition persistReconcilePDU ::
  "Peers \<Rightarrow> string \<Rightarrow> Version \<Rightarrow> json \<Rightarrow> bool \<Rightarrow> Server \<Rightarrow> persist_error option \<times> Server" where
  "persistReconcilePDU p roomID version j rejected sv =
     (case read_pdu j of
        None \<Rightarrow> (Some PduSyntax, sv)
      | Some ev \<Rightarrow>
          if pdu_room_id ev \<noteq> [] \<and> pdu_room_id ev \<noteq> roomID then (Some WrongRoom, sv)
          else if \<not> passes (verify p j version) then (Some VerificationFailedPDU, sv)
          else
            let eventID = (if pdu_event_id ev \<noteq> [] then pdu_event_id ev else vr_event_id (verify p j version))
            in if eventID = [] then (Some NoEventID, sv)
               else if pdu_content ev = None then (Some InsertFailed, sv)
               else
                 let row = (pdu_row eventID roomID j ev)\<lparr>er_outlier := True\<rparr>;
                     (s1, stream) = InsertOutlierEvent (sv_store sv) row;
                     s2 = (if rejected then MarkEventRejected s1 eventID else s1);
                     s3 = (if rejected then s2 else apply_redactions ev row s2);
                     s4 = IndexRelationFromRow s3 (row\<lparr>er_stream := stream\<rparr>)
                 in if rejected then (None, sv\<lparr>sv_store := s4\<rparr>)
                    else if authInOtherRoom s4 roomID j
                    then (None, sv\<lparr>sv_store := MarkEventRejected s4 eventID\<rparr>)
                    else case pdu_state_key ev of
                           None \<Rightarrow> (None, sv\<lparr>sv_store := s4\<rparr>)
                         | Some k \<Rightarrow>
                             if pdu_type ev = ''m.room.member''
                             then (None, applyRemoteMembership roomID k (pdu_content ev) eventID (pdu_depth ev)
                                           (sv\<lparr>sv_store := s4\<rparr>))
                             else (None, sv\<lparr>sv_store := s4\<rparr>))"

subsection \<open>The merged state\<close>

definition add_missing :: "string \<Rightarrow> StateRow \<Rightarrow> StateRow gomap \<Rightarrow> StateRow gomap" where
  "add_missing k r m = (case gm_get m k of None \<Rightarrow> gm_put k r m | Some _ \<Rightarrow> m)"

definition event_tuple :: "string \<Rightarrow> EventRow \<Rightarrow> string \<Rightarrow> StateRow" where
  "event_tuple roomID ev eventID =
     \<lparr>sr_room_id = roomID, sr_type = er_type ev, sr_state_key = er_state_key ev, sr_event_id = eventID\<rparr>"

definition add_snapshot_event :: "Store \<Rightarrow> string \<Rightarrow> string list \<Rightarrow> string \<Rightarrow> StateRow gomap \<Rightarrow> StateRow gomap" where
  "add_snapshot_event s roomID rejected i m =
     (if i \<in> set rejected then m
      else case TxGetEvent s i of
        None \<Rightarrow> m
      | Some ev \<Rightarrow> add_missing (state_key_of (er_type ev) (er_state_key ev)) (event_tuple roomID ev i) m)"

definition reconcileSnapshotState ::
  "Store \<Rightarrow> string \<Rightarrow> string list \<Rightarrow> string list \<Rightarrow> string \<Rightarrow> StateRow list option" where
  "reconcileSnapshotState s roomID stateIDs rejected anchor =
     (if stateIDs = [] then None
      else
        let current = fold (\<lambda>r. gm_put (state_key_of (sr_type r) (sr_state_key r)) r) (TxGetRoomState s roomID) [];
            merged = fold (add_snapshot_event s roomID rejected) stateIDs current;
            merged1 = (if anchor \<in> set rejected then merged
                       else case TxGetEvent s anchor of
                         None \<Rightarrow> merged
                       | Some ev \<Rightarrow>
                           if er_type ev = [] then merged
                           else add_missing (state_key_of (er_type ev) (er_state_key ev))
                                  (event_tuple roomID ev anchor) merged)
        in Some (map snd merged1))"

definition save_if_known :: "string \<Rightarrow> StateRow list \<Rightarrow> string \<Rightarrow> Store \<Rightarrow> Store" where
  "save_if_known roomID state i s =
     (case TxGetEvent s i of None \<Rightarrow> s | Some _ \<Rightarrow> TxSaveEventState s i roomID state)"

definition write_reconciled :: "string \<Rightarrow> string list \<Rightarrow> string \<Rightarrow> StateRow list \<Rightarrow> Store \<Rightarrow> Store" where
  "write_reconciled roomID fetched anchor state s =
     (let children = EventIDsReferencingPrev s roomID anchor
      in fold (save_if_known roomID state) (fetched @ [anchor] @ children) (TxSetRoomState s roomID state))"

text \<open>The whole exchange. Only one is in flight for a room and an anchor, which the turns of the room give here.\<close>

definition reconcileStateFrom :: "Peers \<Rightarrow> string \<Rightarrow> string \<Rightarrow> string \<Rightarrow> Server \<Rightarrow> Server" where
  "reconcileStateFrom p roomID server anchor sv =
     (if server = [] \<or> server = own_server p then sv
      else case state_ids p server roomID anchor of
        None \<Rightarrow> sv
      | Some (stateIDs, authIDs) \<Rightarrow>
          if stateIDs = [] then sv
          else case GetRoom (sv_store sv) roomID of
            None \<Rightarrow> sv
          | Some room \<Rightarrow>
              (case Get (rr_version room) of
                 None \<Rightarrow> sv
               | Some rules \<Rightarrow>
                   let (raws, unfetchable) = fetch_unknown p server (anchor # stateIDs @ authIDs) (sv_store sv);
                       rejected = snapshot_rejected (sv_store sv) roomID raws unfetchable authIDs;
                       sv1 = fold (\<lambda>(i, j) sv.
                               snd (persistReconcilePDU p roomID (rr_version room) j (i \<in> set rejected) sv)) raws sv
                   in case reconcileSnapshotState (sv_store sv1) roomID stateIDs rejected anchor of
                        None \<Rightarrow> sv1
                      | Some resolved \<Rightarrow>
                          sv1\<lparr>sv_store := write_reconciled roomID (map fst raws) anchor resolved (sv_store sv1)\<rparr>))"

text \<open>The event the background resync of a partial room anchors on; empty for a room with full state.\<close>

definition first_local_join :: "Peers \<Rightarrow> MembershipRow list \<Rightarrow> MembershipRow option" where
  "first_local_join p members =
     fold (\<lambda>m best. if \<not> IsLocalUser p (mr_user_id m) then best
             else case best of
               None \<Rightarrow> Some m
             | Some b \<Rightarrow> if mr_event_id b = [] \<or> mr_stream m < mr_stream b then Some m else best) members None"

definition partialResyncAnchorID :: "Peers \<Rightarrow> Store \<Rightarrow> string \<Rightarrow> string" where
  "partialResyncAnchorID p s roomID =
     (case GetRoom s roomID of
        None \<Rightarrow> []
      | Some room \<Rightarrow>
          if \<not> rr_partial_state room then []
          else case first_local_join p (Members s roomID ''join'') of
            None \<Rightarrow> []
          | Some m \<Rightarrow>
              if mr_event_id m = [] then []
              else case TxGetEvent s (mr_event_id m) of
                None \<Rightarrow> []
              | Some joinRow \<Rightarrow>
                  (let (ok, prevs) = dec_struct [(''prev_events'', dec_slice [] dec_string)] (er_json joinRow) []
                   in if \<not> ok \<or> prevs = [] then [] else hd prevs))"

subsection \<open>What reconciliation does\<close>

text \<open>The loop finds what its first pass finds.\<close>

lemma reject_loop_set: "set (reject_loop bad raws rejected) = set rejected \<union> fst ` {e \<in> set raws. bad (snd e)}"
proof (induction bad raws rejected rule: reject_loop.induct)
  case (1 bad raws rejected)
  show ?case
  proof (cases "set (reject_pass bad raws rejected) = set rejected")
    case True
    then show ?thesis by (subst reject_loop.simps) (auto simp: reject_pass_set)
  next
    case False
    then show ?thesis using 1 [OF refl] by (subst reject_loop.simps) (auto simp: reject_pass_set)
  qed
qed

end
