(* ===== verification/Fed_Inbound.thy ===== *)
theory Fed_Inbound
  imports Fed_Reconcile
begin

section \<open>Inbound transactions (\<open>federation/transactions.go\<close>)\<close>

text \<open>
  \<open>SendTransaction\<close> and \<open>ingestPDU\<close>: what becomes of an event another server sends. The stages of
  \<open>ingestPDU\<close> are the definitions here, in its order: gap filling and reconciliation, the verdict, the
  two further refusals, the insertion, and what follows it.
\<close>

subsection \<open>State-DAG rooms (\<open>statedag.go\<close>)\<close>

definition roomIsPartial :: "Store \<Rightarrow> string \<Rightarrow> bool" where
  "roomIsPartial s roomID = (case GetRoom s roomID of None \<Rightarrow> False | Some room \<Rightarrow> rr_partial_state room)"

text \<open>Whether the event is rejected, and whether it is handled at all.\<close>

definition checkInboundStateDAGPDU ::
  "Peers \<Rightarrow> string \<Rightarrow> Rules \<Rightarrow> json \<Rightarrow> string \<Rightarrow> string \<Rightarrow> bool \<Rightarrow> string \<Rightarrow> string \<Rightarrow> raw \<Rightarrow> Store
     \<Rightarrow> (bool \<times> bool) \<times> Store" where
  "checkInboundStateDAGPDU p roomID rules j evID origin isState evType sender content s =
     (case unmarshal_obj j of
        None \<Rightarrow> ((False, False), s)
      | Some members \<Rightarrow>
          if gm_get members ''auth_events'' \<noteq> None then ((False, False), s)
          else case New j (Version rules) of
            Inl _ \<Rightarrow> ((False, False), s)
          | Inr ev \<Rightarrow>
              if gm_get (ev_fields ev) ''prev_state_events'' = None then ((False, False), s)
              else if roomIsPartial s roomID then ((False, True), s)
              else
                let missing = CheckStateDAGEvent (ed_verify p) s ev False False = Inl ErrMissingPrevState;
                    s1 = (if missing \<and> origin \<noteq> [] then fillStateDAG p roomID rules evID origin s else s);
                    err = CheckStateDAGEvent (ed_verify p) s1 ev False False
                in if err = Inl ErrMissingPrevState then ((False, False), s1)
                   else if isl err then ((True, True), s1)
                   else if \<not> isState \<and> isl (Authorize (ed_verify p) rules evType [] sender content
                             (memberStateSnapshotCtx s1 roomID sender [] content) False)
                   then ((True, True), s1)
                   else ((False, True), s1))"

subsection \<open>Rescinded invites and rooms without state\<close>

definition containsStr :: "string list \<Rightarrow> string \<Rightarrow> bool" where
  "containsStr list v = list_ex (\<lambda>s. s = v) list"

definition rescindsInvite :: "Store \<Rightarrow> json \<Rightarrow> MembershipRow \<Rightarrow> string \<Rightarrow> bool" where
  "rescindsInvite s j m sender \<longleftrightarrow>
     containsStr (authEventIDsFromRaw j) (mr_event_id m)
     \<and> (case TxGetEvent s (mr_event_id m) of None \<Rightarrow> False | Some e \<Rightarrow> er_sender e = sender)"

definition ingestOutOfBandMembership ::
  "Peers \<Rightarrow> json \<Rightarrow> string \<Rightarrow> string \<Rightarrow> PDU \<Rightarrow> Server \<Rightarrow> (string \<times> bool) \<times> Server" where
  "ingestOutOfBandMembership p j evID target ev sv =
     (let (ok, membership) = unmarshal (dec_struct (str_field ''membership'')) [] (pdu_content ev);
          s = sv_store sv; room = pdu_room_id ev
      in if \<not> IsLocalUser p target \<or> \<not> ok \<or> membership \<noteq> ''leave'' then (([], False), sv)
         else case GetMembership s room target of
           None \<Rightarrow> (([], False), sv)
         | Some m \<Rightarrow>
             if mr_membership m \<noteq> ''invite'' \<or> \<not> rescindsInvite s j m (pdu_sender ev) then (([], False), sv)
             else
               let row = (pdu_row evID room j ev)\<lparr>er_type := ''m.room.member'', er_state_key := target,
                            er_redacts := []\<rparr>;
                   leave = \<lparr>mr_room_id = room, mr_user_id = target, mr_membership = ''leave'', mr_event_id = [],
                            mr_display_name = [], mr_avatar_url = [], mr_forgotten = False, mr_stream = 0,
                            mr_depth = 0\<rparr>
               in ((evID, True), log_call (NotifyUsers [target])
                     (on_store (\<lambda>s. fst (InsertOutOfBandMembership s row leave False)) sv)))"

subsection \<open>The verdict in a room without a state DAG\<close>

definition restrictedRoomJoinRules :: "Store \<Rightarrow> string \<Rightarrow> bool" where
  "restrictedRoomJoinRules s roomID =
     (case state_content s roomID ''m.room.join_rules'' [] of
        None \<Rightarrow> False
      | Some ev \<Rightarrow> JoinRule (er_content ev) \<in> {JoinRuleRestricted, JoinRuleKnockRestricted})"

text \<open>The state to judge against, or \<open>None\<close> for a restricted join this server cannot judge.\<close>

definition auth_state :: "Peers \<Rightarrow> Store \<Rightarrow> PDU \<Rightarrow> StateSnapshot option" where
  "auth_state p s ev =
     (let room = pdu_room_id ev; key = pdu_key ev;
          st = memberStateSnapshotCtx s room (pdu_sender ev) key (pdu_content ev);
          authoriser = snd (unmarshal (dec_struct (str_field ''join_authorised_via_users_server'')) [] (pdu_content ev))
      in if pdu_type ev = ''m.room.member'' \<and> key \<noteq> [] \<and> loose_membership (pdu_content ev) = MembershipJoin
            \<and> restrictedRoomJoinRules s room
         then (case RestrictedJoinAuthorised s room key authoriser (own_server p) of
                 JoinAuthorised \<Rightarrow> Some (st\<lparr>ss_restricted_authorised := True\<rparr>)
               | RestrictedJoinUnableToAuthorise \<Rightarrow> None
               | RestrictedJoinNotAuthorised \<Rightarrow> Some st)
         else Some st)"

definition refused :: "Peers \<Rightarrow> Rules \<Rightarrow> PDU \<Rightarrow> StateSnapshot \<Rightarrow> bool \<Rightarrow> bool" where
  "refused p rules ev st isState =
     isl (Authorize (ed_verify p) rules (pdu_type ev) (pdu_key ev) (pdu_sender ev) (pdu_content ev) st isState)"

definition full_verdict :: "Peers \<Rightarrow> RoomRow \<Rightarrow> json \<Rightarrow> PDU \<Rightarrow> Store \<Rightarrow> bool" where
  "full_verdict p room j ev s =
     (if hasUnknownAuthEvents s j then True
      else if authReferencesRejected s j then True
      else case Get (rr_version room) of
        None \<Rightarrow> False
      | Some rules \<Rightarrow>
          (case auth_state p s ev of
             None \<Rightarrow> False
           | Some st \<Rightarrow> refused p rules ev st (pdu_state_key ev \<noteq> None)))"

definition partial_verdict :: "Peers \<Rightarrow> RoomRow \<Rightarrow> PDU \<Rightarrow> Store \<Rightarrow> bool" where
  "partial_verdict p room ev s =
     (case Get (rr_version room) of
        None \<Rightarrow> False
      | Some rules \<Rightarrow>
          let st = memberStateSnapshotCtx s (pdu_room_id ev) (pdu_sender ev) (pdu_key ev) (pdu_content ev)
          in if pdu_type ev = ''m.room.member'' \<and> ss_sender_member st = None then False
             else refused p rules ev st True)"

text \<open>Gap filling, and the reconciliation of a gap further back.\<close>

definition fill_gap :: "Peers \<Rightarrow> json \<Rightarrow> PDU \<Rightarrow> string \<Rightarrow> string \<Rightarrow> Server \<Rightarrow> Server" where
  "fill_gap p j ev evID origin sv =
     (if origin = [] \<or> \<not> hasUnknownPrevEvents (sv_store sv) j then sv
      else
        let sv1 = fetchMissingEventsFor p (pdu_room_id ev) evID origin sv
        in if hasUnknownPrevEvents (sv_store sv1) j then sv1
           else
             let frontier = unknownDeepFrontier (sv_store sv1) j
             in if frontier \<noteq> [] \<and> partialResyncAnchorID p (sv_store sv1) (pdu_room_id ev) \<noteq> frontier
                then reconcileStateFrom p (pdu_room_id ev) origin frontier sv1
                else sv1)"

definition fill_auth :: "Peers \<Rightarrow> json \<Rightarrow> PDU \<Rightarrow> string \<Rightarrow> string \<Rightarrow> Server \<Rightarrow> Server" where
  "fill_auth p j ev evID origin sv =
     (if origin \<noteq> [] \<and> hasUnknownAuthEvents (sv_store sv) j
      then fetchAuthChainFor p (pdu_room_id ev) evID origin sv else sv)"

definition plain_verdict :: "Peers \<Rightarrow> RoomRow \<Rightarrow> json \<Rightarrow> PDU \<Rightarrow> string \<Rightarrow> Store \<Rightarrow> bool" where
  "plain_verdict p room j ev origin s =
     (if origin \<noteq> [] \<and> \<not> rr_partial_state room then full_verdict p room j ev s
      else if origin \<noteq> [] \<and> rr_partial_state room \<and> pdu_state_key ev \<noteq> None then partial_verdict p room ev s
      else False)"

definition state_dag_rules :: "RoomRow \<Rightarrow> Rules option" where
  "state_dag_rules room =
     (case Get (rr_version room) of None \<Rightarrow> None | Some rules \<Rightarrow> if StateDAGs rules then Some rules else None)"

text \<open>The verdict: \<open>None\<close> for an event that is refused without being stored.\<close>

definition judge :: "Peers \<Rightarrow> RoomRow \<Rightarrow> json \<Rightarrow> PDU \<Rightarrow> string \<Rightarrow> string \<Rightarrow> Server \<Rightarrow> bool option \<times> Server" where
  "judge p room j ev evID origin sv =
     (case state_dag_rules room of
        Some rules \<Rightarrow>
          (let ((rejected, ok), s1) = checkInboundStateDAGPDU p (pdu_room_id ev) rules j evID origin
                 (pdu_state_key ev \<noteq> None) (pdu_type ev) (pdu_sender ev) (pdu_content ev) (sv_store sv)
           in (if ok then Some rejected else None, sv\<lparr>sv_store := s1\<rparr>))
      | None \<Rightarrow>
          (let sv1 = fill_gap p j ev evID origin sv
           in if origin \<noteq> [] \<and> \<not> rr_partial_state room \<and> hasUnknownPrevEvents (sv_store sv1) j then (None, sv1)
              else let sv2 = fill_auth p j ev evID origin sv1
                   in (Some (plain_verdict p room j ev origin (sv_store sv2)), sv2)))"

text \<open>A redaction of a known event of another room, and a leave that revokes another user's invite.\<close>

definition redacts_other_room :: "PDU \<Rightarrow> Store \<Rightarrow> bool" where
  "redacts_other_room ev s =
     (pdu_type ev = ''m.room.redaction'' \<and> pdu_redacts ev \<noteq> []
      \<and> (case TxGetEvent s (pdu_redacts ev) of None \<Rightarrow> False | Some t \<Rightarrow> er_room_id t \<noteq> pdu_room_id ev))"

definition revokes_foreign_invite :: "Peers \<Rightarrow> json \<Rightarrow> PDU \<Rightarrow> Store \<Rightarrow> bool" where
  "revokes_foreign_invite p j ev s =
     (case pdu_state_key ev of
        None \<Rightarrow> False
      | Some target \<Rightarrow>
          pdu_type ev = ''m.room.member'' \<and> target \<noteq> pdu_sender ev \<and> IsLocalUser p target
          \<and> loose_membership (pdu_content ev) = ''leave''
          \<and> (case GetMembership s (pdu_room_id ev) target of
               None \<Rightarrow> False
             | Some m \<Rightarrow> mr_membership m = ''invite'' \<and> \<not> rescindsInvite s j m (pdu_sender ev)))"

subsection \<open>What an event sets off elsewhere\<close>

definition LocalpartOf :: "string \<Rightarrow> string" where
  "LocalpartOf userID =
     (let u = (if has_prefix userID ''@'' then tl userID else userID)
      in case index_byte (CHR '':'') u of Some i \<Rightarrow> ToLower (take i u) | None \<Rightarrow> ToLower u)"

definition local_members :: "Peers \<Rightarrow> Store \<Rightarrow> string \<Rightarrow> string list" where
  "local_members p s roomID = filter (IsLocalUser p) (map mr_user_id (Members s roomID ''join''))"

text \<open>
  A tombstone: push rules and tags are other tables, the directory entry moves only when the replacement room
  has a row to take it, every alias moves.
\<close>

definition move_listing :: "string \<Rightarrow> string \<Rightarrow> Store \<Rightarrow> Store" where
  "move_listing oldRoomID newRoomID s =
     (case GetRoom s oldRoomID of
        None \<Rightarrow> s
      | Some old \<Rightarrow>
          if \<not> rr_is_public old then s
          else (let (published, s1) = SetRoomVisibility s newRoomID True
                in if published then snd (SetRoomVisibility s1 oldRoomID False) else s1))"

definition move_aliases :: "Peers \<Rightarrow> string \<Rightarrow> string \<Rightarrow> Store \<Rightarrow> Store" where
  "move_aliases p oldRoomID newRoomID s =
     fold (\<lambda>a s. SetAliasForRoom s \<lparr>al_alias = a, al_room_id = newRoomID, al_creator = [], al_created_ts = clock p\<rparr>)
       (AliasesForRoom s oldRoomID) s"

definition copyPushRulesOnRemoteTombstone :: "Peers \<Rightarrow> string \<Rightarrow> raw \<Rightarrow> Server \<Rightarrow> Server" where
  "copyPushRulesOnRemoteTombstone p oldRoomID content sv =
     (let (ok, new) = unmarshal (dec_struct (str_field ''replacement_room'')) [] content
      in if \<not> ok \<or> new = [] then sv
         else
           let localparts = map LocalpartOf (local_members p (sv_store sv) oldRoomID);
               sv1 = log_call (CopyRulesForRoom localparts oldRoomID new) sv;
               sv2 = fold (\<lambda>lp. log_call (CopyTags lp oldRoomID new)) localparts sv1
           in on_store (\<lambda>s. move_aliases p oldRoomID new (move_listing oldRoomID new s)) sv2)"

definition learnAliasesFromStateEvent :: "Peers \<Rightarrow> string \<Rightarrow> string \<Rightarrow> json \<Rightarrow> Store \<Rightarrow> Store" where
  "learnAliasesFromStateEvent p roomID serverName j s =
     (if serverName \<noteq> own_server p then s
      else
        let (ok, content) = dec_struct [(''content'', dec_raw)] j None;
            (ok1, aliases) = unmarshal (dec_struct [(''aliases'', dec_slice [] dec_string)]) [] content
        in if \<not> ok \<or> \<not> ok1 then s
           else
             let s1 = fold (\<lambda>a s. if a \<in> set aliases then s else DeleteAlias s a) (AliasesForRoom s roomID) s
             in fold (\<lambda>a s. if DomainOf a \<noteq> own_server p then s
                        else SetAliasForRoom s \<lparr>al_alias = a, al_room_id = roomID, al_creator = [],
                               al_created_ts = clock p\<rparr>) aliases s1)"

definition memberAuthIDsFromStore :: "Store \<Rightarrow> string \<Rightarrow> string \<Rightarrow> string list" where
  "memberAuthIDsFromStore s roomID userID =
     (let omitCreate = (case GetRoom s roomID of
            None \<Rightarrow> False
          | Some room \<Rightarrow> (case Get (rr_version room) of None \<Rightarrow> False | Some rules \<Rightarrow> RoomIDIsCreateHash rules));
          get = (\<lambda>typ sk. case TxGetStateEvent s roomID typ sk of None \<Rightarrow> [] | Some i \<Rightarrow> [i])
      in (if omitCreate then [] else get ''m.room.create'' [])
         @ get ''m.room.power_levels'' [] @ get ''m.room.member'' userID)"

text \<open>The tip of the room's graph: its extremities, and one more than the greatest depth among them.\<close>

definition dagTipFor :: "Store \<Rightarrow> string \<Rightarrow> string list \<times> int" where
  "dagTipFor s roomID =
     (let exts = TxForwardExtremities s roomID
      in (map fe_event_id exts, fold (\<lambda>ex d. if fe_depth ex + 1 > d then fe_depth ex + 1 else d) exts 0))"

definition guest_leave :: "Peers \<Rightarrow> RoomRow \<Rightarrow> string \<Rightarrow> string \<Rightarrow> Store \<Rightarrow> Builder" where
  "guest_leave p room roomID userID s =
     (let (prev, depth) = dagTipFor s roomID
      in \<lparr>b_type = ''m.room.member'', b_state_key = Some userID, b_sender = userID, b_room_id = roomID,
          b_content = Some (JObj [(''membership'', JStr ''leave''), (''reason'', JStr ''guest access revoked'')]),
          b_redacts = [], b_unsigned = None, b_prev_events = prev,
          b_auth_events = memberAuthIDsFromStore s roomID userID,
          b_prev_state_events = (if state_dag_rules room = None then []
                                 else PrevStateEventsForNew s roomID ''m.room.member'' userID userID),
          b_depth = depth, b_origin_server_ts = clock p, b_origin = []\<rparr>)"

definition kickLocalGuest :: "Peers \<Rightarrow> string \<Rightarrow> string \<Rightarrow> Server \<Rightarrow> Server" where
  "kickLocalGuest p roomID userID sv =
     (let s = sv_store sv
      in case GetRoom s roomID of
           None \<Rightarrow> sv
         | Some room \<Rightarrow>
             (case BuildForVersion (sha256 p) (ed_sign p) (random_localpart p userID)
                     (guest_leave p room roomID userID s) (own_server p) (own_key p) (rr_version room) of
                Inl _ \<Rightarrow> sv
              | Inr ev \<Rightarrow>
                  let row = (stateDAGRow p roomID ev False)\<lparr>er_state_key := userID, er_redacts := []\<rparr>;
                      (s1, stream) = InsertEvent s row;
                      s2 = (case Get (rr_version room) of
                              None \<Rightarrow> s1 | Some rules \<Rightarrow> snd (Maintain row rules s1));
                      s3 = UpsertMembership s2 \<lparr>mr_room_id = roomID, mr_user_id = userID, mr_membership = ''leave'',
                             mr_event_id = er_event_id row, mr_display_name = [], mr_avatar_url = [],
                             mr_forgotten = False, mr_stream = stream, mr_depth = er_depth row\<rparr>
                  in log_call (BroadcastPDUToRoom roomID (er_event_id row))
                       (log_call (NotifyRoomMembers roomID) (sv\<lparr>sv_store := s3\<rparr>))))"

definition kickJoinedGuestsOnRemote :: "Peers \<Rightarrow> string \<Rightarrow> raw \<Rightarrow> Server \<Rightarrow> Server" where
  "kickJoinedGuestsOnRemote p roomID content sv =
     (let (ok, access) = unmarshal (dec_struct (str_field ''guest_access'')) [] content
      in if \<not> ok \<or> access = ''can_join'' then sv
         else fold (\<lambda>u sv. if LocalpartOf u \<in> set (sv_guests sv) then kickLocalGuest p roomID u sv else sv)
                (local_members p (sv_store sv) roomID) sv)"

subsection \<open>Ingesting an event\<close>

text \<open>What follows the insertion: extremities, push, redactions, the partial window, the verdict, state.\<close>

definition settle_store :: "PDU \<Rightarrow> EventRow \<Rightarrow> json \<Rightarrow> string \<Rightarrow> bool \<Rightarrow> Store \<Rightarrow> Store" where
  "settle_store ev row j origin rejected s =
     (let s1 = (if \<not> rejected \<and> origin \<noteq> [] \<and> AnyRejected s (prevEventIDs j)
                then RemovePrevsBehindRejected s (pdu_room_id ev) (prevEventIDs j) else s);
          s2 = (if rejected then s1 else apply_redactions ev row s1);
          s3 = (if rejected then MarkEventRejected s2 (er_event_id row) else s2)
      in IndexRelationFromRow s3 row)"

definition maintain_accepted :: "RoomRow \<Rightarrow> EventRow \<Rightarrow> bool \<Rightarrow> Store \<Rightarrow> Store" where
  "maintain_accepted room row rejected s =
     (if rejected then s
      else case Get (rr_version room) of None \<Rightarrow> s | Some rules \<Rightarrow> snd (Maintain row rules s))"

definition track_partial :: "RoomRow \<Rightarrow> PDU \<Rightarrow> string \<Rightarrow> Server \<Rightarrow> Server" where
  "track_partial room ev evID sv =
     (if rr_partial_state room \<and> pdu_state_key ev \<noteq> None
      then sv\<lparr>sv_partial_events := List.insert (pdu_room_id ev, evID) (sv_partial_events sv)\<rparr> else sv)"

definition membership_effects :: "Peers \<Rightarrow> PDU \<Rightarrow> bool \<Rightarrow> Server \<Rightarrow> Server" where
  "membership_effects p ev rejected sv =
     (case pdu_state_key ev of
        None \<Rightarrow> sv
      | Some user \<Rightarrow>
          if pdu_type ev = ''m.room.member'' \<and> \<not> rejected then
            let membership = loose_membership (pdu_content ev);
                sv1 = log_call (RemoteMembershipNotify (pdu_room_id ev) user membership) sv
            in if (membership = ''leave'' \<or> membership = ''ban'') \<and> \<not> IsLocalUser p user
               then log_call (EvictRemoteDeviceList user) sv1 else sv1
          else sv)"

definition state_effects :: "Peers \<Rightarrow> json \<Rightarrow> PDU \<Rightarrow> Server \<Rightarrow> Server" where
  "state_effects p j ev sv =
     (let room = pdu_room_id ev;
          sv1 = (if pdu_type ev = ''m.room.tombstone'' \<and> pdu_state_key ev = Some []
                 then copyPushRulesOnRemoteTombstone p room (pdu_content ev) sv else sv);
          sv2 = (if pdu_type ev = ''m.room.aliases'' \<and> pdu_key ev \<noteq> []
                 then on_store (learnAliasesFromStateEvent p room (pdu_key ev) j) sv1 else sv1)
      in if pdu_type ev = ''m.room.guest_access'' \<and> pdu_state_key ev = Some []
         then kickJoinedGuestsOnRemote p room (pdu_content ev) sv2 else sv2)"

definition push_inbound :: "RoomRow \<Rightarrow> json \<Rightarrow> PDU \<Rightarrow> string \<Rightarrow> int \<Rightarrow> bool \<Rightarrow> Server \<Rightarrow> Server" where
  "push_inbound room j ev evID stream rejected sv =
     (if isl (New j (rr_version room)) then sv
      else log_call (NotifyInbound evID (pdu_room_id ev) stream rejected) sv)"

definition pdu_membership :: "PDU \<Rightarrow> string \<Rightarrow> bool \<Rightarrow> MembershipRow option" where
  "pdu_membership ev evID rejected =
     (case pdu_state_key ev of
        None \<Rightarrow> None
      | Some user \<Rightarrow>
          if \<not> rejected \<and> pdu_type ev = ''m.room.member''
          then membershipRowFromContent (pdu_room_id ev) user (pdu_content ev) evID (pdu_depth ev)
          else None)"

definition store_pdu :: "Peers \<Rightarrow> RoomRow \<Rightarrow> json \<Rightarrow> PDU \<Rightarrow> string \<Rightarrow> string \<Rightarrow> bool \<Rightarrow> Server
     \<Rightarrow> (string \<times> bool) \<times> Server" where
  "store_pdu p room j ev evID origin rejected sv =
     (let row = pdu_row evID (pdu_room_id ev) j ev
      in case insert_pdu (sv_store sv) row (pdu_membership ev evID rejected) (\<not> rejected) of
           None \<Rightarrow> ((evID, False), sv)
         | Some (s1, stream) \<Rightarrow>
             let row1 = row\<lparr>er_stream := stream\<rparr>;
                 s2 = maintain_accepted room row1 rejected (settle_store ev row1 j origin rejected s1);
                 sv2 = track_partial room ev evID (push_inbound room j ev evID stream rejected (sv\<lparr>sv_store := s2\<rparr>))
             in ((evID, True), state_effects p j ev (membership_effects p ev rejected sv2)))"

text \<open>The decoding fails also on signatures that are no map of maps of strings.\<close>

definition read_inbound :: "json \<Rightarrow> PDU option" where
  "read_inbound j =
     (let (ok, ev) = dec_struct ((''signatures'', fld dec_signatures pdu_signatures pdu_signatures_update) # pdu_fields)
                       j zero_pdu
      in if ok then Some ev else None)"

definition ingestPDU :: "Peers \<Rightarrow> json \<Rightarrow> string \<Rightarrow> Server \<Rightarrow> (string \<times> bool) \<times> Server" where
  "ingestPDU p j origin sv =
     (case read_inbound j of
        None \<Rightarrow> (([], False), sv)
      | Some ev \<Rightarrow>
         (case GetRoom (sv_store sv) (pdu_room_id ev) of
           None \<Rightarrow> (([], False), sv)
         | Some room \<Rightarrow>
             let res = verify p j (rr_version room)
             in if \<not> passes res then (([], False), sv)
                else
                  let evID = (if pdu_event_id ev = [] then vr_event_id res else pdu_event_id ev)
                  in if \<not> HasRoomState (sv_store sv) (pdu_room_id ev) then
                       (case pdu_state_key ev of
                          None \<Rightarrow> (([], False), sv)
                        | Some target \<Rightarrow>
                            if pdu_type ev \<noteq> ''m.room.member'' then (([], False), sv)
                            else ingestOutOfBandMembership p j evID target ev sv)
                     else if \<not> acl_allows (serverACLForRoom (sv_store sv) (pdu_room_id ev)) origin
                     then ((evID, False), sv)
                     else if origin \<noteq> [] \<and> EventAccepted (sv_store sv) evID then ((evID, True), sv)
                     else
                       (case judge p room j ev evID origin sv of
                          (None, sv1) \<Rightarrow> ((evID, False), sv1)
                        | (Some rejected, sv1) \<Rightarrow>
                            if revokes_foreign_invite p j ev (sv_store sv1) then (([], False), sv1)
                            else store_pdu p room j ev evID origin
                                   (rejected \<or> redacts_other_room ev (sv_store sv1)) sv1)))"

subsection \<open>A transaction\<close>

datatype txn_result = TooManyPDUs | TxnResult "bool gomap"

text \<open>The rooms to wake: those the accepted events name.\<close>

definition ingest_step :: "Peers \<Rightarrow> string \<Rightarrow> json \<Rightarrow> (bool gomap \<times> string list) \<times> Server
     \<Rightarrow> (bool gomap \<times> string list) \<times> Server" where
  "ingest_step p origin j = (\<lambda>((results, wake), sv).
     (case ingestPDU p j origin sv of
        ((evID, accept), sv1) \<Rightarrow>
          let (ok, room) = dec_struct (str_field ''room_id'') j []
          in if evID = [] then ((results, wake), sv1)
             else ((gm_put evID accept results,
                    if accept \<and> ok \<and> room \<noteq> [] then List.insert room wake else wake), sv1)))"

definition SendTransaction :: "Peers \<Rightarrow> string \<Rightarrow> string \<Rightarrow> json list \<Rightarrow> json list \<Rightarrow> Server \<Rightarrow> txn_result \<times> Server" where
  "SendTransaction p txnID origin pdus edus sv =
     (if 50 < length pdus then (TooManyPDUs, sv)
      else
        let sv1 = log_call (NoteDestinationAlive origin) sv
        in if (origin, txnID) \<in> set (sv_txns sv1) then (TxnResult [], sv1)
           else
             let ((results, wake), sv2) = fold (ingest_step p origin) pdus (([], []), sv1);
                 sv3 = fold (\<lambda>r. log_call (NotifyRoomMembers r)) wake sv2;
                 sv4 = fold (\<lambda>e. log_call (HandleEDU origin e)) edus sv3
             in (TxnResult results, sv4\<lparr>sv_txns := List.insert (origin, txnID) (sv_txns sv4)\<rparr>))"

end
