(* ===== verification/Fed_Invariants.thy ===== *)
theory Fed_Invariants
  imports Fed_Inbound Maintenance_Laws
begin

section \<open>Invariants of inbound federation\<close>

text \<open>
  The locale \<open>store_invariant\<close> lists the writes that storing an event makes, \<open>ingest_invariant\<close> adds those of a
  verdict and of a reconciliation: a property that each of them keeps is kept by every transaction,
  whatever the other servers send and answer. They are interpreted for the consistency of the tables, for
  the events stored, and for the rejections.
\<close>

subsection \<open>The merged state of a reconciliation\<close>

definition keyed :: "string \<Rightarrow> StateRow gomap \<Rightarrow> bool" where
  "keyed room m \<longleftrightarrow> gm_ok m
     \<and> (\<forall>(k, r) \<in> set m. k = state_key_of (sr_type r) (sr_state_key r) \<and> sr_room_id r = room)"

lemma set_gm_put: "set (gm_put k v m) \<subseteq> insert (k, v) (set m)"
proof (induction m)
  case (Cons e m)
  then show ?case by (cases e) auto
qed simp

lemma keyed_put:
  "keyed room m \<Longrightarrow> sr_room_id r = room \<Longrightarrow> keyed room (gm_put (state_key_of (sr_type r) (sr_state_key r)) r m)"
  using set_gm_put [of "state_key_of (sr_type r) (sr_state_key r)" r m] by (auto simp: keyed_def)

lemma keyed_rows:
  assumes "keyed room m"
  shows "state_rows_ok room (map snd m)"
proof -
  have "map fst m = map (\<lambda>(t, k). state_key_of t k) (map (\<lambda>r. (sr_type r, sr_state_key r)) (map snd m))"
    using assms by (auto simp: keyed_def)
  moreover have "distinct (map fst m)" using assms by (simp add: keyed_def gm_ok_distinct)
  ultimately have "distinct (map (\<lambda>r. (sr_type r, sr_state_key r)) (map snd m))" by (metis distinct_map)
  then show ?thesis using assms by (auto simp: state_rows_ok_def keyed_def)
qed

lemma keyed_add_missing:
  "keyed room m \<Longrightarrow> keyed room (add_missing (state_key_of (er_type ev) (er_state_key ev)) (event_tuple room ev i) m)"
  using keyed_put [of room m "event_tuple room ev i"]
  by (auto simp: add_missing_def event_tuple_def split: option.split)

lemma keyed_add: "keyed room m \<Longrightarrow> keyed room (add_snapshot_event s room rejected i m)"
  by (auto simp: add_snapshot_event_def keyed_add_missing split: option.split)

definition current_rows :: "Store \<Rightarrow> string \<Rightarrow> StateRow gomap" where
  "current_rows s room =
     fold (\<lambda>r. gm_put (state_key_of (sr_type r) (sr_state_key r)) r) (TxGetRoomState s room) []"

lemma keyed_current: "keyed room (current_rows s room)"
proof -
  have "keyed room (fold (\<lambda>r. gm_put (state_key_of (sr_type r) (sr_state_key r)) r) rows m)"
    if "keyed room m" "\<forall>r \<in> set rows. sr_room_id r = room" for m rows
    using that by (induction rows arbitrary: m) (simp_all add: keyed_put)
  moreover have "keyed room []" by (simp add: keyed_def)
  ultimately show ?thesis by (simp add: current_rows_def TxGetRoomState_def)
qed

lemma keyed_snapshot: "keyed room m \<Longrightarrow> keyed room (fold (add_snapshot_event s room rejected) ids m)"
  by (induction ids arbitrary: m) (simp_all add: keyed_add)

lemma reconciled_rows_ok: "reconcileSnapshotState s room ids rejected anchor = Some rows \<Longrightarrow> state_rows_ok room rows"
proof -
  let ?m = "fold (add_snapshot_event s room rejected) ids (current_rows s room)"
  have m: "keyed room ?m" by (rule keyed_snapshot [OF keyed_current])
  assume "reconcileSnapshotState s room ids rejected anchor = Some rows"
  then have "rows = map snd ?m \<or> (\<exists>ev. rows = map snd
      (add_missing (state_key_of (er_type ev) (er_state_key ev)) (event_tuple room ev anchor) ?m))"
    unfolding reconcileSnapshotState_def Let_def current_rows_def by (auto split: if_splits option.splits)
  moreover have "keyed room (add_missing (state_key_of (er_type ev) (er_state_key ev)) (event_tuple room ev anchor) ?m)" for ev
    by (rule keyed_add_missing [OF m])
  ultimately show ?thesis using m by (auto intro: keyed_rows)
qed

subsection \<open>The interface of an invariant\<close>

locale store_invariant =
  fixes P :: "Store \<Rightarrow> bool"
  assumes insert_event: "P s \<Longrightarrow> P (fst (insert_event_row s row))"
    and extremities: "P s \<Longrightarrow> P (s\<lparr>db_extremities := xs\<rparr>)"
    and memberships: "P s \<Longrightarrow> P (s\<lparr>db_memberships := ms\<rparr>)"
    and redacted: "P s \<Longrightarrow> P (SetEventRedactedBy s i r)"
    and maintained: "P s \<Longrightarrow> P (snd (Maintain row rules s))"
    and relations: "P s \<Longrightarrow> P (s\<lparr>db_relations := rs\<rparr>)"
    and gaps: "P s \<Longrightarrow> P (s\<lparr>db_gaps := gs\<rparr>)"
    and rooms: "P s \<Longrightarrow> P (s\<lparr>db_rooms := rrs\<rparr>)"
    and aliases: "P s \<Longrightarrow> P (s\<lparr>db_aliases := as\<rparr>)"
begin

lemma fold_keeps:
  "(\<And>x s. P (get s) \<Longrightarrow> P (get (f x s))) \<Longrightarrow> P (get s) \<Longrightarrow> P (get (fold f xs s))"
  by (induction xs arbitrary: s) auto

lemma fold_server:
  "(\<And>x sv. P (sv_store sv) \<Longrightarrow> P (sv_store (f x sv))) \<Longrightarrow> P (sv_store sv) \<Longrightarrow> P (sv_store (fold f xs sv))"
  by (rule fold_keeps)

lemma upsert_membership: "P s \<Longrightarrow> P (UpsertMembership s m)"
  by (simp add: UpsertMembership_def memberships)

lemma update_extremities: "P s \<Longrightarrow> P (UpdateExtremitiesForEvent s room i prevs d)"
  using UpdateExtremities_tables [of s room i prevs d] extremities by auto

lemma insert_membership: "P s \<Longrightarrow> P (fst (InsertEventWithMembership s row m b))"
  using insert_event [of s row]
  by (auto simp: InsertEventWithMembership_def case_prod_beta Let_def upsert_membership update_extremities
      split: option.split)

lemma insert_plain: "P s \<Longrightarrow> P (fst (InsertEvent s row))"
  using insert_event [of s row] by (simp add: InsertEvent_def case_prod_beta update_extremities)

lemma outofband: "P s \<Longrightarrow> P (fst (InsertOutOfBandMembership s row m force))"
  using insert_event [of s "row\<lparr>er_redacts := [], er_redacted := False, er_outlier := False\<rparr>"]
  by (simp add: InsertOutOfBandMembership_def case_prod_beta Let_def upsert_membership memberships)

lemma redaction: "P s \<Longrightarrow> P (snd (ApplyRedaction s row))"
  by (auto simp: ApplyRedaction_def Let_def redacted split: option.split)

lemma redactions: "P s \<Longrightarrow> P (apply_redactions ev row s)"
  by (auto simp: apply_redactions_def redaction split: option.split)

lemma relation: "P s \<Longrightarrow> P (IndexRelationFromRow s row)"
  by (auto simp: IndexRelationFromRow_def InsertRelation_def relations split: option.split)

lemma gap: "P s \<Longrightarrow> P (RecordTimelineGap s room n)"
  by (simp add: RecordTimelineGap_def gaps)

lemma pruned: "P s \<Longrightarrow> P (RemovePrevsBehindRejected s room ids)"
  by (simp add: RemovePrevsBehindRejected_def Let_def extremities)

lemma remote_membership:
  "P (sv_store sv) \<Longrightarrow> P (sv_store (applyRemoteMembership room user content i d sv))"
  by (auto simp: applyRemoteMembership_def log_call_def Let_def upsert_membership split: option.split)

lemma maintained_accepted: "P s \<Longrightarrow> P (maintain_accepted room row rejected s)"
  by (simp add: maintain_accepted_def maintained split: option.split)

lemma listing_moved: "P s \<Longrightarrow> P (move_listing old new s)"
  by (simp add: move_listing_def SetRoomVisibility_def update_room_def rooms split: option.split)

lemma aliases_moved: "P s \<Longrightarrow> P (move_aliases p old new s)"
  unfolding move_aliases_def by (rule fold_keeps [where get = "\<lambda>s. s"]) (simp_all add: SetAliasForRoom_def aliases)

lemma log_calls: "sv_store (fold (\<lambda>x. log_call (c x)) xs sv) = sv_store sv"
  by (induction xs arbitrary: sv) (simp_all add: log_call_def)

lemma tombstone: "P (sv_store sv) \<Longrightarrow> P (sv_store (copyPushRulesOnRemoteTombstone p room content sv))"
  by (simp add: copyPushRulesOnRemoteTombstone_def Let_def case_prod_beta log_calls aliases_moved listing_moved)
    (simp add: log_call_def listing_moved aliases_moved)

lemma aliases_learnt: "P s \<Longrightarrow> P (learnAliasesFromStateEvent p room server j s)"
proof -
  assume P: "P s"
  have 1: "P (fold (\<lambda>a s. if a \<in> as then s else DeleteAlias s a) xs s)" for as xs
    by (rule fold_keeps [where get = "\<lambda>s. s", OF _ P]) (simp add: DeleteAlias_def aliases)
  have "P (fold (\<lambda>a s. if DomainOf a \<noteq> own_server p then s else SetAliasForRoom s (row a)) xs t)" if "P t" for xs t row
    by (rule fold_keeps [where get = "\<lambda>s. s", OF _ that]) (simp add: SetAliasForRoom_def aliases)
  then show ?thesis using P 1 by (simp add: learnAliasesFromStateEvent_def Let_def case_prod_beta)
qed

lemma guest_kicked: "P (sv_store sv) \<Longrightarrow> P (sv_store (kickLocalGuest p room user sv))"
proof -
  assume P: "P (sv_store sv)"
  have "P (snd (Maintain row rules (fst (InsertEvent (sv_store sv) row'))))" for row row' rules
    by (intro maintained insert_plain P)
  then show ?thesis using P insert_plain [OF P]
    by (auto simp: kickLocalGuest_def Let_def case_prod_beta log_call_def upsert_membership
        split: option.split sum.split)
qed

lemma guests_kicked: "P (sv_store sv) \<Longrightarrow> P (sv_store (kickJoinedGuestsOnRemote p room content sv))"
proof -
  assume P: "P (sv_store sv)"
  have "P (sv_store (fold (\<lambda>u sv. if LocalpartOf u \<in> set (sv_guests sv) then kickLocalGuest p room u sv else sv) us sv))" for us
    by (rule fold_server [OF _ P]) (simp add: guest_kicked)
  then show ?thesis using P by (simp add: kickJoinedGuestsOnRemote_def Let_def case_prod_beta)
qed

lemma state_done: "P (sv_store sv) \<Longrightarrow> P (sv_store (state_effects p j ev sv))"
  by (simp add: state_effects_def Let_def tombstone aliases_learnt guests_kicked)

lemma effects_store [simp]:
  "sv_store (membership_effects p ev rejected sv) = sv_store sv"
  "sv_store (track_partial room ev i sv) = sv_store sv"
  "sv_store (push_inbound room j ev i n rejected sv) = sv_store sv"
  by (simp_all add: membership_effects_def track_partial_def push_inbound_def log_call_def Let_def split: option.split)

end

subsection \<open>The verdict and the state of a snapshot\<close>

text \<open>With the two further writes, the rejection of an event and the state a reconciliation installs, whole transactions.\<close>

locale ingest_invariant = store_invariant +
  assumes mark: "P s \<Longrightarrow> P (MarkEventRejected s i)"
    and state_set: "P s \<Longrightarrow> state_rows_ok room rows \<Longrightarrow> P (TxSetRoomState s room rows)"
    and snapshot_set: "P s \<Longrightarrow> state_rows_ok room rows \<Longrightarrow> P (TxSaveEventState s i room rows)"
begin

lemma apply_dag_event: "P s \<Longrightarrow> P (snd (applyStateDAGEvent p room rules ev outlier s))"
  using insert_membership [of s "stateDAGRow p room ev outlier" None False]
  by (auto simp: applyStateDAGEvent_def Let_def case_prod_beta mark relation maintained split: sum.split)

lemma apply_dag_events: "P s \<Longrightarrow> P (snd (applyStateDAGEvents p room rules js s))"
  unfolding applyStateDAGEvents_def Let_def
  by (rule fold_keeps) (auto simp: apply_one_def Let_def case_prod_beta apply_dag_event)

lemma fill_dag: "P s \<Longrightarrow> P (fill_rounds p room rules i origin earliest n limit s)"
proof (induction p room rules i origin earliest n limit s rule: fill_rounds.induct)
  case (2 p room rules i origin earliest n limit s)
  show ?case
  proof (cases "missing_state_dag p origin room earliest i limit")
    case None
    then show ?thesis using 2 by simp
  next
    case (Some evs)
    obtain v s1 where vs: "applyStateDAGEvents p room rules evs s = (v, s1)" by fastforce
    then have "P s1" using apply_dag_events [of s p room rules evs] 2(2) by simp
    then show ?thesis using Some 2 vs by (cases evs) auto
  qed
qed simp

lemma after_fetched_keeps: "P (sv_store sv) \<Longrightarrow> P (sv_store (after_fetched room rules j ev row rejected sv))"
  by (auto simp: after_fetched_def Let_def mark gap relation redactions maintained remote_membership
      split: option.split)

lemma persist: "P (sv_store sv) \<Longrightarrow> P (sv_store (snd (persistVerifiedPDU p room v rules j auth sv)))"
  using insert_membership [of "sv_store sv"]
  by (auto simp: persistVerifiedPDU_def Let_def case_prod_beta apply_dag_event after_fetched_keeps insert_pdu_def
      split: option.split)

lemma fetch_missing: "P (sv_store sv) \<Longrightarrow> P (sv_store (fetchMissingEventsFor p room i origin sv))"
proof -
  assume P: "P (sv_store sv)"
  have "P (sv_store (fold (\<lambda>j sv. snd (persistVerifiedPDU p room v rules j True sv)) js sv))" for v rules js
    by (rule fold_server [OF persist P])
  then show ?thesis using P by (simp add: fetchMissingEventsFor_def Let_def split: option.split)
qed

lemma fetch_auth: "P (sv_store sv) \<Longrightarrow> P (sv_store (fetchAuthChainFor p room i origin sv))"
proof -
  assume P: "P (sv_store sv)"
  have "P (sv_store (fold (\<lambda>j sv. snd (persistVerifiedPDU p room v rules j False sv)) js sv))" for v rules js
    by (rule fold_server [OF persist P])
  then show ?thesis using P by (simp add: fetchAuthChainFor_def split: option.split)
qed

lemma persist_reconciled: "P (sv_store sv) \<Longrightarrow> P (sv_store (snd (persistReconcilePDU p room v j rejected sv)))"
  using insert_event [of "sv_store sv"]
  by (auto simp: persistReconcilePDU_def Let_def case_prod_beta InsertOutlierEvent_def mark redactions relation
      remote_membership split: option.split)

lemma save_known: "P s \<Longrightarrow> state_rows_ok room rows \<Longrightarrow> P (save_if_known room rows i s)"
  by (simp add: save_if_known_def snapshot_set split: option.split)

lemma written: "P s \<Longrightarrow> state_rows_ok room rows \<Longrightarrow> P (write_reconciled room fetched anchor rows s)"
  unfolding write_reconciled_def Let_def
  by (rule fold_keeps [where get = "\<lambda>s. s"]) (simp_all add: save_known state_set)

lemma reconciled: "P (sv_store sv) \<Longrightarrow> P (sv_store (reconcileStateFrom p room server anchor sv))"
proof -
  assume P: "P (sv_store sv)"
  have 1: "P (sv_store (fold (\<lambda>(i, j) sv. snd (persistReconcilePDU p room v j (i \<in> set rejected) sv)) raws sv))"
    for v rejected raws
    by (rule fold_server [OF _ P]) (simp add: case_prod_beta persist_reconciled)
  show ?thesis using P 1
    by (auto simp: reconcileStateFrom_def Let_def case_prod_beta intro: written reconciled_rows_ok split: option.split)
qed

lemma gap_filled: "P (sv_store sv) \<Longrightarrow> P (sv_store (fill_gap p j ev i origin sv))"
  by (simp add: fill_gap_def Let_def fetch_missing reconciled)

lemma auth_filled: "P (sv_store sv) \<Longrightarrow> P (sv_store (fill_auth p j ev i origin sv))"
  by (simp add: fill_auth_def fetch_auth)

lemma checked_dag: "P s \<Longrightarrow> P (snd (checkInboundStateDAGPDU p room rules j i origin isState ty sender content s))"
  by (simp add: checkInboundStateDAGPDU_def Let_def fillStateDAG_def fill_dag split: option.split sum.split)

lemma judged: "P (sv_store sv) \<Longrightarrow> P (sv_store (snd (judge p room j ev i origin sv)))"
  using checked_dag [of "sv_store sv"]
  by (simp add: judge_def Let_def case_prod_beta gap_filled auth_filled split: option.split)

lemma settled: "P s \<Longrightarrow> P (settle_store ev row j origin rejected s)"
  by (simp add: settle_store_def Let_def pruned redactions mark relation)

lemma pdu_stored: "P (sv_store sv) \<Longrightarrow> P (sv_store (snd (store_pdu p room j ev i origin rejected sv)))"
  using insert_membership [of "sv_store sv"]
  by (simp add: store_pdu_def Let_def case_prod_beta insert_pdu_def state_done maintained_accepted settled
      split: option.split)

lemma out_of_band: "P (sv_store sv) \<Longrightarrow> P (sv_store (snd (ingestOutOfBandMembership p j i target ev sv)))"
  by (simp add: ingestOutOfBandMembership_def Let_def case_prod_beta log_call_def outofband split: option.split)

lemma ingested: "P (sv_store sv) \<Longrightarrow> P (sv_store (snd (ingestPDU p j origin sv)))"
proof -
  assume P: "P (sv_store sv)"
  show ?thesis
    using P judged [OF P]
    by (auto simp: ingestPDU_def Let_def case_prod_beta out_of_band pdu_stored split: option.split)
qed

lemma ingest_steps: "P (sv_store (snd acc)) \<Longrightarrow> P (sv_store (snd (fold (ingest_step p origin) pdus acc)))"
proof (induction pdus arbitrary: acc)
  case (Cons j pdus)
  have "sv_store (snd (ingest_step p origin j acc)) = sv_store (snd (ingestPDU p j origin (snd acc)))"
    by (auto simp: ingest_step_def Let_def case_prod_beta split: prod.split)
  then show ?case using Cons ingested [OF Cons.prems] by simp
qed simp

lemma transaction: "P (sv_store sv) \<Longrightarrow> P (sv_store (snd (SendTransaction p txn origin pdus edus sv)))"
proof -
  assume P: "P (sv_store sv)"
  have "P (sv_store (snd (fold (ingest_step p origin) pdus (rw, log_call c sv))))" for rw c
    by (rule ingest_steps) (simp add: log_call_def P)
  then show ?thesis using P
    by (simp add: SendTransaction_def Let_def case_prod_beta log_calls) (simp add: log_call_def)
qed

end

subsection \<open>The consistency of the tables\<close>

lemma store_ok_updates:
  "store_ok (s\<lparr>db_extremities := x0\<rparr>) = store_ok s"
  "store_ok (s\<lparr>db_memberships := x1\<rparr>) = store_ok s"
  "store_ok (s\<lparr>db_relations := x2\<rparr>) = store_ok s"
  "store_ok (s\<lparr>db_gaps := x3\<rparr>) = store_ok s"
  "store_ok (s\<lparr>db_rooms := x4\<rparr>) = store_ok s"
  "store_ok (s\<lparr>db_aliases := x5\<rparr>) = store_ok s"
  by (simp_all add: store_ok_def TxGetEventState_def TxGetRoomState_def)

interpretation tables: ingest_invariant store_ok
proof
  show "store_ok s \<Longrightarrow> store_ok (fst (insert_event_row s row))" for s row
    using insert_outlier_ok [of s row] by (simp add: InsertOutlierEvent_def)
  show "store_ok s \<Longrightarrow> state_rows_ok room rows \<Longrightarrow> store_ok (TxSetRoomState s room rows)" for s room rows
    by (simp add: set_state_ok rows_ok_distinct)
  show "store_ok s \<Longrightarrow> state_rows_ok room rows \<Longrightarrow> store_ok (TxSaveEventState s i room rows)" for s i room rows
    by (rule save_snapshot_ok)
qed (simp_all add: rejection_ok redacted_by_ok maintain_ok store_ok_updates)

subsection \<open>Stored events\<close>

text \<open>The row of an event up to its marks of a redaction, which stay once set.\<close>

definition still_stored :: "string \<Rightarrow> EventRow \<Rightarrow> Store \<Rightarrow> bool" where
  "still_stored i e s \<longleftrightarrow> (\<exists>e'. TxGetEvent s i = Some e' \<and> (er_redacted e \<longrightarrow> er_redacted e')
     \<and> e'\<lparr>er_redacted := er_redacted e, er_redacted_by := er_redacted_by e\<rparr> = e)"

lemma still_stored_updates:
  "still_stored i e (s\<lparr>db_extremities := x0\<rparr>) = still_stored i e s"
  "still_stored i e (s\<lparr>db_memberships := x1\<rparr>) = still_stored i e s"
  "still_stored i e (s\<lparr>db_relations := x2\<rparr>) = still_stored i e s"
  "still_stored i e (s\<lparr>db_gaps := x3\<rparr>) = still_stored i e s"
  "still_stored i e (s\<lparr>db_rooms := x4\<rparr>) = still_stored i e s"
  "still_stored i e (s\<lparr>db_aliases := x5\<rparr>) = still_stored i e s"
  "still_stored i e (s\<lparr>db_rejected := r\<rparr>) = still_stored i e s"
  "still_stored i e (s\<lparr>db_snapshots := q\<rparr>) = still_stored i e s"
  "still_stored i e (s\<lparr>db_room_state := p\<rparr>) = still_stored i e s"
  by (simp_all add: still_stored_def TxGetEvent_def)

lemma find_append: "find p (xs @ ys) = (case find p xs of None \<Rightarrow> find p ys | Some x \<Rightarrow> Some x)"
  by (induction xs) auto

lemma find_map_same:
  "(\<And>x. p (f x) = p x) \<Longrightarrow> find p (map f xs) = map_option f (find p xs)"
  by (induction xs) auto

lemma maintain_events: "db_events (snd (Maintain row rules s)) = db_events s"
proof (cases "maintain_tx row rules s")
  case (Inr t)
  then show ?thesis using maintain_tx_frame [OF Inr] by (simp add: Maintain_def WithRoomWrite_def)
qed (simp add: Maintain_def WithRoomWrite_def)

lemma maintain_memberships: "db_memberships (snd (Maintain row rules s)) = db_memberships s"
proof (cases "maintain_tx row rules s")
  case (Inr t)
  have recompute: "db_memberships u' = db_memberships u" if "recomputeCurrentStateTx u room rules = Inr u'" for u u' room
    using recompute_frame [OF that] by (auto simp: TxSetRoomState_def)
  have "db_memberships t = db_memberships s"
  proof (cases "StateDAGs rules")
    case False
    then show ?thesis using Inr
      by (auto simp: maintain_tx_def TxSaveEventState_def dest!: recompute split: sum.splits)
  next
    case True
    have dag: "recomputeStateDAGCurrentStateTx u room rules = recomputeCurrentStateTx u room rules" for u room
      using True by (simp add: recomputeCurrentStateTx_def)
    have "db_memberships (TxAdvanceStateDAG u room i isState ps) = db_memberships u" for u room i isState ps
      by (simp add: TxAdvanceStateDAG_def Let_def)
    then show ?thesis using Inr True
      by (auto simp: maintain_tx_def maintainStateDAGTx_def Let_def TxSaveEventState_def TxSaveCalculatedAuth_def dag
          dest!: recompute split: sum.splits)
  qed
  then show ?thesis using Inr by (simp add: Maintain_def WithRoomWrite_def)
qed (simp add: Maintain_def WithRoomWrite_def)

interpretation stored: ingest_invariant "still_stored i e" for i e
proof
  show "still_stored i e s \<Longrightarrow> still_stored i e (fst (insert_event_row s row))" for s row
    by (auto simp: still_stored_def insert_event_row_def TxGetEvent_def find_append split: option.split)
  show "still_stored i e (SetEventRedactedBy s i' r)" if st: "still_stored i e s" for s i' r
  proof -
    obtain e' where e': "TxGetEvent s i = Some e'" "er_redacted e \<longrightarrow> er_redacted e'"
        "e'\<lparr>er_redacted := er_redacted e, er_redacted_by := er_redacted_by e\<rparr> = e"
      using st by (auto simp: still_stored_def)
    let ?f = "\<lambda>e. if er_event_id e = i' then e\<lparr>er_redacted := True, er_redacted_by := r\<rparr> else e"
    have "TxGetEvent (SetEventRedactedBy s i' r) i = Some (?f e')"
      using e'(1) by (simp add: TxGetEvent_def SetEventRedactedBy_def find_map_same)
    moreover have "er_redacted e \<longrightarrow> er_redacted (?f e')"
        "(?f e')\<lparr>er_redacted := er_redacted e, er_redacted_by := er_redacted_by e\<rparr> = e"
      using e'(2,3) by simp_all
    ultimately show ?thesis unfolding still_stored_def by blast
  qed
  show "still_stored i e s \<Longrightarrow> still_stored i e (snd (Maintain row rules s))" for s row rules
    by (simp only: still_stored_def TxGetEvent_def maintain_events)
qed (simp_all only: still_stored_updates MarkEventRejected_def TxSetRoomState_def TxSaveEventState_def)

subsection \<open>Rejections\<close>

definition rejected_within :: "string set \<Rightarrow> Store \<Rightarrow> bool" where
  "rejected_within R s \<longleftrightarrow> R \<subseteq> set (db_rejected s)"

lemma advance_rejected [simp]: "db_rejected (TxAdvanceStateDAG s room i isState ps) = db_rejected s"
  by (simp add: TxAdvanceStateDAG_def Let_def)

lemma recompute_rejected:
  assumes "recomputeCurrentStateTx s room rules = Inr s'"
  shows "db_rejected s' = db_rejected s"
  using recompute_frame [OF assms] by (auto simp: TxSetRoomState_def)

lemma maintain_rejected: "db_rejected (snd (Maintain row rules s)) = db_rejected s"
proof (cases "maintain_tx row rules s")
  case (Inr t)
  have "db_rejected t = db_rejected s"
  proof (cases "StateDAGs rules")
    case False
    then show ?thesis using Inr
      by (auto simp: maintain_tx_def TxSaveEventState_def dest!: recompute_rejected split: sum.splits)
  next
    case True
    have "recomputeStateDAGCurrentStateTx u room rules = recomputeCurrentStateTx u room rules" for u room
      using True by (simp add: recomputeCurrentStateTx_def)
    then show ?thesis using Inr True
      by (auto simp: maintain_tx_def maintainStateDAGTx_def Let_def TxSaveEventState_def TxSaveCalculatedAuth_def
          dest!: recompute_rejected split: sum.splits)
  qed
  then show ?thesis using Inr by (simp add: Maintain_def WithRoomWrite_def)
qed (simp add: Maintain_def WithRoomWrite_def)

interpretation rejections: ingest_invariant "rejected_within R" for R
proof
  show "rejected_within R s \<Longrightarrow> rejected_within R (MarkEventRejected s i)" for s i
    by (auto simp: rejected_within_def MarkEventRejected_def insert_new_set)
qed (simp_all add: rejected_within_def maintain_rejected SetEventRedactedBy_def TxSetRoomState_def
  TxSaveEventState_def insert_event_row_def split: option.split)

text \<open>Without a write of its own no event changes its verdict.\<close>

interpretation verdicts: store_invariant "\<lambda>s. db_rejected s = R" for R
  by unfold_locales (simp_all add: maintain_rejected SetEventRedactedBy_def insert_event_row_def split: option.split)

end
