(* ===== verification/Fed_Examples.thy ===== *)
theory Fed_Examples
  imports Fed_Inbound
begin

section \<open>A small server and its peers\<close>

text \<open>The concrete room the witnesses and the counterexamples of the federation theories run on.\<close>

definition ex_peers :: Peers where
  "ex_peers = \<lparr>own_server = ''here'', own_key = \<lparr>key_version = ''1'', key_private = ''k'', key_public = ''k''\<rparr>,
     clock = 1000, sha256 = (\<lambda>m. m), ed_sign = (\<lambda>k m. []), ed_verify = (\<lambda>pub m sig. True),
     random_localpart = (\<lambda>u. ''x''), published_keys = (\<lambda>server key. Some ''k''),
     missing_events = (\<lambda>server r e i. None), missing_state_dag = (\<lambda>server r e i n. None),
     event_auth = (\<lambda>server r i. None), state_ids = (\<lambda>server r i. None), get_event = (\<lambda>server i. None)\<rparr>"

definition ex_pdu_row :: "string \<Rightarrow> string \<Rightarrow> string \<Rightarrow> string \<Rightarrow> json \<Rightarrow> string list \<Rightarrow> int \<Rightarrow> EventRow" where
  "ex_pdu_row i ty key sender content prevs n =
     \<lparr>er_event_id = i, er_room_id = ''!r'', er_room_version = [], er_type = ty, er_state_key = key,
      er_sender = sender, er_depth = n, er_origin_server_ts = 0, er_stream = n, er_content = Some content,
      er_json = JObj [(''prev_events'', JArr (map JStr prevs))], er_redacts = [], er_redacted = False,
      er_redacted_by = [], er_outlier = False, er_prev_events = None\<rparr>"

definition ex_entry :: "string \<Rightarrow> string \<Rightarrow> string \<Rightarrow> StateRow" where
  "ex_entry ty key i = \<lparr>sr_room_id = ''!r'', sr_type = ty, sr_state_key = key, sr_event_id = i\<rparr>"

definition ex_state :: "StateRow list" where
  "ex_state = [ex_entry ''m.room.create'' [] ''$c'', ex_entry ''m.room.member'' ''@a:there'' ''$m'']"

definition ex_room :: RoomRow where
  "ex_room = \<lparr>rr_room_id = ''!r'', rr_version = ''10'', rr_creator = ''@a:there'', rr_is_public = False,
     rr_created_ts = 0, rr_partial_state = False, rr_servers = [], rr_unpartial_stream = 0\<rparr>"

text \<open>A room of version 10, created and joined by \<open>@a:there\<close>.\<close>

definition ex_store :: Store where
  "ex_store = empty_store\<lparr>
     db_events := [ex_pdu_row ''$c'' ''m.room.create'' [] ''@a:there'' (JObj [(''creator'', JStr ''@a:there'')]) [] 1,
                   ex_pdu_row ''$m'' ''m.room.member'' ''@a:there'' ''@a:there''
                     (JObj [(''membership'', JStr ''join'')]) [''$c''] 2],
     db_next_stream := 3, db_room_state := ex_state, db_snapshots := map (Pair ''$m'') ex_state,
     db_extremities := [\<lparr>fe_room_id = ''!r'', fe_event_id = ''$m'', fe_depth = 2\<rparr>],
     db_rooms := [ex_room]\<rparr>"

definition ex_server :: Server where
  "ex_server = \<lparr>sv_store = ex_store, sv_partial_events = [], sv_guests = [], sv_txns = [], sv_client_txns = [], sv_calls = []\<rparr>"

text \<open>A message, and a setting of the power levels, with the IDs the sender gives them.\<close>

definition ex_message :: json where
  "ex_message = JObj [(''auth_events'', JArr [JStr ''$c'', JStr ''$m'']), (''content'', JObj []),
     (''depth'', JNum ''3''), (''event_id'', JStr ''$e''), (''prev_events'', JArr [JStr ''$m'']),
     (''room_id'', JStr ''!r''), (''sender'', JStr ''@a:there''),
     (''signatures'', JObj [(''there'', JObj [(''ed25519:1'', JStr ''AAAA'')])]), (''type'', JStr ''m.room.message'')]"

definition ex_pdu :: PDU where
  "ex_pdu = \<lparr>pdu_event_id = ''$e'', pdu_room_id = ''!r'', pdu_type = ''m.room.message'', pdu_sender = ''@a:there'',
     pdu_depth = 3, pdu_ts = 0, pdu_content = Some (JObj []), pdu_redacts = [], pdu_state_key = None,
     pdu_signatures = [(''there'', [(''ed25519:1'', ''AAAA'')])]\<rparr>"

text \<open>Each stage of \<open>ingestPDU\<close> on the message, evaluated.\<close>

lemma ex_names [simp]:
  "go_fold ''event_id'' = ''EVENT_ID''" "go_fold ''room_id'' = ''ROOM_ID''" "go_fold ''type'' = ''TYPE''"
  "go_fold ''sender'' = ''SENDER''" "go_fold ''depth'' = ''DEPTH''"
  "go_fold ''origin_server_ts'' = ''ORIGIN_SERVER_TS''" "go_fold ''content'' = ''CONTENT''"
  "go_fold ''redacts'' = ''REDACTS''" "go_fold ''state_key'' = ''STATE_KEY''"
  "go_fold ''signatures'' = ''SIGNATURES''" "go_fold ''auth_events'' = ''AUTH_EVENTS''"
  "go_fold ''prev_events'' = ''PREV_EVENTS''" "parse_int64 ''3'' = Some 3"
  by code_simp+

lemma ex_read: "read_inbound ex_message = Some ex_pdu"
  by (simp add: read_inbound_def ex_message_def ex_pdu_def pdu_fields_def zero_pdu_def fld_def dec_signatures_def
      del: go_fold.simps)

lemma ex_pdu_sel [simp]:
  "pdu_event_id ex_pdu = ''$e''" "pdu_room_id ex_pdu = ''!r''" "pdu_type ex_pdu = ''m.room.message''"
  "pdu_sender ex_pdu = ''@a:there''" "pdu_content ex_pdu = Some (JObj [])" "pdu_redacts ex_pdu = []"
  "pdu_state_key ex_pdu = None"
  by (simp_all add: ex_pdu_def)

lemma ex_server_sel [simp]: "sv_store ex_server = ex_store" "sv_txns ex_server = []"
  by (simp_all add: ex_server_def)

lemma ex_get_room: "GetRoom ex_store ''!r'' = Some ex_room"
  by (simp add: GetRoom_def ex_store_def ex_room_def)

lemma ex_room_sel [simp]: "rr_version ex_room = ''10''" "rr_partial_state ex_room = False"
  by (simp_all add: ex_room_def)

lemma ex_has_state: "HasRoomState ex_store ''!r''"
  by code_simp

lemma ex_passes: "passes (verify ex_peers ex_message ''10'')"
  by code_simp

lemma ex_acl: "acl_allows (serverACLForRoom ex_store ''!r'') ''there''"
  by code_simp

lemma ex_new_event: "\<not> EventAccepted ex_store ''$e''"
  by code_simp

lemma ex_prevs: "prevEventIDs ex_message = [''$m'']" "authEventIDsFromRaw ex_message = [''$c'', ''$m'']"
  by (simp_all add: ParsePrevEvents_def authEventIDsFromRaw_def ex_message_def del: go_fold.simps)

lemma ex_references:
  "\<not> hasUnknownPrevEvents ex_store ex_message" "\<not> hasUnknownAuthEvents ex_store ex_message"
  "\<not> authReferencesRejected ex_store ex_message"
  by (simp_all add: hasUnknownPrevEvents_def hasUnknownAuthEvents_def authReferencesRejected_def ex_prevs
      TxEventsByIDs_def TxRejectedEventIDs_def ex_store_def ex_pdu_row_def empty_store_def)

lemma ex_rules: "Get ''10'' = Some v10_rules" "\<not> StateDAGs v10_rules"
  by code_simp+

lemma ex_no_dag: "state_dag_rules ex_room = None"
  by (simp add: state_dag_rules_def ex_rules)

lemma ex_authorised:
  "\<not> isl (Authorize (ed_verify ex_peers) v10_rules ''m.room.message'' [] ''@a:there'' (Some (JObj []))
       (memberStateSnapshotCtx ex_store ''!r'' ''@a:there'' [] (Some (JObj []))) False)"
  by code_simp

lemma ex_judged: "judge ex_peers ex_room ex_message ex_pdu ''$e'' ''there'' ex_server = (Some False, ex_server)"
  using ex_authorised
  by (simp add: judge_def ex_no_dag fill_gap_def fill_auth_def ex_references plain_verdict_def full_verdict_def ex_rules
      auth_state_def refused_def pdu_key_def Let_def)

lemma ex_stored: "fst (ingestPDU ex_peers ex_message ''there'' ex_server) = (''$e'', True)"
  by (simp add: ingestPDU_def ex_read ex_get_room ex_passes ex_has_state ex_acl ex_new_event ex_judged
      revokes_foreign_invite_def redacts_other_room_def store_pdu_def insert_pdu_def pdu_row_def Let_def
      case_prod_beta split: option.split)

text \<open>The server after a transaction with the message, and after the message alone.\<close>

definition ex_after :: Server where
  "ex_after = snd (SendTransaction ex_peers ''t'' ''there'' [ex_message] [] ex_server)"

definition ex_ingested :: Server where
  "ex_ingested = snd (ingestPDU ex_peers ex_message ''there'' ex_server)"

lemma ex_ingest: "ingestPDU ex_peers ex_message ''there'' ex_server = ((''$e'', True), ex_ingested)"
  using ex_stored by (simp add: ex_ingested_def prod_eq_iff)

lemma ex_known: "TxGetEvent ex_store ''$m'' = Some (ex_pdu_row ''$m'' ''m.room.member'' ''@a:there'' ''@a:there''
     (JObj [(''membership'', JStr ''join'')]) [''$c''] 2)"
  by (simp add: TxGetEvent_def ex_store_def ex_pdu_row_def)

end
