(* ===== verification/Fed_Laws.thy ===== *)
theory Fed_Laws
  imports Fed_Invariants Fed_Examples
begin

section \<open>What inbound federation guarantees\<close>

subsection \<open>Runs of transactions\<close>

text \<open>A run: transactions one after the other, the peers' answers free to change from one to the next.\<close>

inductive server_run :: "Server \<Rightarrow> Server \<Rightarrow> bool" where
  run_none: "server_run sv sv"
| run_transaction: "server_run sv sv' \<Longrightarrow> server_run sv (snd (SendTransaction p txn origin pdus edus sv'))"

lemma ex_store_ok: "store_ok ex_store"
proof -
  have "TxGetEventState ex_store i = Some rows \<Longrightarrow> rows = ex_state" for i rows
    by (cases "i = ''$m''") (simp_all add: TxGetEventState_def ex_store_def ex_state_def ex_entry_def)
  moreover have "TxGetRoomState ex_store room = (if room = ''!r'' then ex_state else [])" for room
    by (simp add: TxGetRoomState_def ex_store_def ex_state_def ex_entry_def)
  moreover have "rows_distinct ex_state" "rows_distinct []" "distinct (map er_event_id (db_events ex_store))"
    by (simp_all add: rows_distinct_def ex_state_def ex_entry_def ex_store_def ex_pdu_row_def)
  ultimately show ?thesis by (metis store_ok_def)
qed

lemma ex_run: "server_run ex_server ex_after"
  unfolding ex_after_def by (rule run_transaction [OF run_none])

context ingest_invariant
begin

lemma run: "server_run sv sv' \<Longrightarrow> P (sv_store sv) \<Longrightarrow> P (sv_store sv')"
  by (induction rule: server_run.induct) (simp_all add: transaction)

end

text \<open>
  Whatever transactions arrive and whatever the other servers answer, an event once stored keeps its ID, room,
  sender, content, JSON and stream position; only a mark of its redaction can be added.
\<close>

theorem stored_events_kept:
  assumes "server_run sv sv'" and "TxGetEvent (sv_store sv) i = Some e"
  shows "\<exists>e'. TxGetEvent (sv_store sv') i = Some e' \<and> (er_redacted e \<longrightarrow> er_redacted e')
     \<and> e'\<lparr>er_redacted := er_redacted e, er_redacted_by := er_redacted_by e\<rparr> = e"
  using stored.run [OF assms(1), of i e] assms(2) by (simp add: still_stored_def)

theorem stored_events_kept_witness:
  "\<exists>e'. TxGetEvent (sv_store ex_after) ''$m'' = Some e' \<and> er_sender e' = ''@a:there''"
proof -
  obtain e' where "TxGetEvent (sv_store ex_after) ''$m'' = Some e'"
    and "e'\<lparr>er_redacted := False, er_redacted_by := []\<rparr> = ex_pdu_row ''$m'' ''m.room.member'' ''@a:there'' ''@a:there''
           (JObj [(''membership'', JStr ''join'')]) [''$c''] 2"
    using stored_events_kept [OF ex_run, of "''$m''"] by (auto simp: ex_known ex_pdu_row_def)
  then show ?thesis by (auto simp: ex_pdu_row_def dest: arg_cong [where f = er_sender])
qed

text \<open>
  Whatever transactions arrive, the tables stay consistent: one row per event ID, and in every snapshot and
  in every room's current state one event per type and state key.
\<close>

theorem transactions_keep_tables:
  assumes "server_run sv sv'" and "store_ok (sv_store sv)"
  shows "store_ok (sv_store sv')"
  by (rule tables.run [OF assms])

theorem transactions_keep_tables_witness: "store_ok (sv_store ex_after)"
  using transactions_keep_tables [OF ex_run] ex_store_ok by simp

text \<open>
  Inbound federation never lifts a rejection: an event that was rejected stays marked through every
  transaction, its own redelivery with a different verdict included.
\<close>

theorem rejections_permanent:
  assumes "server_run sv sv'" and "IsEventRejected (sv_store sv) i"
  shows "IsEventRejected (sv_store sv') i"
  using rejections.run [OF assms(1), of "{i}"] assms(2) by (simp add: rejected_within_def IsEventRejected_def)

theorem rejections_permanent_witness:
  "IsEventRejected (sv_store (snd (SendTransaction ex_peers ''t'' ''there'' [ex_message] []
     (ex_server\<lparr>sv_store := MarkEventRejected ex_store ''$e''\<rparr>)))) ''$e''"
  by (rule rejections_permanent [OF run_transaction [OF run_none]])
    (simp add: MarkEventRejected_def IsEventRejected_def insert_new_set)

subsection \<open>Resent transactions\<close>

lemma handled_transaction:
  "length pdus \<le> 50 \<Longrightarrow> (origin, txn) \<in> set (sv_txns (snd (SendTransaction p txn origin pdus edus sv)))"
  by (auto simp: SendTransaction_def Let_def case_prod_beta log_call_def)

text \<open>
  A transaction is handled once: sent again under the same origin and ID, with whatever events, it changes
  nothing but the note that its sender is alive, and its answer lists no event.
\<close>

theorem resent_transaction:
  assumes "length pdus \<le> 50" and "length pdus' \<le> 50"
    and "sv' = snd (SendTransaction p txn origin pdus edus sv)"
  shows "SendTransaction p' txn origin pdus' edus' sv' = (TxnResult [], log_call (NoteDestinationAlive origin) sv')"
proof -
  have "(origin, txn) \<in> set (sv_txns (log_call (NoteDestinationAlive origin) sv'))"
    using handled_transaction [OF assms(1), of origin txn p edus sv] by (simp add: assms(3) log_call_def)
  then show ?thesis using assms(2) by (simp add: SendTransaction_def Let_def)
qed

theorem resent_transaction_witness:
  "SendTransaction ex_peers ''t'' ''there'' [] [JNull] ex_after
     = (TxnResult [], log_call (NoteDestinationAlive ''there'') ex_after)"
  by (rule resent_transaction [of "[ex_message]"]) (simp_all add: ex_after_def)

subsection \<open>The verdict on an event\<close>

lemma pdu_row_fields [simp]:
  "er_event_id (pdu_row i room j ev) = i" "er_room_id (pdu_row i room j ev) = room"
  "er_content (pdu_row i room j ev) = pdu_content ev"
  by (simp_all add: pdu_row_def)

lemma store_pdu_cases:
  assumes "store_pdu p room j ev i origin rejected sv = ((i', True), sv')"
  obtains row s1 sv2 where "i' = i" and "pdu_content ev \<noteq> None"
    and "s1 = fst (InsertEventWithMembership (sv_store sv) (pdu_row i (pdu_room_id ev) j ev)
                (pdu_membership ev i rejected) (\<not> rejected))"
    and "er_event_id row = i" and "er_room_id row = pdu_room_id ev"
    and "sv_store sv2 = maintain_accepted room row rejected (settle_store ev row j origin rejected s1)"
    and "sv' = state_effects p j ev sv2"
proof -
  let ?r = "pdu_row i (pdu_room_id ev) j ev"
  obtain s1 n where s1: "InsertEventWithMembership (sv_store sv) ?r (pdu_membership ev i rejected) (\<not> rejected) = (s1, n)"
    by fastforce
  have c: "pdu_content ev \<noteq> None" using assms by (cases "pdu_content ev") (simp_all add: store_pdu_def insert_pdu_def Let_def)
  let ?row = "?r\<lparr>er_stream := n\<rparr>"
  let ?sv2 = "membership_effects p ev rejected (track_partial room ev i (push_inbound room j ev i n rejected
      (sv\<lparr>sv_store := maintain_accepted room ?row rejected (settle_store ev ?row j origin rejected s1)\<rparr>)))"
  have "i' = i" "sv' = state_effects p j ev ?sv2"
    using assms c s1 by (auto simp: store_pdu_def insert_pdu_def Let_def)
  then show thesis using c s1 by (intro that [of s1 ?row ?sv2]) simp_all
qed

lemma settle_rejected:
  "db_rejected (settle_store ev row j origin rejected s) =
     (if rejected then insert_new id (er_event_id row) (db_rejected s) else db_rejected s)"
proof -
  have 1: "db_rejected (IndexRelationFromRow t row) = db_rejected t" for t
    by (rule verdicts.relation) (rule refl)
  have 2: "db_rejected (apply_redactions ev row t) = db_rejected t" for t
    by (rule verdicts.redactions) (rule refl)
  have 3: "db_rejected (RemovePrevsBehindRejected t room ids) = db_rejected t" for t room ids
    by (rule verdicts.pruned) (rule refl)
  show ?thesis by (simp add: settle_store_def Let_def 1 2 3 MarkEventRejected_def)
qed

lemma store_pdu_verdict:
  assumes "store_pdu p room j ev i origin rejected sv = ((i', True), sv')"
  shows "set (db_rejected (sv_store sv')) = set (db_rejected (sv_store sv)) \<union> (if rejected then {i} else {})"
proof -
  obtain row s1 sv2 where s1: "db_rejected s1 = db_rejected (sv_store sv)" and row: "er_event_id row = i"
    and sv2: "sv_store sv2 = maintain_accepted room row rejected (settle_store ev row j origin rejected s1)"
    and sv': "sv' = state_effects p j ev sv2"
    by (rule store_pdu_cases [OF assms]) (metis verdicts.insert_membership)
  have "db_rejected (sv_store sv') = db_rejected (sv_store sv2)"
    unfolding sv' by (rule verdicts.state_done) (rule refl)
  moreover have "db_rejected (maintain_accepted room row rejected t) = db_rejected t" for t
    by (rule verdicts.maintained_accepted) (rule refl)
  ultimately show ?thesis by (auto simp: sv2 settle_rejected s1 row insert_new_set)
qed

lemma passes_version: "passes (verify p j v) \<Longrightarrow> \<exists>rules. Get v = Some rules"
  by (cases "Get v") (auto simp: verify_def Verify_def passes_def)

lemma not_isl_unit: "\<not> isl r \<longleftrightarrow> r = Inr ()"
  by (cases r) auto

text \<open>The ways an event gets into a room whose state the server holds.\<close>

lemma accepted_cases:
  assumes "ingestPDU p j origin sv = ((i, True), sv')" and "read_inbound j = Some ev"
    and "GetRoom (sv_store sv) (pdu_room_id ev) = Some room" and "HasRoomState (sv_store sv) (pdu_room_id ev)"
    and "\<not> EventAccepted (sv_store sv) i"
  obtains rejected sv1 where "passes (verify p j (rr_version room))"
    and "acl_allows (serverACLForRoom (sv_store sv) (pdu_room_id ev)) origin"
    and "judge p room j ev i origin sv = (Some rejected, sv1)"
    and "store_pdu p room j ev i origin (rejected \<or> redacts_other_room ev (sv_store sv1)) sv1 = ((i, True), sv')"
proof -
  define i' where "i' = (if pdu_event_id ev = [] then vr_event_id (verify p j (rr_version room)) else pdu_event_id ev)"
  have p: "passes (verify p j (rr_version room))"
    and a: "acl_allows (serverACLForRoom (sv_store sv) (pdu_room_id ev)) origin"
    using assms(1-4) by (auto simp: ingestPDU_def Let_def split: if_splits)
  have u: "(if origin \<noteq> [] \<and> EventAccepted (sv_store sv) i' then ((i', True), sv)
     else case judge p room j ev i' origin sv of
        (None, sv1) \<Rightarrow> ((i', False), sv1)
      | (Some rejected, sv1) \<Rightarrow>
          if revokes_foreign_invite p j ev (sv_store sv1) then (([], False), sv1)
          else store_pdu p room j ev i' origin (rejected \<or> redacts_other_room ev (sv_store sv1)) sv1) = ((i, True), sv')"
    using assms(1-4) p a unfolding ingestPDU_def i'_def Let_def by simp
  obtain verdict sv1 where jd: "judge p room j ev i' origin sv = (verdict, sv1)" by fastforce
  have n: "\<not> (origin \<noteq> [] \<and> EventAccepted (sv_store sv) i')" using u assms(5) by (auto split: if_splits)
  then obtain rejected where r: "verdict = Some rejected"
    and st: "store_pdu p room j ev i' origin (rejected \<or> redacts_other_room ev (sv_store sv1)) sv1 = ((i, True), sv')"
    using u jd by (cases verdict) (auto split: if_splits)
  have "i = i'" by (rule store_pdu_cases [OF st])
  then show thesis using that [OF p a] jd r st by simp
qed


lemma ex_not_rejected: "\<not> IsEventRejected (sv_store ex_ingested) ''$e''"
proof -
  have "store_pdu ex_peers ex_room ex_message ex_pdu ''$e'' ''there'' False ex_server = ((''$e'', True), ex_ingested)"
    by (rule accepted_cases [OF ex_ingest ex_read]) (auto simp: ex_get_room ex_has_state ex_new_event ex_judged
        redacts_other_room_def)
  then show ?thesis by (auto simp: IsEventRejected_def ex_store_def empty_store_def dest: store_pdu_verdict)
qed


subsection \<open>Rejected events\<close>

text \<open>The tables a room's state rests on, and writes that leave them alone.\<close>

definition core :: "Store \<Rightarrow> StateRow list \<times> (string \<times> StateRow) list \<times> ForwardExtremity list \<times> MembershipRow list" where
  "core s = (db_room_state s, db_snapshots s, db_extremities s, db_memberships s)"

lemma core_fold: "(\<And>x s. core (f x s) = core s) \<Longrightarrow> core (fold f xs s) = core s"
  by (induction xs arbitrary: s) simp_all

lemma core_updates [simp]:
  "core (s\<lparr>db_aliases := as\<rparr>) = core s" "core (s\<lparr>db_rooms := rs\<rparr>) = core s"
  "core (s\<lparr>db_rejected := r\<rparr>) = core s" "core (s\<lparr>db_relations := ls\<rparr>) = core s"
  "core (fst (insert_event_row s row)) = core s"
  by (simp_all add: core_def insert_event_row_def split: option.split)

lemma core_listing [simp]: "core (move_listing old new s) = core s"
  by (simp add: move_listing_def SetRoomVisibility_def update_room_def split: option.split)

lemma core_aliases [simp]:
  "core (move_aliases p old new s) = core s" "core (learnAliasesFromStateEvent p room server j s) = core s"
  by (auto simp: move_aliases_def learnAliasesFromStateEvent_def Let_def case_prod_beta SetAliasForRoom_def DeleteAlias_def
      intro!: core_fold core_fold [THEN trans])

lemma core_tombstone [simp]: "core (sv_store (copyPushRulesOnRemoteTombstone p room content sv)) = core (sv_store sv)"
proof -
  have "sv_store (fold (\<lambda>lp. log_call (CopyTags lp room new)) xs sv) = sv_store sv" for new xs sv
    by (induction xs arbitrary: sv) (simp_all add: log_call_def)
  then show ?thesis by (simp add: copyPushRulesOnRemoteTombstone_def Let_def case_prod_beta) (simp add: log_call_def)
qed

lemma core_effects:
  "pdu_type ev \<noteq> ''m.room.guest_access'' \<Longrightarrow> core (sv_store (state_effects p j ev sv)) = core (sv_store sv)"
  by (simp add: state_effects_def Let_def)

text \<open>
  C19: A rejected event that is not a change of the guest access leaves the current states, snapshots, forward
  extremities and memberships of all rooms as they were, and is marked rejected.
\<close>

theorem rejected_event_inert:
  assumes "store_pdu p room j ev i origin True sv = ((i', True), sv')" and "pdu_type ev \<noteq> ''m.room.guest_access''"
  shows "db_room_state (sv_store sv') = db_room_state (sv_store sv)
    \<and> db_snapshots (sv_store sv') = db_snapshots (sv_store sv)
    \<and> db_extremities (sv_store sv') = db_extremities (sv_store sv)
    \<and> db_memberships (sv_store sv') = db_memberships (sv_store sv) \<and> IsEventRejected (sv_store sv') i"
proof (rule store_pdu_cases [OF assms(1)])
  fix row s1 sv2
  assume s1: "s1 = fst (InsertEventWithMembership (sv_store sv) (pdu_row i (pdu_room_id ev) j ev)
        (pdu_membership ev i True) (\<not> True))"
    and sv2: "sv_store sv2 = maintain_accepted room row True (settle_store ev row j origin True s1)"
    and sv': "sv' = state_effects p j ev sv2"
  have "pdu_membership ev i True = None" by (simp add: pdu_membership_def split: option.split)
  then have "core s1 = core (sv_store sv)" by (simp add: s1 InsertEventWithMembership_def case_prod_beta)
  then have "core (sv_store sv') = core (sv_store sv)"
    by (simp add: sv' core_effects [OF assms(2)] sv2 maintain_accepted_def settle_store_def Let_def
        IndexRelationFromRow_def InsertRelation_def MarkEventRejected_def split: option.split)
  then show ?thesis using store_pdu_verdict [OF assms(1)] by (simp add: core_def IsEventRejected_def)
qed

theorem rejected_event_inert_witness:
  "\<exists>i (sv :: Server). db_extremities (sv_store sv) = db_extremities ex_store \<and> IsEventRejected (sv_store sv) i"
proof -
  obtain i' sv' where r: "store_pdu ex_peers ex_room ex_message ex_pdu ''$e'' ''there'' True ex_server = ((i', True), sv')"
    by (simp add: store_pdu_def insert_pdu_def pdu_row_def Let_def case_prod_beta)
  show ?thesis using rejected_event_inert [OF r] by (intro exI [of _ "''$e''"] exI [of _ sv']) simp
qed

subsection \<open>Transactions without an origin\<close>

text \<open>
  The \<open>origin\<close> is read from the transaction's body. Where it is empty neither gaps nor the authorization
  rules are looked at, so with an event nobody signed a server speaks for any user.
\<close>

lemma judge_without_origin: "state_dag_rules room = None \<Longrightarrow> judge p room j ev i [] sv = (Some False, sv)"
  by (simp add: judge_def Let_def fill_gap_def fill_auth_def plain_verdict_def)

definition ex_stranger :: json where
  "ex_stranger = JObj [(''content'', JObj []), (''event_id'', JStr ''$s''), (''room_id'', JStr ''!r''),
     (''sender'', JStr ''@stranger:here''), (''type'', JStr ''m.room.message'')]"

lemma ex_stranger_accepted: "fst (ingestPDU ex_peers ex_stranger [] ex_server) = (''$s'', True)"
proof -
  have r: "read_inbound ex_stranger = Some \<lparr>pdu_event_id = ''$s'', pdu_room_id = ''!r'', pdu_type = ''m.room.message'',
      pdu_sender = ''@stranger:here'', pdu_depth = 0, pdu_ts = 0, pdu_content = Some (JObj []), pdu_redacts = [],
      pdu_state_key = None, pdu_signatures = []\<rparr>"
    by (simp add: read_inbound_def ex_stranger_def pdu_fields_def zero_pdu_def fld_def dec_signatures_def
        del: go_fold.simps)
  have v: "passes (verify ex_peers ex_stranger ''10'')" "acl_allows (serverACLForRoom ex_store ''!r'') []"
    by code_simp+
  show "fst (ingestPDU ex_peers ex_stranger [] ex_server) = (''$s'', True)"
    by (simp add: ingestPDU_def r ex_get_room v ex_has_state judge_without_origin ex_no_dag
        revokes_foreign_invite_def redacts_other_room_def store_pdu_def insert_pdu_def pdu_row_def Let_def
        case_prod_beta split: option.split)
qed

end
