(* ===== verification/Fed_Walks.thy ===== *)
theory Fed_Walks
  imports Fed_Laws
begin

section \<open>Gaps, reconciliation and the order of a state DAG\<close>

subsection \<open>The frontier of a gap\<close>

text \<open>The ancestors of some events along the previous events of those the store knows.\<close>

inductive ancestor :: "Store \<Rightarrow> string list \<Rightarrow> string \<Rightarrow> bool" for s start where
  ancestor_start: "i \<in> set start \<Longrightarrow> i \<noteq> [] \<Longrightarrow> ancestor s start i"
| ancestor_step: "ancestor s start i \<Longrightarrow> TxGetEvent s i = Some e \<Longrightarrow> q \<in> set (prevEventIDs (er_json e)) \<Longrightarrow> q \<noteq> []
    \<Longrightarrow> ancestor s start q"

lemma frontier_sound:
  "frontier_walk s n seen queue = i \<Longrightarrow> i \<noteq> [] \<Longrightarrow> \<forall>q \<in> set queue. q \<noteq> [] \<longrightarrow> ancestor s start q \<Longrightarrow>
   ancestor s start i \<and> TxGetEvent s i = None"
proof (induction s n seen queue rule: frontier_walk.induct)
  case (2 s n seen q queue)
  show ?case
  proof (cases "q = [] \<or> q \<in> set seen")
    case True
    then show ?thesis using 2 by simp
  next
    case False
    then obtain m where n: "n = Suc m" using 2(3,4) by (cases n) auto
    show ?thesis
    proof (cases "TxGetEvent s q")
      case None
      then show ?thesis using 2(3,5) False n by auto
    next
      case (Some e)
      have "\<forall>q' \<in> set (queue @ prevEventIDs (er_json e)). q' \<noteq> [] \<longrightarrow> ancestor s start q'"
        using 2(5) False Some by (auto intro: ancestor_step)
      then show ?thesis using 2(2) [OF False n Some] 2(3,4) False n Some by simp
    qed
  qed
qed simp

text \<open>A closed set of known events around what the walk has seen, when it finds nothing.\<close>

definition known_ids :: "Store \<Rightarrow> string set" where
  "known_ids s = {i. TxGetEvent s i \<noteq> None}"

definition closed_in :: "Store \<Rightarrow> string set \<Rightarrow> string set \<Rightarrow> bool" where
  "closed_in s A B \<longleftrightarrow> A \<subseteq> known_ids s
     \<and> (\<forall>i e. i \<in> A \<longrightarrow> TxGetEvent s i = Some e \<longrightarrow> set (prevEventIDs (er_json e)) \<subseteq> insert [] B)"

lemma finite_known: "finite (known_ids s)"
proof -
  have "known_ids s \<subseteq> er_event_id ` set (db_events s)" by (auto simp: known_ids_def TxGetEvent_None)
  then show ?thesis using finite_surj by blast
qed

lemma frontier_complete:
  "frontier_walk s n seen queue = [] \<Longrightarrow> card (known_ids s - set seen) < n \<Longrightarrow>
   closed_in s (set seen) (set seen \<union> set queue) \<Longrightarrow>
   \<exists>F. set seen \<union> (set queue - {[]}) \<subseteq> F \<and> closed_in s F F"
proof (induction s n seen queue rule: frontier_walk.induct)
  case (1 s n seen)
  then show ?case by (intro exI [of _ "set seen"]) simp
next
  case (2 s n seen q queue)
  show ?case
  proof (cases "q = [] \<or> q \<in> set seen")
    case True
    then have "closed_in s (set seen) (set seen \<union> set queue)" using 2(5) by (fastforce simp: closed_in_def)
    then obtain F where "set seen \<union> (set queue - {[]}) \<subseteq> F" "closed_in s F F" using 2(1) [OF True] 2(3,4) True by auto
    then show ?thesis using True by (intro exI [of _ F]) auto
  next
    case False
    then obtain m where n: "n = Suc m" using 2(4) by (cases n) auto
    obtain e where e: "TxGetEvent s q = Some e" using 2(3) False n by (auto split: option.splits)
    have q: "q \<in> known_ids s - set seen" using e False by (simp add: known_ids_def)
    have "known_ids s - set (q # seen) = known_ids s - set seen - {q}" by auto
    then have c: "card (known_ids s - set (q # seen)) < m"
      using 2(4) card_Diff1_less [OF finite_Diff [OF finite_known] q] n by simp
    have w: "frontier_walk s m (q # seen) (queue @ prevEventIDs (er_json e)) = []" using 2(3) False n e by simp
    have cl: "closed_in s (set (q # seen)) (set (q # seen) \<union> set (queue @ prevEventIDs (er_json e)))"
      using 2(5) q e by (fastforce simp: closed_in_def)
    obtain F where "set (q # seen) \<union> (set (queue @ prevEventIDs (er_json e)) - {[]}) \<subseteq> F" "closed_in s F F"
      using 2(2) [OF False n e w c cl] by blast
    then show ?thesis by (intro exI [of _ F]) auto
  qed
qed

text \<open>
  The frontier of a gap is an event the server does not know, reached from the event's previous events through
  events it knows; and when none is found, in a store of fewer than 5000 events, every ancestor is known.
\<close>

theorem gap_frontier:
  "(unknownDeepFrontier s j \<noteq> [] \<longrightarrow>
      ancestor s (prevEventIDs j) (unknownDeepFrontier s j) \<and> TxGetEvent s (unknownDeepFrontier s j) = None)
   \<and> (unknownDeepFrontier s j = [] \<and> length (db_events s) < 5000 \<and> ancestor s (prevEventIDs j) i \<longrightarrow>
      TxGetEvent s i \<noteq> None)"
proof (intro conjI impI)
  assume "unknownDeepFrontier s j \<noteq> []"
  then show "ancestor s (prevEventIDs j) (unknownDeepFrontier s j)" "TxGetEvent s (unknownDeepFrontier s j) = None"
    using frontier_sound [OF refl, of s 5000 "[]" "prevEventIDs j" "prevEventIDs j"]
    by (auto simp: unknownDeepFrontier_def intro: ancestor_start)
next
  assume a: "unknownDeepFrontier s j = [] \<and> length (db_events s) < 5000 \<and> ancestor s (prevEventIDs j) i"
  have "known_ids s \<subseteq> er_event_id ` set (db_events s)" by (auto simp: known_ids_def TxGetEvent_None)
  then have "card (known_ids s) \<le> length (db_events s)"
    by (meson List.finite_set card_image_le card_length card_mono finite_imageI le_trans)
  then have "card (known_ids s - set []) < 5000" using a by simp
  then obtain F where F: "set (prevEventIDs j) - {[]} \<subseteq> F" "closed_in s F F"
    using a frontier_complete [of s 5000 "[]" "prevEventIDs j"] by (auto simp: unknownDeepFrontier_def closed_in_def)
  have "i \<in> F" if "ancestor s (prevEventIDs j) i" for i
    using that
  proof induction
    case (ancestor_step i e q)
    then show ?case using F(2) unfolding closed_in_def by blast
  qed (use F(1) in auto)
  then show "TxGetEvent s i \<noteq> None" using a F(2) by (auto simp: closed_in_def known_ids_def)
qed

text \<open>In the example room the message has no gap, so the create event behind its previous event is known.\<close>

theorem gap_frontier_witness:
  "unknownDeepFrontier ex_store ex_message = [] \<and> ancestor ex_store [''$m''] ''$c'' \<and> TxGetEvent ex_store ''$c'' \<noteq> None"
proof -
  have f: "unknownDeepFrontier ex_store ex_message = []" by code_simp
  have "ancestor ex_store [''$m''] ''$m''" by (rule ancestor_start) simp_all
  then have "ancestor ex_store [''$m''] ''$c''"
    by (rule ancestor_step [OF _ ex_known]) (simp_all add: ex_pdu_row_def ParsePrevEvents_def del: go_fold.simps)
  moreover have "length (db_events ex_store) < 5000" by (simp add: ex_store_def)
  ultimately show ?thesis using gap_frontier [of ex_store ex_message "''$c''"] f by (simp add: ex_prevs)
qed

subsection \<open>Reconciling a snapshot\<close>

text \<open>The state map a keyed table of tuples stands for, and one step of the merge on it.\<close>

lemma keyed_map: "keyed room m \<Longrightarrow> gm_get (stateRowsToMap (map snd m)) k = map_option sr_event_id (gm_get m k)"
proof -
  assume m: "keyed room m"
  have "map (\<lambda>r. (state_key_of (sr_type r) (sr_state_key r), sr_event_id r)) (map snd m) = map (\<lambda>(k, r). (k, sr_event_id r)) m"
    using m by (auto simp: keyed_def)
  then have "stateRowsToMap (map snd m) = gm_of (map (\<lambda>(k, r). (k, sr_event_id r)) m)"
    by (simp add: stateRowsToMap_gm_of del: map_map)
  moreover have "gm_ok (map (\<lambda>(k, r). (k, sr_event_id r)) m)"
    using m by (simp add: keyed_def gm_ok_def comp_def case_prod_beta)
  ultimately show ?thesis by (simp add: gm_of_idem map_of_map)
qed

lemma current_rows_view: "gm_get (state_view s room) k = map_option sr_event_id (gm_get (current_rows s room) k)"
proof -
  let ?rows = "map (\<lambda>r. (state_key_of (sr_type r) (sr_state_key r), r)) (TxGetRoomState s room)"
  have "gm_get (current_rows s room) k = map_of (rev ?rows) k"
  proof -
    have "fold (\<lambda>r. gm_put (state_key_of (sr_type r) (sr_state_key r)) r) rows m =
        fold (\<lambda>e. gm_put (fst e) (snd e)) (map (\<lambda>r. (state_key_of (sr_type r) (sr_state_key r), r)) rows) m" for rows m
      by (induction rows arbitrary: m) simp_all
    then have "current_rows s room = gm_of ?rows" by (simp add: current_rows_def gm_of_def)
    then show ?thesis by (simp add: gm_get_gm_of)
  qed
  moreover have "gm_get (state_view s room) k = map_of (map (\<lambda>(k, r). (k, sr_event_id r)) (rev ?rows)) k"
    by (simp add: state_view_def stateRowsToMap_gm_of gm_get_gm_of rev_map comp_def)
  ultimately show ?thesis by (simp add: map_of_map)
qed

definition fills :: "Store \<Rightarrow> string list \<Rightarrow> string \<Rightarrow> string \<Rightarrow> bool" where
  "fills s rejected k i \<longleftrightarrow> i \<notin> set rejected
     \<and> (case TxGetEvent s i of None \<Rightarrow> False | Some ev \<Rightarrow> state_key_of (er_type ev) (er_state_key ev) = k)"

lemma get_add_missing:
  "keyed room m \<Longrightarrow> map_option sr_event_id (gm_get (add_missing key (event_tuple room ev i) m) k) =
     (case gm_get m k of Some r \<Rightarrow> Some (sr_event_id r) | None \<Rightarrow> if key = k then Some i else None)"
  by (auto simp: add_missing_def event_tuple_def gm_get_put keyed_def split: option.split)

lemma get_snapshot:
  "keyed room m \<Longrightarrow> map_option sr_event_id (gm_get (fold (add_snapshot_event s room rejected) ids m) k) =
     (case gm_get m k of Some r \<Rightarrow> Some (sr_event_id r) | None \<Rightarrow> find (fills s rejected k) ids)"
proof (induction ids arbitrary: m)
  case (Cons i ids)
  have step: "map_option sr_event_id (gm_get (add_snapshot_event s room rejected i m) k) =
      (case gm_get m k of Some r \<Rightarrow> Some (sr_event_id r) | None \<Rightarrow> if fills s rejected k i then Some i else None)"
    using get_add_missing [OF Cons.prems, of _ _ i k]
    by (auto simp: add_snapshot_event_def fills_def split: option.splits)
  then show ?case using Cons.IH [OF keyed_add [OF Cons.prems], of s rejected i]
    by (auto split: option.splits)
qed (simp split: option.split)

lemma reconciled_map:
  "case reconcileSnapshotState s room ids rejected anchor of
     None \<Rightarrow> ids = []
   | Some rows \<Rightarrow> gm_get (stateRowsToMap rows) k =
       (case gm_get (state_view s room) k of
          Some i \<Rightarrow> Some i
        | None \<Rightarrow> find (fills s rejected k) (if map_option er_type (TxGetEvent s anchor) = Some [] then ids else ids @ [anchor]))"
proof (cases "ids = []")
  case False
  let ?m = "fold (add_snapshot_event s room rejected) ids (current_rows s room)"
  have m: "keyed room ?m" by (rule keyed_snapshot [OF keyed_current])
  note get = get_snapshot [OF keyed_current [of room s], where s = s and ids = ids and rejected = rejected and k = k]
  let ?r = "if anchor \<in> set rejected then ?m else case TxGetEvent s anchor of None \<Rightarrow> ?m
      | Some ev \<Rightarrow> if er_type ev = [] then ?m
          else add_missing (state_key_of (er_type ev) (er_state_key ev)) (event_tuple room ev anchor) ?m"
  have rows: "reconcileSnapshotState s room ids rejected anchor = Some (map snd ?r)"
    using False by (simp add: reconcileSnapshotState_def current_rows_def Let_def split: option.split)
  have r: "keyed room ?r" using m keyed_add_missing [OF m] by (auto split: option.split)
  have "map_option sr_event_id (gm_get ?r k) =
      (case gm_get ?m k of Some r \<Rightarrow> Some (sr_event_id r) | None \<Rightarrow>
         if fills s rejected k anchor \<and> map_option er_type (TxGetEvent s anchor) \<noteq> Some [] then Some anchor else None)"
    by (simp add: get_add_missing [OF m] fills_def del: map_option_eq_Some option.map_disc_iff
        map_option_is_None None_eq_map_option_iff split: option.split)
  then have A: "gm_get (stateRowsToMap (map snd ?r)) k =
      (case map_option sr_event_id (gm_get ?m k) of Some i \<Rightarrow> Some i | None \<Rightarrow>
         if fills s rejected k anchor \<and> map_option er_type (TxGetEvent s anchor) \<noteq> Some [] then Some anchor else None)"
    unfolding keyed_map [OF r] by (simp split: option.split)
  have B: "map_option sr_event_id (gm_get ?m k) =
      (case gm_get (state_view s room) k of Some i \<Rightarrow> Some i | None \<Rightarrow> find (fills s rejected k) ids)"
    unfolding get current_rows_view by (simp split: option.split)
  show ?thesis unfolding rows option.case A B by (simp add: find_append split: option.split)
qed (simp add: reconcileSnapshotState_def)

text \<open>
  The state a reconciliation computes keeps every entry of the room's current state and fills each other key
  with the first event of the snapshot, or else the anchor, that is stored at that key and was not rejected; no
  resolution takes place, and neither the event's own room nor an earlier rejection is looked at.
\<close>

theorem reconciled_state:
  "case reconcileSnapshotState s room ids rejected anchor of
     None \<Rightarrow> ids = []
   | Some rows \<Rightarrow> gm_get (stateRowsToMap rows) k =
       (case gm_get (state_view s room) k of
          Some i \<Rightarrow> Some i
        | None \<Rightarrow> find (fills s rejected k) (if map_option er_type (TxGetEvent s anchor) = Some [] then ids else ids @ [anchor]))"
  by (rule reconciled_map)

lemma persisted_room_state:
  "db_room_state (sv_store (snd (persistReconcilePDU p room v j rejected sv))) = db_room_state (sv_store sv)"
proof -
  have rel: "db_room_state (IndexRelationFromRow t row) = db_room_state t" for t row
    by (simp add: IndexRelationFromRow_def InsertRelation_def split: option.split)
  have red: "db_room_state (apply_redactions ev row t) = db_room_state t" for ev row t
    by (simp add: apply_redactions_def ApplyRedaction_def Let_def SetEventRedactedBy_def split: option.split)
  have ins: "db_room_state (fst (InsertOutlierEvent t row)) = db_room_state t" for t row
    by (simp add: InsertOutlierEvent_def insert_event_row_def split: option.split)
  have mem: "db_room_state (sv_store (applyRemoteMembership r u c i d sv')) = db_room_state (sv_store sv')" for r u c i d sv'
    by (simp add: applyRemoteMembership_def UpsertMembership_def log_call_def Let_def split: option.split)
  show ?thesis
    by (simp add: persistReconcilePDU_def Let_def case_prod_beta rel red ins mem MarkEventRejected_def split: option.split)
qed

text \<open>
  C24: A reconciliation, whatever the other server answers, changes no entry of any room's current state; it can only
  add entries.
\<close>

theorem reconciliation_only_adds:
  "gm_get (state_view (sv_store (reconcileStateFrom p room server anchor sv)) r) k
     \<in> {gm_get (state_view (sv_store sv) r) k} \<union> (case gm_get (state_view (sv_store sv) r) k of None \<Rightarrow> UNIV | Some i \<Rightarrow> {})"
proof -
  let ?f = "\<lambda>v rejected (i, j) sv. snd (persistReconcilePDU p room v j (i \<in> set rejected) sv)"
  have same: "state_view t r' = state_view t' r'" if "db_room_state t = db_room_state t'" for t t' r'
    using that by (simp add: state_view_def TxGetRoomState_def)
  have 1: "db_room_state (sv_store (fold (?f v rejected) raws sv')) = db_room_state (sv_store sv')" for v rejected raws sv'
    by (induction raws arbitrary: sv') (simp_all add: persisted_room_state case_prod_beta)
  have save: "db_room_state (save_if_known room rows i t) = db_room_state t" for rows i t
    by (simp add: save_if_known_def TxSaveEventState_def split: option.split)
  have 2: "db_room_state (fold (save_if_known room rows) ids t) = db_room_state t" for rows ids t
    by (induction ids arbitrary: t) (simp_all add: save)
  define ok where "ok t \<longleftrightarrow> gm_get (state_view t r) k \<in>
      {gm_get (state_view (sv_store sv) r) k} \<union> (case gm_get (state_view (sv_store sv) r) k of None \<Rightarrow> UNIV | Some i \<Rightarrow> {})" for t
  have 3: "ok (write_reconciled room fetched anchor rows t)"
    if "reconcileSnapshotState t room ids rejected anchor = Some rows" "state_view t r = state_view (sv_store sv) r"
    for t ids rejected rows fetched
  proof -
    have "state_view (write_reconciled room fetched anchor rows t) r = state_view (TxSetRoomState t room rows) r"
      by (rule same) (simp add: write_reconciled_def Let_def 2 save)
    also have "\<dots> = (if r = room then stateRowsToMap rows else state_view t r)"
      using set_state_view [OF rows_ok_distinct [OF reconciled_rows_ok [OF that(1)]], of t] by simp
    finally show ?thesis
      using reconciled_map [where s = t and room = room and ids = ids and rejected = rejected and anchor = anchor and k = k]
        that by (cases "r = room"; cases "gm_get (state_view t r) k") (simp_all add: ok_def)
  qed
  have 4: "ok t" if "state_view t r = state_view (sv_store sv) r" for t
    using that by (simp add: ok_def)
  have "ok (sv_store (reconcileStateFrom p room server anchor sv))"
    using 3 [OF _ same [OF 1]] 4 [OF refl] 4 [OF same [OF 1]]
    by (auto simp: reconcileStateFrom_def Let_def case_prod_beta split: option.split)
  then show ?thesis by (simp only: ok_def)
qed

text \<open>
  Of the events fetched for a reconciliation those are rejected of whose auth events one directly is
  unfetchable, unknown, of another room or rejected earlier, and all of them when an event of the auth chain cannot
  be fetched; an event that only rests on one rejected here is not.
\<close>

theorem snapshot_rejections:
  "set (snapshot_rejected s room raws unfetchable authIDs) =
     fst ` {(i, j) \<in> set raws. if set authIDs \<inter> set unfetchable = {}
                              then list_ex (bad_auth s room raws unfetchable) (authEventIDsFromRaw j) else True}"
  unfolding snapshot_rejected_def Let_def by (force simp: reject_loop_set list_ex_iff)

end
