(* ===== verification/Push_Rules.thy ===== *)
theory Push_Rules
  imports Server_Acl Genesis "HOL-Library.Word"
begin

section \<open>Push rules (\<open>internal/pushrules\<close>, \<open>csapi/misc.go\<close>, \<open>storage/push.go\<close>)\<close>

text \<open>
  A user's push ruleset: its evaluation on an event, the default ruleset, and the operations that
  edit it. A ruleset is a Go \<open>map[string]any\<close>, and whether a type assertion succeeds depends on the dynamic type
  of a value: \<open>DefaultRuleset\<close> builds slices of other types than the \<open>[]any\<close> the decoder makes. Numbers keep
  their literal until they are written back (\<open>any_number\<close>, as in \<open>remarshal\<close>). Documents are compact, so an empty
  object is the text \<open>{}\<close>, and localparts are ASCII.
\<close>

subsection \<open>Dynamic values\<close>

datatype gov =
    VNil
  | VBool bool
  | VStr string
  | VNum string
  | VSlice "gov list"
  | VMap "(string \<times> gov) list"
  | VMaps "gov list"
  | VStrings "string list"
  | VRaws "json list"

type_synonym rule = "gov gomap"

fun gov_of :: "json \<Rightarrow> gov" where
  "gov_of JNull = VNil"
| "gov_of (JBool b) = VBool b"
| "gov_of (JNum s) = VNum s"
| "gov_of (JStr s) = VStr s"
| "gov_of (JArr js) = VSlice (map gov_of js)"
| "gov_of (JObj kvs) = VMap (gm_of (map (\<lambda>(k, j). (k, gov_of j)) kvs))"

text \<open>\<open>json.Marshal\<close>: \<open>null\<close> for a nil value, and raw messages as they are.\<close>

fun marshal :: "(string \<Rightarrow> json) \<Rightarrow> gov \<Rightarrow> json" where
  "marshal num VNil = JNull"
| "marshal num (VBool b) = JBool b"
| "marshal num (VStr s) = JStr s"
| "marshal num (VNum s) = remarshal num (JNum s)"
| "marshal num (VSlice vs) = JArr (map (marshal num) vs)"
| "marshal num (VMap kvs) = JObj (map (\<lambda>(k, v). (k, marshal num v)) kvs)"
| "marshal num (VMaps vs) = JArr (map (marshal num) vs)"
| "marshal num (VStrings ss) = JArr (map JStr ss)"
| "marshal num (VRaws js) = JArr js"

declare marshal.simps [simp del]

text \<open>Decoding into a \<open>map[string]any\<close>: nothing for a document that is no object, the nil map for \<open>null\<close>.\<close>

definition gov_map :: "json \<Rightarrow> gov gomap option" where
  "gov_map j = (case gov_of j of VMap m \<Rightarrow> Some m | VNil \<Rightarrow> Some [] | _ \<Rightarrow> None)"

definition field :: "gov gomap \<Rightarrow> string \<Rightarrow> gov" where
  "field m k = (case gm_get m k of None \<Rightarrow> VNil | Some v \<Rightarrow> v)"

text \<open>Type assertions with their zero values.\<close>

definition as_bool :: "gov \<Rightarrow> bool" where
  "as_bool v = (case v of VBool b \<Rightarrow> b | _ \<Rightarrow> False)"

definition as_str :: "gov \<Rightarrow> string" where
  "as_str v = (case v of VStr s \<Rightarrow> s | _ \<Rightarrow> [])"

definition as_slice :: "gov \<Rightarrow> gov list" where
  "as_slice v = (case v of VSlice vs \<Rightarrow> vs | _ \<Rightarrow> [])"

definition as_map :: "gov \<Rightarrow> gov gomap option" where
  "as_map v = (case v of VMap m \<Rightarrow> Some m | _ \<Rightarrow> None)"

subsection \<open>Matching (\<open>evaluate.go\<close>)\<close>

record EventSnapshot =
  es_type :: string
  es_sender :: string
  es_room_id :: string
  es_content :: raw
  es_member_count :: int

record EvalResult =
  Notifies :: bool
  Highlights :: bool
  MarkUnread :: bool
  Tweaks :: "gov gomap"

definition no_result :: EvalResult where
  "no_result = \<lparr>Notifies = False, Highlights = False, MarkUnread = False, Tweaks = []\<rparr>"

function globHere :: "string \<Rightarrow> string \<Rightarrow> bool" where
  "globHere [] s = (s = [])"
| "globHere (c # p) s =
     (if c = CHR ''*'' then
        (let rest = dropWhile (\<lambda>c. c = CHR ''*'') p
         in if rest = [] then True else list_ex (\<lambda>i. globHere rest (drop i s)) [0..<length s + 1])
      else if c = CHR ''?'' then s \<noteq> [] \<and> globHere p (tl s)
      else s \<noteq> [] \<and> c = hd s \<and> globHere p (tl s))"
  by pat_completeness auto
termination
  by (relation "measure (\<lambda>(p, s). length p)") (auto simp: less_Suc_eq_le length_dropWhile_le)

definition globMatch :: "string \<Rightarrow> string \<Rightarrow> bool" where
  "globMatch pattern s =
     (if pattern = [] then s = []
      else if CHR ''*'' \<notin> set pattern \<and> CHR ''?'' \<notin> set pattern then pattern = s
      else globHere pattern s)"

text \<open>\<open>parseIntStrict\<close> adds up in an \<open>int\<close> of 64 bits.\<close>

definition parseIntStrict :: "string \<Rightarrow> 64 word option" where
  "parseIntStrict s =
     (if s = [] \<or> \<not> list_all is_digit s then None
      else Some (fold (\<lambda>c n. n * 10 + word_of_int (digit_val c)) s 0))"

fun walk_path :: "gov \<Rightarrow> string list \<Rightarrow> gov option" where
  "walk_path v [] = Some v"
| "walk_path v (part # parts) =
     (case as_map v of
        None \<Rightarrow> None
      | Some m \<Rightarrow> (case gm_get m part of None \<Rightarrow> None | Some w \<Rightarrow> walk_path w parts))"

definition contentField :: "raw \<Rightarrow> string \<Rightarrow> string" where
  "contentField content path =
     (case content of
        None \<Rightarrow> []
      | Some j \<Rightarrow>
          (case gov_map j of
             None \<Rightarrow> []
           | Some m \<Rightarrow> (case walk_path (VMap m) (split_on (CHR ''.'') path) of None \<Rightarrow> [] | Some v \<Rightarrow> as_str v)))"

definition conditionMatches :: "rule \<Rightarrow> EventSnapshot \<Rightarrow> bool" where
  "conditionMatches cm ev =
     (let kind = as_str (field cm ''kind'')
      in if kind = ''event_match'' then
           (let key = as_str (field cm ''key''); pattern = as_str (field cm ''pattern'');
                value = (if key = ''type'' then es_type ev
                         else if has_prefix key ''content.'' then contentField (es_content ev) (drop 8 key)
                         else if key = ''sender'' then es_sender ev
                         else if key = ''room_id'' then es_room_id ev
                         else [])
            in globMatch pattern value)
         else if kind = ''room_member_count'' then
           (case parseIntStrict (as_str (field cm ''is'')) of
              None \<Rightarrow> False | Some n \<Rightarrow> word_of_int (es_member_count ev) = n)
         else kind = ''contains_display_name'')"

definition kindRuleMatches :: "string \<Rightarrow> rule \<Rightarrow> EventSnapshot \<Rightarrow> bool" where
  "kindRuleMatches kind rule ev =
     (if kind = ''sender'' then field rule ''rule_id'' = VStr (es_sender ev)
      else if kind = ''room'' then field rule ''rule_id'' = VStr (es_room_id ev)
      else list_all (\<lambda>c. case as_map c of None \<Rightarrow> True | Some cm \<Rightarrow> conditionMatches cm ev)
             (as_slice (field rule ''conditions'')))"

fun is_infix :: "string \<Rightarrow> string \<Rightarrow> bool" where
  "is_infix w [] = (w = [])"
| "is_infix w (c # s) = (has_prefix (c # s) w \<or> is_infix w s)"

definition contentRuleMatches :: "rule \<Rightarrow> string \<Rightarrow> EventSnapshot \<Rightarrow> bool" where
  "contentRuleMatches rule localpart ev =
     (if field rule ''rule_id'' = VStr ''.m.rule.contains_user_name'' then
        ToLower localpart \<noteq> []
        \<and> is_infix (ToLower localpart) (ToLower (contentField (es_content ev) ''body''))
      else
        let pattern = as_str (field rule ''pattern'')
        in if pattern = ''*'' then es_content ev \<notin> {None, Some (JObj []), Some JNull}
           else case es_content ev of
             None \<Rightarrow> False
           | Some j \<Rightarrow>
               (case gov_map j of
                  None \<Rightarrow> False
                | Some m \<Rightarrow> list_ex (\<lambda>(k, v). case v of VStr s \<Rightarrow> globMatch pattern s | _ \<Rightarrow> False) m))"

definition apply_action :: "gov \<Rightarrow> EvalResult \<Rightarrow> EvalResult" where
  "apply_action act res =
     (case act of
        VStr s \<Rightarrow>
          (if s = ''notify'' then res\<lparr>Notifies := True\<rparr>
           else if s = ''org.matrix.msc2625.mark_unread'' then res\<lparr>MarkUnread := True\<rparr>
           else res)
      | VMap m \<Rightarrow>
          (case field m ''set_tweak'' of
             VStr tw \<Rightarrow>
               (let res1 = res\<lparr>Tweaks := gm_put tw (case gm_get m ''value'' of Some v \<Rightarrow> v | None \<Rightarrow> VBool True) (Tweaks res)\<rparr>
                in if tw = ''highlight'' \<and> as_bool (field m ''value'') then res1\<lparr>Highlights := True\<rparr> else res1)
           | _ \<Rightarrow> res)
      | _ \<Rightarrow> res)"

definition applyActions :: "rule \<Rightarrow> EvalResult \<Rightarrow> EvalResult" where
  "applyActions rule res = fold apply_action (as_slice (field rule ''actions'')) res"

definition ruleEnabled :: "rule \<Rightarrow> bool" where
  "ruleEnabled rule = as_bool (field rule ''enabled'')"

text \<open>The first rule of a list that is enabled and matches.\<close>

fun first_rule :: "(rule \<Rightarrow> bool) \<Rightarrow> gov list \<Rightarrow> rule option" where
  "first_rule matches [] = None"
| "first_rule matches (e # es) =
     (case as_map e of
        None \<Rightarrow> first_rule matches es
      | Some rule \<Rightarrow> if ruleEnabled rule \<and> matches rule then Some rule else first_rule matches es)"

definition rule_matches :: "string \<Rightarrow> string \<Rightarrow> EventSnapshot \<Rightarrow> rule \<Rightarrow> bool" where
  "rule_matches kind localpart ev rule =
     (if kind = ''content'' then contentRuleMatches rule localpart ev else kindRuleMatches kind rule ev)"

fun eval_kinds :: "gov gomap \<Rightarrow> string \<Rightarrow> EventSnapshot \<Rightarrow> string list \<Rightarrow> EvalResult" where
  "eval_kinds global localpart ev [] = no_result"
| "eval_kinds global localpart ev (kind # kinds) =
     (case first_rule (rule_matches kind localpart ev) (as_slice (field global kind)) of
        Some rule \<Rightarrow> applyActions rule no_result
      | None \<Rightarrow> eval_kinds global localpart ev kinds)"

definition kindLists :: "string list" where
  "kindLists = [''override'', ''content'', ''sender'', ''room'', ''underride'']"

definition Evaluate :: "gov gomap \<Rightarrow> string \<Rightarrow> string \<Rightarrow> EventSnapshot \<Rightarrow> EvalResult" where
  "Evaluate rules userID localpart ev =
     (if es_sender ev = userID then no_result
      else case as_map (field rules ''global'') of
        None \<Rightarrow> no_result
      | Some global \<Rightarrow> eval_kinds global localpart ev kindLists)"

subsection \<open>The default ruleset (\<open>pushrules.go\<close>)\<close>

definition event_match :: "string \<Rightarrow> string \<Rightarrow> gov" where
  "event_match key pattern =
     VMap [(''key'', VStr key), (''kind'', VStr ''event_match''), (''pattern'', VStr pattern)]"

definition two_members :: gov where
  "two_members = VMap [(''is'', VStr ''2''), (''kind'', VStr ''room_member_count'')]"

definition tweak :: "string \<Rightarrow> gov \<Rightarrow> gov" where
  "tweak name v = VMap [(''set_tweak'', VStr name), (''value'', v)]"

text \<open>A default rule: its ID, whether it is enabled, its conditions, none where it has none, and its actions.\<close>

definition default_rule :: "string \<Rightarrow> bool \<Rightarrow> gov list \<Rightarrow> gov \<Rightarrow> gov" where
  "default_rule ruleID enabled conditions actions =
     VMap (gm_of ([(''rule_id'', VStr ruleID), (''enabled'', VBool enabled), (''default'', VBool True), (''actions'', actions)]
       @ (if conditions = [] then [] else [(''conditions'', VMaps conditions)])))"

definition default_content :: gov where
  "default_content = VMaps
     [VMap (gm_of [(''rule_id'', VStr ''.m.rule.contains_user_name''), (''enabled'', VBool True), (''default'', VBool True),
        (''actions'', VSlice [tweak ''highlight'' (VBool True), VStr ''notify'']), (''pattern'', VStr [])])]"

definition default_override :: gov where
  "default_override = VMaps
     [default_rule ''.m.rule.master'' False [] (VStrings [''dont_notify'']),
      default_rule ''.m.rule.suppress_notices'' True [event_match ''content.msgtype'' ''m.notice'']
        (VStrings [''dont_notify'']),
      default_rule ''.m.rule.reaction'' True [event_match ''type'' ''m.reaction''] (VStrings []),
      default_rule ''.org.matrix.msc3930.rule.poll_response'' True
        [event_match ''type'' ''org.matrix.msc3381.poll.response''] (VStrings [])]"

definition default_underride :: gov where
  "default_underride = VMaps
     [default_rule ''.m.rule.call'' True [event_match ''type'' ''m.call.invite'']
        (VSlice [VStr ''notify'', tweak ''ring'' (VBool True)]),
      default_rule ''.m.rule.encrypted_room_one_to_one'' True [] (VStrings [''notify'']),
      default_rule ''.m.rule.room_one_to_one'' True [] (VStrings [''notify'']),
      default_rule ''.m.rule.message'' True [] (VStrings [''notify'']),
      default_rule ''.m.rule.encrypted'' True [] (VStrings [''notify'']),
      default_rule ''.org.matrix.msc3930.rule.poll_start_one_to_one'' True
        [two_members, event_match ''type'' ''org.matrix.msc3381.poll.start'']
        (VSlice [VStr ''notify'', tweak ''sound'' (VStr ''default'')]),
      default_rule ''.org.matrix.msc3930.rule.poll_end_one_to_one'' True
        [two_members, event_match ''type'' ''org.matrix.msc3381.poll.end'']
        (VSlice [VStr ''notify'', tweak ''sound'' (VStr ''default'')]),
      default_rule ''.org.matrix.msc3930.rule.poll_start'' True
        [event_match ''type'' ''org.matrix.msc3381.poll.start''] (VStrings [''notify'']),
      default_rule ''.org.matrix.msc3930.rule.poll_end'' True
        [event_match ''type'' ''org.matrix.msc3381.poll.end''] (VStrings [''notify''])]"

definition DefaultRuleset :: "gov gomap" where
  "DefaultRuleset =
     [(''global'', VMap [(''content'', default_content), (''override'', default_override), (''room'', VSlice []),
        (''sender'', VSlice []), (''underride'', default_underride)])]"

definition Kinds :: "string list" where
  "Kinds = [''override'', ''underride'', ''sender'', ''room'', ''content'']"

definition Decode :: "raw \<Rightarrow> gov gomap" where
  "Decode stored =
     (case stored of
        None \<Rightarrow> DefaultRuleset
      | Some j \<Rightarrow>
          (case gov_map j of
             None \<Rightarrow> DefaultRuleset
           | Some rules \<Rightarrow> if field rules ''global'' = VNil then DefaultRuleset else rules))"

subsection \<open>The stored rulesets (\<open>storage/push.go\<close>)\<close>

text \<open>The rulesets, and their mirror in the account data with the stream position of the last change.\<close>

record PushStore =
  ps_rules :: "json gomap"
  ps_mirror :: "(json \<times> int) gomap"
  ps_next_stream :: int

definition GetPushRules :: "PushStore \<Rightarrow> string \<Rightarrow> raw" where
  "GetPushRules ps localpart = gm_get (ps_rules ps) localpart"

definition UpdatePushRules ::
  "string \<Rightarrow> (raw \<Rightarrow> 'e + raw) \<Rightarrow> PushStore \<Rightarrow> 'e option \<times> PushStore" where
  "UpdatePushRules localpart fn ps =
     (case fn (gm_get (ps_rules ps) localpart) of
        Inl err \<Rightarrow> (Some err, ps)
      | Inr None \<Rightarrow> (None, ps)
      | Inr (Some new) \<Rightarrow>
          (None, ps\<lparr>ps_rules := gm_put localpart new (ps_rules ps),
                    ps_mirror := gm_put localpart (new, ps_next_stream ps) (ps_mirror ps),
                    ps_next_stream := ps_next_stream ps + 1\<rparr>))"

definition LoadRules :: "PushStore \<Rightarrow> string \<Rightarrow> gov gomap" where
  "LoadRules ps localpart = Decode (GetPushRules ps localpart)"

subsection \<open>Copying a room's rule\<close>

text \<open>The rule of the old room found, unless one of the new room comes up on the way.\<close>

fun room_clone :: "string \<Rightarrow> string \<Rightarrow> rule option \<Rightarrow> gov list \<Rightarrow> rule option" where
  "room_clone old new clone [] = clone"
| "room_clone old new clone (e # es) =
     (case as_map e of
        None \<Rightarrow> room_clone old new clone es
      | Some em \<Rightarrow>
          if field em ''rule_id'' = VStr new then None
          else if field em ''rule_id'' = VStr old then room_clone old new (Some (gm_put ''rule_id'' (VStr new) em)) es
          else room_clone old new clone es)"

definition copyRoomRule :: "(string \<Rightarrow> json) \<Rightarrow> string \<Rightarrow> string \<Rightarrow> raw \<Rightarrow> raw" where
  "copyRoomRule num old new stored =
     (case stored of
        None \<Rightarrow> None
      | Some j \<Rightarrow>
          (case gov_map j of
             None \<Rightarrow> None
           | Some rules \<Rightarrow>
               (case as_map (field rules ''global'') of
                  None \<Rightarrow> None
                | Some global \<Rightarrow>
                    let list = as_slice (field global ''room'')
                    in case room_clone old new None list of
                         None \<Rightarrow> None
                       | Some clone \<Rightarrow>
                           Some (marshal num (VMap (gm_put ''global''
                             (VMap (gm_put ''room'' (VSlice (list @ [VMap clone])) global)) rules))))))"

definition CopyRules :: "(string \<Rightarrow> json) \<Rightarrow> string list \<Rightarrow> string \<Rightarrow> string \<Rightarrow> PushStore \<Rightarrow> PushStore" where
  "CopyRules num localparts old new ps =
     fold (\<lambda>lp ps. snd (UpdatePushRules lp (\<lambda>current. Inr (copyRoomRule num old new current) :: unit + raw) ps)) localparts ps"

subsection \<open>Editing rules (\<open>csapi/misc.go\<close>)\<close>

text \<open>\<open>PushPanic\<close> is a handler that panics: the server answers with a dropped connection and nothing is stored.\<close>

datatype push_reply = PushOk | PushInvalid | PushNotFound | PushPanic | PushRule rule | PushRuleList "gov list"
  | PushEnabled bool | PushActions gov

definition validPushRulePath :: "string \<Rightarrow> string \<Rightarrow> string \<Rightarrow> bool" where
  "validPushRulePath scope kind ruleID \<longleftrightarrow>
     scope = ''global'' \<and> kind \<in> set Kinds \<and> ruleID \<noteq> [] \<and> CHR ''/'' \<notin> set ruleID \<and> CHR 0x5C \<notin> set ruleID"

definition condition_ok :: "gov \<Rightarrow> bool" where
  "condition_ok c = (case as_map c of None \<Rightarrow> False | Some cm \<Rightarrow> field cm ''kind'' \<noteq> VNil)"

definition action_ok :: "gov \<Rightarrow> bool" where
  "action_ok act =
     (case act of
        VStr a \<Rightarrow> a \<in> {''notify'', ''dont_notify'', ''coalesce'', ''org.matrix.msc2625.mark_unread''}
      | VMap m \<Rightarrow> gm_get m ''set_tweak'' \<noteq> None
      | _ \<Rightarrow> False)"

definition validatePushRuleBody :: "string \<Rightarrow> rule \<Rightarrow> bool" where
  "validatePushRuleBody kind rule \<longleftrightarrow>
     (if kind = ''override'' \<or> kind = ''underride'' then
        as_slice (field rule ''conditions'') \<noteq> [] \<and> list_all condition_ok (as_slice (field rule ''conditions''))
      else if kind = ''content'' then as_str (field rule ''pattern'') \<noteq> []
      else True)
     \<and> as_slice (field rule ''actions'') \<noteq> [] \<and> list_all action_ok (as_slice (field rule ''actions''))"

definition has_rule_id :: "string \<Rightarrow> gov \<Rightarrow> bool" where
  "has_rule_id ruleID e = (case as_map e of None \<Rightarrow> False | Some em \<Rightarrow> field em ''rule_id'' = VStr ruleID)"

fun position :: "('a \<Rightarrow> bool) \<Rightarrow> 'a list \<Rightarrow> nat option" where
  "position p [] = None"
| "position p (x # xs) = (if p x then Some 0 else map_option Suc (position p xs))"

definition insertBefore :: "gov list \<Rightarrow> string \<Rightarrow> gov \<Rightarrow> gov list" where
  "insertBefore list beforeID rule =
     (case position (has_rule_id beforeID) list of
        Some i \<Rightarrow> take i list @ [rule] @ drop i list
      | None \<Rightarrow> rule # list)"

definition insertAfter :: "gov list \<Rightarrow> string \<Rightarrow> gov \<Rightarrow> gov list" where
  "insertAfter list afterID rule =
     (case position (has_rule_id afterID) list of
        Some i \<Rightarrow> take (i + 1) list @ [rule] @ drop (i + 1) list
      | None \<Rightarrow> list @ [rule])"

definition place_rule :: "string \<Rightarrow> gov \<Rightarrow> string \<Rightarrow> string \<Rightarrow> gov list \<Rightarrow> gov list" where
  "place_rule ruleID rule before after list =
     (let pos = position (has_rule_id ruleID) list;
          rest = (case pos of None \<Rightarrow> list | Some i \<Rightarrow> take i list @ drop (i + 1) list)
      in if before \<noteq> [] then insertBefore rest before rule
         else if after \<noteq> [] then insertAfter rest after rule
         else case pos of
           Some i \<Rightarrow> if i < length rest then take i rest @ [rule] @ drop i rest else rule # rest
         | None \<Rightarrow> rule # rest)"

definition updatePushRules ::
  "(string \<Rightarrow> json) \<Rightarrow> string \<Rightarrow> (gov gomap \<Rightarrow> push_reply + gov gomap) \<Rightarrow> PushStore \<Rightarrow> push_reply option \<times> PushStore" where
  "updatePushRules num localpart fn ps =
     UpdatePushRules localpart (\<lambda>current.
       let rules = Decode current;
           global = (case as_map (field rules ''global'') of None \<Rightarrow> [] | Some g \<Rightarrow> g)
       in case fn global of
            Inl err \<Rightarrow> Inl err
          | Inr global1 \<Rightarrow> Inr (Some (marshal num (VMap (gm_put ''global'' (VMap global1) rules))))) ps"

definition reply_of :: "push_reply option \<times> PushStore \<Rightarrow> push_reply \<times> PushStore" where
  "reply_of r = (case fst r of None \<Rightarrow> (PushOk, snd r) | Some e \<Rightarrow> (e, snd r))"

text \<open>The rule of a request: a body that is no object leaves the nil map, and writing to it panics.\<close>

definition new_rule :: "string \<Rightarrow> raw \<Rightarrow> rule option" where
  "new_rule ruleID body =
     (case body of
        None \<Rightarrow> None
      | Some j \<Rightarrow>
          (case as_map (gov_of j) of
             None \<Rightarrow> None
           | Some m \<Rightarrow>
               let m1 = gm_put ''rule_id'' (VStr ruleID) m;
                   m2 = (if gm_get m1 ''enabled'' = None then gm_put ''enabled'' (VBool True) m1 else m1)
               in Some (gm_put ''default'' (VBool False) m2)))"

definition PutPushRule ::
  "(string \<Rightarrow> json) \<Rightarrow> string \<Rightarrow> string \<Rightarrow> string \<Rightarrow> string \<Rightarrow> raw \<Rightarrow> string \<Rightarrow> string \<Rightarrow> PushStore
     \<Rightarrow> push_reply \<times> PushStore" where
  "PutPushRule num localpart scope kind ruleID body before after ps =
     (if \<not> validPushRulePath scope kind ruleID then (PushInvalid, ps)
      else case new_rule ruleID body of
        None \<Rightarrow> (PushPanic, ps)
      | Some rule \<Rightarrow>
          if \<not> validatePushRuleBody kind rule then (PushInvalid, ps)
          else reply_of (updatePushRules num localpart (\<lambda>global.
                 Inr (gm_put kind (VSlice (place_rule ruleID (VMap rule) before after
                        (as_slice (field global kind)))) global)) ps))"

definition DeletePushRule ::
  "(string \<Rightarrow> json) \<Rightarrow> string \<Rightarrow> string \<Rightarrow> string \<Rightarrow> string \<Rightarrow> PushStore \<Rightarrow> push_reply \<times> PushStore" where
  "DeletePushRule num localpart scope kind ruleID ps =
     (if \<not> validPushRulePath scope kind ruleID then (PushInvalid, ps)
      else reply_of (updatePushRules num localpart (\<lambda>global.
             Inr (gm_put kind (VSlice (filter (\<lambda>e. \<not> has_rule_id ruleID e) (as_slice (field global kind)))) global)) ps))"

definition mutateRule ::
  "(string \<Rightarrow> json) \<Rightarrow> string \<Rightarrow> string \<Rightarrow> string \<Rightarrow> (rule \<Rightarrow> rule) \<Rightarrow> PushStore \<Rightarrow> push_reply option \<times> PushStore" where
  "mutateRule num localpart kind ruleID fn ps =
     updatePushRules num localpart (\<lambda>global.
       let list = as_slice (field global kind)
       in case position (has_rule_id ruleID) list of
            None \<Rightarrow> Inl PushNotFound
          | Some i \<Rightarrow>
              (case as_map (list ! i) of
                 None \<Rightarrow> Inl PushNotFound
               | Some em \<Rightarrow> Inr (gm_put kind (VSlice (list[i := VMap (fn em)])) global))) ps"

text \<open>\<open>httpx.DecodeJSON\<close>: an empty body is the zero value.\<close>

definition decode_body :: "'a decoder \<Rightarrow> 'a \<Rightarrow> raw \<Rightarrow> 'a option" where
  "decode_body d z body =
     (case body of None \<Rightarrow> Some z | Some j \<Rightarrow> (let (ok, v) = d j z in if ok then Some v else None))"

definition PutPushRuleEnabled ::
  "(string \<Rightarrow> json) \<Rightarrow> string \<Rightarrow> string \<Rightarrow> string \<Rightarrow> string \<Rightarrow> raw \<Rightarrow> PushStore \<Rightarrow> push_reply \<times> PushStore" where
  "PutPushRuleEnabled num localpart scope kind ruleID body ps =
     (if \<not> validPushRulePath scope kind ruleID then (PushInvalid, ps)
      else case decode_body (dec_struct [(''enabled'', dec_bool)]) False body of
        None \<Rightarrow> (PushInvalid, ps)
      | Some enabled \<Rightarrow>
          reply_of (mutateRule num localpart kind ruleID (gm_put ''enabled'' (VBool enabled)) ps))"

text \<open>A list of actions that is missing is the nil slice, which is written as \<open>null\<close>.\<close>

definition dec_actions :: "json list option decoder" where
  "dec_actions j old =
     (case j of JNull \<Rightarrow> (True, None) | JArr js \<Rightarrow> (True, Some js) | _ \<Rightarrow> (False, old))"

definition PutPushRuleActions ::
  "(string \<Rightarrow> json) \<Rightarrow> string \<Rightarrow> string \<Rightarrow> string \<Rightarrow> string \<Rightarrow> raw \<Rightarrow> PushStore \<Rightarrow> push_reply \<times> PushStore" where
  "PutPushRuleActions num localpart scope kind ruleID body ps =
     (if \<not> validPushRulePath scope kind ruleID then (PushInvalid, ps)
      else case decode_body (dec_struct [(''actions'', dec_actions)]) None body of
        None \<Rightarrow> (PushInvalid, ps)
      | Some actions \<Rightarrow>
          reply_of (mutateRule num localpart kind ruleID
            (gm_put ''actions'' (case actions of None \<Rightarrow> VNil | Some js \<Rightarrow> VRaws js)) ps))"

subsection \<open>Reading rules\<close>

definition globalRuleset :: "PushStore \<Rightarrow> string \<Rightarrow> gov gomap" where
  "globalRuleset ps localpart =
     (case as_map (field (LoadRules ps localpart) ''global'') of None \<Rightarrow> [] | Some g \<Rightarrow> g)"

definition findRule :: "PushStore \<Rightarrow> string \<Rightarrow> string \<Rightarrow> string \<Rightarrow> rule option" where
  "findRule ps localpart kind ruleID =
     (case find (has_rule_id ruleID) (as_slice (field (globalRuleset ps localpart) kind)) of
        None \<Rightarrow> None | Some e \<Rightarrow> as_map e)"

definition GetPushRuleKindSlash :: "PushStore \<Rightarrow> string \<Rightarrow> string \<Rightarrow> string \<Rightarrow> push_reply" where
  "GetPushRuleKindSlash ps localpart scope kind =
     (if scope \<noteq> ''global'' \<or> kind \<notin> set Kinds then PushInvalid
      else PushRuleList (as_slice (field (globalRuleset ps localpart) kind)))"

definition GetPushRule :: "PushStore \<Rightarrow> string \<Rightarrow> string \<Rightarrow> string \<Rightarrow> string \<Rightarrow> push_reply" where
  "GetPushRule ps localpart scope kind ruleID =
     (if scope \<noteq> ''global'' \<or> ruleID = [] \<or> CHR ''/'' \<in> set ruleID \<or> CHR 0x5C \<in> set ruleID then PushInvalid
      else if kind \<notin> set Kinds then PushNotFound
      else case findRule ps localpart kind ruleID of None \<Rightarrow> PushNotFound | Some rule \<Rightarrow> PushRule rule)"

definition GetPushRuleEnabled :: "PushStore \<Rightarrow> string \<Rightarrow> string \<Rightarrow> string \<Rightarrow> string \<Rightarrow> push_reply" where
  "GetPushRuleEnabled ps localpart scope kind ruleID =
     (if \<not> validPushRulePath scope kind ruleID then PushInvalid
      else case findRule ps localpart kind ruleID of
        None \<Rightarrow> PushNotFound | Some rule \<Rightarrow> PushEnabled (as_bool (field rule ''enabled'')))"

definition GetPushRuleActions :: "PushStore \<Rightarrow> string \<Rightarrow> string \<Rightarrow> string \<Rightarrow> string \<Rightarrow> push_reply" where
  "GetPushRuleActions ps localpart scope kind ruleID =
     (if \<not> validPushRulePath scope kind ruleID then PushInvalid
      else case findRule ps localpart kind ruleID of
        None \<Rightarrow> PushNotFound | Some rule \<Rightarrow> PushActions (field rule ''actions''))"

text \<open>\<open>savePushRules\<close>, with which a new account gets the default ruleset.\<close>

definition savePushRules :: "(string \<Rightarrow> json) \<Rightarrow> string \<Rightarrow> gov gomap \<Rightarrow> PushStore \<Rightarrow> PushStore" where
  "savePushRules num localpart rules ps =
     snd (UpdatePushRules localpart (\<lambda>_. Inr (Some (marshal num (VMap rules))) :: unit + raw) ps)"

end
