(* ===== verification/Push_Rules_Laws.thy ===== *)
theory Push_Rules_Laws
  imports Push_Rules
begin

section \<open>Laws of push rules\<close>

text \<open>
  Patterns, the values a ruleset reads back as, and the lists of rules with their IDs; the invariant \<open>ps_ok\<close> and
  the operations that keep it.
\<close>

subsection \<open>Patterns\<close>

lemma globHere_glob: "globHere p s \<longleftrightarrow> glob p s"
proof (induction p s rule: globHere.induct)
  case (1 s)
  show ?case by (simp add: glob_Nil)
next
  case (2 c p s)
  let ?rest = "dropWhile (\<lambda>c. c = CHR ''*'') p"
  show ?case
  proof (cases "c = CHR ''*''")
    case True
    show ?thesis
    proof (cases "?rest = []")
      case r: True
      have "\<exists>i \<le> length s. glob ?rest (drop i s)"
        unfolding r by (intro exI [of _ "length s"]) (simp add: glob_Nil)
      then have "glob (CHR ''*'' # p) s" by (simp only: glob_stars)
      then show ?thesis using True r by simp
    next
      case False
      have "globHere (c # p) s \<longleftrightarrow> (\<exists>i \<in> set [0..<length s + 1]. globHere ?rest (drop i s))"
        using False by (simp only: globHere.simps(2) True simp_thms if_True Let_def if_False list_ex_iff)
      also have "\<dots> \<longleftrightarrow> (\<exists>i \<in> set [0..<length s + 1]. glob ?rest (drop i s))"
        using 2(1) [OF True refl False] by (intro bex_cong refl) blast
      also have "\<dots> \<longleftrightarrow> (\<exists>i \<le> length s. glob ?rest (drop i s))"
        unfolding set_upt by (auto simp: less_Suc_eq_le)
      finally show ?thesis by (simp only: True glob_stars [of p s])
    qed
  next
    case star: False
    show ?thesis
    proof (cases s)
      case Nil
      then show ?thesis using star by (simp add: glob_empty_name)
    next
      case (Cons d s')
      then show ?thesis using 2(2,3) star by (cases "c = CHR ''?''") (auto simp: glob_Cons)
    qed
  qed
qed

lemma glob_literal: "CHR ''*'' \<notin> set p \<Longrightarrow> CHR ''?'' \<notin> set p \<Longrightarrow> glob p s \<longleftrightarrow> p = s"
  by (induction p arbitrary: s) (auto simp: glob_Nil glob_Cons)

lemma globMatch_glob: "globMatch p s \<longleftrightarrow> glob p s"
  by (auto simp: globMatch_def globHere_glob glob_literal glob_Nil)

subsection \<open>Writing and reading a ruleset\<close>

text \<open>A value after it has been stored and read back: typed slices become \<open>[]any\<close>.\<close>

definition stored :: "(string \<Rightarrow> json) \<Rightarrow> gov \<Rightarrow> gov" where
  "stored num v = gov_of (marshal num v)"

lemma stored_simps [simp]:
  "stored num VNil = VNil" "stored num (VBool b) = VBool b" "stored num (VStr s) = VStr s"
  "stored num (VSlice vs) = VSlice (map (stored num) vs)"
  "stored num (VMaps vs) = VSlice (map (stored num) vs)"
  by (simp_all add: stored_def marshal.simps comp_def)

lemma gm_of_map_values: "gm_of (map (\<lambda>e. (fst e, f (snd e))) (gm_of kvs)) = gm_of (map (\<lambda>e. (fst e, f (snd e))) kvs)"
proof -
  have m: "map_of (map (\<lambda>e. (fst e, f (snd e))) xs) k = map_option f (map_of xs k)" for xs k
    by (induction xs) auto
  have "gm_ok (map (\<lambda>e. (fst e, f (snd e))) (gm_of kvs))"
    using gm_ok_gm_of [of kvs] by (simp add: gm_ok_def comp_def)
  then have "gm_of (map (\<lambda>e. (fst e, f (snd e))) (gm_of kvs)) = map (\<lambda>e. (fst e, f (snd e))) (gm_of kvs)" by (rule gm_of_idem)
  moreover have "gm_get (map (\<lambda>e. (fst e, f (snd e))) (gm_of kvs)) k = gm_get (gm_of (map (\<lambda>e. (fst e, f (snd e))) kvs)) k" for k
    by (simp only: m gm_get_gm_of rev_map)
  ultimately show ?thesis by (metis gm_eqI gm_ok_gm_of)
qed

lemma stored_map: "stored num (VMap m) = VMap (gm_of (map (\<lambda>e. (fst e, stored num (snd e))) m))"
  by (simp add: stored_def marshal.simps case_prod_unfold comp_def)

text \<open>A member of a stored object.\<close>

lemma stored_field:
  assumes "gm_ok m"
  shows "as_map (stored num (VMap m)) = Some (map (\<lambda>e. (fst e, stored num (snd e))) m)"
    and "field (map (\<lambda>e. (fst e, stored num (snd e))) m) k = (case gm_get m k of None \<Rightarrow> VNil | Some v \<Rightarrow> stored num v)"
proof -
  have "gm_ok (map (\<lambda>e. (fst e, stored num (snd e))) m)" using assms by (simp add: gm_ok_def comp_def)
  then show "as_map (stored num (VMap m)) = Some (map (\<lambda>e. (fst e, stored num (snd e))) m)"
    by (simp add: stored_map as_map_def gm_of_idem)
  have "map_of (map (\<lambda>e. (fst e, stored num (snd e))) xs) k = map_option (stored num) (map_of xs k)" for xs
    by (induction xs) auto
  then show "field (map (\<lambda>e. (fst e, stored num (snd e))) m) k = (case gm_get m k of None \<Rightarrow> VNil | Some v \<Rightarrow> stored num v)"
    by (simp add: field_def split: option.split)
qed

subsection \<open>Lists of rules\<close>

definition rule_id_of :: "gov \<Rightarrow> gov" where
  "rule_id_of e = (case as_map e of None \<Rightarrow> VNil | Some em \<Rightarrow> field em ''rule_id'')"

lemma has_rule_id_iff: "has_rule_id i e \<longleftrightarrow> rule_id_of e = VStr i"
  by (simp add: has_rule_id_def rule_id_of_def split: option.split)

text \<open>The IDs of the rules of a list, in order; entries without one are skipped.\<close>

definition ids_of :: "gov list \<Rightarrow> string list" where
  "ids_of es = concat (map (\<lambda>e. case rule_id_of e of VStr i \<Rightarrow> [i] | _ \<Rightarrow> []) es)"

lemma ids_of_simps [simp]:
  "ids_of [] = []" "ids_of (xs @ ys) = ids_of xs @ ids_of ys"
  "ids_of (e # es) = (case rule_id_of e of VStr i \<Rightarrow> [i] | _ \<Rightarrow> []) @ ids_of es"
  by (simp_all add: ids_of_def)

lemma set_ids_of: "set (ids_of es) = {i. \<exists>e \<in> set es. has_rule_id i e}"
  by (auto simp: ids_of_def has_rule_id_iff split: gov.splits)

lemma position_Some: "position p xs = Some i \<longleftrightarrow> i < length xs \<and> p (xs ! i) \<and> (\<forall>j < i. \<not> p (xs ! j))"
proof (induction xs arbitrary: i)
  case (Cons x xs)
  show ?case using Cons.IH by (cases i) (auto simp: less_Suc_eq_0_disj nth_Cons split: nat.splits)
qed simp

lemma position_None: "position p xs = None \<longleftrightarrow> (\<forall>x \<in> set xs. \<not> p x)"
  by (induction xs) auto

lemma take_nth_drop: "i < length xs \<Longrightarrow> xs = take i xs @ [xs ! i] @ drop (i + 1) xs"
  by (simp add: id_take_nth_drop)

text \<open>A rule is put into its list at one place, and the others keep their order.\<close>

definition spliced :: "gov list \<Rightarrow> gov \<Rightarrow> gov list \<Rightarrow> bool" where
  "spliced rest rule out \<longleftrightarrow> (\<exists>us vs. rest = us @ vs \<and> out = us @ [rule] @ vs)"

lemma spliced_take: "spliced rest rule (take i rest @ [rule] @ drop i rest)"
  unfolding spliced_def by (intro exI [of _ "take i rest"] exI [of _ "drop i rest"]) simp

lemma spliced_ends: "spliced rest rule (rule # rest)" "spliced rest rule (rest @ [rule])"
  using spliced_take [of rest rule 0] spliced_take [of rest rule "length rest"] by simp_all

lemma insert_spliced: "spliced rest rule (insertBefore rest i rule)" "spliced rest rule (insertAfter rest i rule)"
proof -
  show "spliced rest rule (insertBefore rest i rule)"
    using spliced_take [of rest rule] spliced_ends [of rest rule] unfolding insertBefore_def by (simp split: option.split)
  show "spliced rest rule (insertAfter rest i rule)"
    using spliced_take [of rest rule] spliced_ends [of rest rule] unfolding insertAfter_def by (simp split: option.split)
qed

definition without_rule :: "string \<Rightarrow> gov list \<Rightarrow> gov list" where
  "without_rule ruleID es =
     (case position (has_rule_id ruleID) es of None \<Rightarrow> es | Some i \<Rightarrow> take i es @ drop (i + 1) es)"

lemma place_rule_spliced: "spliced (without_rule ruleID es) rule (place_rule ruleID rule before after es)"
proof -
  have "place_rule ruleID rule before after es =
      (if before \<noteq> [] then insertBefore (without_rule ruleID es) before rule
       else if after \<noteq> [] then insertAfter (without_rule ruleID es) after rule
       else case position (has_rule_id ruleID) es of
         Some i \<Rightarrow> if i < length (without_rule ruleID es)
                   then take i (without_rule ruleID es) @ [rule] @ drop i (without_rule ruleID es)
                   else rule # without_rule ruleID es
       | None \<Rightarrow> rule # without_rule ruleID es)"
    by (simp only: place_rule_def Let_def without_rule_def)
  then show ?thesis
    using insert_spliced spliced_take [of "without_rule ruleID es" rule] spliced_ends [of "without_rule ruleID es" rule]
    by (simp split: option.split)
qed

lemma removed_ids:
  assumes "distinct (ids_of es)"
  shows "ids_of (without_rule ruleID es)
    = filter (\<lambda>i. i \<noteq> ruleID) (ids_of es)"
proof (cases "position (has_rule_id ruleID) es")
  case None
  then have "ruleID \<notin> set (ids_of es)" by (simp add: position_None set_ids_of)
  then have "filter (\<lambda>i. i \<noteq> ruleID) (ids_of es) = ids_of es" by (auto simp: filter_id_conv)
  then show ?thesis using None by (simp add: without_rule_def)
next
  case (Some i)
  then have i: "i < length es" "rule_id_of (es ! i) = VStr ruleID" by (simp_all add: position_Some has_rule_id_iff)
  have "ids_of es = ids_of (take i es) @ [ruleID] @ ids_of (drop (i + 1) es)"
    using i(2) by (subst take_nth_drop [OF i(1)]) simp
  moreover from this have "ruleID \<notin> set (ids_of (take i es))" "ruleID \<notin> set (ids_of (drop (i + 1) es))"
    using assms by simp_all
  moreover from this(1,2) have "filter (\<lambda>i. i \<noteq> ruleID) (ids_of (take i es)) = ids_of (take i es)"
    "filter (\<lambda>i. i \<noteq> ruleID) (ids_of (drop (i + 1) es)) = ids_of (drop (i + 1) es)"
    by (auto simp: filter_id_conv)
  ultimately have "filter (\<lambda>i. i \<noteq> ruleID) (ids_of es) = ids_of (take i es) @ ids_of (drop (i + 1) es)" by simp
  then show ?thesis using Some by (simp add: without_rule_def)
qed

lemma place_rule_ids:
  assumes "distinct (ids_of es)" and "rule_id_of rule = VStr ruleID"
  shows "distinct (ids_of (place_rule ruleID rule before after es))"
    and "filter (\<lambda>i. i \<noteq> ruleID) (ids_of (place_rule ruleID rule before after es)) = filter (\<lambda>i. i \<noteq> ruleID) (ids_of es)"
    and "rule \<in> set (place_rule ruleID rule before after es)"
proof -
  obtain us vs where uv: "(without_rule ruleID es) = us @ vs"
      and out: "place_rule ruleID rule before after es = us @ [rule] @ vs"
    using place_rule_spliced [of ruleID es rule before after] by (auto simp: spliced_def)
  have ids: "ids_of us @ ids_of vs = filter (\<lambda>i. i \<noteq> ruleID) (ids_of es)"
    using removed_ids [OF assms(1), of ruleID] uv by simp
  have d: "distinct (ids_of us @ ids_of vs)" "ruleID \<notin> set (ids_of us @ ids_of vs)"
    unfolding ids using assms(1) by simp_all
  show "distinct (ids_of (place_rule ruleID rule before after es))" using d by (simp add: out assms(2))
  have "filter (\<lambda>i. i \<noteq> ruleID) (ids_of us) @ filter (\<lambda>i. i \<noteq> ruleID) (ids_of vs) = ids_of us @ ids_of vs"
    using d(2) by (auto simp: filter_id_conv simp flip: filter_append)
  then show "filter (\<lambda>i. i \<noteq> ruleID) (ids_of (place_rule ruleID rule before after es)) = filter (\<lambda>i. i \<noteq> ruleID) (ids_of es)"
    by (simp add: out assms(2) ids [symmetric])
  show "rule \<in> set (place_rule ruleID rule before after es)" by (simp add: out)
qed

subsection \<open>Rule IDs stay unique\<close>

text \<open>\<open>encoding/json\<close> writes a number for a number.\<close>

definition numbers :: "(string \<Rightarrow> json) \<Rightarrow> bool" where
  "numbers num \<longleftrightarrow> (\<forall>s. \<exists>t. num s = JNum t)"

lemma stored_VStr: "numbers num \<Longrightarrow> stored num v = VStr i \<longleftrightarrow> v = VStr i"
proof (cases v)
  case (VNum s)
  moreover assume "numbers num"
  then obtain t where "num s = JNum t" unfolding numbers_def by blast
  ultimately show ?thesis by (simp add: stored_def marshal.simps split: option.split)
qed (simp_all add: stored_def marshal.simps)

text \<open>The rules a list holds once it has been stored.\<close>

definition rules_of :: "gov \<Rightarrow> gov list" where
  "rules_of v = (case v of VSlice vs \<Rightarrow> vs | VMaps vs \<Rightarrow> vs | _ \<Rightarrow> [])"

definition list_ok :: "gov \<Rightarrow> bool" where
  "list_ok v \<longleftrightarrow> (\<forall>js. v \<noteq> VRaws js) \<and> (\<forall>m. VMap m \<in> set (rules_of v) \<longrightarrow> gm_ok m) \<and> distinct (ids_of (rules_of v))"

definition global_ok :: "gov gomap \<Rightarrow> bool" where
  "global_ok g \<longleftrightarrow> gm_ok g \<and> (\<forall>k. list_ok (field g k))"

lemma rule_id_stored:
  assumes "numbers num" and "\<And>m. e = VMap m \<Longrightarrow> gm_ok m"
  shows "(case rule_id_of (stored num e) of VStr i \<Rightarrow> [i] | _ \<Rightarrow> []) = (case rule_id_of e of VStr i \<Rightarrow> [i] | _ \<Rightarrow> [])"
proof (cases "as_map e")
  case None
  then have "as_map (stored num e) = None"
  proof (cases e)
    case (VNum s)
    obtain t where "num s = JNum t" using assms(1) unfolding numbers_def by blast
    then show ?thesis by (simp add: VNum stored_def marshal.simps as_map_def split: option.split)
  qed (simp_all add: as_map_def stored_def marshal.simps)
  then show ?thesis using None by (simp add: rule_id_of_def)
next
  case (Some m)
  then have e: "e = VMap m" by (cases e) (simp_all add: as_map_def)
  have "rule_id_of (stored num e) = (case gm_get m ''rule_id'' of None \<Rightarrow> VNil | Some v \<Rightarrow> stored num v)"
    using stored_field [OF assms(2) [OF e]] by (simp add: e rule_id_of_def)
  then have "rule_id_of (stored num e) = stored num (rule_id_of e)"
    by (simp add: e rule_id_of_def as_map_def field_def split: option.split)
  then show ?thesis using stored_VStr [OF assms(1)] by (simp split: gov.split)
qed

lemma ids_of_stored:
  assumes "numbers num" and "list_ok v"
  shows "ids_of (as_slice (stored num v)) = ids_of (rules_of v)"
proof -
  have map: "ids_of (map (stored num) vs) = ids_of vs" if "\<forall>m. VMap m \<in> set vs \<longrightarrow> gm_ok m" for vs
    using that rule_id_stored [OF assms(1)] by (induction vs) auto
  show ?thesis
  proof (cases v)
    case (VNum s)
    obtain t where "num s = JNum t" using assms(1) unfolding numbers_def by blast
    then show ?thesis by (simp add: VNum rules_of_def stored_def marshal.simps as_slice_def split: option.split)
  next
    case (VStrings ss)
    have "ids_of (map VStr ss) = []" by (induction ss) (simp_all add: rule_id_of_def as_map_def)
    then show ?thesis by (simp add: VStrings rules_of_def stored_def marshal.simps as_slice_def comp_def)
  next
    case (VMap m)
    then show ?thesis by (simp add: rules_of_def as_slice_def stored_map)
  next
    case (VSlice vs)
    then show ?thesis using assms(2) map [of vs] by (simp add: list_ok_def rules_of_def as_slice_def)
  next
    case (VMaps vs)
    then show ?thesis using assms(2) map [of vs] by (simp add: list_ok_def rules_of_def as_slice_def)
  qed (use assms(2) in \<open>simp_all add: list_ok_def rules_of_def as_slice_def stored_def marshal.simps\<close>)
qed

text \<open>What an update stores and the next one reads.\<close>

definition global_of :: "gov gomap \<Rightarrow> gov gomap" where
  "global_of rules = (case as_map (field rules ''global'') of None \<Rightarrow> [] | Some g \<Rightarrow> g)"

lemma stored_global:
  assumes "gm_ok rules" and "gm_ok g"
  shows "field (global_of (Decode (Some (marshal num (VMap (gm_put ''global'' (VMap g) rules)))))) k = stored num (field g k)"
proof -
  let ?M = "gm_put ''global'' (VMap g) rules"
  let ?s = "\<lambda>m. map (\<lambda>e. (fst e, stored num (snd e))) m"
  have "gov_of (marshal num (VMap ?M)) = VMap (?s ?M)"
    using stored_field(1) [of ?M num] assms(1)
    by (cases "gov_of (marshal num (VMap ?M))") (simp_all add: stored_def as_map_def)
  moreover have f: "field (?s ?M) ''global'' = stored num (VMap g)"
    using stored_field(2) [of ?M num "''global''"] assms(1) by (simp add: gm_get_put)
  ultimately have "Decode (Some (marshal num (VMap ?M))) = ?s ?M"
    by (simp add: Decode_def gov_map_def stored_map)
  then have "global_of (Decode (Some (marshal num (VMap ?M)))) = ?s g"
    using f stored_field(1) [OF assms(2), of num] by (simp add: global_of_def)
  then show ?thesis using stored_field(2) [OF assms(2), of num k] by (simp add: field_def split: option.split)
qed

text \<open>Everything read from the store is well-formed but for repeated IDs.\<close>

lemma gov_of_fields:
  "gov_of j = VMap m \<Longrightarrow> gm_ok m \<and> (\<forall>k. \<exists>j'. field m k = gov_of j')"
proof -
  assume m: "gov_of j = VMap m"
  then obtain kvs where j: "j = JObj kvs" by (cases j) simp_all
  have "map_of (map (\<lambda>(k, j). (k, gov_of j)) xs) k \<in> insert None (range (Some \<circ> gov_of))" for xs k
    by (induction xs) auto
  moreover have "m = gm_of (map (\<lambda>(k, j). (k, gov_of j)) kvs)" using m by (simp add: j)
  ultimately have r: "gm_get m k \<in> insert None (range (Some \<circ> gov_of))" for k
    by (simp only: gm_get_gm_of rev_map)
  have "\<exists>j'. field m k = gov_of j'" for k
  proof (cases "gm_get m k")
    case None
    then have "field m k = gov_of JNull" by (simp add: field_def)
    then show ?thesis by blast
  next
    case (Some v)
    moreover from this obtain j' where "v = gov_of j'"
      using r [of k] by auto
    ultimately have "field m k = gov_of j'" by (simp add: field_def)
    then show ?thesis by blast
  qed
  then show ?thesis using m by (auto simp: j)
qed

lemma gov_of_list: "rules_of (gov_of j) = as_slice (gov_of j)" "gov_of j \<noteq> VRaws js"
  "VMap m \<in> set (as_slice (gov_of j)) \<Longrightarrow> gm_ok m"
proof -
  show "rules_of (gov_of j) = as_slice (gov_of j)" "gov_of j \<noteq> VRaws js" by (cases j, simp_all add: rules_of_def as_slice_def)+
  assume "VMap m \<in> set (as_slice (gov_of j))"
  then obtain j' where "gov_of j' = VMap m" by (cases j) (auto simp: as_slice_def)
  then show "gm_ok m" using gov_of_fields by blast
qed

text \<open>The invariant: no stored list has two rules of one ID.\<close>

definition ps_ok :: "PushStore \<Rightarrow> bool" where
  "ps_ok ps \<longleftrightarrow> gm_ok (ps_rules ps) \<and> (\<forall>lp k. distinct (ids_of (as_slice (field (globalRuleset ps lp) k))))"

lemma DefaultRuleset_ok: "global_ok (global_of DefaultRuleset)"
proof -
  let ?g = "[(''content'', default_content), (''override'', default_override), (''room'', VSlice []),
        (''sender'', VSlice []), (''underride'', default_underride)]"
  have rule: "gm_get (gm_of ([(''rule_id'', VStr i), a, b, c] @ d)) ''rule_id'' = Some (VStr i)"
    if "fst a \<noteq> ''rule_id''" "fst b \<noteq> ''rule_id''" "fst c \<noteq> ''rule_id''" "\<forall>x \<in> set d. fst x \<noteq> ''rule_id''" for i a b c d
  proof -
    have "map_of (rev d) ''rule_id'' = None" using that(4) by (auto simp: map_of_eq_None_iff)
    then show ?thesis using that by (cases a; cases b; cases c) (simp add: gm_get_gm_of map_add_def)
  qed
  have id: "rule_id_of (default_rule i b cs as) = VStr i" for i b cs as
    using rule [of "(''enabled'', VBool b)" "(''default'', VBool True)" "(''actions'', as)" "if cs = [] then [] else [(''conditions'', VMaps cs)]" i]
    by (simp add: default_rule_def rule_id_of_def as_map_def field_def)
  have ok: "default_rule i b cs as = VMap m \<Longrightarrow> gm_ok m" for i b cs as m
    by (auto simp: default_rule_def)
  have "list_ok default_content"
    using rule [of "(''enabled'', VBool True)" "(''default'', VBool True)" _ "[(''pattern'', VStr [])]"]
    by (auto simp: list_ok_def default_content_def rules_of_def rule_id_of_def as_map_def field_def)
  moreover have "list_ok default_override" "list_ok default_underride"
    by (auto simp: list_ok_def default_override_def default_underride_def rules_of_def id dest: ok [OF sym])
  moreover have "list_ok (VSlice [])" "list_ok VNil" by (simp_all add: list_ok_def rules_of_def)
  moreover have "gm_ok ?g" by code_simp
  ultimately have "global_ok ?g" by (auto simp: global_ok_def field_def)
  then show ?thesis by (simp add: global_of_def DefaultRuleset_def field_def as_map_def)
qed

lemma Decode_gm_ok: "gm_ok (Decode current)"
  by (auto simp: Decode_def DefaultRuleset_def gov_map_def gm_ok_def dest!: gov_of_fields split: option.split gov.split)

lemma global_ruleset: "globalRuleset ps lp = global_of (Decode (gm_get (ps_rules ps) lp))"
  by (simp add: globalRuleset_def global_of_def LoadRules_def GetPushRules_def)

lemma decoded_ok:
  assumes "ps_ok ps"
  shows "global_ok (global_of (Decode (gm_get (ps_rules ps) lp)))"
proof (cases "Decode (gm_get (ps_rules ps) lp) = DefaultRuleset")
  case True
  then show ?thesis by (simp add: DefaultRuleset_ok)
next
  case False
  then obtain j where j: "gm_get (ps_rules ps) lp = Some j" by (cases "gm_get (ps_rules ps) lp") (auto simp: Decode_def)
  then have "gov_of j = VMap (Decode (Some j))"
    using False by (auto simp: Decode_def gov_map_def field_def split: option.splits gov.splits if_splits)
  then obtain j' where g: "field (Decode (Some j)) ''global'' = gov_of j'" using gov_of_fields by blast
  show ?thesis
  proof (cases "as_map (gov_of j')")
    case None
    then show ?thesis using g j by (simp add: global_of_def global_ok_def field_def list_ok_def rules_of_def)
  next
    case (Some m)
    then have m: "gov_of j' = VMap m" by (cases "gov_of j'") (simp_all add: as_map_def)
    have "list_ok (field m k)" for k
    proof -
      obtain jk where jk: "field m k = gov_of jk" using gov_of_fields [OF m] by blast
      have "distinct (ids_of (as_slice (field (globalRuleset ps lp) k)))" using assms by (simp add: ps_ok_def)
      then have "distinct (ids_of (as_slice (gov_of jk)))" using g j jk Some by (simp add: global_ruleset global_of_def)
      then show ?thesis using gov_of_list [where j = jk] by (auto simp: list_ok_def jk)
    qed
    then show ?thesis using g j gov_of_fields [OF m] Some by (simp add: global_of_def global_ok_def)
  qed
qed

lemma update_ok:
  assumes "numbers num" and "ps_ok ps" and "\<And>g g'. global_ok g \<Longrightarrow> fn g = Inr g' \<Longrightarrow> global_ok g'"
  shows "ps_ok (snd (updatePushRules num lp fn ps))"
proof (cases "fn (global_of (Decode (gm_get (ps_rules ps) lp)))")
  case (Inl e)
  then show ?thesis using assms(2) by (simp add: updatePushRules_def UpdatePushRules_def Let_def global_of_def)
next
  case (Inr g)
  let ?rules = "Decode (gm_get (ps_rules ps) lp)"
  let ?j = "marshal num (VMap (gm_put ''global'' (VMap g) ?rules))"
  have ps': "ps_rules (snd (updatePushRules num lp fn ps)) = gm_put lp ?j (ps_rules ps)"
    using Inr by (simp add: updatePushRules_def UpdatePushRules_def Let_def global_of_def)
  have g: "global_ok g" by (rule assms(3) [OF decoded_ok [OF assms(2)] Inr])
  have "distinct (ids_of (as_slice (field (global_of (Decode (Some ?j))) k)))" for k
    using g ids_of_stored [OF assms(1), of "field g k"]
    by (simp add: stored_global Decode_gm_ok global_ok_def) (simp add: list_ok_def)
  then show ?thesis
    using assms(2) ps' by (auto simp: ps_ok_def global_ruleset gm_get_put)
qed

lemma global_ok_put: "global_ok g \<Longrightarrow> list_ok v \<Longrightarrow> global_ok (gm_put kind v g)"
  by (auto simp: global_ok_def field_def gm_get_put)

lemma list_ok_slice: "list_ok v \<Longrightarrow> list_ok (VSlice (as_slice v))"
  by (cases v) (simp_all add: list_ok_def rules_of_def as_slice_def)

lemma list_okI:
  "\<forall>m. VMap m \<in> set es \<longrightarrow> gm_ok m \<Longrightarrow> distinct (ids_of es) \<Longrightarrow> list_ok (VSlice es)"
  by (simp add: list_ok_def rules_of_def)

lemma list_okD: "list_ok (VSlice es) \<Longrightarrow> VMap m \<in> set es \<Longrightarrow> gm_ok m" "list_ok (VSlice es) \<Longrightarrow> distinct (ids_of es)"
  by (simp_all add: list_ok_def rules_of_def)

lemma place_rule_set: "set (place_rule ruleID rule before after es) \<subseteq> insert rule (set es)"
proof -
  have "set (without_rule ruleID es) \<subseteq> set es"
    by (auto simp: without_rule_def dest: in_set_takeD in_set_dropD split: option.split)
  then show ?thesis using place_rule_spliced [of ruleID es rule before after] by (auto simp: spliced_def)
qed

lemma new_rule_ok: "new_rule ruleID body = Some rule \<Longrightarrow> gm_ok rule \<and> rule_id_of (VMap rule) = VStr ruleID"
proof -
  assume n: "new_rule ruleID body = Some rule"
  then obtain j m where j: "gov_of j = VMap m" "rule = gm_put ''default'' (VBool False)
      (if gm_get (gm_put ''rule_id'' (VStr ruleID) m) ''enabled'' = None
       then gm_put ''enabled'' (VBool True) (gm_put ''rule_id'' (VStr ruleID) m) else gm_put ''rule_id'' (VStr ruleID) m)"
    by (auto simp: new_rule_def as_map_def Let_def split: option.splits gov.splits)
  have m: "gm_ok m" using gov_of_fields [OF j(1)] by simp
  then show ?thesis unfolding j(2) by (simp add: rule_id_of_def as_map_def field_def gm_get_put)
qed

lemma ids_of_filter: "ids_of (filter (\<lambda>e. \<not> has_rule_id i e) es) = filter (\<lambda>k. k \<noteq> i) (ids_of es)"
  by (induction es) (auto simp: has_rule_id_iff split: gov.split)

lemma ids_of_update: "n < length es \<Longrightarrow> rule_id_of e = rule_id_of (es ! n) \<Longrightarrow> ids_of (es[n := e]) = ids_of es"
  by (simp add: ids_of_def map_update) (metis (no_types, lifting) list_update_id map_update nth_map)

subsection \<open>Runs of edits\<close>

definition no_rules :: PushStore where
  "no_rules = \<lparr>ps_rules = [], ps_mirror = [], ps_next_stream = 1\<rparr>"

inductive push_run :: "(string \<Rightarrow> json) \<Rightarrow> PushStore \<Rightarrow> bool" for num where
  push_start: "push_run num no_rules"
| push_put: "push_run num ps \<Longrightarrow> push_run num (snd (PutPushRule num lp scope kind ruleID body before after ps))"
| push_delete: "push_run num ps \<Longrightarrow> push_run num (snd (DeletePushRule num lp scope kind ruleID ps))"
| push_enabled: "push_run num ps \<Longrightarrow> push_run num (snd (PutPushRuleEnabled num lp scope kind ruleID body ps))"
| push_actions: "push_run num ps \<Longrightarrow> push_run num (snd (PutPushRuleActions num lp scope kind ruleID body ps))"
| push_copy: "push_run num ps \<Longrightarrow> push_run num (CopyRules num lps old new ps)"
| push_save: "push_run num ps \<Longrightarrow> push_run num (savePushRules num lp DefaultRuleset ps)"

lemma snd_reply [simp]: "snd (reply_of r) = snd r"
  by (simp add: reply_of_def split: option.split)

lemma put_ok: "numbers num \<Longrightarrow> ps_ok ps \<Longrightarrow> ps_ok (snd (PutPushRule num lp scope kind ruleID body before after ps))"
proof -
  assume a: "numbers num" "ps_ok ps"
  have "global_ok (gm_put kind (VSlice (place_rule ruleID (VMap rule) before after (as_slice (field g kind)))) g)"
    if "global_ok g" "new_rule ruleID body = Some rule" for g rule
  proof (rule global_ok_put [OF that(1) list_okI])
    have l: "list_ok (VSlice (as_slice (field g kind)))" using that(1) by (simp add: global_ok_def list_ok_slice)
    show "\<forall>m. VMap m \<in> set (place_rule ruleID (VMap rule) before after (as_slice (field g kind))) \<longrightarrow> gm_ok m"
      using place_rule_set [of ruleID "VMap rule" before after "as_slice (field g kind)"] list_okD(1) [OF l] new_rule_ok [OF that(2)]
      by blast
    show "distinct (ids_of (place_rule ruleID (VMap rule) before after (as_slice (field g kind))))"
      using place_rule_ids(1) [OF list_okD(2) [OF l]] new_rule_ok [OF that(2)] by blast
  qed
  then show ?thesis using a by (auto simp: PutPushRule_def intro!: update_ok split: option.split)
qed

lemma delete_ok: "numbers num \<Longrightarrow> ps_ok ps \<Longrightarrow> ps_ok (snd (DeletePushRule num lp scope kind ruleID ps))"
proof -
  assume a: "numbers num" "ps_ok ps"
  have "global_ok (gm_put kind (VSlice (filter (\<lambda>e. \<not> has_rule_id ruleID e) (as_slice (field g kind)))) g)"
    if "global_ok g" for g
  proof (rule global_ok_put [OF that list_okI])
    have l: "list_ok (VSlice (as_slice (field g kind)))" using that by (simp add: global_ok_def list_ok_slice)
    show "\<forall>m. VMap m \<in> set (filter (\<lambda>e. \<not> has_rule_id ruleID e) (as_slice (field g kind))) \<longrightarrow> gm_ok m"
      using list_okD(1) [OF l] by auto
    show "distinct (ids_of (filter (\<lambda>e. \<not> has_rule_id ruleID e) (as_slice (field g kind))))"
      using list_okD(2) [OF l] by (simp add: ids_of_filter)
  qed
  then show ?thesis using a by (auto simp: DeletePushRule_def intro!: update_ok)
qed

lemma mutate_ok:
  assumes "numbers num" and "ps_ok ps" and "\<And>m. gm_ok m \<Longrightarrow> gm_ok (fn m)"
    and "\<And>m. gm_ok m \<Longrightarrow> field (fn m) ''rule_id'' = field m ''rule_id''"
  shows "ps_ok (snd (mutateRule num lp kind ruleID fn ps))"
  unfolding mutateRule_def
proof (rule update_ok [OF assms(1,2)])
  fix g g'
  assume g: "global_ok g" and g': "(let list = as_slice (field g kind)
       in case position (has_rule_id ruleID) list of
            None \<Rightarrow> Inl PushNotFound
          | Some i \<Rightarrow> (case as_map (list ! i) of
                 None \<Rightarrow> Inl PushNotFound
               | Some em \<Rightarrow> Inr (gm_put kind (VSlice (list[i := VMap (fn em)])) g))) = Inr g'"
  let ?es = "as_slice (field g kind)"
  obtain i em where i: "position (has_rule_id ruleID) ?es = Some i" "as_map (?es ! i) = Some em"
      "g' = gm_put kind (VSlice (?es[i := VMap (fn em)])) g"
    using g' by (auto simp: Let_def split: option.splits)
  have l: "list_ok (VSlice ?es)" using g by (simp add: global_ok_def list_ok_slice)
  have n: "i < length ?es" using i(1) by (simp add: position_Some)
  have e: "?es ! i = VMap em" using i(2) by (cases "?es ! i") (simp_all add: as_map_def)
  then have em: "gm_ok em" using list_okD(1) [OF l, of em] n by (metis nth_mem)
  have "rule_id_of (VMap (fn em)) = rule_id_of (?es ! i)"
    using assms(4) [OF em] by (simp add: e rule_id_of_def as_map_def)
  then have "distinct (ids_of (?es[i := VMap (fn em)]))" using list_okD(2) [OF l] ids_of_update [OF n] by simp
  moreover have "\<forall>m. VMap m \<in> set (?es[i := VMap (fn em)]) \<longrightarrow> gm_ok m"
    using list_okD(1) [OF l] assms(3) [OF em] set_update_subset_insert [of ?es i "VMap (fn em)"] by blast
  ultimately show "global_ok g'" unfolding i(3) by (intro global_ok_put [OF g] list_okI)
qed

lemma put_field: "gm_ok m \<Longrightarrow> k \<noteq> ''rule_id'' \<Longrightarrow> field (gm_put k v m) ''rule_id'' = field m ''rule_id''"
  by (simp add: field_def gm_get_put)

lemma room_clone_new:
  "room_clone old new clone es = Some c \<Longrightarrow> clone = Some c \<and> new \<notin> set (ids_of es)
     \<or> new \<notin> set (ids_of es) \<and> (\<exists>em. VMap em \<in> set es \<and> c = gm_put ''rule_id'' (VStr new) em)"
proof (induction old new clone es rule: room_clone.induct)
  case (2 old new clone e es)
  show ?case
  proof (cases "as_map e")
    case None
    then show ?thesis using 2 by (auto simp: rule_id_of_def)
  next
    case (Some em)
    then have e: "e = VMap em" by (cases e) (simp_all add: as_map_def)
    show ?thesis
      using 2(2) [OF Some] 2(3) 2(4) Some
      by (auto simp: rule_id_of_def e split: if_splits gov.splits)
  qed
qed simp

end
