(* ===== verification/Push_Edits.thy ===== *)
theory Push_Edits
  imports Push_Rules_Laws
begin

section \<open>What edits of a ruleset leave\<close>

text \<open>
  Every operation on the stored rulesets keeps rule IDs unique within a list; an accepted PUT is read back;
  what the default ruleset evaluates to.
\<close>

subsection \<open>Every operation keeps rule IDs unique\<close>

text \<open>A ruleset is stored by an edit, by a copy, or as a whole; what is stored satisfies the invariant when its lists do.\<close>

lemma stored_ruleset_ok:
  assumes "numbers num" and "ps_ok ps" and "gm_ok rules" and "global_ok g"
    and "ps_rules ps' = gm_put lp (marshal num (VMap (gm_put ''global'' (VMap g) rules))) (ps_rules ps)"
  shows "ps_ok ps'"
proof -
  let ?j = "marshal num (VMap (gm_put ''global'' (VMap g) rules))"
  have "distinct (ids_of (as_slice (field (global_of (Decode (Some ?j))) k)))" for k
    using assms(4) ids_of_stored [OF assms(1), of "field g k"]
    by (simp add: stored_global assms(3) global_ok_def) (simp add: list_ok_def)
  then show ?thesis using assms(2,5) by (auto simp: ps_ok_def global_ruleset gm_get_put)
qed

lemma room_clone_spliced:
  assumes "room_clone old new None es = Some c" and "distinct (ids_of es)"
    and "\<And>m. VMap m \<in> set es \<Longrightarrow> gm_ok m"
  shows "distinct (ids_of (es @ [VMap c]))" and "gm_ok c"
proof -
  obtain em where em: "VMap em \<in> set es" "c = gm_put ''rule_id'' (VStr new) em" and new: "new \<notin> set (ids_of es)"
    using room_clone_new [OF assms(1)] by auto
  have ok: "gm_ok em" by (rule assms(3) [OF em(1)])
  then show "gm_ok c" by (simp add: em(2))
  have "rule_id_of (VMap c) = VStr new" using ok by (simp add: em(2) rule_id_of_def as_map_def field_def gm_get_put)
  then show "distinct (ids_of (es @ [VMap c]))" using assms(2) new by simp
qed

lemma copy_one_ok:
  assumes "numbers num" and "ps_ok ps"
  shows "ps_ok (snd (UpdatePushRules lp (\<lambda>current. Inr (copyRoomRule num old new current) :: unit + raw) ps))"
proof (cases "copyRoomRule num old new (gm_get (ps_rules ps) lp)")
  case None
  then show ?thesis using assms(2) by (simp add: UpdatePushRules_def)
next
  case (Some j')
  then obtain j rules g c where j: "gm_get (ps_rules ps) lp = Some j" "gov_map j = Some rules"
      and g: "as_map (field rules ''global'') = Some g"
      and c: "room_clone old new None (as_slice (field g ''room'')) = Some c"
      and j': "j' = marshal num (VMap (gm_put ''global''
          (VMap (gm_put ''room'' (VSlice (as_slice (field g ''room'') @ [VMap c])) g)) rules))"
    unfolding copyRoomRule_def by (auto simp: Let_def split: option.splits)
  have "global_of rules = g" using g by (simp add: global_of_def)
  moreover have "field rules ''global'' \<noteq> VNil" using g by (auto simp: as_map_def)
  then have D: "Decode (gm_get (ps_rules ps) lp) = rules" using j by (simp add: Decode_def)
  ultimately have ok: "global_ok g" using decoded_ok [OF assms(2), of lp] by simp
  then have l: "list_ok (VSlice (as_slice (field g ''room'')))" by (simp add: global_ok_def list_ok_slice)
  have new: "distinct (ids_of (as_slice (field g ''room'') @ [VMap c]))" "gm_ok c"
    using room_clone_spliced [OF c list_okD(2) [OF l]] list_okD(1) [OF l] by blast+
  have "list_ok (VSlice (as_slice (field g ''room'') @ [VMap c]))"
    using list_okD(1) [OF l] new by (intro list_okI) auto
  then have g': "global_ok (gm_put ''room'' (VSlice (as_slice (field g ''room'') @ [VMap c])) g)"
    by (rule global_ok_put [OF ok])
  have rules: "gm_ok rules" using Decode_gm_ok [of "gm_get (ps_rules ps) lp"] D by simp
  show ?thesis
    by (rule stored_ruleset_ok [OF assms rules g']) (use Some in \<open>simp add: UpdatePushRules_def j'\<close>)
qed

lemma copy_ok: "numbers num \<Longrightarrow> ps_ok ps \<Longrightarrow> ps_ok (CopyRules num lps old new ps)"
  unfolding CopyRules_def by (induction lps arbitrary: ps) (simp_all add: copy_one_ok)

lemma default_global: "DefaultRuleset = gm_put ''global'' (VMap (global_of DefaultRuleset)) DefaultRuleset"
  by (simp add: DefaultRuleset_def global_of_def field_def as_map_def)

lemma save_ok: "numbers num \<Longrightarrow> ps_ok ps \<Longrightarrow> ps_ok (savePushRules num lp DefaultRuleset ps)"
  by (rule stored_ruleset_ok [where rules = DefaultRuleset and lp = lp, OF _ _ _ DefaultRuleset_ok])
    (simp_all add: savePushRules_def UpdatePushRules_def default_global [symmetric], simp add: DefaultRuleset_def gm_ok_def)

lemma edits_ok:
  assumes "numbers num" and "ps_ok ps"
  shows "ps_ok (snd (PutPushRuleEnabled num lp scope kind ruleID body ps))"
    and "ps_ok (snd (PutPushRuleActions num lp scope kind ruleID body ps))"
  using assms by (auto simp: PutPushRuleEnabled_def PutPushRuleActions_def put_field intro!: mutate_ok split: option.split)

lemma run_ok: "push_run num ps \<Longrightarrow> numbers num \<Longrightarrow> ps_ok ps"
proof (induction rule: push_run.induct)
  case push_start
  have "distinct (ids_of (as_slice (field (global_of DefaultRuleset) k)))" for k
    using DefaultRuleset_ok list_okD(2) [OF list_ok_slice] by (simp add: global_ok_def)
  then show ?case by (simp add: ps_ok_def no_rules_def global_ruleset Decode_def)
qed (simp_all add: put_ok delete_ok edits_ok copy_ok save_ok)

text \<open>What an accepted PUT leaves in the ruleset.\<close>

lemma put_reads:
  assumes "ps_ok ps" and "PutPushRule num lp scope kind ruleID body before after ps = (PushOk, ps')"
  obtains rule where "new_rule ruleID body = Some rule"
    and "as_slice (field (globalRuleset ps' lp) kind)
      = map (stored num) (place_rule ruleID (VMap rule) before after (as_slice (field (globalRuleset ps lp) kind)))"
    and "\<And>k. k \<noteq> kind \<Longrightarrow> field (globalRuleset ps' lp) k = stored num (field (globalRuleset ps lp) k)"
    and "\<And>lp'. lp' \<noteq> lp \<Longrightarrow> globalRuleset ps' lp' = globalRuleset ps lp'"
    and "validPushRulePath scope kind ruleID" and "validatePushRuleBody kind rule"
proof -
  obtain rule where r: "new_rule ruleID body = Some rule" and v: "validPushRulePath scope kind ruleID" "validatePushRuleBody kind rule"
    and u: "reply_of (updatePushRules num lp (\<lambda>global.
                 Inr (gm_put kind (VSlice (place_rule ruleID (VMap rule) before after
                        (as_slice (field global kind)))) global)) ps) = (PushOk, ps')"
    using assms(2) by (auto simp: PutPushRule_def split: if_splits option.splits)
  let ?R = "Decode (gm_get (ps_rules ps) lp)"
  let ?g = "global_of ?R"
  let ?g' = "gm_put kind (VSlice (place_rule ruleID (VMap rule) before after (as_slice (field ?g kind)))) ?g"
  have rules: "ps_rules ps' = gm_put lp (marshal num (VMap (gm_put ''global'' (VMap ?g') ?R))) (ps_rules ps)"
    using arg_cong [OF u, of snd] by (auto simp: updatePushRules_def UpdatePushRules_def Let_def global_of_def)
  have ok: "global_ok ?g" by (rule decoded_ok [OF assms(1)])
  have ps: "gm_ok (ps_rules ps)" using assms(1) by (simp add: ps_ok_def)
  have read: "field (globalRuleset ps' lp) k = stored num (field ?g' k)" for k
    using ok ps stored_global [OF Decode_gm_ok, of ?g'] by (simp add: rules global_ruleset gm_get_put global_ok_def)
  show thesis
  proof (rule that [OF r _ _ _ v])
    show "as_slice (field (globalRuleset ps' lp) kind)
      = map (stored num) (place_rule ruleID (VMap rule) before after (as_slice (field (globalRuleset ps lp) kind)))"
    proof -
      have "field ?g' kind = VSlice (place_rule ruleID (VMap rule) before after (as_slice (field ?g kind)))"
        using ok by (simp add: field_def gm_get_put global_ok_def)
      then show ?thesis by (simp add: read) (simp add: as_slice_def global_ruleset)
    qed
    show "field (globalRuleset ps' lp) k = stored num (field (globalRuleset ps lp) k)" if "k \<noteq> kind" for k
    proof -
      have "field ?g' k = field ?g k" using ok that by (simp add: field_def gm_get_put global_ok_def)
      then show ?thesis by (simp only: read) (simp only: global_ruleset)
    qed
    show "globalRuleset ps' lp' = globalRuleset ps lp'" if "lp' \<noteq> lp" for lp'
      using ps that by (simp add: rules global_ruleset gm_get_put)
  qed
qed


subsection \<open>The default ruleset, once stored\<close>

definition a_rule :: "string \<Rightarrow> bool \<Rightarrow> gov list \<Rightarrow> gov list \<Rightarrow> gov gomap" where
  "a_rule i b cs as = gm_of ([(''rule_id'', VStr i), (''enabled'', VBool b), (''default'', VBool True), (''actions'', VSlice as)]
      @ (if cs = [] then [] else [(''conditions'', VSlice cs)]))"

lemma a_rule_fields [simp]:
  "field (a_rule i b cs as) ''rule_id'' = VStr i" "field (a_rule i b cs as) ''enabled'' = VBool b"
  "field (a_rule i b cs as) ''actions'' = VSlice as" "as_slice (field (a_rule i b cs as) ''conditions'') = cs"
  by (simp_all add: a_rule_def field_def gm_get_gm_of as_slice_def)

lemma stored_default_rule:
  "stored num as = VSlice es \<Longrightarrow> stored num (default_rule i b cs as) = VMap (a_rule i b (map (stored num) cs) es)"
  unfolding default_rule_def stored_map gm_of_map_values by (simp add: a_rule_def)

lemma stored_parts:
  "stored num (event_match k p) = event_match k p" "stored num two_members = two_members"
  "stored num (tweak n (VBool b)) = tweak n (VBool b)" "stored num (tweak n (VStr t)) = tweak n (VStr t)"
  "stored num (VStrings ss) = VSlice (map VStr ss)"
  by (simp_all add: event_match_def two_members_def tweak_def stored_def marshal.simps gm_of_def gm_put.simps comp_def)

lemma matches_event [simp]:
  "conditionMatches [(''key'', VStr k), (''kind'', VStr ''event_match''), (''pattern'', VStr p)] ev
     = globMatch p (if k = ''type'' then es_type ev else if has_prefix k ''content.'' then contentField (es_content ev) (drop 8 k)
         else if k = ''sender'' then es_sender ev else if k = ''room_id'' then es_room_id ev else [])"
  by (simp add: conditionMatches_def Let_def field_def as_str_def gm_get_gm_of)


lemma default_lists:
  "field (global_of (Decode (Some (marshal num (VMap DefaultRuleset))))) k =
     (if k = ''override'' then VSlice
        [VMap (a_rule ''.m.rule.master'' False [] [VStr ''dont_notify'']),
         VMap (a_rule ''.m.rule.suppress_notices'' True [event_match ''content.msgtype'' ''m.notice''] [VStr ''dont_notify'']),
         VMap (a_rule ''.m.rule.reaction'' True [event_match ''type'' ''m.reaction''] []),
         VMap (a_rule ''.org.matrix.msc3930.rule.poll_response'' True [event_match ''type'' ''org.matrix.msc3381.poll.response''] [])]
      else if k = ''content'' then stored num default_content
      else if k = ''room'' \<or> k = ''sender'' then VSlice []
      else if k = ''underride'' then stored num default_underride
      else VNil)"
proof -
  have "field (global_of (Decode (Some (marshal num (VMap DefaultRuleset))))) k = stored num (field (global_of DefaultRuleset) k)"
    using stored_global [OF _ _, of DefaultRuleset "global_of DefaultRuleset" num k] DefaultRuleset_ok
    by (simp add: default_global [symmetric] global_ok_def Decode_gm_ok [of None, unfolded Decode_def, simplified])
  moreover have "global_of DefaultRuleset = [(''content'', default_content), (''override'', default_override), (''room'', VSlice []),
        (''sender'', VSlice []), (''underride'', default_underride)]"
    by (simp add: global_of_def DefaultRuleset_def field_def as_map_def)
  moreover have "stored num default_override = VSlice
        [VMap (a_rule ''.m.rule.master'' False [] [VStr ''dont_notify'']),
         VMap (a_rule ''.m.rule.suppress_notices'' True [event_match ''content.msgtype'' ''m.notice''] [VStr ''dont_notify'']),
         VMap (a_rule ''.m.rule.reaction'' True [event_match ''type'' ''m.reaction''] []),
         VMap (a_rule ''.org.matrix.msc3930.rule.poll_response'' True [event_match ''type'' ''org.matrix.msc3381.poll.response''] [])]"
    by (simp add: default_override_def stored_default_rule stored_parts)
  ultimately show ?thesis by (simp add: field_def)
qed

text \<open>Of the underride rules those after the second never come to be asked.\<close>

lemma default_underride_head:
  "\<exists>es. stored num default_underride = VSlice
     (VMap (a_rule ''.m.rule.call'' True [event_match ''type'' ''m.call.invite''] [VStr ''notify'', tweak ''ring'' (VBool True)])
      # VMap (a_rule ''.m.rule.encrypted_room_one_to_one'' True [] [VStr ''notify'']) # es)"
  by (simp add: default_underride_def stored_default_rule stored_parts)

lemma default_content_rule:
  "stored num default_content = VSlice [VMap (gm_of [(''rule_id'', VStr ''.m.rule.contains_user_name''), (''enabled'', VBool True),
      (''default'', VBool True), (''actions'', VSlice [tweak ''highlight'' (VBool True), VStr ''notify'']), (''pattern'', VStr [])])]"
  by (simp add: default_content_def stored_map gm_of_map_values stored_parts del: gm_of_def)


lemma applied:
  "applyActions r no_result = fold apply_action (as_slice (field r ''actions'')) no_result"
  by (simp add: applyActions_def)

lemma matches_literal [simp]: "CHR ''*'' \<notin> set p \<Longrightarrow> CHR ''?'' \<notin> set p \<Longrightarrow> globMatch p s \<longleftrightarrow> p = s"
  by (simp add: globMatch_glob glob_literal)

lemma evaluated_default:
  "Evaluate (Decode (Some (marshal num (VMap DefaultRuleset)))) userID localpart ev =
     (let msg = contentField (es_content ev) ''body'' in
      if es_sender ev = userID \<or> contentField (es_content ev) ''msgtype'' = ''m.notice''
         \<or> es_type ev \<in> {''m.reaction'', ''org.matrix.msc3381.poll.response''} then no_result
      else if ToLower localpart \<noteq> [] \<and> is_infix (ToLower localpart) (ToLower msg) then
        \<lparr>Notifies = True, Highlights = True, MarkUnread = False, Tweaks = [(''highlight'', VBool True)]\<rparr>
      else \<lparr>Notifies = True, Highlights = False, MarkUnread = False,
             Tweaks = (if es_type ev = ''m.call.invite'' then [(''ring'', VBool True)] else [])\<rparr>)"
proof -
  let ?D = "Decode (Some (marshal num (VMap DefaultRuleset)))"
  obtain g where g: "as_map (field ?D ''global'') = Some g"
    using default_lists [of num "''override''"] by (cases "as_map (field ?D ''global'')") (auto simp: global_of_def field_def)
  have l: "field g k = field (global_of ?D) k" for k by (simp add: global_of_def g)
  obtain es where u: "stored num default_underride = VSlice
     (VMap (a_rule ''.m.rule.call'' True [event_match ''type'' ''m.call.invite''] [VStr ''notify'', tweak ''ring'' (VBool True)])
      # VMap (a_rule ''.m.rule.encrypted_room_one_to_one'' True [] [VStr ''notify'']) # es)"
    using default_underride_head by blast
  have ev: "as_slice (VSlice vs) = vs" "as_map (VMap m) = Some m" "as_bool (VBool b) = b" for vs m b
    by (simp_all add: as_slice_def as_map_def as_bool_def)
  have override: "first_rule (rule_matches ''override'' localpart ev) (as_slice (field g ''override'')) =
      (if contentField (es_content ev) ''msgtype'' = ''m.notice''
       then Some (a_rule ''.m.rule.suppress_notices'' True [event_match ''content.msgtype'' ''m.notice''] [VStr ''dont_notify''])
       else if es_type ev = ''m.reaction'' then Some (a_rule ''.m.rule.reaction'' True [event_match ''type'' ''m.reaction''] [])
       else if es_type ev = ''org.matrix.msc3381.poll.response''
       then Some (a_rule ''.org.matrix.msc3930.rule.poll_response'' True [event_match ''type'' ''org.matrix.msc3381.poll.response''] [])
       else None)"
    by (auto simp: l default_lists ev ruleEnabled_def rule_matches_def kindRuleMatches_def event_match_def)
  have "first_rule (rule_matches ''content'' localpart ev) (as_slice (field g ''content'')) =
      (if ToLower localpart \<noteq> [] \<and> is_infix (ToLower localpart) (ToLower (contentField (es_content ev) ''body''))
       then Some [(''actions'', VSlice [tweak ''highlight'' (VBool True), VStr ''notify'']), (''default'', VBool True), (''enabled'', VBool True),
         (''pattern'', VStr []), (''rule_id'', VStr ''.m.rule.contains_user_name'')] else None)"
    by (simp add: l default_lists default_content_rule ev)
      (simp add: ev ruleEnabled_def rule_matches_def contentRuleMatches_def field_def gm_of_def gm_put.simps)
  moreover have "first_rule (rule_matches k localpart ev) (as_slice (field g k)) = None" if "k \<in> {''sender'', ''room''}" for k
    using that by (auto simp: l default_lists ev)
  moreover have "first_rule (rule_matches ''underride'' localpart ev) (as_slice (field g ''underride'')) =
      Some (if es_type ev = ''m.call.invite''
        then a_rule ''.m.rule.call'' True [event_match ''type'' ''m.call.invite''] [VStr ''notify'', tweak ''ring'' (VBool True)]
        else a_rule ''.m.rule.encrypted_room_one_to_one'' True [] [VStr ''notify''])"
    by (auto simp: l default_lists u ev ruleEnabled_def rule_matches_def kindRuleMatches_def event_match_def)
  moreover have "applyActions (a_rule i b cs [VStr ''dont_notify'']) no_result = no_result"
    "applyActions (a_rule i b cs []) no_result = no_result"
    "applyActions (a_rule i b cs [VStr ''notify'']) no_result = no_result\<lparr>Notifies := True\<rparr>"
    "applyActions (a_rule i b cs [VStr ''notify'', tweak ''ring'' (VBool True)]) no_result
      = no_result\<lparr>Notifies := True, Tweaks := [(''ring'', VBool True)]\<rparr>" for i b cs
    by (simp_all add: applyActions_def ev) (simp_all add: apply_action_def ev tweak_def field_def gm_put.simps no_result_def)
  moreover have "applyActions [(''actions'', VSlice [tweak ''highlight'' (VBool True), VStr ''notify'']), (''default'', VBool True), (''enabled'', VBool True),
         (''pattern'', VStr []), (''rule_id'', VStr ''.m.rule.contains_user_name'')] no_result
      = no_result\<lparr>Notifies := True, Highlights := True, Tweaks := [(''highlight'', VBool True)]\<rparr>"
    by (simp add: applyActions_def apply_action_def ev tweak_def field_def gm_put.simps no_result_def)
  ultimately show ?thesis
    using override by (simp add: Evaluate_def g kindLists_def Let_def no_result_def)
qed


lemma gm_get_put_same: "gm_get (gm_put k v m) k = Some v"
  by (induction m rule: gm_put.induct) auto

lemma found_rule:
  "distinct (ids_of es) \<Longrightarrow> e \<in> set es \<Longrightarrow> has_rule_id i e \<Longrightarrow> find (has_rule_id i) es = Some e"
proof (induction es)
  case (Cons d es)
  show ?case
  proof (cases "has_rule_id i d")
    case True
    then have "i \<notin> set (ids_of es)" using Cons.prems(1) by (simp add: has_rule_id_iff)
    then have "e = d" using Cons.prems(2,3) by (auto simp: set_ids_of)
    then show ?thesis using True by simp
  next
    case False
    then show ?thesis using Cons by (auto split: gov.splits)
  qed
qed simp

lemma stored_rule_id:
  "numbers num \<Longrightarrow> gm_ok m \<Longrightarrow> has_rule_id i (stored num (VMap m)) \<longleftrightarrow> has_rule_id i (VMap m)"
  using stored_field [of m num] stored_VStr [of num "field m ''rule_id''" i]
  by (auto simp: has_rule_id_def as_map_def field_def split: option.splits)

lemma ids_of_map_stored:
  "numbers num \<Longrightarrow> list_ok (VSlice es) \<Longrightarrow> ids_of (map (stored num) es) = ids_of es"
  using ids_of_stored [of num "VSlice es"] by (simp add: as_slice_def rules_of_def)

lemma list_read: "ps_ok ps \<Longrightarrow> list_ok (VSlice (as_slice (field (globalRuleset ps lp) kind)))"
  using decoded_ok [of ps lp] by (simp add: global_ruleset global_ok_def list_ok_slice)

lemma placed_list_ok:
  assumes "list_ok (VSlice es)" and "gm_ok rule" and "rule_id_of (VMap rule) = VStr ruleID"
  shows "list_ok (VSlice (place_rule ruleID (VMap rule) before after es))"
proof (rule list_okI)
  show "\<forall>m. VMap m \<in> set (place_rule ruleID (VMap rule) before after es) \<longrightarrow> gm_ok m"
    using place_rule_set [of ruleID "VMap rule" before after es] list_okD(1) [OF assms(1)] assms(2) by blast
  show "distinct (ids_of (place_rule ruleID (VMap rule) before after es))"
    by (rule place_rule_ids(1) [OF list_okD(2) [OF assms(1)] assms(3)])
qed

subsection \<open>Properties\<close>


text \<open>
  An accepted PUT of a rule is read back by GET, whatever \<open>before\<close> and \<open>after\<close> say; the other rules of
  the list keep their order, and other users' rulesets do not change.
\<close>

theorem put_rule_read_back:
  assumes "push_run num ps" and "numbers num"
    and "PutPushRule num lp scope kind ruleID body before after ps = (PushOk, ps')"
    and "new_rule ruleID body = Some rule"
  shows "GetPushRule ps' lp scope kind ruleID = PushRule (map (\<lambda>e. (fst e, stored num (snd e))) rule)
    \<and> filter (\<lambda>i. i \<noteq> ruleID) (ids_of (as_slice (field (globalRuleset ps' lp) kind)))
        = filter (\<lambda>i. i \<noteq> ruleID) (ids_of (as_slice (field (globalRuleset ps lp) kind)))
    \<and> (\<forall>lp' \<in> - {lp}. globalRuleset ps' lp' = globalRuleset ps lp')"
proof -
  have ok: "ps_ok ps" by (rule run_ok [OF assms(1,2)])
  let ?es = "as_slice (field (globalRuleset ps lp) kind)"
  let ?new = "place_rule ruleID (VMap rule) before after ?es"
  have out: "as_slice (field (globalRuleset ps' lp) kind) = map (stored num) ?new"
    and rest: "\<And>lp'. lp' \<noteq> lp \<Longrightarrow> globalRuleset ps' lp' = globalRuleset ps lp'"
    and path: "validPushRulePath scope kind ruleID"
    using put_reads [OF ok assms(3)] assms(4) by (metis option.inject)+
  have r: "gm_ok rule" "rule_id_of (VMap rule) = VStr ruleID" using new_rule_ok [OF assms(4)] by simp_all
  have l: "list_ok (VSlice ?new)" by (rule placed_list_ok [OF list_read [OF ok] r])
  have ids: "ids_of (map (stored num) ?new) = ids_of ?new" by (rule ids_of_map_stored [OF assms(2) l])
  have "stored num (VMap rule) \<in> set (map (stored num) ?new)"
    using place_rule_ids(3) [OF list_okD(2) [OF list_read [OF ok]] r(2)] by force
  then have "find (has_rule_id ruleID) (map (stored num) ?new) = Some (stored num (VMap rule))"
    using list_okD(2) [OF l] r stored_rule_id [OF assms(2) r(1)] by (intro found_rule) (simp_all add: ids has_rule_id_iff)
  then have "findRule ps' lp kind ruleID = Some (map (\<lambda>e. (fst e, stored num (snd e))) rule)"
    using stored_field(1) [OF r(1)] by (simp add: findRule_def out)
  then have "GetPushRule ps' lp scope kind ruleID = PushRule (map (\<lambda>e. (fst e, stored num (snd e))) rule)"
    using path by (simp add: GetPushRule_def validPushRulePath_def)
  then show ?thesis
    using rest place_rule_ids(2) [OF list_okD(2) [OF list_read [OF ok]] r(2)] by (simp add: out ids)
qed

text \<open>
  An update without \<open>before\<close> and \<open>after\<close> leaves a rule where it is in its list, but moves the last rule of
  a list to its front.
\<close>

theorem updated_rule_position:
  assumes "push_run num ps" and "numbers num"
    and "PutPushRule num lp scope kind ruleID body [] [] ps = (PushOk, ps')"
    and "new_rule ruleID body = Some rule"
    and "as_slice (field (globalRuleset ps lp) kind) = us @ old # vs" and "has_rule_id ruleID old"
  shows "as_slice (field (globalRuleset ps' lp) kind)
    = map (stored num) (if vs = [] then VMap rule # us else us @ VMap rule # vs)"
proof -
  have ok: "ps_ok ps" by (rule run_ok [OF assms(1,2)])
  have out: "as_slice (field (globalRuleset ps' lp) kind) = map (stored num) (place_rule ruleID (VMap rule) [] [] (us @ old # vs))"
    using put_reads [OF ok assms(3)] assms(4,5) by (metis option.inject)
  have "distinct (ids_of (us @ old # vs))" using list_okD(2) [OF list_read [OF ok]] assms(5) by metis
  then have "ruleID \<notin> set (ids_of us)" using assms(6) by (auto simp: has_rule_id_iff)
  then have "position (has_rule_id ruleID) (us @ old # vs) = Some (length us)"
    using assms(6) by (auto simp: position_Some set_ids_of nth_append)
  then have "place_rule ruleID (VMap rule) [] [] (us @ old # vs) = (if vs = [] then VMap rule # us else us @ VMap rule # vs)"
    by (simp add: place_rule_def Let_def)
  then show ?thesis by (simp only: out)
qed

text \<open>
  With the default ruleset in the account, as every registration stores it, the user is notified of each event of another
  user but notices, reactions and poll responses, highlighted when the message holds the user's localpart;
  the rules about polls and rooms of two change nothing.
\<close>

theorem default_ruleset_notifies:
  "Evaluate (LoadRules (savePushRules num lp DefaultRuleset ps) lp) userID lp ev =
     (if es_sender ev = userID \<or> contentField (es_content ev) ''msgtype'' = ''m.notice''
         \<or> es_type ev \<in> {''m.reaction'', ''org.matrix.msc3381.poll.response''} then no_result
      else if ToLower lp \<noteq> [] \<and> is_infix (ToLower lp) (ToLower (contentField (es_content ev) ''body'')) then
        \<lparr>Notifies = True, Highlights = True, MarkUnread = False, Tweaks = [(''highlight'', VBool True)]\<rparr>
      else \<lparr>Notifies = True, Highlights = False, MarkUnread = False,
             Tweaks = (if es_type ev = ''m.call.invite'' then [(''ring'', VBool True)] else [])\<rparr>)"
proof -
  have "GetPushRules (savePushRules num lp DefaultRuleset ps) lp = Some (marshal num (VMap DefaultRuleset))"
    by (simp add: GetPushRules_def savePushRules_def UpdatePushRules_def gm_get_put_same)
  then show ?thesis by (simp add: LoadRules_def evaluated_default Let_def)
qed

text \<open>
  Without a stored ruleset no event notifies: the slices of \<open>DefaultRuleset\<close> are not of the type the evaluation asserts.
\<close>

theorem unset_ruleset_never_notifies:
  "Evaluate (Decode None) userID localpart ev = no_result"
  by (simp add: Evaluate_def Decode_def DefaultRuleset_def field_def as_map_def kindLists_def as_slice_def
      default_content_def default_override_def default_underride_def)

text \<open>
  The pattern of an event condition decides the language of its glob: a star stands for any characters,
  a question mark for one.
\<close>

theorem pattern_language: "globMatch p s = glob p s"
  by (rule globMatch_glob)


subsection \<open>A user's first rules\<close>

definition ex_rule :: "string \<Rightarrow> raw" where
  "ex_rule a = Some (JObj [(''actions'', JArr [JStr a])])"

definition ex_ruleset :: PushStore where
  "ex_ruleset = snd (PutPushRule JNum ''a'' ''global'' ''room'' ''!s:x'' (ex_rule ''notify'') [] []
     (snd (PutPushRule JNum ''a'' ''global'' ''room'' ''!r:x'' (ex_rule ''notify'') [] [] no_rules)))"

lemma ex_numbers: "numbers JNum"
  by (simp add: numbers_def)

lemma ex_push_run: "push_run JNum ex_ruleset"
  unfolding ex_ruleset_def by (intro push_put push_start)

definition ex_room_rule :: "string \<Rightarrow> string \<Rightarrow> rule" where
  "ex_room_rule i a = [(''actions'', VSlice [VStr a]), (''default'', VBool False), (''enabled'', VBool True), (''rule_id'', VStr i)]"

lemma ex_new_rule: "new_rule i (ex_rule a) = Some (ex_room_rule i a)"
  by (simp add: new_rule_def ex_rule_def ex_room_rule_def as_map_def gm_of_def gm_put.simps)

lemma ex_list: "as_slice (field (globalRuleset ex_ruleset ''a'') ''room'')
    = [VMap (ex_room_rule ''!s:x'' ''notify''), VMap (ex_room_rule ''!r:x'' ''notify'')]"
  by code_simp

lemma ex_update: "fst (PutPushRule JNum ''a'' ''global'' ''room'' ''!r:x'' (ex_rule ''dont_notify'') [] [] ex_ruleset) = PushOk"
  by code_simp


theorem put_rule_read_back_witness:
  "GetPushRule (snd (PutPushRule JNum ''a'' ''global'' ''room'' ''!r:x'' (ex_rule ''dont_notify'') [] [] ex_ruleset))
     ''a'' ''global'' ''room'' ''!r:x'' = PushRule (ex_room_rule ''!r:x'' ''dont_notify'')"
proof -
  have p: "PutPushRule JNum ''a'' ''global'' ''room'' ''!r:x'' (ex_rule ''dont_notify'') [] [] ex_ruleset
      = (PushOk, snd (PutPushRule JNum ''a'' ''global'' ''room'' ''!r:x'' (ex_rule ''dont_notify'') [] [] ex_ruleset))"
    using ex_update by (metis prod.collapse)
  show ?thesis
    using put_rule_read_back [OF ex_push_run ex_numbers p ex_new_rule] by (simp add: ex_room_rule_def)
qed

theorem updated_rule_position_witness:
  "as_slice (field (globalRuleset (snd (PutPushRule JNum ''a'' ''global'' ''room'' ''!r:x'' (ex_rule ''dont_notify'') [] [] ex_ruleset)) ''a'') ''room'')
     = [VMap (ex_room_rule ''!r:x'' ''dont_notify''), VMap (ex_room_rule ''!s:x'' ''notify'')]"
proof -
  have p: "PutPushRule JNum ''a'' ''global'' ''room'' ''!r:x'' (ex_rule ''dont_notify'') [] [] ex_ruleset
      = (PushOk, snd (PutPushRule JNum ''a'' ''global'' ''room'' ''!r:x'' (ex_rule ''dont_notify'') [] [] ex_ruleset))"
    using ex_update by (metis prod.collapse)
  have l: "as_slice (field (globalRuleset ex_ruleset ''a'') ''room'')
      = [VMap (ex_room_rule ''!s:x'' ''notify'')] @ VMap (ex_room_rule ''!r:x'' ''notify'') # []" by (simp add: ex_list)
  show ?thesis
    using updated_rule_position [OF ex_push_run ex_numbers p ex_new_rule l]
    by (simp add: has_rule_id_def as_map_def field_def ex_room_rule_def stored_map gm_of_def gm_put.simps)
qed

end
