(* ===== verification/Client_Checks.thy ===== *)
theory Client_Checks
  imports Fed_Inbound Push_Rules
begin

section \<open>What a client's event is checked for (\<open>csapi/helpers.go\<close>, \<open>csapi/rooms.go\<close>)\<close>

text \<open>
  The content of a request, the limits on power levels and aliases that hold for events of this server's clients
  beside the authorization rules, and the state they are judged against. An error is the status and the error code
  of the answer; the message is left out.
\<close>

datatype client_error = Err int string

abbreviation forbidden :: client_error where
  "forbidden \<equiv> Err 403 ''M_FORBIDDEN''"

abbreviation bad_json :: client_error where
  "bad_json \<equiv> Err 400 ''M_BAD_JSON''"

abbreviation invalid_param :: client_error where
  "invalid_param \<equiv> Err 400 ''M_INVALID_PARAM''"

abbreviation internal_error :: client_error where
  "internal_error \<equiv> Err 500 ''M_UNKNOWN''"

subsection \<open>The body of a request\<close>

text \<open>A body that is longer than an event may be, that is no single JSON document, or the document.\<close>

datatype req_body = NoBody | LongBody | BadBody | Body json

definition maxSafeInt :: int where
  "maxSafeInt = 2 ^ 53 - 1"

text \<open>Every literal that is no \<open>int64\<close> fails: it is fractional, out of range, or no finite number.\<close>

fun scanNumbers :: "json \<Rightarrow> bool" where
  "scanNumbers (JNum s) = (case parse_int64 s of None \<Rightarrow> False | Some i \<Rightarrow> i \<le> maxSafeInt \<and> - maxSafeInt \<le> i)"
| "scanNumbers (JArr xs) = list_all scanNumbers xs"
| "scanNumbers (JObj kvs) = list_all (\<lambda>e. scanNumbers (snd e)) kvs"
| "scanNumbers JNull = True"
| "scanNumbers (JBool b) = True"
| "scanNumbers (JStr s) = True"

definition validateEventJSON :: "json \<Rightarrow> bool" where
  "validateEventJSON j = (case go_any j of JObj kvs \<Rightarrow> scanNumbers (JObj kvs) | _ \<Rightarrow> False)"

definition readEventContent :: "req_body \<Rightarrow> client_error + json" where
  "readEventContent b =
     (case b of
        NoBody \<Rightarrow> Inr (JObj [])
      | LongBody \<Rightarrow> Inl (Err 413 ''M_TOO_LARGE'')
      | BadBody \<Rightarrow> Inl bad_json
      | Body j \<Rightarrow> if validateEventJSON j then Inr j else Inl bad_json)"

subsection \<open>Power levels\<close>

text \<open>\<open>isValidNumber\<close> of \<open>encoding/json\<close>: what a \<open>json.Number\<close> takes from a string.\<close>

definition number_exponent :: "string \<Rightarrow> bool" where
  "number_exponent s =
     (case s of
        [] \<Rightarrow> True
      | e # t \<Rightarrow>
          let ds = (case t of [] \<Rightarrow> [] | c # u \<Rightarrow> if c = CHR ''+'' \<or> c = CHR ''-'' then u else t)
          in (e = CHR ''e'' \<or> e = CHR ''E'') \<and> ds \<noteq> [] \<and> list_all is_digit ds)"

definition number_fraction :: "string \<Rightarrow> bool" where
  "number_fraction s =
     (case s of
        c # d # t \<Rightarrow> if c = CHR ''.'' \<and> is_digit d then number_exponent (dropWhile is_digit t) else number_exponent s
      | _ \<Rightarrow> number_exponent s)"

definition isValidNumber :: "string \<Rightarrow> bool" where
  "isValidNumber s =
     (case (case s of [] \<Rightarrow> [] | c # t \<Rightarrow> if c = CHR ''-'' then t else s) of
        [] \<Rightarrow> False
      | c # t \<Rightarrow> if c = CHR ''0'' then number_fraction t
                 else is_digit c \<and> number_fraction (dropWhile is_digit t))"

text \<open>A decoding into \<open>json.Number\<close>, \<open>None\<close> when it fails; \<open>null\<close> leaves the empty number.\<close>

definition number_of :: "json \<Rightarrow> string option" where
  "number_of j =
     (case j of
        JNull \<Rightarrow> Some []
      | JNum s \<Rightarrow> Some s
      | JStr s \<Rightarrow> if isValidNumber s then Some s else None
      | _ \<Rightarrow> None)"

definition is_string :: "json \<Rightarrow> bool" where
  "is_string j = (case j of JStr _ \<Rightarrow> True | JNull \<Rightarrow> True | _ \<Rightarrow> False)"

definition level_ok :: "bool \<Rightarrow> raw \<Rightarrow> bool" where
  "level_ok strict r =
     (case r of
        None \<Rightarrow> True
      | Some j \<Rightarrow>
          (case number_of j of
             None \<Rightarrow> True
           | Some n \<Rightarrow>
               (case parse_float64 n of
                  None \<Rightarrow> False
                | Some f \<Rightarrow> \<not> (f < 0 \<or> of_int maxSafeInt < f) \<and> \<not> (strict \<and> is_string j))))"

record LevelFields =
  lf_users :: "raw gomap"
  lf_events :: "raw gomap"
  lf_notifications :: "raw gomap"
  lf_users_default :: raw
  lf_events_default :: raw
  lf_state_default :: raw
  lf_ban :: raw
  lf_kick :: raw
  lf_redact :: raw
  lf_invite :: raw

definition level_fields :: "LevelFields fields" where
  "level_fields =
     [(''users'', fld (dec_map None dec_raw) lf_users lf_users_update),
      (''events'', fld (dec_map None dec_raw) lf_events lf_events_update),
      (''notifications'', fld (dec_map None dec_raw) lf_notifications lf_notifications_update),
      (''users_default'', fld dec_raw lf_users_default lf_users_default_update),
      (''events_default'', fld dec_raw lf_events_default lf_events_default_update),
      (''state_default'', fld dec_raw lf_state_default lf_state_default_update),
      (''ban'', fld dec_raw lf_ban lf_ban_update),
      (''kick'', fld dec_raw lf_kick lf_kick_update),
      (''redact'', fld dec_raw lf_redact lf_redact_update),
      (''invite'', fld dec_raw lf_invite lf_invite_update)]"

text \<open>The checks are made in no fixed order, and all fail with one code.\<close>

definition validatePowerLevelIntegers :: "Rules \<Rightarrow> json \<Rightarrow> bool" where
  "validatePowerLevelIntegers rules content =
     (let (ok, f) = dec_struct level_fields content
            \<lparr>lf_users = [], lf_events = [], lf_notifications = [], lf_users_default = None, lf_events_default = None,
             lf_state_default = None, lf_ban = None, lf_kick = None, lf_redact = None, lf_invite = None\<rparr>
      in ok \<longrightarrow> list_all (level_ok (StrictPowerLevels rules))
           (map snd (lf_users f) @ map snd (lf_events f) @ map snd (lf_notifications f)
            @ [lf_users_default f, lf_events_default f, lf_state_default f, lf_ban f, lf_kick f, lf_redact f, lf_invite f]))"

definition privileged_creators :: "Store \<Rightarrow> string \<Rightarrow> string list" where
  "privileged_creators s roomID =
     (case GetRoom s roomID of
        None \<Rightarrow> []
      | Some room \<Rightarrow>
          if rr_creator room = [] then []
          else rr_creator room #
            (case state_content s roomID ''m.room.create'' [] of
               None \<Rightarrow> []
             | Some ev \<Rightarrow> (case ParseCreate (er_content ev) of Inl _ \<Rightarrow> [] | Inr c \<Rightarrow> cc_additional_creators c)))"

definition rejectCreatorInPowerLevels :: "Store \<Rightarrow> string \<Rightarrow> json \<Rightarrow> bool" where
  "rejectCreatorInPowerLevels s roomID content =
     (let (ok, users) = dec_struct [(''users'', dec_map None dec_raw)] content [];
          privileged = privileged_creators s roomID
      in ok \<and> privileged \<noteq> [] \<and>
         list_ex (\<lambda>(userID, r). userID \<in> set privileged \<or>
           (case r of
              None \<Rightarrow> False
            | Some j \<Rightarrow>
                (case number_of j of
                   None \<Rightarrow> False
                 | Some n \<Rightarrow> (case parse_float64 n of None \<Rightarrow> False | Some f \<Rightarrow> of_int maxSafeInt < f)))) users)"

subsection \<open>Aliases and tombstones\<close>

definition validateAliasForRoom :: "Store \<Rightarrow> string \<Rightarrow> string \<Rightarrow> client_error + unit" where
  "validateAliasForRoom s alias roomID =
     (if isl (ParseRoomAlias alias) then Inl invalid_param
      else case LookupAlias s alias of
        None \<Rightarrow> Inl (Err 400 ''M_BAD_ALIAS'')
      | Some resolved \<Rightarrow> if resolved \<noteq> roomID then Inl (Err 400 ''M_BAD_ALIAS'') else Inr ())"

fun check_aliases :: "Store \<Rightarrow> string \<Rightarrow> string list \<Rightarrow> client_error + unit" where
  "check_aliases s roomID [] = Inr ()"
| "check_aliases s roomID (a # as) =
     (case validateAliasForRoom s a roomID of Inl e \<Rightarrow> Inl e | Inr _ \<Rightarrow> check_aliases s roomID as)"

definition validateCanonicalAlias :: "Store \<Rightarrow> string \<Rightarrow> string \<Rightarrow> json \<Rightarrow> client_error + unit" where
  "validateCanonicalAlias s eventType roomID content =
     (if eventType \<noteq> ''m.room.canonical_alias'' then Inr ()
      else case ParseCanonicalAlias (Some content) of
        Inl _ \<Rightarrow> Inl bad_json
      | Inr c \<Rightarrow> check_aliases s roomID ((if ca_alias c \<noteq> [] then [ca_alias c] else []) @ ca_alt_aliases c))"

definition check_power_levels :: "Store \<Rightarrow> Rules \<Rightarrow> string \<Rightarrow> string \<Rightarrow> json \<Rightarrow> client_error + unit" where
  "check_power_levels s rules roomID eventType content =
     (if eventType \<noteq> ''m.room.power_levels'' then Inr ()
      else if CreatorPrivileged rules \<and> rejectCreatorInPowerLevels s roomID content then Inl invalid_param
      else if \<not> validatePowerLevelIntegers rules content then Inl bad_json
      else Inr ())"

definition check_tombstone :: "string \<Rightarrow> string \<Rightarrow> string \<Rightarrow> json \<Rightarrow> client_error + unit" where
  "check_tombstone roomID eventType stateKey content =
     (if eventType = ''m.room.tombstone'' \<and> stateKey = [] then
        (let (ok, new) = dec_struct (str_field ''replacement_room'') content []
         in if \<not> ok \<or> new = [] then Inl bad_json
            else if new = roomID then Inl invalid_param
            else Inr ())
      else Inr ())"

definition guestAccessAllowsJoin :: "raw \<Rightarrow> bool" where
  "guestAccessAllowsJoin content =
     (case content of
        None \<Rightarrow> False
      | Some j \<Rightarrow> (let (ok, access) = dec_struct (str_field ''guest_access'') j [] in ok \<and> access = ''can_join''))"

definition isStateEventType :: "string \<Rightarrow> bool" where
  "isStateEventType eventType \<longleftrightarrow> eventType \<in> set
     [''m.room.create'', ''m.room.power_levels'', ''m.room.join_rules'', ''m.room.history_visibility'', ''m.room.name'',
      ''m.room.topic'', ''m.room.member'', ''m.room.third_party_invite'', ''m.room.canonical_alias'', ''m.room.aliases'',
      ''m.room.encryption'', ''m.room.tombstone'', ''m.room.server_acl'', ''m.room.pinned_events'', ''m.room.avatar'']"

subsection \<open>The state an event is judged against\<close>

definition buildStateSnapshot :: "Server \<Rightarrow> string \<Rightarrow> string \<Rightarrow> string \<Rightarrow> json \<Rightarrow> StateSnapshot" where
  "buildStateSnapshot sv roomID target sender content =
     (memberStateSnapshotCtx (sv_store sv) roomID sender target (Some content))
       \<lparr>ss_sender_is_guest := LocalpartOf sender \<in> set (sv_guests sv)\<rparr>"

definition checkMembership :: "Store \<Rightarrow> string \<Rightarrow> string \<Rightarrow> string \<Rightarrow> client_error + unit" where
  "checkMembership s roomID userID want =
     (case GetMembership s roomID userID of
        None \<Rightarrow> Inl forbidden
      | Some m \<Rightarrow> if mr_membership m \<noteq> want then Inl forbidden else Inr ())"

definition third_party_token :: "raw \<Rightarrow> string" where
  "third_party_token content =
     (case ParseMember content of
        Inl _ \<Rightarrow> []
      | Inr mc \<Rightarrow> (case mc_third_party mc of None \<Rightarrow> [] | Some tp \<Rightarrow> signed_token tp))"

definition authEventIDs :: "Store \<Rightarrow> string \<Rightarrow> string \<Rightarrow> string \<Rightarrow> string list" where
  "authEventIDs s roomID sender stateKey =
     (let get = (\<lambda>typ sk. case TxGetStateEvent s roomID typ sk of None \<Rightarrow> [] | Some i \<Rightarrow> [i]);
          omitCreate = (case GetRoom s roomID of
             None \<Rightarrow> False
           | Some room \<Rightarrow> (case Get (rr_version room) of None \<Rightarrow> False | Some rules \<Rightarrow> RoomIDIsCreateHash rules));
          out = (if omitCreate then [] else get ''m.room.create'' [])
            @ get ''m.room.member'' sender @ get ''m.room.power_levels'' [] @ get ''m.room.join_rules'' []
            @ (if stateKey \<noteq> sender then get ''m.room.member'' stateKey else [])
      in if stateKey = [] \<or> out = [] then out
         else case TxGetEvent s (last out) of
           None \<Rightarrow> out
         | Some ev \<Rightarrow>
             if er_type ev = ''m.room.member'' \<and> third_party_token (er_content ev) \<noteq> []
             then out @ get ''m.room.third_party_invite'' (third_party_token (er_content ev)) else out)"

subsection \<open>Pagination tokens\<close>

text \<open>Both functions count in an \<open>int64\<close>, whose least value has no positive counterpart.\<close>

definition formatIntToken :: "64 word \<Rightarrow> string" where
  "formatIntToken n =
     (let neg = sint n < 0; m = (if neg then - n else n);
          s = (if 0 < sint m then show_digits (sint m) else ''0'')
      in if neg then ''s-'' @ s else CHR ''s'' # s)"

definition parseIntToken :: "string \<Rightarrow> 64 word option" where
  "parseIntToken s =
     (let s1 = (case s of c # t \<Rightarrow> if c = CHR ''s'' then t else s | [] \<Rightarrow> s);
          s2 = (case index_byte (CHR ''t'') s1 of Some i \<Rightarrow> take i s1 | None \<Rightarrow> s1);
          neg = has_prefix s2 ''-''; s3 = (if neg then tl s2 else s2)
      in if \<not> list_all is_digit s3 then None
         else let n = fold (\<lambda>c n. n * 10 + word_of_int (digit_val c)) s3 0 in Some (if neg then - n else n))"

end
