(* ===== verification/Client_Invite.thy ===== *)
theory Client_Invite
  imports Client_Checks
begin

section \<open>Invites to users of other servers (\<open>federation/join.go\<close>)\<close>

text \<open>
  An invite to a user of another server goes to that server before it is stored, and what is stored is the event
  the server sends back, when it is one with the same ID. An answer is an HTTP status and a body, \<open>None\<close> when the body
  is no JSON document; a \<open>Cut\<close> answer broke off after a status of 200.
\<close>

datatype invite_answer = Unreachable | Cut | Answer int raw

datatype invite_error = Transport | NotCanonicalInvite | FedHTTP int string | BadInvite

definition userDomain :: "string \<Rightarrow> string" where
  "userDomain userID =
     (case index_byte (CHR '':'') userID of None \<Rightarrow> [] | Some i \<Rightarrow> if i = 0 then [] else drop (i + 1) userID)"

definition NewFedHTTPError :: "int \<Rightarrow> raw \<Rightarrow> invite_error" where
  "NewFedHTTPError status body =
     FedHTTP status
       (case body of
          None \<Rightarrow> []
        | Some j \<Rightarrow>
            (let (ok, code, v) = dec_struct
               [(''errcode'', \<lambda>j (c, v). let (ok, x) = dec_string j c in (ok, (x, v))),
                (''room_version'', \<lambda>j (c, v). let (ok, x) = dec_string j v in (ok, (c, x)))] j ([], [])
             in if ok then code else []))"

text \<open>The version 1 endpoint wraps its answer in a pair.\<close>

definition unwrap_v1 :: "raw \<Rightarrow> raw" where
  "unwrap_v1 body =
     (case body of Some (JArr [a, b]) \<Rightarrow> Some b | _ \<Rightarrow> body)"

definition signed_invite :: "Peers \<Rightarrow> Version \<Rightarrow> string \<Rightarrow> raw \<Rightarrow> json option" where
  "signed_invite p version eventID body =
     (case body of
        None \<Rightarrow> None
      | Some j \<Rightarrow>
          (let (ok, ev) = dec_struct [(''event'', dec_raw)] j None
           in if \<not> ok then None
              else case ev of
                None \<Rightarrow> None
              | Some ej \<Rightarrow>
                  (case New ej version of
                     Inl _ \<Rightarrow> None
                   | Inr sev \<Rightarrow> if EventID (sha256 p) sev = eventID then Some ej else None)))"

definition sendRemoteInviteOnce ::
  "Peers \<Rightarrow> bool \<Rightarrow> Version \<Rightarrow> string \<Rightarrow> invite_answer \<Rightarrow> invite_error + json option" where
  "sendRemoteInviteOnce p v1 version eventID answer =
     (case answer of
        Unreachable \<Rightarrow> Inl Transport
      | Cut \<Rightarrow> Inr None
      | Answer status body \<Rightarrow>
          if status \<noteq> 200 then Inl (NewFedHTTPError status body)
          else
            let body1 = (if v1 then unwrap_v1 body else body)
            in if AtLeast version 6 \<and> (case body1 of None \<Rightarrow> True | Some j \<Rightarrow> isl (Canonical j))
               then Inl NotCanonicalInvite
               else Inr (signed_invite p version eventID body1))"

definition isUnknownInviteEndpoint :: "invite_error \<Rightarrow> bool" where
  "isUnknownInviteEndpoint e =
     (case e of
        FedHTTP status code \<Rightarrow>
          if status = 404 then code = [] \<or> code = ''M_UNRECOGNIZED''
          else status = 405 \<and> code = ''M_UNRECOGNIZED''
      | _ \<Rightarrow> False)"

definition isInviteTransportError :: "invite_error \<Rightarrow> bool" where
  "isInviteTransportError e = (case e of FedHTTP _ _ \<Rightarrow> False | NotCanonicalInvite \<Rightarrow> False | _ \<Rightarrow> True)"

definition roomverRulesV1V2 :: "Version \<Rightarrow> bool" where
  "roomverRulesV1V2 version = (case Get version of None \<Rightarrow> False | Some rules \<Rightarrow> EventFormatV1 rules)"

text \<open>
  The result, and whether the invite was queued for a later delivery. \<open>v2\<close> and \<open>v1\<close> are the answers of the invited
  user's server at its two endpoints.
\<close>

definition SendRemoteInvite ::
  "Peers \<Rightarrow> invite_answer \<Rightarrow> invite_answer \<Rightarrow> string \<Rightarrow> Event \<Rightarrow> Version \<Rightarrow> (invite_error + Event) \<times> bool" where
  "SendRemoteInvite p v2 v1 invitee ev version =
     (let dom = userDomain invitee; i = EventID (sha256 p) ev
      in if dom = [] \<or> dom = own_server p then (Inr ev, False)
         else
           case (case sendRemoteInviteOnce p False version i v2 of
                   Inl e \<Rightarrow> if isUnknownInviteEndpoint e \<and> roomverRulesV1V2 version
                            then sendRemoteInviteOnce p True version i v1 else Inl e
                 | Inr sev \<Rightarrow> Inr sev) of
             Inr None \<Rightarrow> (Inr ev, False)
           | Inr (Some sev) \<Rightarrow> ((case New sev version of Inl _ \<Rightarrow> Inl BadInvite | Inr e \<Rightarrow> Inr e), False)
           | Inl e \<Rightarrow> if isInviteTransportError e then (Inr ev, True) else (Inl e, False))"

text \<open>What the client is told of a failed invite.\<close>

definition remoteInviteError :: "invite_error \<Rightarrow> client_error" where
  "remoteInviteError e =
     (case e of
        NotCanonicalInvite \<Rightarrow> bad_json
      | FedHTTP status code \<Rightarrow>
          if status = 403 then Err 403 (if code = [] then ''M_FORBIDDEN'' else code) else Err 502 ''M_UNKNOWN''
      | _ \<Rightarrow> Err 502 ''M_UNKNOWN'')"

end
