(* ===== verification/Client_Send.thy ===== *)
theory Client_Send
  imports Client_Invite
begin

section \<open>Events of this server's clients (\<open>csapi/rooms.go\<close>)\<close>

text \<open>
  How a client's request becomes an event: it is built on the tip of the room's graph, stored, and the room's state is
  maintained. A request holds the room's lock from its first read to its last write, so it is one function of
  the server's state. \<open>Locals\<close> are the answers of components outside: invite permissions, application services, the
  rate limiter, the invited user's server (its answer at each of its endpoints), and the stripped state of a room (\<open>prejoinSnapshot\<close>), of which only whether
  there is one is kept. Random transaction suffixes, which only name events of room versions 1 and 2, are
  \<open>random_localpart\<close> of the state key.
\<close>

record AuthInfo =
  au_user :: string
  au_localpart :: string

record Locals =
  invite_blocked :: "string \<Rightarrow> string \<Rightarrow> bool"
  appservice_user :: "string \<Rightarrow> bool"
  limited :: bool
  has_stripped_state :: "string \<Rightarrow> Event \<Rightarrow> bool"
  invite_v2 :: "string \<Rightarrow> Event \<Rightarrow> invite_answer"
  invite_v1 :: "string \<Rightarrow> Event \<Rightarrow> invite_answer"
  any_number :: "string \<Rightarrow> json"

subsection \<open>Building an event\<close>

text \<open>The time of an event: the request's \<open>ts\<close> when it is a positive number.\<close>

definition event_time :: "Peers \<Rightarrow> string \<Rightarrow> int" where
  "event_time p ts =
     (if ts = [] then clock p
      else case parse_int64 ts of None \<Rightarrow> clock p | Some n \<Rightarrow> if 0 < n then n else clock p)"

definition awaitFullState :: "Store \<Rightarrow> string \<Rightarrow> bool" where
  "awaitFullState s roomID = (case GetRoom s roomID of None \<Rightarrow> True | Some room \<Rightarrow> \<not> rr_partial_state room)"

definition event_builder ::
  "Peers \<Rightarrow> string \<Rightarrow> string \<Rightarrow> string \<Rightarrow> string \<Rightarrow> string \<Rightarrow> string option \<Rightarrow> json \<Rightarrow> string \<Rightarrow> Store \<Rightarrow> Builder" where
  "event_builder p ts sender roomID version eventType stateKey content redacts s =
     (let (prev, depth) = dagTipFor s roomID; sk = (case stateKey of None \<Rightarrow> [] | Some k \<Rightarrow> k)
      in \<lparr>b_type = eventType, b_state_key = stateKey, b_sender = sender, b_room_id = roomID, b_content = Some content,
          b_redacts = redacts, b_unsigned = None, b_prev_events = prev,
          b_auth_events = authEventIDs s roomID sender sk,
          b_prev_state_events =
            (case Get version of
               None \<Rightarrow> []
             | Some rules \<Rightarrow> if StateDAGs rules then PrevStateEventsForNew s roomID eventType sender sk else []),
          b_depth = depth, b_origin_server_ts = event_time p ts, b_origin = []\<rparr>)"

definition buildEvent ::
  "Peers \<Rightarrow> string \<Rightarrow> string \<Rightarrow> string \<Rightarrow> string \<Rightarrow> string \<Rightarrow> string option \<Rightarrow> json \<Rightarrow> string \<Rightarrow> Store \<Rightarrow> client_error + Event" where
  "buildEvent p ts sender roomID version eventType stateKey content redacts s =
     (if (case Get version of None \<Rightarrow> False | Some rules \<Rightarrow> StateDAGs rules) \<and> \<not> awaitFullState s roomID
      then Inl (Err 503 ''M_UNKNOWN'')
      else case BuildForVersion (sha256 p) (ed_sign p) (random_localpart p (case stateKey of None \<Rightarrow> [] | Some k \<Rightarrow> k))
                  (event_builder p ts sender roomID version eventType stateKey content redacts s)
                  (own_server p) (own_key p) version of
             Inl _ \<Rightarrow> Inl internal_error
           | Inr ev \<Rightarrow> Inr ev)"

subsection \<open>Storing an event\<close>

text \<open>A redaction is applied to its target; any other event to which a stored redaction refers is redacted by it.\<close>

definition redact_stored :: "EventRow \<Rightarrow> Store \<Rightarrow> Store" where
  "redact_stored row s =
     (if er_redacts row \<noteq> [] \<and> er_type row = ''m.room.redaction'' then snd (ApplyRedaction s row)
      else if er_redacts row = [] \<and> er_type row \<noteq> ''m.room.redaction'' then
        (case RedactionForEvent s (er_event_id row) of None \<Rightarrow> s | Some red \<Rightarrow> snd (ApplyRedaction s red))
      else s)"

definition event_row :: "Peers \<Rightarrow> string \<Rightarrow> Event \<Rightarrow> EventRow" where
  "event_row p roomID ev = stateDAGRow p (if roomID = [] then stringField ev ''room_id'' else roomID) ev False"

text \<open>The row stays stored when the maintenance of the state fails.\<close>

definition persistEventInRoom ::
  "Peers \<Rightarrow> Event \<Rightarrow> string \<Rightarrow> string \<Rightarrow> MembershipRow option \<Rightarrow> Store \<Rightarrow> (client_error + int) \<times> Store" where
  "persistEventInRoom p ev version roomID m s =
     (let row = event_row p roomID ev;
          (s1, stream) = (case m of None \<Rightarrow> InsertEvent s row | Some r \<Rightarrow> InsertEventWithMembership s row (Some r) True);
          row1 = row\<lparr>er_stream := stream\<rparr>;
          s2 = IndexRelationFromRow (redact_stored row1 s1) row1
      in case Get version of
           None \<Rightarrow> (Inr stream, s2)
         | Some rules \<Rightarrow>
             (case Maintain row1 rules s2 of
                (None, s3) \<Rightarrow> (Inr stream, s3)
              | (Some _, s3) \<Rightarrow> (Inl internal_error, s3)))"

abbreviation persistEvent :: "Peers \<Rightarrow> Event \<Rightarrow> string \<Rightarrow> Store \<Rightarrow> (client_error + int) \<times> Store" where
  "persistEvent p ev version s \<equiv> persistEventInRoom p ev version (stringField ev ''room_id'') None s"

text \<open>What follows a stored event: the members' clients, the other servers, push.\<close>

definition announce :: "Peers \<Rightarrow> string \<Rightarrow> Event \<Rightarrow> int \<Rightarrow> Server \<Rightarrow> Server" where
  "announce p roomID ev stream sv =
     log_call (DeliverPush roomID (EventID (sha256 p) ev) stream)
       (log_call (BroadcastPDUToRoom roomID (EventID (sha256 p) ev))
         (log_call (NotifyRoomMembers roomID) sv))"

text \<open>Building, storing, announcing: the common end of messages, state events and redactions.\<close>

definition build_and_persist ::
  "Peers \<Rightarrow> string \<Rightarrow> string \<Rightarrow> string \<Rightarrow> string \<Rightarrow> string \<Rightarrow> string option \<Rightarrow> json \<Rightarrow> string \<Rightarrow> Server
     \<Rightarrow> (client_error + Event) \<times> Server" where
  "build_and_persist p ts sender roomID version eventType stateKey content redacts sv =
     (case buildEvent p ts sender roomID version eventType stateKey content redacts (sv_store sv) of
        Inl e \<Rightarrow> (Inl e, sv)
      | Inr ev \<Rightarrow>
          (case persistEvent p ev version (sv_store sv) of
             (Inl e, s) \<Rightarrow> (Inl e, sv\<lparr>sv_store := s\<rparr>)
           | (Inr _, s) \<Rightarrow> (Inr ev, announce p roomID ev 0 (sv\<lparr>sv_store := s\<rparr>))))"

definition buildAndPersistMessage ::
  "Peers \<Rightarrow> string \<Rightarrow> string \<Rightarrow> string \<Rightarrow> string \<Rightarrow> json \<Rightarrow> Server \<Rightarrow> (client_error + Event) \<times> Server" where
  "buildAndPersistMessage p ts sender roomID eventType content sv =
     (case GetRoom (sv_store sv) roomID of
        None \<Rightarrow> (Inl (Err 404 ''M_NOT_FOUND''), sv)
      | Some room \<Rightarrow> build_and_persist p ts sender roomID (rr_version room) eventType None content [] sv)"

text \<open>The event that already sets this state, when its content is the same.\<close>

definition same_state :: "Store \<Rightarrow> string \<Rightarrow> string \<Rightarrow> string \<Rightarrow> string \<Rightarrow> json \<Rightarrow> Event option" where
  "same_state s roomID version eventType stateKey content =
     (case TxGetStateEvent s roomID eventType stateKey of
        None \<Rightarrow> None
      | Some existingID \<Rightarrow>
          if existingID = [] then None
          else case TxGetEvent s existingID of
            None \<Rightarrow> None
          | Some existing \<Rightarrow>
              (case er_content existing of
                 None \<Rightarrow> None
               | Some old \<Rightarrow>
                   if \<not> Equal content old then None
                   else case New (er_json existing) version of Inl _ \<Rightarrow> None | Inr ev \<Rightarrow> Some ev))"

definition state_checks ::
  "Peers \<Rightarrow> string \<Rightarrow> string \<Rightarrow> string \<Rightarrow> string \<Rightarrow> string \<Rightarrow> json \<Rightarrow> Server \<Rightarrow> client_error + unit" where
  "state_checks p sender roomID version eventType stateKey content sv =
     (case Get version of
        None \<Rightarrow> Inl (Err 400 ''M_UNSUPPORTED_ROOM_VERSION'')
      | Some rules \<Rightarrow>
          (case validateCanonicalAlias (sv_store sv) eventType roomID content of
             Inl e \<Rightarrow> Inl e
           | Inr _ \<Rightarrow>
          (case check_power_levels (sv_store sv) rules roomID eventType content of
             Inl e \<Rightarrow> Inl e
           | Inr _ \<Rightarrow>
          (if eventType = ''m.room.create'' then Inl (Err 400 ''M_FORBIDDEN'')
           else case check_tombstone roomID eventType stateKey content of
             Inl e \<Rightarrow> Inl e
           | Inr _ \<Rightarrow>
               (case Authorize (ed_verify p) rules eventType stateKey sender (Some content)
                       (buildStateSnapshot sv roomID stateKey sender content) True of
                  Inl err \<Rightarrow> Inl (if err = ErrBadStateKey then bad_json else forbidden)
                | Inr _ \<Rightarrow> Inr ())))))"

definition buildAndPersistState ::
  "Peers \<Rightarrow> string \<Rightarrow> string \<Rightarrow> string \<Rightarrow> string \<Rightarrow> string \<Rightarrow> json \<Rightarrow> Server \<Rightarrow> (client_error + Event) \<times> Server" where
  "buildAndPersistState p ts sender roomID eventType stateKey content sv =
     (case GetRoom (sv_store sv) roomID of
        None \<Rightarrow> (Inl (Err 404 ''M_NOT_FOUND''), sv)
      | Some room \<Rightarrow>
          (case state_checks p sender roomID (rr_version room) eventType stateKey content sv of
             Inl e \<Rightarrow> (Inl e, sv)
           | Inr _ \<Rightarrow>
               (case same_state (sv_store sv) roomID (rr_version room) eventType stateKey content of
                  Some ev \<Rightarrow> (Inr ev, sv)
                | None \<Rightarrow> build_and_persist p ts sender roomID (rr_version room) eventType (Some stateKey) content [] sv)))"

end
