(* ===== verification/Client_Requests.thy ===== *)
theory Client_Requests
  imports Client_Send
begin

section \<open>Membership changes and the handlers (\<open>csapi/rooms.go\<close>)\<close>

subsection \<open>Member events\<close>

definition memberContent :: "MemberContent \<Rightarrow> json gomap" where
  "memberContent mc =
     put_when (mc_authorised_via mc \<noteq> []) ''join_authorised_via_users_server'' (JStr (mc_authorised_via mc))
    (put_when (mc_third_party mc \<noteq> None) ''third_party_invite'' (nonNil (mc_third_party mc))
    (put_when (mc_is_direct mc \<noteq> None) ''is_direct'' (JBool (mc_is_direct mc = Some True))
    (put_when (mc_reason mc \<noteq> []) ''reason'' (JStr (mc_reason mc))
    (put_when (mc_avatar_url mc \<noteq> []) ''avatar_url'' (JStr (mc_avatar_url mc))
    (put_when (mc_displayname mc \<noteq> []) ''displayname'' (JStr (mc_displayname mc))
    (gm_put ''membership'' (JStr (mc_membership mc)) []))))))"

definition has_membership :: "json gomap \<Rightarrow> string \<Rightarrow> bool" where
  "has_membership content membership =
     (case ParseMember (Some (JObj content)) of Inl _ \<Rightarrow> False | Inr mc \<Rightarrow> mc_membership mc = membership)"

text \<open>
  A join under a restricted rule names the user who lets the joining one in, chosen by the server when the
  client named none, and counts as authorised by the server's own check.
\<close>

definition restricted_join ::
  "Peers \<Rightarrow> Store \<Rightarrow> string \<Rightarrow> string \<Rightarrow> StateSnapshot \<Rightarrow> json gomap \<Rightarrow> json gomap \<times> StateSnapshot" where
  "restricted_join p s roomID sender st content =
     (if JoinRule (ss_join_rules st) \<notin> {JoinRuleRestricted, JoinRuleKnockRestricted} then (content, st)
      else case ParseMember (Some (JObj content)) of
        Inl _ \<Rightarrow> (content, st)
      | Inr mc \<Rightarrow>
          if mc_membership mc \<noteq> MembershipJoin then (content, st)
          else
            let given = mc_authorised_via mc;
                user = (if given = [] then RestrictedJoinAuthoriser s roomID (own_server p) else given);
                content1 = (if given = [] \<and> user \<noteq> []
                            then gm_put ''join_authorised_via_users_server'' (JStr user) content else content)
            in (content1, st\<lparr>ss_restricted_authorised :=
                  RestrictedJoinAuthorised s roomID sender user (own_server p) = JoinAuthorised\<rparr>))"

text \<open>The checks a member event passes before it is built, with the content they leave.\<close>

definition member_checks ::
  "Peers \<Rightarrow> string \<Rightarrow> string \<Rightarrow> string \<Rightarrow> string \<Rightarrow> json gomap \<Rightarrow> Server \<Rightarrow> client_error + json gomap" where
  "member_checks p sender roomID version target content sv =
     (case Get version of
        None \<Rightarrow> Inl (Err 400 ''M_UNSUPPORTED_ROOM_VERSION'')
      | Some rules \<Rightarrow>
          let st = buildStateSnapshot sv roomID target sender (JObj content);
              (content1, st1) = restricted_join p (sv_store sv) roomID sender st content
          in if isl (Authorize (ed_verify p) rules ''m.room.member'' target sender (Some (JObj content1)) st1 True)
             then Inl forbidden
             else if has_membership content1 MembershipJoin \<and> LocalpartOf sender \<in> set (sv_guests sv)
                     \<and> \<not> guestAccessAllowsJoin (ss_guest_access st1)
             then Inl forbidden
             else Inr content1)"

text \<open>A repeat: the user's latest member event has this content, or the user knocks while knocking.\<close>

definition pending_knock :: "Store \<Rightarrow> string \<Rightarrow> string \<Rightarrow> json gomap \<Rightarrow> string option" where
  "pending_knock s roomID target content =
     (if \<not> has_membership content MembershipKnock then None
      else case GetMembership s roomID target of
        None \<Rightarrow> None
      | Some m \<Rightarrow> if mr_membership m = MembershipKnock then Some (mr_event_id m) else None)"

definition member_repeat :: "Store \<Rightarrow> string \<Rightarrow> string \<Rightarrow> json gomap \<Rightarrow> string option" where
  "member_repeat s roomID target content =
     (case LatestMembershipEvent s roomID target of
        None \<Rightarrow> pending_knock s roomID target content
      | Some ev \<Rightarrow>
          if (case er_content ev of None \<Rightarrow> False | Some old \<Rightarrow> Equal (JObj content) old) then Some (er_event_id ev)
          else pending_knock s roomID target content)"

definition member_row :: "Peers \<Rightarrow> string \<Rightarrow> string \<Rightarrow> json gomap \<Rightarrow> Event \<Rightarrow> MembershipRow option" where
  "member_row p roomID target content ev =
     (case ParseMember (Some (JObj content)) of
        Inl _ \<Rightarrow> None
      | Inr mc \<Rightarrow> Some
          \<lparr>mr_room_id = roomID, mr_user_id = target, mr_membership = mc_membership mc,
           mr_event_id = EventID (sha256 p) ev, mr_display_name = mc_displayname mc, mr_avatar_url = mc_avatar_url mc,
           mr_forgotten = False, mr_stream = Depth ev, mr_depth = Depth ev\<rparr>)"

text \<open>What a membership changes in the device lists, by the membership before the event.\<close>

definition left_members :: "Peers \<Rightarrow> string \<Rightarrow> string \<Rightarrow> Server \<Rightarrow> Server" where
  "left_members p target userID sv =
     (if userID = target then sv
      else
        let sv1 = log_call (RecordDeviceListChange userID True) sv
        in if IsLocalUser p userID then sv1 else log_call (EvictRemoteDeviceList userID) sv1)"

definition device_list_effects :: "Peers \<Rightarrow> string \<Rightarrow> string \<Rightarrow> string \<Rightarrow> string \<Rightarrow> Server \<Rightarrow> Server" where
  "device_list_effects p roomID target prev membership sv =
     (let changed = (\<not> (membership = ''join'' \<and> prev = ''join'') \<and> membership \<in> {''join'', ''leave'', ''ban''});
          sv1 = (if \<not> changed then sv
                 else
                   let sv0 = log_call (RecordDeviceListChange target (membership \<noteq> ''join'')) sv
                   in if membership = ''join'' then log_call (BroadcastDeviceListForUser target) sv0
                      else fold (left_members p target) (map mr_user_id (Members (sv_store sv0) roomID ''join''))
                             (log_call (BroadcastDeviceListDelete target roomID) sv0))
      in if membership = MembershipInvite \<and> prev \<noteq> MembershipInvite
         then log_call (RecordDeviceListChange target False) sv1 else sv1)"

definition persist_member ::
  "Peers \<Rightarrow> Locals \<Rightarrow> string \<Rightarrow> string \<Rightarrow> string \<Rightarrow> string \<Rightarrow> string \<Rightarrow> json gomap \<Rightarrow> Server
     \<Rightarrow> (client_error + string) \<times> Server" where
  "persist_member p l ts sender roomID version target content sv =
     (let s = sv_store sv;
          prev = (case GetMembership s roomID target of None \<Rightarrow> [] | Some m \<Rightarrow> mr_membership m)
      in case buildEvent p ts sender roomID version ''m.room.member'' (Some target) (JObj content) [] s of
           Inl e \<Rightarrow> (Inl e, sv)
         | Inr ev \<Rightarrow>
             let row = member_row p roomID target content ev
             in (case (if has_membership content MembershipInvite \<and> \<not> IsLocalUser p target
                       then SendRemoteInvite p (invite_v2 l target ev) (invite_v1 l target ev) target ev version
                       else (Inr ev, False)) of
                   (Inl e, _) \<Rightarrow> (Inl (remoteInviteError e), sv)
                 | (Inr ev1, queued) \<Rightarrow>
                     let sv0 = (if queued then log_call (QueueInvite roomID (EventID (sha256 p) ev) (userDomain target)) sv
                                else sv)
                     in (case persistEventInRoom p ev1 version roomID row s of
                        (Inl e, s1) \<Rightarrow> (Inl e, sv0\<lparr>sv_store := s1\<rparr>)
                      | (Inr stream, s1) \<Rightarrow>
                          let sv1 = sv0\<lparr>sv_store := s1\<rparr>;
                              sv2 = (if has_stripped_state l roomID ev
                                     then log_call (SaveStrippedState roomID (EventID (sha256 p) ev1)) sv1 else sv1);
                              sv3 = (case row of None \<Rightarrow> sv2
                                     | Some r \<Rightarrow> device_list_effects p roomID target prev (mr_membership r) sv2);
                              sv4 = log_call (NotifyUsers [target]) (log_call (NotifyRoomMembers roomID) sv3)
                          in (Inr (EventID (sha256 p) ev1),
                              log_call (DeliverPush roomID (EventID (sha256 p) ev1) stream)
                                (log_call (BroadcastPDUToRoom roomID (EventID (sha256 p) ev1)) sv4)))))"

definition sendMemberEventWithContent ::
  "Peers \<Rightarrow> Locals \<Rightarrow> string \<Rightarrow> string \<Rightarrow> string \<Rightarrow> string \<Rightarrow> json gomap \<Rightarrow> Server \<Rightarrow> (client_error + string) \<times> Server" where
  "sendMemberEventWithContent p l ts sender roomID target content sv =
     (case GetRoom (sv_store sv) roomID of
        None \<Rightarrow> (Inl (Err 404 ''M_NOT_FOUND''), sv)
      | Some room \<Rightarrow>
          if has_membership content MembershipInvite \<and> IsLocalUser p target \<and> invite_blocked l (LocalpartOf target) sender
          then (Inl (Err 403 ''M_INVITE_BLOCKED''), sv)
          else
            let sv1 = (if IsLocalUser p target \<and> appservice_user l target then log_call (QueryAppServiceUser target) sv else sv)
            in case member_checks p sender roomID (rr_version room) target content sv1 of
                 Inl e \<Rightarrow> (Inl e, sv1)
               | Inr content1 \<Rightarrow>
                   (case member_repeat (sv_store sv1) roomID target content1 of
                      Some i \<Rightarrow> (Inr i, sv1)
                    | None \<Rightarrow> persist_member p l ts sender roomID (rr_version room) target content1 sv1))"

definition sendMemberEvent ::
  "Peers \<Rightarrow> Locals \<Rightarrow> string \<Rightarrow> string \<Rightarrow> string \<Rightarrow> string \<Rightarrow> string \<Rightarrow> string \<Rightarrow> Server \<Rightarrow> (client_error + string) \<times> Server" where
  "sendMemberEvent p l ts sender roomID target membership reason sv =
     sendMemberEventWithContent p l ts sender roomID target
       (put_when (reason \<noteq> []) ''reason'' (JStr reason) (gm_put ''membership'' (JStr membership) [])) sv"

subsection \<open>Transactions of clients\<close>

definition GetTxnEventID :: "Server \<Rightarrow> string \<Rightarrow> string \<Rightarrow> string \<Rightarrow> string" where
  "GetTxnEventID sv localpart roomID txnID =
     (case map_of (sv_client_txns sv) (localpart, roomID, txnID) of None \<Rightarrow> [] | Some i \<Rightarrow> i)"

definition RecordTxnEventID :: "string \<Rightarrow> string \<Rightarrow> string \<Rightarrow> string \<Rightarrow> Server \<Rightarrow> Server" where
  "RecordTxnEventID localpart roomID txnID eventID sv =
     sv\<lparr>sv_client_txns := insert_new fst ((localpart, roomID, txnID), eventID) (sv_client_txns sv)\<rparr>"

subsection \<open>Handlers\<close>

datatype client_reply = Sent string | Done | Refused client_error

abbreviation limit_exceeded :: client_error where
  "limit_exceeded \<equiv> Err 429 ''M_LIMIT_EXCEEDED''"

text \<open>\<open>delayed\<close>: the event is a delayed one now due, which has no transaction of a client.\<close>

definition RoomSend ::
  "Peers \<Rightarrow> Locals \<Rightarrow> string \<Rightarrow> AuthInfo \<Rightarrow> bool \<Rightarrow> string \<Rightarrow> string \<Rightarrow> string \<Rightarrow> req_body \<Rightarrow> Server \<Rightarrow> client_reply \<times> Server" where
  "RoomSend p l ts au delayed roomID eventType txnID body sv =
     (case checkMembership (sv_store sv) roomID (au_user au) MembershipJoin of
        Inl e \<Rightarrow> (Refused e, sv)
      | Inr _ \<Rightarrow>
          if \<not> delayed \<and> GetTxnEventID sv (au_localpart au) roomID txnID \<noteq> []
          then (Sent (GetTxnEventID sv (au_localpart au) roomID txnID), sv)
          else if limited l then (Refused limit_exceeded, sv)
          else case readEventContent body of
            Inl e \<Rightarrow> (Refused e, sv)
          | Inr content \<Rightarrow>
              (case (if isStateEventType eventType
                     then buildAndPersistState p ts (au_user au) roomID eventType [] content sv
                     else buildAndPersistMessage p ts (au_user au) roomID eventType content sv) of
                 (Inl e, sv1) \<Rightarrow> (Refused e, sv1)
               | (Inr ev, sv1) \<Rightarrow>
                   (Sent (EventID (sha256 p) ev),
                    if delayed then sv1
                    else RecordTxnEventID (au_localpart au) roomID txnID (EventID (sha256 p) ev) sv1)))"

text \<open>A tombstone of a client: push rules and tags follow into the replacement room.\<close>

definition copyPushRulesOnTombstone :: "Peers \<Rightarrow> string \<Rightarrow> json \<Rightarrow> Server \<Rightarrow> Server" where
  "copyPushRulesOnTombstone p oldRoomID content sv =
     (let (ok, new) = dec_struct (str_field ''replacement_room'') content []
      in if \<not> ok \<or> new = [] then sv
         else
           let members = map mr_user_id (Members (sv_store sv) oldRoomID ''join'');
               sv1 = log_call (CopyRulesForRoom (map LocalpartOf (filter (IsLocalUser p) members)) oldRoomID new) sv
           in fold (\<lambda>u. log_call (CopyTags (LocalpartOf u) oldRoomID new)) members sv1)"

definition kickJoinedGuests :: "Peers \<Rightarrow> Locals \<Rightarrow> string \<Rightarrow> string \<Rightarrow> string \<Rightarrow> Server \<Rightarrow> Server" where
  "kickJoinedGuests p l ts sender roomID sv =
     fold (\<lambda>u sv.
        if IsLocalUser p u \<and> LocalpartOf u \<in> set (sv_guests sv) \<and> u \<noteq> sender
        then snd (sendMemberEvent p l ts sender roomID u MembershipLeave ''guest access revoked'' sv) else sv)
       (map mr_user_id (Members (sv_store sv) roomID ''join'')) sv"

definition RoomStatePut ::
  "Peers \<Rightarrow> Locals \<Rightarrow> string \<Rightarrow> AuthInfo \<Rightarrow> string \<Rightarrow> string \<Rightarrow> string \<Rightarrow> req_body \<Rightarrow> Server \<Rightarrow> client_reply \<times> Server" where
  "RoomStatePut p l ts au roomID eventType stateKey body sv =
     (case readEventContent body of
        Inl e \<Rightarrow> (Refused e, sv)
      | Inr content \<Rightarrow>
          if limited l then (Refused limit_exceeded, sv)
          else if eventType = ''m.room.member'' then
            (case ParseMember (Some content) of
               Inl _ \<Rightarrow> (Refused bad_json, sv)
             | Inr mc \<Rightarrow>
                 (case sendMemberEventWithContent p l ts (au_user au) roomID stateKey (memberContent mc) sv of
                    (Inl e, sv1) \<Rightarrow> (Refused e, sv1)
                  | (Inr i, sv1) \<Rightarrow> (Sent i, sv1)))
          else
            (case buildAndPersistState p ts (au_user au) roomID eventType stateKey content sv of
               (Inl e, sv1) \<Rightarrow> (Refused e, sv1)
             | (Inr ev, sv1) \<Rightarrow>
                 let sv2 = (if eventType = ''m.room.tombstone'' \<and> stateKey = []
                            then copyPushRulesOnTombstone p roomID content sv1 else sv1);
                     sv3 = (if eventType = ''m.room.guest_access'' \<and> stateKey = [] \<and> \<not> guestAccessAllowsJoin (Some content)
                            then kickJoinedGuests p l ts (au_user au) roomID sv2 else sv2)
                 in (Sent (EventID (sha256 p) ev), sv3)))"

text \<open>The bodies of the moderation requests: \<open>user_id\<close> and \<open>reason\<close>.\<close>

definition target_request :: "raw \<Rightarrow> (string \<times> string) option" where
  "target_request body =
     decode_body (dec_struct
       [(''user_id'', \<lambda>j (u, r). let (ok, v) = dec_string j u in (ok, (v, r))),
        (''reason'', \<lambda>j (u, r). let (ok, v) = dec_string j r in (ok, (u, v)))]) ([], []) body"

definition member_reply :: "(client_error + string) \<times> Server \<Rightarrow> client_reply \<times> Server" where
  "member_reply r = (case fst r of Inl e \<Rightarrow> (Refused e, snd r) | Inr _ \<Rightarrow> (Done, snd r))"

definition RoomKick ::
  "Peers \<Rightarrow> Locals \<Rightarrow> string \<Rightarrow> AuthInfo \<Rightarrow> string \<Rightarrow> raw \<Rightarrow> Server \<Rightarrow> client_reply \<times> Server" where
  "RoomKick p l ts au roomID body sv =
     (case target_request body of
        None \<Rightarrow> (Refused bad_json, sv)
      | Some (target, reason) \<Rightarrow>
          (case GetMembership (sv_store sv) roomID target of
             None \<Rightarrow> (Refused forbidden, sv)
           | Some m \<Rightarrow>
               if mr_membership m \<notin> {MembershipJoin, MembershipInvite, MembershipKnock} then (Refused forbidden, sv)
               else member_reply (sendMemberEvent p l ts (au_user au) roomID target MembershipLeave reason sv)))"

definition RoomBan ::
  "Peers \<Rightarrow> Locals \<Rightarrow> string \<Rightarrow> AuthInfo \<Rightarrow> string \<Rightarrow> raw \<Rightarrow> Server \<Rightarrow> client_reply \<times> Server" where
  "RoomBan p l ts au roomID body sv =
     (case target_request body of
        None \<Rightarrow> (Refused bad_json, sv)
      | Some (target, reason) \<Rightarrow>
          member_reply (sendMemberEvent p l ts (au_user au) roomID target MembershipBan reason sv))"

definition RoomUnban ::
  "Peers \<Rightarrow> Locals \<Rightarrow> string \<Rightarrow> AuthInfo \<Rightarrow> string \<Rightarrow> raw \<Rightarrow> Server \<Rightarrow> client_reply \<times> Server" where
  "RoomUnban p l ts au roomID body sv =
     (case target_request body of
        None \<Rightarrow> (Refused bad_json, sv)
      | Some (target, reason) \<Rightarrow>
          (case checkMembership (sv_store sv) roomID target MembershipBan of
             Inl e \<Rightarrow> (Refused e, sv)
           | Inr _ \<Rightarrow> member_reply (sendMemberEvent p l ts (au_user au) roomID target MembershipLeave reason sv)))"

subsection \<open>Redactions\<close>

definition roomPowerLevels :: "Store \<Rightarrow> string \<Rightarrow> PowerLevels" where
  "roomPowerLevels s roomID =
     (case state_content s roomID ''m.room.power_levels'' [] of
        None \<Rightarrow> zero_pl
      | Some ev \<Rightarrow> (case ParsePowerLevels (er_content ev) of Inl _ \<Rightarrow> zero_pl | Inr pl \<Rightarrow> pl))"

definition roomUserLevel :: "Store \<Rightarrow> string \<Rightarrow> string \<Rightarrow> int" where
  "roomUserLevel s roomID userID =
     (if (case state_content s roomID ''m.room.create'' [] of
            None \<Rightarrow> False
          | Some ev \<Rightarrow>
              (case ParseCreate (er_content ev) of
                 Inl _ \<Rightarrow> False
               | Inr c \<Rightarrow>
                   (case Get (cc_room_version c) of
                      None \<Rightarrow> False
                    | Some rules \<Rightarrow> CreatorPrivileged rules \<and> IsPrivileged c userID (er_sender ev))))
      then 2 ^ 62 else UserLevel (roomPowerLevels s roomID) userID)"

text \<open>A \<open>redacts\<close> of the client is dropped from the content, which is decoded and written again.\<close>

definition redaction_content :: "(string \<Rightarrow> json) \<Rightarrow> json \<Rightarrow> json" where
  "redaction_content num content =
     (case content of
        JObj kvs \<Rightarrow> remarshal num (JObj (gm_del ''redacts'' (gm_of kvs)))
      | _ \<Rightarrow> JObj [])"

definition RoomRedact ::
  "Peers \<Rightarrow> Locals \<Rightarrow> string \<Rightarrow> AuthInfo \<Rightarrow> string \<Rightarrow> string \<Rightarrow> string \<Rightarrow> req_body \<Rightarrow> Server \<Rightarrow> client_reply \<times> Server" where
  "RoomRedact p l ts au roomID eventID txnID body sv =
     (case checkMembership (sv_store sv) roomID (au_user au) MembershipJoin of
        Inl e \<Rightarrow> (Refused e, sv)
      | Inr _ \<Rightarrow>
          if GetTxnEventID sv (au_localpart au) roomID txnID \<noteq> []
          then (Sent (GetTxnEventID sv (au_localpart au) roomID txnID), sv)
          else if limited l then (Refused limit_exceeded, sv)
          else case readEventContent body of
            Inl e \<Rightarrow> (Refused e, sv)
          | Inr content \<Rightarrow>
              let s = sv_store sv; target = TxGetEvent s eventID
              in if (case target of None \<Rightarrow> False | Some e \<Rightarrow> er_room_id e \<noteq> roomID) then (Refused invalid_param, sv)
                 else if (case target of None \<Rightarrow> True | Some e \<Rightarrow> er_sender e \<noteq> au_user au)
                         \<and> roomUserLevel s roomID (au_user au) < pl_redact (roomPowerLevels s roomID)
                 then (Refused forbidden, sv)
                 else case GetRoom s roomID of
                   None \<Rightarrow> (Refused (Err 404 ''M_NOT_FOUND''), sv)
                 | Some room \<Rightarrow>
                     (case build_and_persist p ts (au_user au) roomID (rr_version room) ''m.room.redaction'' None
                             (redaction_content (any_number l) content) eventID sv of
                        (Inl e, sv1) \<Rightarrow> (Refused e, sv1)
                      | (Inr ev, sv1) \<Rightarrow>
                          (Sent (EventID (sha256 p) ev),
                           RecordTxnEventID (au_localpart au) roomID txnID (EventID (sha256 p) ev) sv1)))"

end
