(* ===== verification/Fed_Queries.thy ===== *)
theory Fed_Queries
  imports Client_Invite
begin

section \<open>What other servers may ask for (\<open>federation/transactions.go\<close>, \<open>federation/statedag.go\<close>)\<close>

text \<open>
  The read endpoints of the federation API: single events, the state and the auth chain at an event, the events
  before given ones, the events of a gap, in plain rooms and in state DAGs. Each handler is a function of the store,
  the requesting server and the request's parameters; an answer is an error with its status, or what the body holds.
  A Go map that is walked to make an answer is a list in the order of its insertions here; the code leaves that
  order open, and no property depends on it.
\<close>

abbreviation not_found :: client_error where
  "not_found \<equiv> Err 404 ''M_NOT_FOUND''"

subsection \<open>The requesting server\<close>

text \<open>\<open>strings.Index\<close>: the text behind the first occurrence of \<open>sub\<close>.\<close>

fun after_first :: "string \<Rightarrow> string \<Rightarrow> string option" where
  "after_first sub [] = (if sub = [] then Some [] else None)"
| "after_first sub (c # s) = (if has_prefix (c # s) sub then Some (drop (length sub) (c # s)) else after_first sub s)"

definition trim_char :: "char \<Rightarrow> string \<Rightarrow> string" where
  "trim_char c s = rev (dropWhile (\<lambda>x. x = c) (rev (dropWhile (\<lambda>x. x = c) s)))"

text \<open>The argument is the \<open>Authorization\<close> header.\<close>

definition remoteOriginOf :: "string \<Rightarrow> string" where
  "remoteOriginOf h =
     (case after_first ''origin='' h of
        None \<Rightarrow> []
      | Some rest \<Rightarrow> (case index_byte (CHR '','') rest of
                        None \<Rightarrow> []
                      | Some i \<Rightarrow> trim_char (CHR 0x22) (take i rest)))"

subsection \<open>Lists in parameters\<close>

text \<open>\<open>strings.TrimSpace\<close>: the encodings of the runes that are white space.\<close>

definition go_spaces :: "string list" where
  "go_spaces = [[CHR 0x20], [CHR 0x09], [CHR 0x0A], [CHR 0x0B], [CHR 0x0C], [CHR 0x0D],
     [CHR 0xC2, CHR 0x85], [CHR 0xC2, CHR 0xA0], [CHR 0xE1, CHR 0x9A, CHR 0x80],
     [CHR 0xE2, CHR 0x80, CHR 0x80], [CHR 0xE2, CHR 0x80, CHR 0x81], [CHR 0xE2, CHR 0x80, CHR 0x82],
     [CHR 0xE2, CHR 0x80, CHR 0x83], [CHR 0xE2, CHR 0x80, CHR 0x84], [CHR 0xE2, CHR 0x80, CHR 0x85],
     [CHR 0xE2, CHR 0x80, CHR 0x86], [CHR 0xE2, CHR 0x80, CHR 0x87], [CHR 0xE2, CHR 0x80, CHR 0x88],
     [CHR 0xE2, CHR 0x80, CHR 0x89], [CHR 0xE2, CHR 0x80, CHR 0x8A], [CHR 0xE2, CHR 0x80, CHR 0xA8],
     [CHR 0xE2, CHR 0x80, CHR 0xA9], [CHR 0xE2, CHR 0x80, CHR 0xAF], [CHR 0xE2, CHR 0x81, CHR 0x9F],
     [CHR 0xE3, CHR 0x80, CHR 0x80]]"

fun strip_front :: "string list \<Rightarrow> nat \<Rightarrow> string \<Rightarrow> string" where
  "strip_front ws 0 s = s"
| "strip_front ws (Suc n) s =
     (case find (has_prefix s) ws of None \<Rightarrow> s | Some w \<Rightarrow> strip_front ws n (drop (length w) s))"

definition TrimSpace :: "string \<Rightarrow> string" where
  "TrimSpace s =
     (let t = strip_front go_spaces (length s) s
      in rev (strip_front (map rev go_spaces) (length t) (rev t)))"

definition requestingServerSupportsVersion :: "string list \<Rightarrow> Version \<Rightarrow> bool" where
  "requestingServerSupportsVersion ver roomVersion =
     (if ver = [] then roomVersion = ''1''
      else list_ex (\<lambda>v. list_ex (\<lambda>part. TrimSpace part = roomVersion) (split_on (CHR '','') v)) ver)"

subsection \<open>A single event\<close>

definition roomVersionOf :: "Store \<Rightarrow> string \<Rightarrow> Version" where
  "roomVersionOf s roomID = (case GetRoom s roomID of None \<Rightarrow> [] | Some room \<Rightarrow> rr_version room)"

definition roomRules :: "Store \<Rightarrow> string \<Rightarrow> Rules option" where
  "roomRules s roomID = (case GetRoom s roomID of None \<Rightarrow> None | Some room \<Rightarrow> Get (rr_version room))"

definition redacted_form :: "Rules option \<Rightarrow> json \<Rightarrow> json option" where
  "redacted_form rules j = (case rules of None \<Rightarrow> None | Some r \<Rightarrow> map_option JObj (Redact j r))"

text \<open>\<open>erased\<close>: whether a user has been erased (the \<open>users\<close> table).\<close>

definition GetEvent :: "(string \<Rightarrow> bool) \<Rightarrow> Store \<Rightarrow> string \<Rightarrow> string \<Rightarrow> client_error + json" where
  "GetEvent erased s origin eventID =
     (case TxGetEvent s eventID of
        None \<Rightarrow> Inl not_found
      | Some ev \<Rightarrow>
          if checkServerACL s origin (er_room_id ev) then Inl forbidden
          else if erased (er_sender ev)
          then (case redacted_form (roomRules s (er_room_id ev)) (er_json ev) of
                  None \<Rightarrow> Inr (er_json ev) | Some j \<Rightarrow> Inr j)
          else Inr (er_json ev))"

subsection \<open>The state at an event\<close>

definition stateAtEvent :: "Store \<Rightarrow> string \<Rightarrow> string \<Rightarrow> StateRow list option" where
  "stateAtEvent s roomID eventID =
     (case TxGetEvent s eventID of
        None \<Rightarrow> None
      | Some ev \<Rightarrow>
          if er_room_id ev \<noteq> roomID \<or> IsEventRejected s eventID \<or> er_outlier ev then None
          else if EventIsDAGLeaf s roomID eventID then Some (TxGetRoomState s roomID)
          else (case TxGetEventState s eventID of
                  Some rows \<Rightarrow> Some rows
                | None \<Rightarrow>
                    (case LatestEvent s roomID of
                       None \<Rightarrow> None
                     | Some l \<Rightarrow> if er_event_id l = eventID then Some (TxGetRoomState s roomID) else None)))"

definition stateAtEventPDUs :: "Store \<Rightarrow> string \<Rightarrow> string \<Rightarrow> json list option" where
  "stateAtEventPDUs s roomID eventID =
     (case stateAtEvent s roomID eventID of
        None \<Rightarrow> None
      | Some rows \<Rightarrow> Some (map er_json (TxEventsByIDs s (map sr_event_id rows))))"

definition roomStatePDUs :: "Store \<Rightarrow> string \<Rightarrow> json list" where
  "roomStatePDUs s roomID = map er_json (TxEventsByIDs s (map sr_event_id (TxGetRoomState s roomID)))"

subsection \<open>Auth chains\<close>

text \<open>The references of an event that a walk follows: in a state DAG those that were calculated for it.\<close>

definition parsed_auth :: "Store \<Rightarrow> string \<Rightarrow> (Rules \<times> Event) option" where
  "parsed_auth s i =
     (case TxGetEvent s i of
        None \<Rightarrow> None
      | Some row \<Rightarrow>
          (case roomRules s (er_room_id row) of
             None \<Rightarrow> None
           | Some rules \<Rightarrow> (case New (er_json row) (Version rules) of Inl _ \<Rightarrow> None | Inr ev \<Rightarrow> Some (rules, ev))))"

definition auth_refs :: "Store \<Rightarrow> string \<Rightarrow> string list" where
  "auth_refs s i =
     (case parsed_auth s i of
        None \<Rightarrow> []
      | Some (rules, ev) \<Rightarrow>
          if StateDAGs rules then (case TxCalculatedAuth s i of None \<Rightarrow> [] | Some ids \<Rightarrow> ids)
          else AuthEvents ev)"

definition stored_auth :: "Store \<Rightarrow> string set" where
  "stored_auth s = (\<Union>e \<in> set (db_events s). set (auth_refs s (er_event_id e)))"

lemma auth_refs_stored: "set (auth_refs s i) \<subseteq> stored_auth s"
proof (cases "TxGetEvent s i")
  case None
  then show ?thesis by (simp add: auth_refs_def parsed_auth_def)
next
  case (Some e)
  then show ?thesis using TxGetEvent_in [OF Some] unfolding stored_auth_def by blast
qed

lemma walk_auth_progress:
  assumes "i \<notin> set visited"
  shows "card (set (rev (filter p (auth_refs s i)) @ stack) \<union> stored_auth s - set (i # visited))
       < card (set (i # stack) \<union> stored_auth s - set visited)"
proof (rule psubset_card_mono)
  show "finite (set (i # stack) \<union> stored_auth s - set visited)" by (simp add: stored_auth_def)
  have "set (filter p (auth_refs s i)) \<subseteq> stored_auth s" using auth_refs_stored [of s i] by auto
  then show "set (rev (filter p (auth_refs s i)) @ stack) \<union> stored_auth s - set (i # visited)
      \<subset> set (i # stack) \<union> stored_auth s - set visited"
    using assms by auto
qed

text \<open>The stack is a list with its top in front.\<close>

function walk_auth :: "Store \<Rightarrow> string list \<Rightarrow> string list \<Rightarrow> string list" where
  "walk_auth s visited [] = visited"
| "walk_auth s visited (i # stack) =
     (if i \<in> set visited then walk_auth s visited stack
      else walk_auth s (i # visited) (rev (filter (\<lambda>a. a \<notin> set (i # visited)) (auth_refs s i)) @ stack))"
  by pat_completeness auto

termination
proof (relation "measures [\<lambda>(s, visited, stack). card (set stack \<union> stored_auth s - set visited),
    \<lambda>(s, visited, stack). length stack]", goal_cases)
  case (2 s visited i stack)
  then have "set (i # stack) \<union> stored_auth s - set visited = set stack \<union> stored_auth s - set visited" by auto
  then show ?case by simp
next
  case (3 s visited i stack)
  then show ?case using walk_auth_progress [of i visited] by simp
qed simp

definition walkAuthChain :: "Store \<Rightarrow> string list \<Rightarrow> string list" where
  "walkAuthChain s seed = walk_auth s [] (rev seed)"

text \<open>The chain of a room's state starts from what the events of the state themselves name.\<close>

definition authChainIDs :: "Store \<Rightarrow> string \<Rightarrow> string list" where
  "authChainIDs s roomID =
     walkAuthChain s (concat (map (\<lambda>r. case parsed_auth s (sr_event_id r) of None \<Rightarrow> [] | Some (_, ev) \<Rightarrow> AuthEvents ev)
       (TxGetRoomState s roomID)))"

definition authChain :: "Store \<Rightarrow> string \<Rightarrow> json list" where
  "authChain s roomID = map er_json (TxEventsByIDs s (authChainIDs s roomID))"

definition EventAuth :: "Store \<Rightarrow> string \<Rightarrow> string \<Rightarrow> string \<Rightarrow> client_error + json list" where
  "EventAuth s origin roomID eventID =
     (if checkServerACL s origin roomID then Inl forbidden
      else if TxGetEvent s eventID = None then Inl not_found
      else Inr (map er_json (TxEventsByIDs s (filter (\<lambda>i. i \<noteq> eventID) (walkAuthChain s [eventID])))))"

definition GetState :: "Store \<Rightarrow> string \<Rightarrow> string \<Rightarrow> string \<Rightarrow> client_error + (json list \<times> json list)" where
  "GetState s origin roomID eventID =
     (if checkServerACL s origin roomID then Inl forbidden
      else if eventID = [] then Inl bad_json
      else case stateAtEventPDUs s roomID eventID of
             None \<Rightarrow> Inl not_found
           | Some pdus \<Rightarrow> Inr (pdus, authChain s roomID))"

text \<open>
  The IDs of the state wait for the room to be fully stated: \<open>waited\<close> is the store when it was, \<open>None\<close> when
  that took longer than the 60 seconds the handler waits.
\<close>

definition state_ids_of :: "Store \<Rightarrow> string \<Rightarrow> string \<Rightarrow> client_error + (string list \<times> string list)" where
  "state_ids_of s roomID eventID =
     (case stateAtEvent s roomID eventID of
        None \<Rightarrow> Inl not_found
      | Some rows \<Rightarrow> if rows = [] then Inl not_found else Inr (map sr_event_id rows, authChainIDs s roomID))"

definition GetStateIDs ::
  "(Store \<Rightarrow> Store option) \<Rightarrow> Store \<Rightarrow> string \<Rightarrow> string \<Rightarrow> string \<Rightarrow> client_error + (string list \<times> string list)" where
  "GetStateIDs waited s origin roomID eventID =
     (if checkServerACL s origin roomID then Inl forbidden
      else if eventID = [] then Inl bad_json
      else case GetRoom s roomID of
        None \<Rightarrow> Inl not_found
      | Some room \<Rightarrow>
          if \<not> rr_partial_state room then state_ids_of s roomID eventID
          else (case waited s of
                  None \<Rightarrow> Inl internal_error
                | Some s1 \<Rightarrow> if GetRoom s1 roomID = None then Inl not_found else state_ids_of s1 roomID eventID))"

subsection \<open>Backfilling\<close>

definition backfill_seeds :: "string list \<Rightarrow> string list" where
  "backfill_seeds v = filter (\<lambda>i. i \<noteq> []) (map TrimSpace (concat (map (split_on (CHR '','')) v)))"

definition backfill_limit :: "string \<Rightarrow> int" where
  "backfill_limit v =
     (case parse_int64 v of None \<Rightarrow> 50 | Some n \<Rightarrow> if 0 < n \<and> n \<le> 100 then n else 50)"

text \<open>\<open>n\<close> is how many more events may be collected.\<close>

function backfill_walk :: "Store \<Rightarrow> string \<Rightarrow> nat \<Rightarrow> EventRow list \<Rightarrow> string list \<Rightarrow> EventRow list" where
  "backfill_walk s roomID n collected [] = collected"
| "backfill_walk s roomID n collected (i # queue) =
     (if n = 0 then collected
      else if i = [] \<or> i \<in> er_event_id ` set collected then backfill_walk s roomID n collected queue
      else case TxGetEvent s i of
        None \<Rightarrow> backfill_walk s roomID n collected queue
      | Some ev \<Rightarrow>
          if er_room_id ev \<noteq> roomID then backfill_walk s roomID n collected queue
          else backfill_walk s roomID (n - 1) (collected @ [ev])
                 (queue @ filter (\<lambda>q. q \<notin> er_event_id ` set (collected @ [ev])) (prevEventIDs (er_json ev))))"
  by pat_completeness auto
termination
  by (relation "measures [\<lambda>(s, room, n, collected, queue). n, \<lambda>(s, room, n, collected, queue). length queue]") auto

definition backfilled :: "Store \<Rightarrow> string \<Rightarrow> string list \<Rightarrow> string \<Rightarrow> EventRow list" where
  "backfilled s roomID v limit = backfill_walk s roomID (nat (backfill_limit limit)) [] (backfill_seeds v)"

definition Backfill :: "Store \<Rightarrow> string \<Rightarrow> string \<Rightarrow> string list \<Rightarrow> string \<Rightarrow> client_error + (string \<times> json) list" where
  "Backfill s origin roomID v limit =
     (if checkServerACL s origin roomID then Inl forbidden
      else if roomRules s roomID = None then Inl not_found
      else Inr (map (\<lambda>e. (er_event_id e, er_json e)) (backfilled s roomID v limit)))"

end
