(* ===== verification/Fed_Gaps.thy ===== *)
theory Fed_Gaps
  imports Fed_Queries "HOL-Library.Word"
begin

section \<open>The events of a gap, and who is in a room (\<open>federation/transactions.go\<close>, \<open>federation/statedag.go\<close>)\<close>

subsection \<open>The request\<close>

record MissingRequest =
  mq_earliest :: "string list"
  mq_latest :: "string list"
  mq_min_depth :: int
  mq_limit :: int
  mq_state_dag :: bool

definition missing_fields :: "MissingRequest fields" where
  "missing_fields =
     [(''earliest_events'', fld (dec_slice [] dec_string) mq_earliest mq_earliest_update),
      (''latest_events'', fld (dec_slice [] dec_string) mq_latest mq_latest_update),
      (''min_depth'', fld dec_int64 mq_min_depth mq_min_depth_update),
      (''limit'', fld dec_int64 mq_limit mq_limit_update),
      (''org.matrix.msc4242.state_dag'', fld dec_bool mq_state_dag mq_state_dag_update)]"

definition zero_missing :: MissingRequest where
  "zero_missing = \<lparr>mq_earliest = [], mq_latest = [], mq_min_depth = 0, mq_limit = 0, mq_state_dag = False\<rparr>"

text \<open>An empty body is the zero value.\<close>

definition read_missing :: "raw \<Rightarrow> MissingRequest option" where
  "read_missing body =
     (case body of
        None \<Rightarrow> Some zero_missing
      | Some j \<Rightarrow> (let (ok, r) = dec_struct missing_fields j zero_missing in if ok then Some r else None))"

subsection \<open>The walk\<close>

text \<open>The bounds are products of the requested limit in 64 bits, which wrap around.\<close>

definition times64 :: "int \<Rightarrow> int \<Rightarrow> int" where
  "times64 k n = sint (word_of_int (k * n) :: 64 word)"

definition anchor_depth :: "Store \<Rightarrow> string list \<Rightarrow> int" where
  "anchor_depth s earliest =
     (case fold (\<lambda>i a. case TxGetEvent s i of
                   None \<Rightarrow> a
                 | Some ev \<Rightarrow> (case a of None \<Rightarrow> Some (er_depth ev)
                                | Some d \<Rightarrow> if er_depth ev > d then Some (er_depth ev) else Some d)) earliest None of
        None \<Rightarrow> 0 | Some d \<Rightarrow> d)"

definition missing_seeds :: "Store \<Rightarrow> string list \<Rightarrow> string list" where
  "missing_seeds s latest =
     concat (map (\<lambda>i. case TxGetEvent s i of None \<Rightarrow> [] | Some ev \<Rightarrow> prevEventIDs (er_json ev)) latest)"

function missing_walk :: "Store \<Rightarrow> int \<Rightarrow> int \<Rightarrow> int \<Rightarrow> int \<Rightarrow> EventRow list \<Rightarrow> string list \<Rightarrow> EventRow list" where
  "missing_walk s anchor maxEvents maxVisits visits collected queue =
     (case queue of
        [] \<Rightarrow> collected
      | i # rest \<Rightarrow>
          if maxEvents \<le> int (length collected) \<or> maxVisits \<le> visits then collected
          else if i = [] \<or> i \<in> er_event_id ` set collected
          then missing_walk s anchor maxEvents maxVisits (visits + 1) collected rest
          else (case TxGetEvent s i of
                  None \<Rightarrow> missing_walk s anchor maxEvents maxVisits (visits + 1) collected rest
                | Some ev \<Rightarrow>
                    if er_depth ev \<le> anchor
                    then missing_walk s anchor maxEvents maxVisits (visits + 1) collected rest
                    else missing_walk s anchor maxEvents maxVisits (visits + 1) (collected @ [ev])
                           (rest @ prevEventIDs (er_json ev))))"
  by pat_completeness auto
termination
  by (relation "measure (\<lambda>(s, anchor, maxEvents, maxVisits, visits, collected, queue). nat (maxVisits - visits))") auto

declare missing_walk.simps [simp del]

text \<open>Ordered by depth; events of one depth come in no fixed order.\<close>

definition missing_rows :: "Store \<Rightarrow> string list \<Rightarrow> string list \<Rightarrow> int \<Rightarrow> EventRow list" where
  "missing_rows s earliest latest limit =
     sort_key er_depth (missing_walk s (anchor_depth s earliest) (times64 4 limit) (times64 8 limit) 0 []
       (missing_seeds s latest))"

subsection \<open>What of a gap is visible\<close>

definition historyVisibility :: "Store \<Rightarrow> string \<Rightarrow> string" where
  "historyVisibility s roomID =
     (case state_content s roomID ''m.room.history_visibility'' [] of
        None \<Rightarrow> ''shared''
      | Some ev \<Rightarrow>
          (let (ok, v) = unmarshal (dec_struct (str_field ''history_visibility'')) [] (er_content ev)
           in if ok \<and> v \<noteq> [] then v else ''shared''))"

definition restricted_history :: "Store \<Rightarrow> string \<Rightarrow> bool" where
  "restricted_history s roomID \<longleftrightarrow> historyVisibility s roomID \<in> {''invited'', ''joined''}"

definition joinPoint :: "Store \<Rightarrow> string \<Rightarrow> string \<Rightarrow> int" where
  "joinPoint s requester roomID =
     (if \<not> restricted_history s roomID \<or> requester = [] then 0
      else fold (\<lambda>m d. if userDomain (mr_user_id m) \<noteq> requester then d
                       else if d = 0 \<or> mr_depth m < d then mr_depth m else d)
             (Members s roomID ''join'') 0)"

definition missing_pdu :: "Rules option \<Rightarrow> bool \<Rightarrow> int \<Rightarrow> EventRow \<Rightarrow> json option" where
  "missing_pdu rules restricted point e =
     (if restricted \<and> (point = 0 \<or> er_depth e < point) then redacted_form rules (er_json e) else Some (er_json e))"

definition missing_pdus :: "Store \<Rightarrow> string \<Rightarrow> string \<Rightarrow> int \<Rightarrow> EventRow list \<Rightarrow> json list" where
  "missing_pdus s requester roomID limit evs =
     take (nat limit) (List.map_filter
       (missing_pdu (Get (roomVersionOf s roomID)) (restricted_history s roomID) (joinPoint s requester roomID)) evs)"

subsection \<open>State DAGs\<close>

definition serverParticipates :: "Store \<Rightarrow> string \<Rightarrow> string \<Rightarrow> bool" where
  "serverParticipates s roomID server \<longleftrightarrow>
     server \<noteq> [] \<and> list_ex (\<lambda>m. userDomain (mr_user_id m) = server) (Members s roomID [])"

definition prev_states :: "Store \<Rightarrow> string \<Rightarrow> string list" where
  "prev_states s i = map se_prev_state_id (filter (\<lambda>g. se_event_id g = i) (db_edges s))"

text \<open>
  The recursive query of \<open>StateDAGWalk\<close>, by levels: an event is listed with the least number of hops that lead to it,
  at most \<open>maxHops\<close>.
\<close>

lemma concat_map_Nil: "(\<And>x. x \<in> set xs \<Longrightarrow> f x = []) \<Longrightarrow> concat (map f xs) = []"
  by simp

function dag_levels :: "Store \<Rightarrow> string list \<Rightarrow> int \<Rightarrow> int \<Rightarrow> (string \<times> int) list \<Rightarrow> string list \<Rightarrow> (string \<times> int) list" where
  "dag_levels s earliest maxHops hops seen batch =
     (if batch = [] then seen
      else
        let seen1 = seen @ map (\<lambda>i. (i, hops)) batch;
            found = concat (map (\<lambda>i. if i \<in> set earliest \<or> maxHops \<le> hops then [] else prev_states s i) batch)
        in dag_levels s earliest maxHops (hops + 1) seen1 (remdups (filter (\<lambda>i. i \<notin> fst ` set seen1) found)))"
  by pat_completeness auto
termination
proof (relation "measures [\<lambda>(s, earliest, maxHops, hops, seen, batch). nat (maxHops - hops),
    \<lambda>(s, earliest, maxHops, hops, seen, batch). length batch]", goal_cases)
  case (2 s earliest maxHops hops seen batch seen1 found)
  show ?case
  proof (cases "hops < maxHops")
    case False
    then have "found = []" unfolding 2 by (intro concat_map_Nil) simp
    then show ?thesis using 2(1) False by simp
  qed simp
qed simp

declare dag_levels.simps [simp del]

definition dag_row :: "Store \<Rightarrow> string \<Rightarrow> string list \<Rightarrow> string \<times> int \<Rightarrow> bool" where
  "dag_row s roomID earliest x \<longleftrightarrow>
     0 < snd x \<and> fst x \<notin> set earliest
     \<and> (case TxGetEvent s (fst x) of None \<Rightarrow> False | Some e \<Rightarrow> er_room_id e = roomID)"

definition StateDAGWalk :: "Store \<Rightarrow> string \<Rightarrow> string list \<Rightarrow> string list \<Rightarrow> nat \<Rightarrow> string list" where
  "StateDAGWalk s roomID latest earliest limit =
     take limit (map fst (sort_key (\<lambda>x. (snd x, fst x))
       (filter (dag_row s roomID earliest) (dag_levels s earliest 100000 0 [] (remdups latest)))))"

definition in_order :: "Store \<Rightarrow> string list \<Rightarrow> json list" where
  "in_order s ids = List.map_filter (\<lambda>i. map_option er_json (TxGetEvent s i)) ids"

definition getMissingStateDAGEvents ::
  "Store \<Rightarrow> string \<Rightarrow> string \<Rightarrow> string list \<Rightarrow> string list \<Rightarrow> int \<Rightarrow> client_error + json list" where
  "getMissingStateDAGEvents s origin roomID earliest latest limit =
     (case GetRoom s roomID of
        None \<Rightarrow> Inl not_found
      | Some room \<Rightarrow>
          if state_dag_rules room = None then Inl invalid_param
          else if length earliest > 100 \<or> length latest > 100 then Inl invalid_param
          else if \<not> serverParticipates s roomID origin then Inl forbidden
          else Inr (in_order s (StateDAGWalk s roomID latest earliest (nat (min limit 1000)))))"

text \<open>
  \<open>StateDAGEventIDs\<close>: the state events behind given ones, those themselves included. This recursion has no bound; a
  shortest way to an event uses no edge twice. Event IDs of one depth are ordered by bytes, whatever the database's collation.
\<close>

definition StateDAGEventIDs :: "Store \<Rightarrow> string \<Rightarrow> string list \<Rightarrow> string list" where
  "StateDAGEventIDs s roomID from =
     map snd (sort (map (\<lambda>e. (er_depth e, er_event_id e))
       (filter (\<lambda>e. (er_event_id e, roomID) \<in> set (db_state_events s)
                  \<and> er_event_id e \<in> fst ` set (dag_levels s [] (int (length (db_edges s))) 0 [] (remdups from)))
          (db_events s))))"

subsection \<open>The handler\<close>

definition GetMissingEvents :: "Store \<Rightarrow> string \<Rightarrow> string \<Rightarrow> raw \<Rightarrow> client_error + json list" where
  "GetMissingEvents s origin roomID body =
     (if checkServerACL s origin roomID then Inl forbidden
      else case read_missing body of
        None \<Rightarrow> Inl bad_json
      | Some r \<Rightarrow>
          let limit = (if mq_limit r \<le> 0 then 20 else mq_limit r)
          in if mq_state_dag r
             then getMissingStateDAGEvents s origin roomID (mq_earliest r) (mq_latest r) limit
             else Inr (missing_pdus s origin roomID limit (missing_rows s (mq_earliest r) (mq_latest r) limit)))"

subsection \<open>Who is in a room\<close>

definition hostInRoom :: "Peers \<Rightarrow> Store \<Rightarrow> string \<Rightarrow> bool" where
  "hostInRoom p s roomID = list_ex (IsLocalUser p) (JoinedUserIDs s roomID)"

definition roomJoinedDomains :: "Store \<Rightarrow> string \<Rightarrow> string list" where
  "roomJoinedDomains s roomID =
     rev (remdups (rev (filter (\<lambda>d. d \<noteq> []) (map (\<lambda>m. userDomain (mr_user_id m)) (Members s roomID ''join'')))))"

definition QueryDirectory :: "Store \<Rightarrow> string \<Rightarrow> string \<Rightarrow> client_error + (string \<times> string list)" where
  "QueryDirectory s param path =
     (let alias = (if param = [] then path else param)
      in case LookupAlias s alias of
           None \<Rightarrow> Inl not_found
         | Some roomID \<Rightarrow>
             (let servers = roomJoinedDomains s roomID
              in Inr (roomID, if servers = [] then [DomainOf roomID] else servers)))"

end
