(* ===== verification/Stripped_State.thy ===== *)
theory Stripped_State
  imports Fed_Queries
begin

section \<open>Stripped state (\<open>internal/strippedstate\<close>)\<close>

text \<open>
  What the server shows a user who is invited to a room or knocks on it: chosen from the room's state, validated when another
  server delivered it, and rendered for clients. The table \<open>stripped_state\<close> is the parameter \<open>saved\<close>, from a membership
  event to the PDUs stored with it.
\<close>

abbreviation CreateType :: string where
  "CreateType \<equiv> ''m.room.create''"

definition Types :: "string list" where
  "Types = [CreateType, ''m.room.name'', ''m.room.avatar'', ''m.room.topic'', ''m.room.join_rules'',
     ''m.room.canonical_alias'', ''m.room.encryption'', ''m.room.guest_access'']"

definition IsPrejoinType :: "string \<Rightarrow> string \<Rightarrow> bool" where
  "IsPrejoinType eventType stateKey \<longleftrightarrow> stateKey = [] \<and> eventType \<in> set Types"

subsection \<open>For clients\<close>

record StrippedEvent =
  st_type :: string
  st_state_key :: string
  st_sender :: string
  st_content :: json

record StrippedFields =
  sd_type :: string
  sd_state_key :: "string option"
  sd_sender :: string
  sd_content :: raw

definition stripped_fields :: "StrippedFields fields" where
  "stripped_fields =
     [(''type'', fld dec_string sd_type sd_type_update),
      (''state_key'', fld (dec_ptr [] dec_string) sd_state_key sd_state_key_update),
      (''sender'', fld dec_string sd_sender sd_sender_update),
      (''content'', fld dec_raw sd_content sd_content_update)]"

definition isJSONObject :: "raw \<Rightarrow> bool" where
  "isJSONObject r = (case r of Some (JObj _) \<Rightarrow> True | _ \<Rightarrow> False)"

definition isJSONArray :: "raw \<Rightarrow> bool" where
  "isJSONArray r = (case r of Some (JArr _) \<Rightarrow> True | _ \<Rightarrow> False)"

definition FromPDU :: "json \<Rightarrow> StrippedEvent option" where
  "FromPDU j =
     (let (ok, ev) = dec_struct stripped_fields j \<lparr>sd_type = [], sd_state_key = None, sd_sender = [], sd_content = None\<rparr>
      in case (sd_state_key ev, sd_content ev) of
           (Some key, Some content) \<Rightarrow>
             if ok \<and> sd_type ev \<noteq> [] \<and> sd_sender ev \<noteq> [] \<and> isJSONObject (Some content)
             then Some \<lparr>st_type = sd_type ev, st_state_key = key, st_sender = sd_sender ev, st_content = content\<rparr>
             else None
         | _ \<Rightarrow> None)"

definition stripped_key :: "StrippedEvent \<Rightarrow> string \<times> string" where
  "stripped_key e = (st_type e, st_state_key e)"

definition add_stripped :: "json \<Rightarrow> StrippedEvent list \<Rightarrow> StrippedEvent list" where
  "add_stripped j m = (case FromPDU j of None \<Rightarrow> m | Some e \<Rightarrow> upsert stripped_key e m)"

definition stripped_order :: "StrippedEvent \<Rightarrow> bool \<times> string \<times> string" where
  "stripped_order e = (st_type e \<noteq> CreateType, st_type e, st_state_key e)"

definition stripped_json :: "StrippedEvent \<Rightarrow> json" where
  "stripped_json e = JObj [(''type'', JStr (st_type e)), (''state_key'', JStr (st_state_key e)),
     (''sender'', JStr (st_sender e)), (''content'', st_content e)]"

definition client_stripped :: "json list \<Rightarrow> json \<Rightarrow> StrippedEvent list" where
  "client_stripped prejoin membership = sort_key stripped_order (fold add_stripped (prejoin @ [membership]) [])"

definition ForClient :: "json list \<Rightarrow> json \<Rightarrow> json list" where
  "ForClient prejoin membership = map stripped_json (client_stripped prejoin membership)"

subsection \<open>From the state of a room\<close>

definition PDUForRow :: "Store \<Rightarrow> EventRow \<Rightarrow> json option" where
  "PDUForRow s row =
     (if \<not> er_redacted row then Some (er_json row)
      else let version = roomVersionOf s (er_room_id row)
           in redacted_form (Get (if version = [] then Default else version)) (er_json row))"

definition Snapshot :: "Store \<Rightarrow> string \<Rightarrow> string list \<Rightarrow> json list" where
  "Snapshot s roomID members =
     (let ids = map sr_event_id (filter (\<lambda>r. IsPrejoinType (sr_type r) (sr_state_key r)
            \<or> sr_type r = ''m.room.member'' \<and> sr_state_key r \<noteq> [] \<and> sr_state_key r \<in> set members) (TxGetRoomState s roomID))
      in List.map_filter (PDUForRow s) (TxEventsByIDs s ids))"

definition ForMember :: "(string \<Rightarrow> json list option) \<Rightarrow> Store \<Rightarrow> string \<Rightarrow> string \<Rightarrow> json list option" where
  "ForMember saved s roomID userID =
     (case GetMembership s roomID userID of
        None \<Rightarrow> None
      | Some m \<Rightarrow>
          (case TxGetEvent s (mr_event_id m) of
             None \<Rightarrow> None
           | Some ev \<Rightarrow>
               (case PDUForRow s ev of
                  None \<Rightarrow> None
                | Some membership \<Rightarrow>
                    Some (ForClient (case saved (mr_event_id m) of
                                       Some pdus \<Rightarrow> pdus | None \<Rightarrow> Snapshot s roomID [er_sender ev]) membership))))"

definition ContentFor ::
  "(string \<Rightarrow> json list option) \<Rightarrow> Store \<Rightarrow> string \<Rightarrow> string \<Rightarrow> string \<Rightarrow> string \<Rightarrow> raw" where
  "ContentFor saved s roomID userID eventType stateKey =
     (case GetMembership s roomID userID of
        None \<Rightarrow> None
      | Some m \<Rightarrow>
          (case saved (mr_event_id m) of
             None \<Rightarrow> None
           | Some pdus \<Rightarrow>
               fold (\<lambda>j c. case FromPDU j of
                       None \<Rightarrow> c
                     | Some e \<Rightarrow> if stripped_key e = (eventType, stateKey) then Some (st_content e) else c) pdus None))"

subsection \<open>From another server (\<open>validate.go\<close>)\<close>

record PDUShape =
  ps_event_id :: "string option"
  ps_room_id :: "string option"
  ps_type :: "string option"
  ps_state_key :: "string option"
  ps_sender :: "string option"
  ps_content :: raw
  ps_ts :: "int option"
  ps_depth :: "int option"
  ps_prev :: raw
  ps_auth :: raw
  ps_hashes :: "string gomap option"
  ps_signatures :: raw

definition shape_fields :: "PDUShape fields" where
  "shape_fields =
     [(''event_id'', fld (dec_ptr [] dec_string) ps_event_id ps_event_id_update),
      (''room_id'', fld (dec_ptr [] dec_string) ps_room_id ps_room_id_update),
      (''type'', fld (dec_ptr [] dec_string) ps_type ps_type_update),
      (''state_key'', fld (dec_ptr [] dec_string) ps_state_key ps_state_key_update),
      (''sender'', fld (dec_ptr [] dec_string) ps_sender ps_sender_update),
      (''content'', fld dec_raw ps_content ps_content_update),
      (''origin_server_ts'', fld (dec_ptr 0 dec_int64) ps_ts ps_ts_update),
      (''depth'', fld (dec_ptr 0 dec_int64) ps_depth ps_depth_update),
      (''prev_events'', fld dec_raw ps_prev ps_prev_update),
      (''auth_events'', fld dec_raw ps_auth ps_auth_update),
      (''hashes'', fld (dec_ptr [] (dec_map [] dec_string)) ps_hashes ps_hashes_update),
      (''signatures'', fld dec_raw ps_signatures ps_signatures_update)]"

definition zero_shape :: PDUShape where
  "zero_shape = \<lparr>ps_event_id = None, ps_room_id = None, ps_type = None, ps_state_key = None, ps_sender = None,
     ps_content = None, ps_ts = None, ps_depth = None, ps_prev = None, ps_auth = None, ps_hashes = None,
     ps_signatures = None\<rparr>"

definition given :: "string option \<Rightarrow> bool" where
  "given x \<longleftrightarrow> x \<noteq> None \<and> x \<noteq> Some []"

definition claimed_hash :: "PDUShape \<Rightarrow> string" where
  "claimed_hash ev = (case ps_hashes ev of None \<Rightarrow> [] | Some h \<Rightarrow> (case gm_get h ''sha256'' of None \<Rightarrow> [] | Some x \<Rightarrow> x))"

definition well_shaped :: "Rules \<Rightarrow> PDUShape \<Rightarrow> bool" where
  "well_shaped rules ev \<longleftrightarrow>
     given (ps_type ev) \<and> ps_state_key ev \<noteq> None \<and> given (ps_sender ev) \<and> isJSONObject (ps_content ev)
     \<and> ps_ts ev \<noteq> None \<and> ps_depth ev \<noteq> None \<and> isJSONArray (ps_prev ev) \<and> isJSONArray (ps_auth ev)
     \<and> claimed_hash ev \<noteq> [] \<and> isJSONObject (ps_signatures ev)
     \<and> (EventFormatV1 rules \<longrightarrow> given (ps_event_id ev))"

definition is_create :: "PDUShape \<Rightarrow> bool" where
  "is_create ev \<longleftrightarrow> ps_type ev = Some CreateType \<and> ps_state_key ev = Some []"

definition in_this_room :: "Peers \<Rightarrow> string \<Rightarrow> Rules \<Rightarrow> json \<Rightarrow> PDUShape \<Rightarrow> bool" where
  "in_this_room p roomID rules j ev \<longleftrightarrow>
     (if RoomIDIsCreateHash rules \<and> is_create ev
      then ps_room_id ev = None
           \<and> (case ReferenceHashBase64URL (sha256 p) j rules of Inl _ \<Rightarrow> False | Inr hash \<Rightarrow> CHR ''!'' # hash = roomID)
      else ps_room_id ev = Some roomID)"

text \<open>The entry as it is kept, redacted when its content does not have the hash it claims, and whether it is the create event.\<close>

definition validateEntry :: "Peers \<Rightarrow> string \<Rightarrow> Version \<Rightarrow> Rules \<Rightarrow> json \<Rightarrow> (json \<times> bool) option" where
  "validateEntry p roomID version rules j =
     (let (ok, ev) = dec_struct shape_fields j zero_shape; res = verify p j version
      in if \<not> ok \<or> \<not> well_shaped rules ev \<or> \<not> in_this_room p roomID rules j ev \<or> \<not> vr_signed res \<or> \<not> vr_valid res then None
         else if ContentHash (sha256 p) j = Inr (claimed_hash ev) then Some (j, is_create ev)
         else map_option (\<lambda>red. (JObj red, is_create ev)) (Redact j rules))"

text \<open>The problems are the positions of the entries that were dropped.\<close>

record StrippedResult =
  sr_pdus :: "json list"
  sr_problems :: "nat list"
  sr_has_create :: bool

datatype stripped_error = ErrMissingCreate | InvalidEntries "nat list"

definition Validate :: "Peers \<Rightarrow> string \<Rightarrow> Version \<Rightarrow> json list \<Rightarrow> StrippedResult" where
  "Validate p roomID version pdus =
     (case Get version of
        None \<Rightarrow> \<lparr>sr_pdus = [], sr_problems = [0..<length pdus], sr_has_create = False\<rparr>
      | Some rules \<Rightarrow>
          fold (\<lambda>(i, j) res. case validateEntry p roomID version rules j of
                  None \<Rightarrow> res\<lparr>sr_problems := sr_problems res @ [i]\<rparr>
                | Some (pdu, create) \<Rightarrow>
                    res\<lparr>sr_pdus := sr_pdus res @ [pdu], sr_has_create := (if create then True else sr_has_create res)\<rparr>)
            (enumerate 0 pdus) \<lparr>sr_pdus = [], sr_problems = [], sr_has_create = False\<rparr>)"

definition result_error :: "StrippedResult \<Rightarrow> stripped_error option" where
  "result_error r =
     (if \<not> sr_has_create r then Some ErrMissingCreate
      else if sr_problems r \<noteq> [] then Some (InvalidEntries (sr_problems r)) else None)"

end
