(* ===== verification/Fed_Members.thy ===== *)
theory Fed_Members
  imports Client_Requests Fed_Gaps Stripped_State
begin

section \<open>Membership changes over federation (\<open>federation/transactions.go\<close>)\<close>

text \<open>
  The handshakes by which the users of other servers join, leave and knock on a room of this server, a template and then
  the signed event, and the invites other servers deliver. \<open>origin\<close> is the requesting server. The version 1 endpoints wrap the
  same answers in an array.
\<close>

subsection \<open>Templates (\<open>MakeJoin\<close>, \<open>MakeKnock\<close>, \<open>MakeLeave\<close>)\<close>

abbreviation memberAuthIDs :: "Store \<Rightarrow> string \<Rightarrow> string \<Rightarrow> string list" where
  "memberAuthIDs \<equiv> memberAuthIDsFromStore"

definition legacyTemplateRefs :: "string list \<Rightarrow> json" where
  "legacyTemplateRefs ids = JArr (map (\<lambda>i. JArr [JStr i, JObj []]) ids)"

text \<open>A slice without elements is nil, and encoded as \<open>null\<close>.\<close>

definition template_refs :: "Rules option \<Rightarrow> string list \<Rightarrow> json" where
  "template_refs rules ids =
     (if (case rules of None \<Rightarrow> False | Some r \<Rightarrow> EventFormatV1 r) then legacyTemplateRefs ids
      else if ids = [] then JNull else JArr (map JStr ids))"

definition stateDAGTemplate :: "Store \<Rightarrow> string \<Rightarrow> string \<Rightarrow> json gomap \<Rightarrow> json gomap" where
  "stateDAGTemplate s roomID userID tpl =
     (case roomRules s roomID of
        None \<Rightarrow> tpl
      | Some rules \<Rightarrow>
          if \<not> StateDAGs rules then tpl
          else gm_put ''prev_state_events''
                 (JArr (map JStr (PrevStateEventsForNew s roomID ''m.room.member'' userID userID))) (gm_del ''auth_events'' tpl))"

definition member_template :: "Peers \<Rightarrow> Store \<Rightarrow> string \<Rightarrow> string \<Rightarrow> json gomap \<Rightarrow> json gomap" where
  "member_template p s roomID userID content =
     (let (prev, depth) = dagTipFor s roomID; rules = roomRules s roomID;
          tpl = stateDAGTemplate s roomID userID (gm_of
            [(''type'', JStr ''m.room.member''), (''state_key'', JStr userID), (''sender'', JStr userID),
             (''room_id'', JStr roomID), (''origin_server_ts'', json_int (clock p)), (''depth'', json_int depth),
             (''prev_events'', template_refs rules prev), (''auth_events'', template_refs rules (memberAuthIDs s roomID userID)),
             (''content'', JObj content)])
      in if (case rules of None \<Rightarrow> False | Some r \<Rightarrow> EventFormatV1 r) then gm_put ''origin'' (JStr (own_server p)) tpl else tpl)"

definition membership_content :: "string \<Rightarrow> json gomap" where
  "membership_content membership = [(''membership'', JStr membership)]"

abbreviation incompatible_version :: client_error where
  "incompatible_version \<equiv> Err 400 ''M_INCOMPATIBLE_ROOM_VERSION''"

text \<open>The content of a join: in a restricted room it names a user of this server who may let the joining one in.\<close>

definition join_template_content :: "Peers \<Rightarrow> Store \<Rightarrow> string \<Rightarrow> string \<Rightarrow> client_error + json gomap" where
  "join_template_content p s roomID userID =
     (let prev = (case GetMembership s roomID userID of None \<Rightarrow> [] | Some m \<Rightarrow> mr_membership m);
          content = membership_content ''join'';
          authoriser = RestrictedJoinAuthoriser s roomID (own_server p)
      in if \<not> restrictedRoomJoinRules s roomID \<or> prev \<in> {MembershipJoin, MembershipInvite} then Inr content
         else if authoriser = [] then Inl (Err 400 ''M_UNABLE_TO_GRANT_JOIN'')
         else Inr (gm_put ''join_authorised_via_users_server'' (JStr authoriser) content))"

definition MakeJoin ::
  "Peers \<Rightarrow> Store \<Rightarrow> string \<Rightarrow> string list \<Rightarrow> string \<Rightarrow> string \<Rightarrow> client_error + (Version \<times> json gomap)" where
  "MakeJoin p s origin ver roomID userID =
     (if userDomain userID \<noteq> origin then Inl forbidden
      else case GetRoom s roomID of
        None \<Rightarrow> Inl not_found
      | Some room \<Rightarrow>
          if rr_partial_state room \<or> \<not> hostInRoom p s roomID then Inl not_found
          else if checkServerACL s origin roomID then Inl forbidden
          else if \<not> requestingServerSupportsVersion ver (rr_version room) then Inl incompatible_version
          else bind_result (join_template_content p s roomID userID) (\<lambda>content.
                 Inr (rr_version room, member_template p s roomID userID content)))"

definition MakeKnock ::
  "Peers \<Rightarrow> Store \<Rightarrow> string \<Rightarrow> string list \<Rightarrow> string \<Rightarrow> string \<Rightarrow> client_error + (Version \<times> json gomap)" where
  "MakeKnock p s origin ver roomID userID =
     (case GetRoom s roomID of
        None \<Rightarrow> Inl not_found
      | Some room \<Rightarrow>
          if \<not> HasRoomState s roomID \<or> rr_partial_state room then Inl not_found
          else if checkServerACL s origin roomID then Inl forbidden
          else if \<not> requestingServerSupportsVersion ver (rr_version room) then Inl incompatible_version
          else Inr (rr_version room, member_template p s roomID userID (membership_content ''knock'')))"

definition MakeLeave :: "Peers \<Rightarrow> Store \<Rightarrow> string \<Rightarrow> string \<Rightarrow> string \<Rightarrow> client_error + json gomap" where
  "MakeLeave p s origin roomID userID =
     (if userDomain userID \<noteq> origin then Inl forbidden
      else if checkServerACL s origin roomID then Inl forbidden
      else if \<not> HasRoomState s roomID then Inl not_found
      else Inr (member_template p s roomID userID (membership_content ''leave'')))"

subsection \<open>Reading the event of a request\<close>

text \<open>Members of the wrong type are skipped: the error of the decoding is ignored.\<close>

definition loose_pdu :: "json \<Rightarrow> PDU" where
  "loose_pdu j = snd (dec_struct (filter (\<lambda>f. fst f \<noteq> ''redacts'') pdu_fields) j zero_pdu)"

definition envelope_fields :: "(raw \<times> raw \<times> string) fields" where
  "envelope_fields =
     [(''event'', \<lambda>j (e, s, v). (True, (Some j, s, v))),
      (''state'', \<lambda>j (e, s, v). (True, (e, Some j, v))),
      (''room_version'', \<lambda>j (e, s, v). let (ok, x) = dec_string j v in (ok, (e, s, x)))]"

text \<open>The signed event itself, or an envelope with it and the room's version.\<close>

definition unwrap_member :: "json \<Rightarrow> json \<times> Version" where
  "unwrap_member j =
     (let (ok, event, _, v) = dec_struct envelope_fields j (None, None, [])
      in case event of
           Some (JObj kvs) \<Rightarrow> if ok then (JObj kvs, v) else (j, [])
         | _ \<Rightarrow> (j, []))"

definition version_for :: "Store \<Rightarrow> string \<Rightarrow> Version \<Rightarrow> Version" where
  "version_for s roomID asked =
     (if asked \<noteq> [] then asked else case GetRoom s roomID of None \<Rightarrow> Default | Some room \<Rightarrow> rr_version room)"

subsection \<open>Accepting a join, a leave or a knock (\<open>ingestRemoteMember\<close>)\<close>

text \<open>The state to judge against, or \<open>None\<close> for a restricted join this server cannot judge.\<close>

definition remote_auth_state :: "Peers \<Rightarrow> Store \<Rightarrow> PDU \<Rightarrow> StateSnapshot option" where
  "remote_auth_state p s ev =
     (let st = memberStateSnapshotCtx s (pdu_room_id ev) (pdu_sender ev) (pdu_key ev) (pdu_content ev)
      in if ss_join_rules st = None \<or> JoinRule (ss_join_rules st) \<notin> {JoinRuleRestricted, JoinRuleKnockRestricted} then Some st
         else case ParseMember (pdu_content ev) of
           Inl _ \<Rightarrow> Some st
         | Inr mc \<Rightarrow>
             if mc_membership mc \<noteq> MembershipJoin then Some st
             else (case RestrictedJoinAuthorised s (pdu_room_id ev) (pdu_key ev) (mc_authorised_via mc) (own_server p) of
                     JoinAuthorised \<Rightarrow> Some (st\<lparr>ss_restricted_authorised := True\<rparr>)
                   | RestrictedJoinUnableToAuthorise \<Rightarrow> None
                   | RestrictedJoinNotAuthorised \<Rightarrow> Some st))"

definition authorise_remote :: "Peers \<Rightarrow> Store \<Rightarrow> Rules \<Rightarrow> Version \<Rightarrow> json \<Rightarrow> PDU \<Rightarrow> client_error + unit" where
  "authorise_remote p s rules version j ev =
     (case remote_auth_state p s ev of
        None \<Rightarrow> Inl (Err 400 ''M_UNABLE_TO_AUTHORISE_JOIN'')
      | Some st \<Rightarrow>
          if StateDAGs rules
          then (case New j version of
                  Inl _ \<Rightarrow> Inl bad_json
                | Inr sev \<Rightarrow>
                    if gm_get (ev_fields sev) ''prev_state_events'' = None then Inl bad_json
                    else check (\<not> isl (CheckStateDAGEvent (ed_verify p) s sev (ss_restricted_authorised st) False)) forbidden)
          else check (\<not> isl (Authorize (ed_verify p) rules (pdu_type ev) (pdu_key ev) (pdu_sender ev) (pdu_content ev) st True))
                 forbidden)"

text \<open>The checks before an event is stored, in order; what is left is the ID it is stored under.\<close>

definition remote_member_checks ::
  "Peers \<Rightarrow> Store \<Rightarrow> string \<Rightarrow> string \<Rightarrow> string \<Rightarrow> json \<Rightarrow> Version \<Rightarrow> PDU \<Rightarrow> client_error + string" where
  "remote_member_checks p s origin path want j version ev =
     bind_result (check (pdu_room_id ev = path) bad_json) (\<lambda>_.
     bind_result (check (userDomain (pdu_sender ev) = origin) forbidden) (\<lambda>_.
     bind_result (check (\<not> checkServerACL s origin (pdu_room_id ev)) forbidden) (\<lambda>_.
     bind_result (check (HasRoomState s (pdu_room_id ev)) not_found) (\<lambda>_.
     bind_result (check (\<not> (AtLeast version 6 \<and> isl (Canonical j))) bad_json) (\<lambda>_.
     bind_result (check (\<not> roomIsPartial s (pdu_room_id ev)) not_found) (\<lambda>_.
     bind_result (check (pdu_type ev = ''m.room.member'' \<and> pdu_state_key ev \<noteq> None) invalid_param) (\<lambda>_.
     bind_result (check (want = [] \<or> loose_membership (pdu_content ev) = want) invalid_param) (\<lambda>_.
     bind_result (check (pdu_sender ev = pdu_key ev) invalid_param) (\<lambda>_.
     bind_result (check (vr_valid (verify p j version)) forbidden) (\<lambda>_.
     bind_result (case Get version of None \<Rightarrow> Inr () | Some rules \<Rightarrow> authorise_remote p s rules version j ev) (\<lambda>_.
     Inr (if pdu_event_id ev = [] then vr_event_id (verify p j version) else pdu_event_id ev))))))))))))"

definition known_event :: "json \<Rightarrow> Version \<Rightarrow> bool" where
  "known_event j version \<longleftrightarrow> \<not> isl (New j version)"

definition store_remote_member :: "Version \<Rightarrow> json \<Rightarrow> PDU \<Rightarrow> string \<Rightarrow> Server \<Rightarrow> Server" where
  "store_remote_member version j ev evID sv =
     (if pdu_content ev = None then sv
      else
        let room = pdu_room_id ev; row = pdu_row evID room j ev;
            (s1, stream) = InsertEvent (sv_store sv) row;
            row1 = row\<lparr>er_stream := stream\<rparr>;
            s2 = IndexRelationFromRow s1 row1;
            s3 = (case Get version of None \<Rightarrow> s2 | Some rules \<Rightarrow> snd (Maintain row1 rules s2));
            sv1 = applyRemoteMembership room (pdu_key ev) (pdu_content ev) evID (pdu_depth ev) (sv\<lparr>sv_store := s3\<rparr>)
        in if known_event j version then log_call (NotifyInbound evID room stream False) sv1 else sv1)"

definition accept_remote_member :: "Peers \<Rightarrow> string \<Rightarrow> Version \<Rightarrow> json \<Rightarrow> PDU \<Rightarrow> string \<Rightarrow> Server \<Rightarrow> Server" where
  "accept_remote_member p want version j ev evID sv =
     (let sv1 = (if evID = [] then sv else store_remote_member version j ev evID sv);
          sv2 = (if evID \<noteq> [] \<and> want = ''join'' then log_call (RecordDeviceListJoin (pdu_key ev)) sv1 else sv1)
      in case New j version of
           Inl _ \<Rightarrow> sv2
         | Inr e \<Rightarrow>
             log_call (BroadcastPDUToRoomExcept (pdu_room_id ev) (EventID (sha256 p) e) (userDomain (pdu_sender ev))) sv2)"

text \<open>
  The answers. In a state DAG a join may ask for less than the whole state; then the limit of its timeline is given and the
  further members of the answer are left out here.
\<close>

datatype member_answer =
    RoomAnswer "json list" "json list" json
  | DagAnswer "json list" "int option" json
  | KnockAnswer "json list"

definition parseTimelineLimit :: "string \<Rightarrow> int option" where
  "parseTimelineLimit v =
     (if v = [] then Some 10
      else case parse_int64 v of None \<Rightarrow> None | Some n \<Rightarrow> if n \<le> 0 then None else Some (min n 64))"

definition stateDAGPDUs :: "Store \<Rightarrow> string \<Rightarrow> json \<Rightarrow> Version \<Rightarrow> json list option" where
  "stateDAGPDUs s roomID j version =
     (case New j version of
        Inl _ \<Rightarrow> None
      | Inr ev \<Rightarrow> Some (in_order s (StateDAGEventIDs s roomID (PrevStateEvents ev))))"

definition writeKnockRoomState :: "Store \<Rightarrow> string \<Rightarrow> member_answer" where
  "writeKnockRoomState s roomID = KnockAnswer (Snapshot s roomID [])"

definition answer_member ::
  "Store \<Rightarrow> string \<Rightarrow> bool \<Rightarrow> string \<Rightarrow> Version \<Rightarrow> json \<Rightarrow> PDU \<Rightarrow> client_error + member_answer" where
  "answer_member s want omitMembers timelineLimit version j ev =
     (let room = pdu_room_id ev
      in if want = ''knock'' then Inr (writeKnockRoomState s room)
         else if (case Get version of None \<Rightarrow> False | Some rules \<Rightarrow> StateDAGs rules)
         then (case stateDAGPDUs s room j version of
                 None \<Rightarrow> Inl internal_error
               | Some dag \<Rightarrow>
                   if want \<noteq> ''join'' \<or> \<not> omitMembers then Inr (DagAnswer dag None j)
                   else (case parseTimelineLimit timelineLimit of
                           None \<Rightarrow> Inl invalid_param
                         | Some n \<Rightarrow> Inr (DagAnswer dag (Some n) j)))
         else Inr (RoomAnswer (roomStatePDUs s room) (authChain s room) j))"

definition pending_remote_knock :: "Store \<Rightarrow> string \<Rightarrow> PDU \<Rightarrow> bool" where
  "pending_remote_knock s want ev \<longleftrightarrow> want = ''knock''
     \<and> (case GetMembership s (pdu_room_id ev) (pdu_key ev) of None \<Rightarrow> False | Some m \<Rightarrow> mr_membership m = ''knock'')"

text \<open>A body that is no JSON document names no room.\<close>

definition ingestRemoteMember ::
  "Peers \<Rightarrow> string \<Rightarrow> string \<Rightarrow> string \<Rightarrow> bool \<Rightarrow> string \<Rightarrow> raw \<Rightarrow> Server \<Rightarrow> (client_error + member_answer) \<times> Server" where
  "ingestRemoteMember p origin path want omitMembers timelineLimit body sv =
     (case body of
        None \<Rightarrow> (Inl bad_json, sv)
      | Some b \<Rightarrow>
          let (j, asked) = unwrap_member b; ev = loose_pdu j; version = version_for (sv_store sv) (pdu_room_id ev) asked
          in case remote_member_checks p (sv_store sv) origin path want j version ev of
               Inl e \<Rightarrow> (Inl e, sv)
             | Inr evID \<Rightarrow>
                 if pending_remote_knock (sv_store sv) want ev then (Inr (writeKnockRoomState (sv_store sv) (pdu_room_id ev)), sv)
                 else
                   let sv1 = accept_remote_member p want version j ev evID sv
                   in (answer_member (sv_store sv1) want omitMembers timelineLimit version j ev, sv1))"

subsection \<open>Invites (\<open>Invite\<close>)\<close>

definition unwrap_invite :: "json \<Rightarrow> json \<times> Version \<times> json list" where
  "unwrap_invite j =
     (let (ok, v, event, pdus) = dec_struct
            [(''room_version'', \<lambda>j (v, e, st). let (ok, x) = dec_string j v in (ok, (x, e, st))),
             (''event'', \<lambda>j (v, e, st). (True, (v, Some j, st))),
             (''invite_room_state'', \<lambda>j (v, e, st). let (ok, x) = dec_slice JNull (\<lambda>j _. (True, j)) j st in (ok, (v, e, x)))]
            j ([], None, [])
      in case event of
           None \<Rightarrow> (j, v, pdus)
         | Some e \<Rightarrow> if ok then (e, v, pdus) else (j, v, pdus))"

definition invite_checks ::
  "Peers \<Rightarrow> Locals \<Rightarrow> Store \<Rightarrow> string \<Rightarrow> json \<Rightarrow> Version \<Rightarrow> PDU \<Rightarrow> client_error + string" where
  "invite_checks p l s origin j version ev =
     (let evID = (if pdu_event_id ev = [] then vr_event_id (verify p j version) else pdu_event_id ev)
      in
     bind_result (check (\<not> (pdu_room_id ev \<noteq> [] \<and> RoomExists s (pdu_room_id ev)
                             \<and> checkServerACL s origin (pdu_room_id ev))) forbidden) (\<lambda>_.
     bind_result (check (pdu_type ev = ''m.room.member'' \<and> pdu_state_key ev \<noteq> None) invalid_param) (\<lambda>_.
     bind_result (check (loose_membership (pdu_content ev) = ''invite'') invalid_param) (\<lambda>_.
     bind_result (check (userDomain (pdu_sender ev) = origin) invalid_param) (\<lambda>_.
     bind_result (check (IsLocalUser p (pdu_key ev)) invalid_param) (\<lambda>_.
     bind_result (check (Get version \<noteq> None) (Err 400 ''M_UNSUPPORTED_ROOM_VERSION'')) (\<lambda>_.
     bind_result (check (\<not> (AtLeast version 6 \<and> isl (Canonical j))) bad_json) (\<lambda>_.
     bind_result (check (vr_valid (verify p j version)) forbidden) (\<lambda>_.
     bind_result (check (evID \<noteq> []) invalid_param) (\<lambda>_.
     bind_result (check (\<not> invite_blocked l (LocalpartOf (pdu_key ev)) (pdu_sender ev)) (Err 403 ''M_INVITE_BLOCKED'')) (\<lambda>_.
     Inr evID)))))))))))"

text \<open>The stripped state the invitee will see: the server's own state, or what was delivered, once it is validated.\<close>

definition invite_stripped ::
  "Peers \<Rightarrow> Store \<Rightarrow> Rules \<Rightarrow> Version \<Rightarrow> PDU \<Rightarrow> json list \<Rightarrow> client_error + json list" where
  "invite_stripped p s rules version ev delivered =
     (if HasRoomState s (pdu_room_id ev) then Inr (Snapshot s (pdu_room_id ev) [pdu_sender ev])
      else
        let res = Validate p (pdu_room_id ev) version delivered
        in if \<not> StrictStrippedState rules then Inr (sr_pdus res)
           else (case result_error res of
                   None \<Rightarrow> Inr (sr_pdus res)
                 | Some ErrMissingCreate \<Rightarrow> Inl (Err 400 ''M_MISSING_PARAM'')
                 | Some (InvalidEntries _) \<Rightarrow> Inl invalid_param))"

definition invite_membership :: "PDU \<Rightarrow> string \<Rightarrow> MembershipRow" where
  "invite_membership ev evID =
     \<lparr>mr_room_id = pdu_room_id ev, mr_user_id = pdu_key ev, mr_membership = ''invite'', mr_event_id = evID,
      mr_display_name = [], mr_avatar_url = [], mr_forgotten = False, mr_stream = 0, mr_depth = pdu_depth ev\<rparr>"

definition learn_room :: "Peers \<Rightarrow> string \<Rightarrow> Version \<Rightarrow> Store \<Rightarrow> Store" where
  "learn_room p roomID version s =
     (case CreateRoom s \<lparr>rr_room_id = roomID, rr_version = version, rr_creator = [], rr_is_public = False,
              rr_created_ts = clock p, rr_partial_state = False, rr_servers = [], rr_unpartial_stream = 0\<rparr> of
        None \<Rightarrow> s | Some s1 \<Rightarrow> s1)"

text \<open>In a room whose state the server holds the invite is an event like others; elsewhere it is kept out of band.\<close>

definition store_invite :: "Rules \<Rightarrow> PDU \<Rightarrow> EventRow \<Rightarrow> bool \<Rightarrow> Store \<Rightarrow> Store \<times> int" where
  "store_invite rules ev row resident s =
     (if resident
      then (let (s1, stream) = InsertEventWithMembership s row (Some (invite_membership ev (er_event_id row))) True
            in (snd (Maintain (row\<lparr>er_stream := stream\<rparr>) rules s1), stream))
      else InsertOutOfBandMembership s row (invite_membership ev (er_event_id row)) False)"

definition accept_invite ::
  "Peers \<Rightarrow> Rules \<Rightarrow> Version \<Rightarrow> json \<Rightarrow> PDU \<Rightarrow> string \<Rightarrow> json list \<Rightarrow> Server \<Rightarrow> Server" where
  "accept_invite p rules version j ev evID stripped sv =
     (let s = sv_store sv; room = pdu_room_id ev; row = pdu_row evID room j ev;
          (s1, stream) = store_invite rules ev row (HasRoomState s room) (learn_room p room version s);
          sv1 = sv\<lparr>sv_store := IndexRelationFromRow s1 (row\<lparr>er_stream := stream\<rparr>)\<rparr>;
          sv2 = log_call (NotifyUsers [pdu_key ev]) (log_call (KeepStripped evID stripped) sv1)
      in if known_event j version then log_call (NotifyInbound evID room stream False) sv2 else sv2)"

definition Invite :: "Peers \<Rightarrow> Locals \<Rightarrow> string \<Rightarrow> req_body \<Rightarrow> Server \<Rightarrow> (client_error + json) \<times> Server" where
  "Invite p l origin body sv =
     (case body of
        NoBody \<Rightarrow> (Inl bad_json, sv)
      | LongBody \<Rightarrow> (Inl invalid_param, sv)
      | BadBody \<Rightarrow> (Inl invalid_param, sv)
      | Body b \<Rightarrow>
          let s = sv_store sv; (j, asked, delivered) = unwrap_invite b; ev = loose_pdu j;
              version = version_for s (pdu_room_id ev) asked
          in case invite_checks p l s origin j version ev of
               Inl e \<Rightarrow> (Inl e, sv)
             | Inr evID \<Rightarrow>
                 (case Get version of
                    None \<Rightarrow> (Inl (Err 400 ''M_UNSUPPORTED_ROOM_VERSION''), sv)
                  | Some rules \<Rightarrow>
                      (case invite_stripped p s rules version ev delivered of
                         Inl e \<Rightarrow> (Inl e, sv)
                       | Inr stripped \<Rightarrow>
                           let sv1 = accept_invite p rules version j ev evID stripped sv
                           in (case SignJSON (ed_sign p) (own_server p) (own_key p) j of
                                 Inl _ \<Rightarrow> (Inl internal_error, sv1)
                               | Inr both \<Rightarrow> (Inr both, sv1)))))"

end
