(* ===== verification/Client_Laws.thy ===== *)
theory Client_Laws
  imports Fed_Members Fed_Laws Genesis_Laws
begin

section \<open>What the requests of clients guarantee\<close>

text \<open>
  The locale \<open>request_invariant\<close> asks that a property survive the storing of an event that a request builds; then it
  survives every request. Every \<open>store_invariant\<close> is one, so what the single writes keep is kept by a life of
  the server, which mixes the requests of clients with the transactions, membership changes and invites of other servers.
\<close>

subsection \<open>Requests keep every invariant of the writes\<close>

lemma log_call_store [simp]: "sv_store (log_call c sv) = sv_store sv"
  by (simp add: log_call_def)

lemma RecordTxn_store [simp]: "sv_store (RecordTxnEventID lp room txn i sv) = sv_store sv"
  by (simp add: RecordTxnEventID_def)

lemma announce_store [simp]: "sv_store (announce p room ev n sv) = sv_store sv"
  by (simp add: announce_def)

lemma fold_store: "(\<And>x sv. sv_store (f x sv) = sv_store sv) \<Longrightarrow> sv_store (fold f xs sv) = sv_store sv"
  by (induction xs arbitrary: sv) simp_all

lemma device_list_store [simp]: "sv_store (device_list_effects p room target prev m sv) = sv_store sv"
proof -
  have "sv_store (fold (left_members p target) us sv) = sv_store sv" for us sv
    by (rule fold_store) (simp add: left_members_def Let_def)
  then show ?thesis by (simp add: device_list_effects_def Let_def)
qed

lemma tombstone_store [simp]: "sv_store (copyPushRulesOnTombstone p room content sv) = sv_store sv"
  by (simp add: copyPushRulesOnTombstone_def Let_def case_prod_beta fold_store)

text \<open>
  The events a request stores: built on the present state of the store, and for an invite to another server
  replaced by what that server sent back.
\<close>

definition client_built ::
  "Peers \<Rightarrow> Locals \<Rightarrow> string \<Rightarrow> string \<Rightarrow> string \<Rightarrow> string \<Rightarrow> Store \<Rightarrow> Event \<Rightarrow> bool" where
  "client_built p l ts sender room version s ev \<longleftrightarrow>
     (\<exists>ty sk content red. buildEvent p ts sender room version ty sk content red s = Inr ev)"

definition client_stored ::
  "Peers \<Rightarrow> Locals \<Rightarrow> string \<Rightarrow> string \<Rightarrow> string \<Rightarrow> string \<Rightarrow> Store \<Rightarrow> Event \<Rightarrow> bool" where
  "client_stored p l ts sender room version s ev1 \<longleftrightarrow>
     (\<exists>ev. client_built p l ts sender room version s ev \<and>
        (ev1 = ev \<or> (\<exists>target. fst (SendRemoteInvite p (invite_v2 l target ev) (invite_v1 l target ev) target ev version)
                       = Inr ev1)))"

locale request_invariant =
  fixes p :: Peers and l :: Locals and P :: "Store \<Rightarrow> bool"
  assumes event_stored: "P s \<Longrightarrow> client_stored p l ts sender room version s ev \<Longrightarrow>
      room' = room \<or> room' = stringField ev ''room_id'' \<and> client_built p l ts sender room version s ev \<Longrightarrow>
      P (snd (persistEventInRoom p ev version room' m s))"
begin

lemma fold_requests:
  "(\<And>x sv. P (sv_store sv) \<Longrightarrow> P (sv_store (f x sv))) \<Longrightarrow> P (sv_store sv) \<Longrightarrow> P (sv_store (fold f xs sv))"
  by (induction xs arbitrary: sv) auto

text \<open>An answer that hands the error on, or follows the success with writes that keep the property.\<close>

lemma answered:
  assumes "P (sv_store (snd r))" and "\<And>x sv. P (sv_store sv) \<Longrightarrow> P (sv_store (g x sv))"
  shows "P (sv_store (snd (case r of (Inl e, sv1) \<Rightarrow> (f e, sv1) | (Inr x, sv1) \<Rightarrow> (h x, g x sv1))))"
  using assms by (cases r; cases "fst r") auto

lemma built: "P (sv_store sv) \<Longrightarrow> P (sv_store (snd (build_and_persist p ts sender room v ty sk content red sv)))"
proof -
  assume P: "P (sv_store sv)"
  have "P s1" if ev: "buildEvent p ts sender room v ty sk content red (sv_store sv) = Inr ev"
    and r: "persistEvent p ev v (sv_store sv) = (x, s1)" for ev x s1
  proof -
    have b: "client_built p l ts sender room v (sv_store sv) ev" using ev by (auto simp: client_built_def)
    then have "client_stored p l ts sender room v (sv_store sv) ev" by (auto simp: client_stored_def)
    from event_stored [OF P this, of "stringField ev ''room_id''" None] b r show ?thesis by simp
  qed
  then show ?thesis using P by (auto simp: build_and_persist_def split: sum.split prod.split)
qed

lemma message: "P (sv_store sv) \<Longrightarrow> P (sv_store (snd (buildAndPersistMessage p ts sender room ty content sv)))"
  by (simp add: buildAndPersistMessage_def built split: option.split)

lemma state_event: "P (sv_store sv) \<Longrightarrow> P (sv_store (snd (buildAndPersistState p ts sender room ty sk content sv)))"
  by (simp add: buildAndPersistState_def built split: option.split sum.split)

lemma member_stored: "P (sv_store sv) \<Longrightarrow> P (sv_store (snd (persist_member p l ts sender room v target content sv)))"
proof -
  assume P: "P (sv_store sv)"
  show ?thesis
  proof (cases "buildEvent p ts sender room v ''m.room.member'' (Some target) (JObj content) [] (sv_store sv)")
    case (Inr ev)
    define r where "r = (if has_membership content MembershipInvite \<and> \<not> IsLocalUser p target
      then SendRemoteInvite p (invite_v2 l target ev) (invite_v1 l target ev) target ev v else (Inr ev, False))"
    have "client_built p l ts sender room v (sv_store sv) ev" unfolding client_built_def using Inr by blast
    then have "client_stored p l ts sender room v (sv_store sv) ev1" if "fst r = Inr ev1" for ev1
      unfolding client_stored_def using that
      by (intro exI [of _ ev] conjI) (auto simp: r_def split: if_splits)
    then have 1: "P (snd (persistEventInRoom p ev1 v room m (sv_store sv)))" if "fst r = Inr ev1" for ev1 m
      using event_stored [OF P] that by blast
    show ?thesis
    proof (cases "fst r")
      case e: (Inr ev1)
      obtain x s1 where "persistEventInRoom p ev1 v room (member_row p room target content ev) (sv_store sv) = (x, s1)"
        by fastforce
      moreover from this have "P s1" using 1 [OF e] by (metis snd_conv)
      ultimately show ?thesis
        unfolding persist_member_def Let_def Inr sum.case r_def [symmetric] case_prod_beta e
        by (cases x) (simp_all add: 1 [OF e] split: option.split)
    qed (unfold persist_member_def Let_def Inr sum.case r_def [symmetric] case_prod_beta, simp add: P)
  qed (simp add: persist_member_def Let_def P)
qed

lemma member_event: "P (sv_store sv) \<Longrightarrow> P (sv_store (snd (sendMemberEventWithContent p l ts sender room target content sv)))"
  by (simp add: sendMemberEventWithContent_def Let_def member_stored split: option.split sum.split)

lemma member_sent: "P (sv_store sv) \<Longrightarrow> P (sv_store (snd (sendMemberEvent p l ts sender room target m reason sv)))"
  by (simp add: sendMemberEvent_def member_event)

lemma guests_removed: "P (sv_store sv) \<Longrightarrow> P (sv_store (kickJoinedGuests p l ts sender room sv))"
  unfolding kickJoinedGuests_def by (rule fold_requests) (simp_all add: member_sent)

lemma message_request: "P (sv_store sv) \<Longrightarrow> P (sv_store (snd (RoomSend p l ts au delayed room ty txn body sv)))"
proof -
  assume P: "P (sv_store sv)"
  have 1: "P (sv_store (snd (if isStateEventType ty then buildAndPersistState p ts u room ty [] c sv
      else buildAndPersistMessage p ts u room ty c sv)))" for u c
    using state_event [OF P] message [OF P] by simp
  show ?thesis
  proof (cases "readEventContent body")
    case (Inr c)
    then show ?thesis
      unfolding RoomSend_def by (simp only: sum.case) (auto simp: P intro!: answered 1 message state_event split: sum.split)
  qed (simp add: RoomSend_def P split: sum.split)
qed

lemma state_put: "P (sv_store sv) \<Longrightarrow> P (sv_store (snd (RoomStatePut p l ts au room ty sk body sv)))"
proof -
  assume P: "P (sv_store sv)"
  show ?thesis
  proof (cases "readEventContent body")
    case (Inr c)
    then show ?thesis
      unfolding RoomStatePut_def
      by (simp only: sum.case Let_def)
        (auto simp: P guests_removed intro!: answered member_event state_event split: sum.split)
  qed (simp add: RoomStatePut_def P)
qed

lemma member_answered: "P (sv_store (snd r)) \<Longrightarrow> P (sv_store (snd (member_reply r)))"
  by (simp add: member_reply_def split: sum.split)

lemma moderated:
  assumes "P (sv_store sv)"
  shows "P (sv_store (snd (RoomKick p l ts au room kb sv)))" and "P (sv_store (snd (RoomBan p l ts au room kb sv)))"
    and "P (sv_store (snd (RoomUnban p l ts au room kb sv)))"
  using assms
  by (simp_all add: RoomKick_def RoomBan_def RoomUnban_def member_answered member_sent split: option.split prod.split sum.split)

lemma redact_request: "P (sv_store sv) \<Longrightarrow> P (sv_store (snd (RoomRedact p l ts au room i txn body sv)))"
proof -
  assume P: "P (sv_store sv)"
  show ?thesis
  proof (cases "readEventContent body")
    case (Inr c)
    then show ?thesis
      unfolding RoomRedact_def Let_def
      by (simp only: sum.case) (auto simp: P intro!: answered built split: sum.split option.split)
  qed (simp add: RoomRedact_def P split: sum.split)
qed

end

subsection \<open>A life of the server\<close>

datatype request =
    Transaction string string "json list" "json list"
  | Send AuthInfo bool string string string req_body
  | Put_State AuthInfo string string string req_body
  | Kick AuthInfo string raw
  | Ban AuthInfo string raw
  | Unban AuthInfo string raw
  | Redact_Event AuthInfo string string string req_body
  | Remote_Member string string string bool string raw
  | Remote_Invite string req_body

fun serve :: "Peers \<Rightarrow> Locals \<Rightarrow> string \<Rightarrow> request \<Rightarrow> Server \<Rightarrow> Server" where
  "serve p l ts (Transaction txn origin pdus edus) sv = snd (SendTransaction p txn origin pdus edus sv)"
| "serve p l ts (Send au delayed room ty txn body) sv = snd (RoomSend p l ts au delayed room ty txn body sv)"
| "serve p l ts (Put_State au room ty sk body) sv = snd (RoomStatePut p l ts au room ty sk body sv)"
| "serve p l ts (Kick au room body) sv = snd (RoomKick p l ts au room body sv)"
| "serve p l ts (Ban au room body) sv = snd (RoomBan p l ts au room body sv)"
| "serve p l ts (Unban au room body) sv = snd (RoomUnban p l ts au room body sv)"
| "serve p l ts (Redact_Event au room i txn body) sv = snd (RoomRedact p l ts au room i txn body sv)"
| "serve p l ts (Remote_Member origin room want omit limit body) sv =
     snd (ingestRemoteMember p origin room want omit limit body sv)"
| "serve p l ts (Remote_Invite origin body) sv = snd (Invite p l origin body sv)"

fun from_client :: "request \<Rightarrow> bool" where
  "from_client (Transaction txn origin pdus edus) = False"
| "from_client (Remote_Member origin room want omit limit body) = False"
| "from_client (Remote_Invite origin body) = False"
| "from_client r = True"

inductive server_life :: "Server \<Rightarrow> Server \<Rightarrow> bool" where
  life_none: "server_life sv sv"
| life_request: "server_life sv sv' \<Longrightarrow> server_life sv (serve p l ts r sv')"

context request_invariant
begin

lemma client_served: "from_client r \<Longrightarrow> P (sv_store sv) \<Longrightarrow> P (sv_store (serve p l ts r sv))"
  by (cases r) (simp_all add: message_request state_put moderated redact_request)

end

text \<open>What the writes keep one by one, every request keeps.\<close>

context store_invariant
begin

lemma stored_redactions: "P s \<Longrightarrow> P (redact_stored row s)"
  by (simp add: redact_stored_def redaction split: option.split)

lemma persisted: "P s \<Longrightarrow> P (snd (persistEventInRoom p ev version room m s))"
  using insert_plain [of s] insert_membership [of s]
  by (auto simp: persistEventInRoom_def Let_def case_prod_beta relation stored_redactions maintained
      split: option.split prod.split)

end

text \<open>The joins, leaves, knocks and invites of other servers, too, make no other writes.\<close>

context store_invariant
begin

lemma remote_stored: "P (sv_store sv) \<Longrightarrow> P (sv_store (store_remote_member version j ev i sv))"
proof -
  assume P: "P (sv_store sv)"
  obtain s1 n where s1: "InsertEvent (sv_store sv) (pdu_row i (pdu_room_id ev) j ev) = (s1, n)" by fastforce
  have "P s1" using insert_plain [OF P] s1 by (metis fst_conv)
  then show ?thesis using P
    by (simp add: store_remote_member_def s1 Let_def remote_membership relation maintained split: option.split)
qed

lemma remote_accepted: "P (sv_store sv) \<Longrightarrow> P (sv_store (accept_remote_member p want version j ev i sv))"
  by (simp add: accept_remote_member_def Let_def remote_stored split: sum.split)

lemma remote_member: "P (sv_store sv) \<Longrightarrow> P (sv_store (snd (ingestRemoteMember p origin room want omit limit body sv)))"
  by (simp add: ingestRemoteMember_def Let_def remote_accepted split: option.split prod.split sum.split)

lemma room_learnt: "P s \<Longrightarrow> P (learn_room p room version s)"
  by (simp add: learn_room_def CreateRoom_def rooms)

lemma invite_stored: "P s \<Longrightarrow> P (fst (store_invite rules ev row resident s))"
  using insert_membership [of s row "Some (invite_membership ev (er_event_id row))" True] outofband [of s row]
  by (auto simp: store_invite_def case_prod_beta Let_def maintained)

lemma invite_accepted: "P (sv_store sv) \<Longrightarrow> P (sv_store (accept_invite p rules version j ev i stripped sv))"
proof -
  assume "P (sv_store sv)"
  then have "P (fst (store_invite rules ev row resident (learn_room p room version (sv_store sv))))" for row resident room
    by (intro invite_stored room_learnt)
  then show ?thesis by (simp add: accept_invite_def Let_def case_prod_beta relation)
qed

lemma remote_invite: "P (sv_store sv) \<Longrightarrow> P (sv_store (snd (Invite p l origin body sv)))"
  by (simp add: Invite_def Let_def case_prod_beta invite_accepted split: req_body.split sum.split option.split)

end

sublocale store_invariant \<subseteq> requests: request_invariant p l P for p l
  by unfold_locales (rule persisted)

fun is_transaction :: "request \<Rightarrow> bool" where
  "is_transaction (Transaction txn origin pdus edus) = True"
| "is_transaction r = False"

context store_invariant
begin

lemma served_alone: "\<not> is_transaction r \<Longrightarrow> P (sv_store sv) \<Longrightarrow> P (sv_store (serve p l ts r sv))"
  using requests.client_served [of r sv p l ts] by (cases r) (simp_all add: remote_member remote_invite)

end

context ingest_invariant
begin

lemma served: "P (sv_store sv) \<Longrightarrow> P (sv_store (serve p l ts r sv))"
  using served_alone [of r sv p l ts] by (cases r) (simp_all add: transaction)

lemma life: "server_life sv sv' \<Longrightarrow> P (sv_store sv) \<Longrightarrow> P (sv_store sv')"
  by (induction rule: server_life.induct) (simp_all add: served)

end


text \<open>
  C31: The tables stay consistent through every transaction, every join, leave, knock and invite of another server and every request
  of a client: one row per event ID, and in every snapshot and in every room's current state one event per type and
  state key.
\<close>

theorem tables_for_life:
  assumes "server_life sv sv'" and "store_ok (sv_store sv)"
  shows "store_ok (sv_store sv')"
  by (rule tables.life [OF assms])


subsection \<open>A life of the example server\<close>

definition ex_locals :: Locals where
  "ex_locals = \<lparr>invite_blocked = (\<lambda>u s. False), appservice_user = (\<lambda>u. False), limited = False,
     has_stripped_state = (\<lambda>r e. False), invite_v2 = (\<lambda>u e. Unreachable), invite_v1 = (\<lambda>u e. Unreachable), any_number = (\<lambda>s. JNull)\<rparr>"

definition ex_user :: AuthInfo where
  "ex_user = \<lparr>au_user = ''@a:there'', au_localpart = ''a''\<rparr>"

text \<open>A message of another server, then a message and a topic of a client.\<close>

definition ex_life :: "Server \<Rightarrow> Server" where
  "ex_life sv =
     serve ex_peers ex_locals [] (Put_State ex_user ''!r'' ''m.room.topic'' [] (Body (JObj [(''topic'', JStr ''t'')])))
       (serve ex_peers ex_locals [] (Send ex_user False ''!r'' ''m.room.message'' ''t1'' (Body (JObj [])))
         (serve ex_peers ex_locals [] (Transaction ''t'' ''there'' [ex_message] []) sv))"

lemma ex_life: "server_life sv (ex_life sv)"
  unfolding ex_life_def by (intro life_request life_none)


theorem tables_for_life_witness: "store_ok (sv_store (ex_life ex_server))"
  using tables_for_life [OF ex_life] ex_store_ok by simp


end
