(* ===== verification/Client_Heads.thy ===== *)
theory Client_Heads
  imports Client_Laws
begin

section \<open>What a client's event does to its room\<close>

text \<open>
  An event of a client is built on the room's extremities, so storing it leaves it as the only one. On a room
  with one head the server refines a simple machine: the head becomes the new event, and the state
  changes in the one entry the event writes, if it writes one.
\<close>

subsection \<open>What a built event reads as\<close>

lemma New_version: "New j (Version rules) = Inr ev \<Longrightarrow> ev_raw ev = j"
  by (auto simp: New_def split: option.splits)

lemma built_reads:
  assumes "BuildForVersion sha sig suffix b srv key version = Inr ev" and "Get version = Some rules"
  shows "PrevEvents ev = b_prev_events b" and "StateKey ev = b_state_key b" and "stringField ev ''type'' = b_type b"
    and "stringField ev ''sender'' = b_sender b" and "Content ev = nonNil (b_content b)"
    and "stringField ev ''room_id'' = b_room_id b"
    and "int64_range (b_depth b) \<Longrightarrow> Depth ev = b_depth b"
proof -
  obtain i where ev: "ev_rules ev = rules"
    "\<And>k. k \<noteq> ''hashes'' \<Longrightarrow> k \<noteq> ''signatures'' \<Longrightarrow> gm_get (ev_fields ev) k = gm_get (built_object b rules i) k"
    using BuildForVersion_fields [OF assms] by metis
  note get = ev(2) built_object_def build_object_get legacy_object_get build_object_room
  have "eventRefs ev ''prev_events'' = b_prev_events b"
    by (cases "EventFormatV1 rules") (simp_all add: get ev(1) eventRefs_legacy eventRefs_strings)
  then show "PrevEvents ev = b_prev_events b" by (simp add: PrevEvents_def)
  show "StateKey ev = b_state_key b" by (cases "b_state_key b") (simp_all add: StateKey_def get)
  show "stringField ev ''type'' = b_type b" "stringField ev ''sender'' = b_sender b" "Content ev = nonNil (b_content b)"
    by (simp_all add: stringField_def string_in_def Content_def get)
  show "stringField ev ''room_id'' = b_room_id b"
    by (auto simp: stringField_def string_in_def get)
  show "int64_range (b_depth b) \<Longrightarrow> Depth ev = b_depth b"
    by (simp add: Depth_def int_field_def get del: dec_int64.simps)
qed

lemma hashed_formats:
  "Get v = Some r \<Longrightarrow> \<not> EventFormatV1 r \<Longrightarrow>
     EventIDFormat r = EventIDSHA256 \<or> EventIDFormat r = EventIDSHA256URLSafe"
  by (auto simp: Get_Some_iff registration_order_def rules_defs)

lemma legacy_event:
  assumes "BuildLegacy sha sig b srv key version local = Inr ev"
  shows "\<exists>e i. ev = e\<lparr>ev_event_id := CHR ''$'' # i\<rparr>"
proof -
  obtain rules where "Get version = Some rules" "EventFormatV1 rules"
    using assms by (cases "Get version") (simp_all add: BuildLegacy_def split: if_splits)
  then obtain r :: "event_error + Event" where
      "(case r of Inl e \<Rightarrow> Inl e | Inr e \<Rightarrow> Inr (e\<lparr>ev_event_id := CHR ''$'' # local @ CHR '':'' # srv\<rparr>)) = Inr ev"
    using assms
    by (cases "hash_and_sign sha sig srv key rules (legacy_object b (CHR ''$'' # local @ CHR '':'' # srv))")
      (simp_all add: BuildLegacy_def Let_def)
  then show ?thesis by (cases r) auto
qed

lemma built_id:
  assumes "BuildForVersion sha sig suffix b srv key version = Inr ev" and "Get version = Some rules"
  shows "EventID sha ev \<noteq> []"
proof (cases "EventFormatV1 rules")
  case True
  then have "BuildLegacy sha sig b srv key version suffix = Inr ev" using assms by (simp add: BuildForVersion_def)
  then obtain e i where "ev = e\<lparr>ev_event_id := CHR ''$'' # i\<rparr>" using legacy_event by blast
  then have "ev_event_id ev = CHR ''$'' # i" by simp
  then show ?thesis by (simp add: EventID_def)
next
  case False
  then have "Build sha sig b srv key version = Inr ev" using assms by (simp add: BuildForVersion_def)
  then obtain rules' signed where "Get version = Some rules'"
    and s': "hash_and_sign sha sig srv key rules' (build_object b rules') = Inr signed"
      "ev_raw ev = signed" "ev_rules ev = rules'" "ev_event_id ev = []"
    by (rule Build_cases)
  then have "rules' = rules" using assms(2) by simp
  note s = s' [unfolded this]
  from hash_and_sign_cases [OF s(1) build_object_ok] obtain ch where
    "SignRedacted sig srv key (JObj (gm_put ''hashes'' (JObj [(''sha256'', JStr ch)]) (build_object b rules))) rules
       = Inr signed" by metis
  from signed_reference_hash [OF this unmarshal_obj_JObj [OF gm_ok_put [OF build_object_ok]]]
  obtain h where "referenceHash sha (ev_raw ev) rules = Inr h" using s(2) by blast
  then show ?thesis
    using hashed_formats [OF assms(2) False] by (elim disjE) (simp_all add: EventID_def s(3,4))
qed

subsection \<open>Storing an event and its room's head\<close>

lemma set_redacted_tables [simp]:
  "db_extremities (SetEventRedactedBy s i r) = db_extremities s"
  "db_snapshots (SetEventRedactedBy s i r) = db_snapshots s"
  "db_room_state (SetEventRedactedBy s i r) = db_room_state s"
  by (simp_all add: SetEventRedactedBy_def)

lemma apply_redaction_tables [simp]:
  "db_extremities (snd (ApplyRedaction s row)) = db_extremities s"
  "db_snapshots (snd (ApplyRedaction s row)) = db_snapshots s"
  "db_room_state (snd (ApplyRedaction s row)) = db_room_state s"
  by (simp_all add: ApplyRedaction_def Let_def split: option.split)

lemma redact_stored_tables [simp]:
  "db_extremities (redact_stored row s) = db_extremities s"
  "db_snapshots (redact_stored row s) = db_snapshots s"
  "db_room_state (redact_stored row s) = db_room_state s"
  by (simp_all add: redact_stored_def split: option.split)

lemma index_relation_tables [simp]:
  "db_extremities (IndexRelationFromRow s row) = db_extremities s"
  "db_snapshots (IndexRelationFromRow s row) = db_snapshots s"
  "db_room_state (IndexRelationFromRow s row) = db_room_state s"
  by (simp_all add: IndexRelationFromRow_def InsertRelation_def split: option.split)

lemma maintain_extremities [simp]: "db_extremities (snd (Maintain row rules s)) = db_extremities s"
proof (cases "maintain_tx row rules s")
  case (Inr t)
  then show ?thesis using maintain_tx_frame [OF Inr] by (simp add: Maintain_def WithRoomWrite_def)
qed (simp add: Maintain_def WithRoomWrite_def)

lemma membership_tables [simp]:
  "db_extremities (UpsertMembership s m) = db_extremities s"
  "db_snapshots (UpsertMembership s m) = db_snapshots s"
  "db_room_state (UpsertMembership s m) = db_room_state s"
  by (simp_all add: UpsertMembership_def)

text \<open>The store before the maintenance of the state, with and without a membership.\<close>

definition stored_row :: "EventRow \<Rightarrow> MembershipRow option \<Rightarrow> Store \<Rightarrow> Store" where
  "stored_row row m s =
     (case m of None \<Rightarrow> fst (InsertEvent s row) | Some r \<Rightarrow> fst (InsertEventWithMembership s row (Some r) True))"

lemma update_extremities_tables [simp]:
  "db_snapshots (UpdateExtremitiesForEvent s room i ps d) = db_snapshots s"
  "db_room_state (UpdateExtremitiesForEvent s room i ps d) = db_room_state s"
  using UpdateExtremities_tables [of s room i ps d] by auto

lemma stored_row_tables [simp]:
  "db_snapshots (stored_row row m s) = db_snapshots s" "db_room_state (stored_row row m s) = db_room_state s"
  by (simp_all add: stored_row_def InsertEventWithMembership_def case_prod_beta Let_def split: option.split)

lemma stored_row_head:
  assumes "row_prev_events row = map fe_event_id (TxForwardExtremities s (er_room_id row))"
  shows "map fe_event_id (TxForwardExtremities (stored_row row m s) (er_room_id row)) = [er_event_id row]"
proof -
  have same: "TxForwardExtremities s' r = TxForwardExtremities s r" if "db_extremities s' = db_extremities s" for s' r
    using that by (simp add: TxForwardExtremities_def)
  have "map fe_event_id (TxForwardExtremities (UpdateExtremitiesForEvent s' (er_room_id row) (er_event_id row)
      (row_prev_events row) (er_depth row)) (er_room_id row)) = [er_event_id row]"
    if "db_extremities s' = db_extremities s" for s'
    using assms by (simp add: update_extremities_list same [OF that] Let_def filter_empty_conv)
  then show ?thesis
    by (cases m) (simp_all add: stored_row_def InsertEvent_def InsertEventWithMembership_def case_prod_beta Let_def)
qed

lemma persist_split:
  fixes room m
  assumes "persistEventInRoom p ev version room m s = (Inr n, s')"
  obtains row s2 where "row = (event_row p room ev)\<lparr>er_stream := n\<rparr>"
    and "s2 = IndexRelationFromRow (redact_stored row (stored_row (event_row p room ev) m s)) row"
    and "s' = (case Get version of None \<Rightarrow> s2 | Some rules \<Rightarrow> snd (Maintain row rules s2))"
  using assms
  by (cases m)
    (auto simp: persistEventInRoom_def stored_row_def Let_def case_prod_beta split: option.splits prod.splits)

lemma event_row_fields [simp]:
  "room \<noteq> [] \<Longrightarrow> er_room_id (event_row p room ev) = room"
  "er_event_id (event_row p room ev) = EventID (sha256 p) ev"
  "er_type (event_row p room ev) = stringField ev ''type''"
  "er_prev_events (event_row p room ev) = Some (PrevEvents ev)"
  "er_json (event_row p room ev) = ev_raw ev"
  by (simp_all add: event_row_def stateDAGRow_def)

lemma persisted_head:
  assumes "persistEventInRoom p ev version room m s = (Inr n, s')" and "room \<noteq> []"
    and "PrevEvents ev = map fe_event_id (TxForwardExtremities s room)"
  shows "map fe_event_id (TxForwardExtremities s' room) = [EventID (sha256 p) ev]"
proof -
  obtain row s2 where row: "row = (event_row p room ev)\<lparr>er_stream := n\<rparr>"
    and s2: "s2 = IndexRelationFromRow (redact_stored row (stored_row (event_row p room ev) m s)) row"
    and s': "s' = (case Get version of None \<Rightarrow> s2 | Some rules \<Rightarrow> snd (Maintain row rules s2))"
    by (rule persist_split [OF assms(1)])
  have "db_extremities s' = db_extremities (stored_row (event_row p room ev) m s)"
    by (simp add: s' s2 split: option.split)
  moreover have "row_prev_events (event_row p room ev) = map fe_event_id (TxForwardExtremities s room)"
    using assms(3) by (simp add: row_prev_events_def)
  ultimately show ?thesis
    using stored_row_head [of "event_row p room ev" s m] assms(2) by (simp add: TxForwardExtremities_def)
qed

text \<open>The state of a room after an event: its own entry for a state event, nothing for a message.\<close>

definition own_write :: "string \<Rightarrow> string option \<Rightarrow> string \<Rightarrow> state_map \<Rightarrow> state_map" where
  "own_write ty sk i m = (case sk of None \<Rightarrow> m | Some k \<Rightarrow> gm_put (state_key_of ty k) i m)"

lemma same_reads:
  assumes "ev_rules e = ev_rules e'" and "ev_fields e = ev_fields e'"
  shows "PrevEvents e = PrevEvents e'" and "StateKey e = StateKey e'"
  by (simp_all add: PrevEvents_def eventRefs_def StateKey_def assms cong: option.case_cong)

lemma built_row_prevs:
  assumes "BuildForVersion sha sig suffix b srv key version = Inr ev" and "Get version = Some rules"
    and "er_json row = ev_raw ev"
  shows "event_prevs row rules = (b_prev_events b, b_state_key b)"
proof -
  obtain i where ev: "ev_rules ev = rules" "ev_raw ev = JObj (ev_fields ev)" "gm_ok (ev_fields ev)"
    using BuildForVersion_fields [OF assms(1,2)] by metis
  have "Version rules = version" using assms(2) by (simp add: Get_Some_iff)
  then have n: "New (er_json row) (Version rules) = Inr \<lparr>ev_raw = ev_raw ev, ev_fields = ev_fields ev,
      ev_version = version, ev_rules = rules, ev_event_id = []\<rparr>"
    using assms(2,3) ev(2) unmarshal_obj_JObj [OF ev(3)] by (simp add: New_def del: unmarshal_obj.simps)
  let ?e = "\<lparr>ev_raw = ev_raw ev, ev_fields = ev_fields ev, ev_version = version, ev_rules = rules, ev_event_id = []\<rparr>"
  have "PrevEvents ?e = PrevEvents ev" "StateKey ?e = StateKey ev"
    by (rule same_reads; simp add: ev(1))+
  then show ?thesis using built_reads(1,2) [OF assms(1,2)] by (simp add: event_prevs_def n)
qed

lemma persisted_one_head:
  assumes "one_head s room i st" and "Get version = Some rules" and "\<not> StateDAGs rules" and "room \<noteq> []"
    and b: "BuildForVersion (sha256 p) sig suffix b srv key version = Inr ev" "b_prev_events b = [i]"
    and "persistEventInRoom p ev version room m s = (Inr n, s')"
  shows "one_head s' room (EventID (sha256 p) ev) (own_write (b_type b) (b_state_key b) (EventID (sha256 p) ev) st)"
proof -
  obtain row s2 where row: "row = (event_row p room ev)\<lparr>er_stream := n\<rparr>"
    and s2: "s2 = IndexRelationFromRow (redact_stored row (stored_row (event_row p room ev) m s)) row"
    and s': "s' = snd (Maintain row rules s2)"
    by (rule persist_split [OF assms(7)]) (simp add: assms(2))
  have head: "map fe_event_id (TxForwardExtremities s room) = [i]" and "st \<noteq> []" and "store_ok s"
    and rows: "\<exists>rows. TxGetEventState s i = Some rows \<and> stateRowsToMap rows = st"
    using assms(1) by (auto simp: one_head_def)
  have ok: "store_ok s2"
    unfolding s2 stored_row_def
    by (intro tables.relation tables.stored_redactions)
      (simp add: tables.insert_plain tables.insert_membership \<open>store_ok s\<close> split: option.split)
  have fields: "er_room_id row = room" "er_event_id row = EventID (sha256 p) ev" "er_type row = b_type b"
    "er_json row = ev_raw ev"
    using assms(4) built_reads(3) [OF b(1) assms(2)] by (simp_all add: row)
  note prevs = built_row_prevs [OF b(1) assms(2) fields(4)]
  have "row_prev_events (event_row p room ev) = [i]"
    using built_reads(1) [OF b(1) assms(2)] b(2) by (simp add: row_prev_events_def)
  then have "map fe_event_id (TxForwardExtremities (stored_row (event_row p room ev) m s) room) = [EventID (sha256 p) ev]"
    using stored_row_head [of "event_row p room ev" s m] assms(4) head by simp
  then have ext: "map fe_event_id (TxForwardExtremities s2 (er_room_id row)) = [er_event_id row]"
    by (simp add: s2 fields TxForwardExtremities_def)
  have "TxGetEventState s2 i = TxGetEventState s i" by (simp add: s2 TxGetEventState_def)
  then have base: "snapshot_base s2 (er_room_id row) (fst (event_prevs row rules)) rules = Inr st"
    using rows by (auto simp: prevs b(2) snapshot_base_def)
  have "own_entry row (snd (event_prevs row rules)) st
      = own_write (b_type b) (b_state_key b) (EventID (sha256 p) ev) st"
    using built_id [OF b(1) assms(2)] by (simp add: own_entry_def own_write_def prevs fields split: option.split)
  then show ?thesis
    using maintain_one_head [OF ok assms(3) ext base own_entry_nonempty [OF \<open>st \<noteq> []\<close>]]
    by (simp only: fields s')
qed

subsection \<open>Requests and the head of a room\<close>

lemma buildEvent_cases:
  assumes "buildEvent p ts sender room version ty sk content red s = Inr ev"
  obtains rules suffix where "Get version = Some rules"
    and "BuildForVersion (sha256 p) (ed_sign p) suffix (event_builder p ts sender room version ty sk content red s)
           (own_server p) (own_key p) version = Inr ev"
proof -
  have b: "BuildForVersion (sha256 p) (ed_sign p) (random_localpart p (case sk of None \<Rightarrow> [] | Some k \<Rightarrow> k))
      (event_builder p ts sender room version ty sk content red s) (own_server p) (own_key p) version = Inr ev"
    using assms by (auto simp: buildEvent_def split: if_splits sum.splits)
  then obtain rules where "Get version = Some rules" by (cases "Get version") (auto simp: BuildForVersion_def)
  then show thesis using b that by blast
qed

lemma event_builder_fields [simp]:
  "b_prev_events (event_builder p ts sender room v ty sk content red s) = map fe_event_id (TxForwardExtremities s room)"
  "b_type (event_builder p ts sender room v ty sk content red s) = ty"
  "b_state_key (event_builder p ts sender room v ty sk content red s) = sk"
  "b_room_id (event_builder p ts sender room v ty sk content red s) = room"
  "b_sender (event_builder p ts sender room v ty sk content red s) = sender"
  "b_unsigned (event_builder p ts sender room v ty sk content red s) = None"
  "b_content (event_builder p ts sender room v ty sk content red s) = Some content"
  "b_origin_server_ts (event_builder p ts sender room v ty sk content red s) = event_time p ts"
  "b_depth (event_builder p ts sender room v ty sk content red s) = snd (dagTipFor s room)"
  by (simp_all add: event_builder_def dagTipFor_def Let_def)

lemma client_built_place:
  assumes "client_built p l ts sender room version s ev"
  shows "PrevEvents ev = map fe_event_id (TxForwardExtremities s room)" and "stringField ev ''room_id'' = room"
proof -
  obtain ty sk content red where "buildEvent p ts sender room version ty sk content red s = Inr ev"
    using assms by (auto simp: client_built_def)
  then obtain rules suffix where "Get version = Some rules"
    "BuildForVersion (sha256 p) (ed_sign p) suffix (event_builder p ts sender room version ty sk content red s)
       (own_server p) (own_key p) version = Inr ev" by (rule buildEvent_cases)
  from built_reads(1,6) [OF this(2,1)]
  show "PrevEvents ev = map fe_event_id (TxForwardExtremities s room)" "stringField ev ''room_id'' = room" by simp_all
qed

lemma persist_extremities:
  "db_extremities (snd (persistEventInRoom p ev v room m s)) = db_extremities (stored_row (event_row p room ev) m s)"
proof -
  have "db_extremities s3 = db_extremities s2" if "Maintain row rules s2 = (e, s3)" for row rules s2 e s3
    using maintain_extremities [of row rules s2] that by simp
  then show ?thesis
    by (cases m) (auto simp: persistEventInRoom_def stored_row_def Let_def case_prod_beta split: option.split prod.split)
qed

lemma stored_row_other:
  assumes "room \<noteq> er_room_id row"
  shows "TxForwardExtremities (stored_row row m s) room = TxForwardExtremities s room"
proof -
  have "TxForwardExtremities (UpdateExtremitiesForEvent s' (er_room_id row) i ps d) room = TxForwardExtremities s' room"
    for s' i ps d
  proof -
    have "TxForwardExtremities (fold (\<lambda>p s. RemoveForwardExtremity s (er_room_id row) p) ps s') room
        = TxForwardExtremities s' room"
    proof (induction ps arbitrary: s')
      case (Cons q ps)
      have "TxForwardExtremities (RemoveForwardExtremity s' (er_room_id row) q) room = TxForwardExtremities s' room"
        using assms by (auto simp: TxForwardExtremities_def RemoveForwardExtremity_def extremity_key_def intro: filter_cong)
      then show ?case by (simp add: Cons.IH)
    qed simp
    then show ?thesis
      using assms by (simp add: UpdateExtremitiesForEvent_def AddForwardExtremity_def insert_new_def TxForwardExtremities_def)
  qed
  then show ?thesis
    by (cases m)
      (simp_all add: stored_row_def InsertEvent_def InsertEventWithMembership_def case_prod_beta Let_def
        TxForwardExtremities_def)
qed

definition linear_room :: "string \<Rightarrow> Store \<Rightarrow> bool" where
  "linear_room room s \<longleftrightarrow> length (TxForwardExtremities s room) \<le> 1"

text \<open>What the servers of invited users send back stands where the invite stood.\<close>

definition invites_in_place :: "Peers \<Rightarrow> Locals \<Rightarrow> bool" where
  "invites_in_place p l \<longleftrightarrow>
     (\<forall>target ev version ev1.
        fst (SendRemoteInvite p (invite_v2 l target ev) (invite_v1 l target ev) target ev version) = Inr ev1 \<longrightarrow>
        PrevEvents ev1 = PrevEvents ev \<and> stringField ev1 ''room_id'' = stringField ev ''room_id'')"

lemma stored_on_tip:
  assumes "client_stored p l ts sender room version s ev" and "invites_in_place p l"
  shows "PrevEvents ev = map fe_event_id (TxForwardExtremities s room) \<and> stringField ev ''room_id'' = room"
proof -
  obtain ev0 where b: "client_built p l ts sender room version s ev0"
    and e: "ev = ev0 \<or> (\<exists>target. fst (SendRemoteInvite p (invite_v2 l target ev0) (invite_v1 l target ev0) target ev0 version)
                     = Inr ev)"
    using assms(1) unfolding client_stored_def by blast
  have "PrevEvents ev = PrevEvents ev0 \<and> stringField ev ''room_id'' = stringField ev0 ''room_id''"
    using e assms(2) unfolding invites_in_place_def by blast
  then show ?thesis using client_built_place [OF b] by simp
qed

interpretation heads: request_invariant p l "\<lambda>s. invites_in_place p l \<longrightarrow> linear_room room s" for p l room
proof (rule request_invariant.intro, intro impI)
  fix s sender room0 version ev room' m ts
  assume P: "invites_in_place p l \<longrightarrow> linear_room room s" and honest: "invites_in_place p l"
    and st: "client_stored p l ts sender room0 version s ev"
    and r: "room' = room0 \<or> room' = stringField ev ''room_id'' \<and> client_built p l ts sender room0 version s ev"
  note tip = stored_on_tip [OF st honest]
  let ?row = "event_row p room' ev"
  have "room' = room0" using r tip by blast
  then have room0: "er_room_id ?row = room0" using tip by (simp add: event_row_def stateDAGRow_def)
  have "linear_room room (stored_row ?row m s)"
  proof (cases "room = room0")
    case True
    have "map fe_event_id (TxForwardExtremities (stored_row ?row m s) room0) = [er_event_id ?row]"
      using stored_row_head [of ?row s m] tip by (simp add: row_prev_events_def room0)
    from arg_cong [OF this, of length] show ?thesis using True by (simp add: linear_room_def)
  next
    case False
    then show ?thesis using P honest stored_row_other [of room ?row m s] by (simp add: linear_room_def room0)
  qed
  then show "linear_room room (snd (persistEventInRoom p ev version room' m s))"
    by (simp add: linear_room_def TxForwardExtremities_def persist_extremities)
qed

text \<open>
  C29: A client never forks a room: whatever it asks, in whichever room, a room whose graph had at most one forward
  extremity has at most one afterwards, as long as the servers of invited users send an invite back with the
  \<open>prev_events\<close> and the room it was sent with.
\<close>

theorem clients_never_fork:
  assumes "from_client r" and "invites_in_place p l" and "linear_room room (sv_store sv)"
  shows "linear_room room (sv_store (serve p l ts r sv))"
  using heads.client_served [of r p l room sv ts] assms by blast

end
