(* ===== verification/Client_Results.thy ===== *)
theory Client_Results
  imports Client_Heads
begin

section \<open>What a client's request achieves\<close>

subsection \<open>One event\<close>

lemma built_and_persisted:
  assumes "build_and_persist p ts sender room version ty sk content red sv = (Inr ev, sv')"
  obtains n s where "buildEvent p ts sender room version ty sk content red (sv_store sv) = Inr ev"
    and "persistEventInRoom p ev version room None (sv_store sv) = (Inr n, s)"
    and "sv' = announce p room ev 0 (sv\<lparr>sv_store := s\<rparr>)"
proof -
  obtain e where b: "buildEvent p ts sender room version ty sk content red (sv_store sv) = Inr e"
    using assms by (cases "buildEvent p ts sender room version ty sk content red (sv_store sv)")
      (simp_all add: build_and_persist_def)
  obtain r s where r: "persistEvent p e version (sv_store sv) = (r, s)" by fastforce
  obtain n where n: "r = Inr n" using assms b r by (cases r) (simp_all add: build_and_persist_def)
  have e: "e = ev" and sv': "sv' = announce p room ev 0 (sv\<lparr>sv_store := s\<rparr>)"
    using assms b r n by (auto simp: build_and_persist_def)
  have "client_built p l ts sender room version (sv_store sv) ev" for l using b e by (auto simp: client_built_def)
  from client_built_place(2) [OF this] r n e
  have "persistEventInRoom p ev version room None (sv_store sv) = (Inr n, s)" by simp
  then show thesis using that b e sv' by blast
qed


subsection \<open>A message always goes through\<close>

lemma scanned_numbers: "scanNumbers j \<Longrightarrow> numbers_ok j"
proof (induction j rule: scanNumbers.induct)
  case (1 s)
  then show ?case
    by (auto simp: encodeNumber_def maxSafeInt_def max_canonical_int_def split: option.splits)
qed (simp_all add: list_all_iff)

lemma scan_go_any: "scanNumbers j \<Longrightarrow> scanNumbers (go_any j)"
proof (induction j rule: scanNumbers.induct)
  case (3 kvs)
  then have "\<forall>v \<in> snd ` set (map (\<lambda>(k, v). (k, go_any v)) kvs). scanNumbers v"
    by (auto simp: list_all_iff)
  then have "\<forall>v \<in> snd ` set (gm_of (map (\<lambda>(k, v). (k, go_any v)) kvs)). scanNumbers v"
    using gm_of_values [of "map (\<lambda>(k, v). (k, go_any v)) kvs"] by blast
  then show ?case by (auto simp: list_all_iff)
qed (auto simp: list_all_iff)


lemma built_numbers:
  assumes "b_unsigned b = None" and "b_content b = Some c" and "numbers_ok c"
    and "\<bar>b_origin_server_ts b\<bar> \<le> max_canonical_int" and "\<bar>b_depth b\<bar> \<le> max_canonical_int"
  shows "numbers_ok (JObj (built_object b rules i))"
proof -
  have strs: "numbers_ok (json_strings xs)" "numbers_ok (legacyRefs xs)" "numbers_ok (JStr v)" "numbers_ok (JObj [])"
    for xs v by (simp_all add: json_strings_def legacyRefs_def)
  show ?thesis
    unfolding built_object_def legacy_object_def build_object_def setString_def assms(1,2) nonNil_def option.case
    using assms(3) numbers_ok_json_int [OF assms(4)] numbers_ok_json_int [OF assms(5)]
    by (simp only: numbers_ok_put numbers_ok_when strs split: if_split option.split) (simp add: put_when_def)
qed

lemma build_succeeds:
  assumes "Get version = Some rules" and "b_unsigned b = None" and "b_content b = Some c" and "numbers_ok c"
    and "\<bar>b_origin_server_ts b\<bar> \<le> max_canonical_int" and "\<bar>b_depth b\<bar> \<le> max_canonical_int"
  shows "\<exists>ev. BuildForVersion sha sig suffix b srv key version = Inr ev"
proof -
  let ?i = "CHR ''$'' # suffix @ CHR '':'' # srv"
  have "gm_get (built_object b rules ?i) ''signatures'' = None"
    by (simp add: built_object_def legacy_object_def build_object_def setString_def
        gm_get_put put_when_get del: gm_put.simps split: option.split)
  moreover have ok: "gm_ok (built_object b rules ?i)" by (simp add: built_object_def)
  ultimately obtain signed where s: "hash_and_sign sha sig srv key rules (built_object b rules ?i) = Inr signed"
    using hash_and_sign_succeeds built_numbers [OF assms(2-6)] by blast
  from hash_and_sign_cases [OF s ok] obtain m where "signed = JObj m" by blast
  then show ?thesis
    using s assms(1)
    by (cases "EventFormatV1 rules")
      (simp_all add: BuildForVersion_def BuildLegacy_def Build_def New_def built_object_def Let_def)
qed

lemma persist_succeeds:
  assumes "store_ok s" and "Get version = Some rules" and "\<not> StateDAGs rules"
  shows "\<exists>n s'. persistEventInRoom p ev version room m s = (Inr n, s')"
proof -
  have "store_ok (IndexRelationFromRow (redact_stored row (stored_row r m s)) row)" for r row
    unfolding stored_row_def
    by (intro tables.relation tables.stored_redactions)
      (simp add: tables.insert_plain tables.insert_membership assms(1) split: option.split)
  then have main: "\<exists>s'. Maintain row rules (IndexRelationFromRow (redact_stored row (stored_row r m s)) row) = (None, s')"
    for r row by (rule maintain_cases [OF _ assms(3)]) blast
  let ?r = "event_row p room ev"
  define n where "n = (case m of None \<Rightarrow> snd (InsertEvent s ?r) | Some a \<Rightarrow> snd (InsertEventWithMembership s ?r (Some a) True))"
  let ?row = "?r\<lparr>er_stream := n\<rparr>"
  obtain s' where "Maintain ?row rules (IndexRelationFromRow (redact_stored ?row (stored_row ?r m s)) ?row) = (None, s')"
    using main by blast
  then have "persistEventInRoom p ev version room m s = (Inr n, s')"
    by (cases m) (simp_all add: persistEventInRoom_def stored_row_def n_def Let_def case_prod_beta assms(2))
  then show ?thesis by blast
qed

text \<open>A new event is stored as it was built.\<close>

lemma persisted_row:
  assumes "persistEventInRoom p ev version room m s = (Inr n, s')" and "TxGetEvent s (EventID (sha256 p) ev) = None"
  shows "\<exists>e. TxGetEvent s' (EventID (sha256 p) ev) = Some e \<and> er_room_id e = er_room_id (event_row p room ev)
     \<and> er_type e = stringField ev ''type'' \<and> er_sender e = stringField ev ''sender'' \<and> er_content e = Some (Content ev)
     \<and> er_depth e = Depth ev"
proof -
  let ?i = "EventID (sha256 p) ev"
  obtain row s2 where row: "row = (event_row p room ev)\<lparr>er_stream := n\<rparr>"
    and s2: "s2 = IndexRelationFromRow (redact_stored row (stored_row (event_row p room ev) m s)) row"
    and s': "s' = (case Get version of None \<Rightarrow> s2 | Some rules \<Rightarrow> snd (Maintain row rules s2))"
    by (rule persist_split [OF assms(1)])
  define e where "e = (event_row p room ev)\<lparr>er_stream := db_next_stream s, er_prev_events := None\<rparr>"
  have "TxGetEvent (fst (insert_event_row s (event_row p room ev))) ?i = Some e"
    using assms(2) by (simp add: insert_event_row_def TxGetEvent_def find_append e_def)
  then have "still_stored ?i e (fst (insert_event_row s (event_row p room ev)))" by (simp add: still_stored_def)
  then have "still_stored ?i e (stored_row (event_row p room ev) m s)"
    by (auto simp: stored_row_def InsertEvent_def InsertEventWithMembership_def case_prod_beta Let_def
        stored.update_extremities stored.upsert_membership split: option.split)
  then have "still_stored ?i e s'"
    by (simp add: s' s2 stored.relation stored.stored_redactions stored.maintained split: option.split)
  then obtain e' where e': "TxGetEvent s' ?i = Some e'"
    and same: "e'\<lparr>er_redacted := er_redacted e, er_redacted_by := er_redacted_by e\<rparr> = e" by (auto simp: still_stored_def)
  have "er_room_id e' = er_room_id e" "er_type e' = er_type e" "er_sender e' = er_sender e"
    "er_content e' = er_content e" "er_depth e' = er_depth e"
    using arg_cong [OF same, of er_room_id] arg_cong [OF same, of er_type] arg_cong [OF same, of er_sender]
      arg_cong [OF same, of er_content] arg_cong [OF same, of er_depth] by simp_all
  then show ?thesis using e' by (simp add: e_def event_row_def stateDAGRow_def)
qed

lemma event_persisted:
  assumes "store_ok (sv_store sv)" and "Get version = Some rules" and "\<not> StateDAGs rules" and "numbers_ok content"
    and "\<bar>event_time p ts\<bar> \<le> max_canonical_int" and "\<bar>snd (dagTipFor (sv_store sv) room)\<bar> \<le> max_canonical_int"
  shows "\<exists>ev sv'. build_and_persist p ts sender room version ty sk content red sv = (Inr ev, sv')"
proof -
  let ?b = "event_builder p ts sender room version ty sk content red (sv_store sv)"
  let ?suffix = "random_localpart p (case sk of None \<Rightarrow> [] | Some k \<Rightarrow> k)"
  have "\<exists>ev. BuildForVersion (sha256 p) (ed_sign p) ?suffix ?b (own_server p) (own_key p) version = Inr ev"
    by (rule build_succeeds [OF assms(2), of _ content]) (use assms(4-6) in simp_all)
  then obtain ev where "BuildForVersion (sha256 p) (ed_sign p) ?suffix ?b (own_server p) (own_key p) version = Inr ev"
    by blast
  then have ev: "buildEvent p ts sender room version ty sk content red (sv_store sv) = Inr ev"
    by (simp add: buildEvent_def assms(2,3))
  obtain n s where "persistEvent p ev version (sv_store sv) = (Inr n, s)"
    using persist_succeeds [OF assms(1-3)] by blast
  then show ?thesis by (simp add: build_and_persist_def ev)
qed


subsection \<open>State is checked before it is sent\<close>

lemma state_event_checked:
  assumes "buildAndPersistState p ts sender room ty sk content sv = (Inr ev, sv')"
  obtains r rules where "GetRoom (sv_store sv) room = Some r" and "Get (rr_version r) = Some rules"
    and "validateCanonicalAlias (sv_store sv) ty room content = Inr ()"
    and "check_power_levels (sv_store sv) rules room ty content = Inr ()"
    and "ty \<noteq> ''m.room.create''"
    and "Authorize (ed_verify p) rules ty sk sender (Some content) (buildStateSnapshot sv room sk sender content) True = Inr ()"
  using assms
  by (auto simp: buildAndPersistState_def state_checks_def split: option.splits sum.splits if_splits)

text \<open>
  C28: A client's state event other than a member event is sent only when its sender is joined and has the level the
  room's power levels ask of a state event of its type; a create event is never sent.
\<close>

theorem client_state_authorised:
  assumes "buildAndPersistState p ts sender room ty sk content sv = (Inr ev, sv')" and "ty \<noteq> ''m.room.member''"
  shows "\<exists>r rules create pl. GetRoom (sv_store sv) room = Some r \<and> Get (rr_version r) = Some rules
     \<and> ty \<noteq> ''m.room.create''
     \<and> (let st = buildStateSnapshot sv room sk sender content
        in ParseCreate (ss_create st) = Inr create \<and> effective_power_levels create st = Inr pl
          \<and> membership_in (ss_sender_member st) = Some MembershipJoin
          \<and> EventLevel pl ty True \<le> user_level rules create st pl sender)"
proof -
  obtain r rules where c: "GetRoom (sv_store sv) room = Some r" "Get (rr_version r) = Some rules" "ty \<noteq> ''m.room.create''"
    "Authorize (ed_verify p) rules ty sk sender (Some content) (buildStateSnapshot sv room sk sender content) True = Inr ()"
    by (rule state_event_checked [OF assms(1)])
  from accepted_sender [OF c(4,3) assms(2)] c(1-3) show ?thesis by (auto simp: Let_def)
qed

text \<open>
  The power levels a client sends are bounded: every level of a user that reads as a number lies between 0 and
  2^53 - 1, and is no string where the room version forbids that; in a room whose creators are privileged none of
  them is listed.
\<close>

theorem client_levels_bounded:
  assumes "buildAndPersistState p ts sender room ''m.room.power_levels'' sk content sv = (Inr ev, sv')"
    and "dec_struct level_fields content \<lparr>lf_users = [], lf_events = [], lf_notifications = [], lf_users_default = None,
           lf_events_default = None, lf_state_default = None, lf_ban = None, lf_kick = None, lf_redact = None,
           lf_invite = None\<rparr> = (True, f)"
    and "(user, Some j) \<in> set (lf_users f)" and "number_of j = Some n"
  shows "\<exists>r rules x. GetRoom (sv_store sv) room = Some r \<and> Get (rr_version r) = Some rules
     \<and> parse_float64 n = Some x \<and> 0 \<le> x \<and> x \<le> of_int maxSafeInt \<and> (StrictPowerLevels rules \<longrightarrow> \<not> is_string j)
     \<and> (CreatorPrivileged rules \<and> fst (dec_struct [(''users'', dec_map None dec_raw)] content []) \<longrightarrow>
          fst ` set (snd (dec_struct [(''users'', dec_map None dec_raw)] content []))
            \<inter> set (privileged_creators (sv_store sv) room) = {})"
proof -
  obtain r rules where r: "GetRoom (sv_store sv) room = Some r" "Get (rr_version r) = Some rules"
    and c: "check_power_levels (sv_store sv) rules room ''m.room.power_levels'' content = Inr ()"
    by (rule state_event_checked [OF assms(1)])
  have v: "validatePowerLevelIntegers rules content"
    and l: "CreatorPrivileged rules \<Longrightarrow> \<not> rejectCreatorInPowerLevels (sv_store sv) room content"
    using c by (auto simp: check_power_levels_def split: if_splits)
  have "level_ok (StrictPowerLevels rules) (Some j)"
    using v assms(2,3) by (force simp: validatePowerLevelIntegers_def list_all_iff)
  then obtain x where x: "parse_float64 n = Some x" "0 \<le> x" "x \<le> of_int maxSafeInt"
    "StrictPowerLevels rules \<longrightarrow> \<not> is_string j"
    using assms(4) by (auto simp: level_ok_def split: option.splits)
  have "fst ` set (snd (dec_struct [(''users'', dec_map None dec_raw)] content []))
      \<inter> set (privileged_creators (sv_store sv) room) = {}"
    if "CreatorPrivileged rules" "fst (dec_struct [(''users'', dec_map None dec_raw)] content [])"
    using l [OF that(1)] that(2)
    by (cases "privileged_creators (sv_store sv) room = []")
      (auto simp: rejectCreatorInPowerLevels_def case_prod_beta list_ex_iff)
  then show ?thesis using r x by blast
qed

lemma check_aliases_iff: "check_aliases s room as = Inr () \<longleftrightarrow>
    (\<forall>a \<in> set as. LookupAlias s a = Some room \<and> \<not> isl (ParseRoomAlias a))"
  by (induction "as") (auto simp: validateAliasForRoom_def split: option.splits sum.splits if_splits)

text \<open>
  A client's canonical alias event is sent only when every alias it names, the alternatives included, is a
  well-formed alias of this server's directory that leads to the room.
\<close>

theorem canonical_alias_resolves:
  assumes "buildAndPersistState p ts sender room ''m.room.canonical_alias'' sk content sv = (Inr ev, sv')"
  shows "\<exists>c. ParseCanonicalAlias (Some content) = Inr c
     \<and> (\<forall>a. a = ca_alias c \<and> a \<noteq> [] \<or> a \<in> set (ca_alt_aliases c) \<longrightarrow>
          LookupAlias (sv_store sv) a = Some room \<and> \<not> isl (ParseRoomAlias a))"
proof -
  obtain r rules where "validateCanonicalAlias (sv_store sv) ''m.room.canonical_alias'' room content = Inr ()"
    by (rule state_event_checked [OF assms])
  then show ?thesis
    by (auto simp: validateCanonicalAlias_def check_aliases_iff split: sum.splits if_splits)
qed

subsection \<open>Transactions of clients\<close>

lemma recorded_txn:
  assumes "GetTxnEventID sv lp room txn = []" and "\<forall>t \<in> set (sv_client_txns sv). snd t \<noteq> []"
  shows "GetTxnEventID (RecordTxnEventID lp room txn i sv) lp room txn = i"
proof -
  have "map_of (sv_client_txns sv) (lp, room, txn) = None"
  proof (cases "map_of (sv_client_txns sv) (lp, room, txn)")
    case (Some j)
    from map_of_SomeD [OF this] have "j \<noteq> []" using assms(2) by force
    then show ?thesis using assms(1) Some by (simp add: GetTxnEventID_def)
  qed
  moreover from this have "(lp, room, txn) \<notin> fst ` set (sv_client_txns sv)" by (simp add: map_of_eq_None_iff)
  ultimately show ?thesis
    by (simp add: GetTxnEventID_def RecordTxnEventID_def insert_new_def map_add_def)
qed

lemma fold_server_txns: "(\<And>x sv. sv_client_txns (f x sv) = sv_client_txns sv) \<Longrightarrow>
    sv_client_txns (fold f xs sv) = sv_client_txns sv"
  by (induction xs arbitrary: sv) simp_all

lemma persist_memberships:
  assumes "persistEventInRoom p ev version room None s = (Inr n, s')"
  shows "db_memberships s' = db_memberships s"
proof -
  have redacted: "db_memberships (redact_stored row s) = db_memberships s" for row s
    by (simp add: redact_stored_def ApplyRedaction_def SetEventRedactedBy_def Let_def split: option.split)
  have indexed: "db_memberships (IndexRelationFromRow s row) = db_memberships s" for row s
    by (simp add: IndexRelationFromRow_def InsertRelation_def split: option.split)
  have "db_memberships (UpdateExtremitiesForEvent s r i ps d) = db_memberships s" for s r i ps d
    using UpdateExtremities_tables [of s r i ps d] by auto
  then have inserted: "db_memberships (stored_row row None s) = db_memberships s" for row
    by (simp add: stored_row_def InsertEvent_def insert_event_row_def case_prod_beta split: option.split)
  show ?thesis
    by (rule persist_split [OF assms])
      (simp add: redacted indexed inserted maintain_memberships split: option.split)
qed

lemma build_and_persist_frame:
  "sv_client_txns (snd (build_and_persist p ts sender room v ty sk content red sv)) = sv_client_txns sv"
  "fst (build_and_persist p ts sender room v ty sk content red sv) = Inr ev \<Longrightarrow>
     db_memberships (sv_store (snd (build_and_persist p ts sender room v ty sk content red sv)))
       = db_memberships (sv_store sv)"
proof -
  show "sv_client_txns (snd (build_and_persist p ts sender room v ty sk content red sv)) = sv_client_txns sv"
    by (auto simp: build_and_persist_def announce_def log_call_def split: sum.split prod.split)
  assume "fst (build_and_persist p ts sender room v ty sk content red sv) = Inr ev"
  then have "build_and_persist p ts sender room v ty sk content red sv
      = (Inr ev, snd (build_and_persist p ts sender room v ty sk content red sv))" by (metis prod.collapse)
  then show "db_memberships (sv_store (snd (build_and_persist p ts sender room v ty sk content red sv)))
      = db_memberships (sv_store sv)"
    by (rule built_and_persisted) (simp add: persist_memberships)
qed

text \<open>
  A message is sent once: when a client repeats a transaction ID in the room, whatever the type and content
  this time, it gets the ID of the first event and nothing changes.
\<close>

theorem repeated_transaction:
  assumes "RoomSend p l ts au False room ty txn body sv = (Sent i, sv')" and "i \<noteq> []"
    and "\<forall>t \<in> set (sv_client_txns sv). snd t \<noteq> []"
  shows "RoomSend p' l' ts' au False room ty' txn body' sv' = (Sent i, sv')"
proof (cases "GetTxnEventID sv (au_localpart au) room txn = []")
  case False
  then show ?thesis using assms(1) by (auto simp: RoomSend_def split: sum.splits)
next
  case True
  obtain c where c: "readEventContent body = Inr c" and joined: "checkMembership (sv_store sv) room (au_user au) MembershipJoin = Inr ()"
    using assms(1) True by (auto simp: RoomSend_def split: sum.splits if_splits)
  define r where "r = (if isStateEventType ty then buildAndPersistState p ts (au_user au) room ty [] c sv
      else buildAndPersistMessage p ts (au_user au) room ty c sv)"
  have txns: "sv_client_txns (snd r) = sv_client_txns sv"
    by (simp add: r_def buildAndPersistState_def buildAndPersistMessage_def build_and_persist_frame(1)
        split: option.split sum.split)
  have members: "db_memberships (sv_store (snd r)) = db_memberships (sv_store sv)" if "fst r = Inr ev" for ev
    using that
    by (auto simp: r_def buildAndPersistState_def buildAndPersistMessage_def build_and_persist_frame(2)
        split: option.splits sum.splits if_splits)
  have "(case r of (Inl e, sv1) \<Rightarrow> (Refused e, sv1)
      | (Inr ev, sv1) \<Rightarrow> (Sent (EventID (sha256 p) ev), if False then sv1
          else RecordTxnEventID (au_localpart au) room txn (EventID (sha256 p) ev) sv1)) = (Sent i, sv')"
    using assms(1) True unfolding RoomSend_def c sum.case r_def [symmetric] by (simp split: sum.splits if_splits)
  then obtain ev where "fst r = Inr ev" and sv': "sv' = RecordTxnEventID (au_localpart au) room txn i (snd r)"
    by (cases r; cases "fst r") auto
  then have "checkMembership (sv_store sv') room (au_user au) MembershipJoin = Inr ()"
    using joined members by (simp add: checkMembership_def GetMembership_def)
  moreover have "GetTxnEventID sv' (au_localpart au) room txn = i"
    using recorded_txn [of "snd r" "au_localpart au" room txn i] True assms(3) txns
    by (simp add: GetTxnEventID_def sv')
  ultimately show ?thesis using assms(2) by (simp add: RoomSend_def)
qed

subsection \<open>Invites that come back\<close>

text \<open>
  C34: What an invited user's server sends back replaces the invite only under the invite's own event ID.
\<close>

theorem invite_keeps_id:
  assumes "SendRemoteInvite p v2 v1 target ev version = (Inr ev1, queued)"
  shows "EventID (sha256 p) ev1 = EventID (sha256 p) ev \<and> (queued \<longrightarrow> ev1 = ev)"
proof -
  have once: "\<exists>e. New j version = Inr e \<and> EventID (sha256 p) e = EventID (sha256 p) ev"
    if "sendRemoteInviteOnce p w version (EventID (sha256 p) ev) a = Inr (Some j)" for w a j
    using that
    by (auto simp: sendRemoteInviteOnce_def signed_invite_def Let_def
        split: invite_answer.splits if_splits option.splits sum.splits prod.splits)
  show ?thesis
  proof (cases "userDomain target = [] \<or> userDomain target = own_server p")
    case True
    then show ?thesis using assms by (simp add: SendRemoteInvite_def Let_def)
  next
    case False
    define r where "r = (case sendRemoteInviteOnce p False version (EventID (sha256 p) ev) v2 of
         Inl e \<Rightarrow> if isUnknownInviteEndpoint e \<and> roomverRulesV1V2 version
                  then sendRemoteInviteOnce p True version (EventID (sha256 p) ev) v1 else Inl e
       | Inr x \<Rightarrow> Inr x)"
    have r: "\<exists>e. New j version = Inr e \<and> EventID (sha256 p) e = EventID (sha256 p) ev" if "r = Inr (Some j)" for j
      using that once by (auto simp: r_def split: sum.splits if_splits)
    have "(case r of Inr None \<Rightarrow> (Inr ev, False)
           | Inr (Some j) \<Rightarrow> ((case New j version of Inl _ \<Rightarrow> Inl BadInvite | Inr e \<Rightarrow> Inr e), False)
           | Inl e \<Rightarrow> if isInviteTransportError e then (Inr ev, True) else (Inl e, False)) = (Inr ev1, queued)"
      using assms False by (simp add: SendRemoteInvite_def Let_def r_def)
    then show ?thesis using r
      by (cases r) (auto split: option.splits if_splits)
  qed
qed

text \<open>
  In the room versions whose events carry their ID in a field the server of an invited user is free to answer
  with any event under that ID, whatever its sender, type, state key and signatures: it is stored in the place
  of the invite.
\<close>

theorem legacy_invite_replaced:
  assumes "userDomain target \<noteq> []" and "userDomain target \<noteq> own_server p"
    and "Get version = Some rules" and "EventIDFormat rules = EventIDLegacy" and "\<not> AtLeast version 6"
    and "New (JObj forged) version = Inr ev1" and "stringField ev1 ''event_id'' = EventID (sha256 p) ev"
  shows "SendRemoteInvite p (Answer 200 (Some (JObj [(''event'', JObj forged)]))) v1 target ev version = (Inr ev1, False)"
proof -
  have "EventID (sha256 p) ev1 = EventID (sha256 p) ev"
    using assms(3,4,6,7) by (auto simp: New_def EventID_def split: option.splits)
  then have "signed_invite p version (EventID (sha256 p) ev) (Some (JObj [(''event'', JObj forged)])) = Some (JObj forged)"
    by (simp add: signed_invite_def assms(6))
  then show ?thesis
    using assms(1,2,5,6) by (simp add: SendRemoteInvite_def sendRemoteInviteOnce_def Let_def)
qed

subsection \<open>Pagination tokens\<close>

lemma fold_digits:
  "digits_val a ds = Some v \<Longrightarrow>
     fold (\<lambda>c n. n * 10 + word_of_int (digit_val c)) ds (word_of_int a) = (word_of_int v :: 64 word)"
proof (induction ds arbitrary: a)
  case (Cons c ds)
  then have "digits_val (10 * a + digit_val c) ds = Some v" by (simp split: if_splits)
  from Cons.IH [OF this] show ?case by (simp add: mult.commute)
qed simp

lemma digit_not: "is_digit c \<Longrightarrow> c \<noteq> CHR ''t'' \<and> c \<noteq> CHR ''s'' \<and> c \<noteq> CHR ''-''"
  by (auto simp: is_digit_def less_eq_char_def)

lemma token_digits:
  assumes "0 \<le> v"
  shows "parseIntToken (CHR ''s'' # show_digits v) = Some (word_of_int v)"
    and "parseIntToken (''s-'' @ show_digits v) = Some (- word_of_int v)"
proof -
  have ds: "\<And>c. c \<in> set (show_digits v) \<Longrightarrow> is_digit c" using show_digits_digits [OF assms] .
  then have t: "CHR ''t'' \<notin> set (show_digits v)" using digit_not by blast
  then have i: "index_byte (CHR ''t'') (show_digits v) = None" by (simp add: index_byte_None_iff)
  obtain c r where cr: "show_digits v = c # r" by (cases "show_digits v") simp_all
  then have "\<not> has_prefix (show_digits v) ''-''" using ds [of c] digit_not by auto
  moreover have "list_all is_digit (show_digits v)" using ds by (simp add: list_all_iff)
  moreover have "fold (\<lambda>c n. n * 10 + word_of_int (digit_val c)) (show_digits v) 0 = (word_of_int v :: 64 word)"
    using fold_digits [OF digits_val_show_digits [OF assms]] by simp
  ultimately show "parseIntToken (CHR ''s'' # show_digits v) = Some (word_of_int v)"
    "parseIntToken (''s-'' @ show_digits v) = Some (- word_of_int v)"
    using i by (simp_all add: parseIntToken_def Let_def)
qed

text \<open>
  A sync position survives its token: every 64-bit position reads back from the token it is written as, except the
  least one, which has no positive counterpart and reads back as 0.
\<close>

theorem token_roundtrip:
  "parseIntToken (formatIntToken n) = Some (if n = 0x8000000000000000 then 0 else n)"
proof (cases "sint n < 0")
  case False
  have "show_digits 0 = ''0''" by code_simp
  then have "formatIntToken n = CHR ''s'' # show_digits (sint n)" using False by (auto simp: formatIntToken_def not_less)
  moreover have "n \<noteq> 0x8000000000000000" using False by auto
  ultimately show ?thesis using False token_digits(1) [of "sint n"] by simp
next
  case True
  show ?thesis
  proof (cases "sint n = - (2 ^ 63)")
    case least: True
    have "n = word_of_int (sint n)" by simp
    then have n: "n = 0x8000000000000000" unfolding least by simp
    have "parseIntToken (formatIntToken 0x8000000000000000) = Some 0" by code_simp
    then show ?thesis unfolding n by (simp only: refl if_True)
  next
    case False
    have "- (2 ^ 63) \<le> sint n" using sint_greater_eq [of n] by simp
    then have "sint (- n) = - sint n"
      using True False by (simp add: sint_word_ariths signed_take_bit_int_eq_self)
    then have "formatIntToken n = ''s-'' @ show_digits (sint (- n))" "0 \<le> sint (- n)"
      using True by (simp_all add: formatIntToken_def)
    moreover have "n \<noteq> 0x8000000000000000" using False by auto
    ultimately show ?thesis using token_digits(2) [of "sint (- n)"] by simp
  qed
qed

end
