(* ===== verification/Client_Examples.thy ===== *)
theory Client_Examples
  imports Client_Results
begin

section \<open>A client of the small server\<close>

text \<open>The concrete runs the theorems on clients are applied to.\<close>

text \<open>The room with its member, an alias, and the members' levels: a message asks for more than the member has.\<close>

definition ex_muting :: json where
  "ex_muting = JObj [(''events_default'', JNum ''100''), (''users'', JObj [(''@a:there'', JNum ''0'')])]"

definition ex_membership :: MembershipRow where
  "ex_membership = \<lparr>mr_room_id = ''!r'', mr_user_id = ''@a:there'', mr_membership = ''join'', mr_event_id = ''$m'',
     mr_display_name = [], mr_avatar_url = [], mr_forgotten = False, mr_stream = 2, mr_depth = 2\<rparr>"

definition ex_muted_store :: Store where
  "ex_muted_store = ex_store\<lparr>db_memberships := [ex_membership],
     db_events := db_events ex_store @ [ex_pdu_row ''$p'' ''m.room.power_levels'' [] ''@a:there'' ex_muting [''$m''] 3],
     db_room_state := Fed_Examples.ex_state @ [ex_entry ''m.room.power_levels'' [] ''$p''],
     db_extremities := [\<lparr>fe_room_id = ''!r'', fe_event_id = ''$p'', fe_depth = 3\<rparr>]\<rparr>"

definition ex_muted :: Server where
  "ex_muted = ex_server\<lparr>sv_store := ex_muted_store\<rparr>"

definition ex_client :: Server where
  "ex_client = ex_server\<lparr>sv_store := ex_store\<lparr>db_memberships := [ex_membership]\<rparr>\<rparr>"

lemma ex_stores [simp]:
  "sv_store ex_muted = ex_muted_store" "sv_client_txns ex_muted = []"
  "sv_store ex_client = ex_store\<lparr>db_memberships := [ex_membership]\<rparr>" "sv_client_txns ex_client = []"
  by (simp_all add: ex_muted_def ex_client_def ex_server_def)

lemma ex_user_sel [simp]: "au_user ex_user = ''@a:there''" "au_localpart ex_user = ''a''"
  by (simp_all add: ex_user_def)

lemma ex_muted_ok: "store_ok ex_muted_store"
proof -
  have "TxGetEventState ex_muted_store i = TxGetEventState ex_store i" for i
    by (simp add: TxGetEventState_def ex_muted_store_def)
  moreover have "TxGetRoomState ex_muted_store room
      = (if room = ''!r'' then Fed_Examples.ex_state @ [ex_entry ''m.room.power_levels'' [] ''$p''] else [])" for room
    by (simp add: TxGetRoomState_def ex_muted_store_def Fed_Examples.ex_state_def ex_entry_def)
  moreover have "rows_distinct (Fed_Examples.ex_state @ [ex_entry ''m.room.power_levels'' [] ''$p''])" "rows_distinct []"
    by (simp_all add: rows_distinct_def Fed_Examples.ex_state_def ex_entry_def)
  moreover have "distinct (map er_event_id (db_events ex_muted_store))"
    by (simp add: ex_muted_store_def ex_store_def ex_pdu_row_def)
  ultimately show ?thesis using ex_store_ok by (metis store_ok_def)
qed

lemma ex_client_ok: "store_ok (sv_store ex_client)"
  by (simp add: store_ok_updates ex_store_ok)

lemma ex_room_rows:
  "GetRoom ex_muted_store ''!r'' = Some ex_room" "GetRoom (sv_store ex_client) ''!r'' = Some ex_room"
  using ex_get_room by (simp_all add: GetRoom_def ex_muted_store_def)

lemma ex_joined_here:
  "checkMembership ex_muted_store ''!r'' ''@a:there'' MembershipJoin = Inr ()"
  "checkMembership (sv_store ex_client) ''!r'' ''@a:there'' MembershipJoin = Inr ()"
  by (simp_all add: checkMembership_def GetMembership_def membership_key_def ex_muted_store_def ex_membership_def
      MembershipJoin_def)

lemma ex_time: "event_time ex_peers [] = 1000"
  by (simp add: event_time_def ex_peers_def)

lemma ex_tips:
  "snd (dagTipFor ex_muted_store ''!r'') = 4" "snd (dagTipFor (sv_store ex_client) ''!r'') = 3"
  by (simp_all add: dagTipFor_def TxForwardExtremities_def ex_muted_store_def ex_store_def)



subsection \<open>Heads\<close>

lemma ex_one_head: "one_head (sv_store ex_client) ''!r'' ''$m'' (state_view ex_store ''!r'')"
proof -
  have "TxGetEventState (sv_store ex_client) ''$m'' = Some Fed_Examples.ex_state"
    by (simp add: TxGetEventState_def ex_store_def Fed_Examples.ex_state_def ex_entry_def)
  moreover have "state_view (sv_store ex_client) ''!r'' = stateRowsToMap Fed_Examples.ex_state"
    "state_view ex_store ''!r'' = stateRowsToMap Fed_Examples.ex_state"
    by (simp_all add: state_view_def TxGetRoomState_def ex_store_def Fed_Examples.ex_state_def ex_entry_def)
  moreover have "stateRowsToMap Fed_Examples.ex_state \<noteq> []" by code_simp
  moreover have "map fe_event_id (TxForwardExtremities (sv_store ex_client) ''!r'') = [''$m'']"
    by (simp add: TxForwardExtremities_def ex_store_def)
  ultimately show ?thesis using ex_client_ok by (simp add: one_head_def)
qed

lemma ex_sent: "\<exists>ev sv'. build_and_persist ex_peers [] ''@a:there'' ''!r'' ''10'' ty sk (JObj []) [] ex_client = (Inr ev, sv')"
  by (rule event_persisted [OF ex_client_ok ex_rules])
    (simp_all only: ex_time ex_tips, simp_all add: max_canonical_int_def)


theorem clients_never_fork_witness:
  "linear_room ''!r'' (sv_store (serve ex_peers ex_locals []
     (Kick ex_user ''!r'' (Some (JObj [(''user_id'', JStr ''@a:there'')]))) ex_client))"
proof (rule clients_never_fork)
  have "fst (SendRemoteInvite ex_peers Unreachable Unreachable target ev v) = Inr ev" for target ev v
    by (simp add: SendRemoteInvite_def sendRemoteInviteOnce_def isUnknownInviteEndpoint_def
        isInviteTransportError_def Let_def)
  then show "invites_in_place ex_peers ex_locals" by (simp add: invites_in_place_def ex_locals_def)
  show "linear_room ''!r'' (sv_store ex_client)"
    by (simp add: linear_room_def TxForwardExtremities_def ex_store_def)
qed simp

subsection \<open>State\<close>

lemma ex_state_sent:
  assumes "state_checks ex_peers ''@a:there'' ''!r'' ''10'' ty [] content sv = Inr ()"
    and "same_state (sv_store sv) ''!r'' ''10'' ty [] content = None"
    and "store_ok (sv_store sv)" and "GetRoom (sv_store sv) ''!r'' = Some ex_room"
    and "snd (dagTipFor (sv_store sv) ''!r'') = 3" and "numbers_ok content"
  shows "\<exists>ev sv'. buildAndPersistState ex_peers [] ''@a:there'' ''!r'' ty [] content sv = (Inr ev, sv')"
proof -
  have "\<exists>ev sv'. build_and_persist ex_peers [] ''@a:there'' ''!r'' ''10'' ty (Some []) content [] sv = (Inr ev, sv')"
    by (rule event_persisted [OF assms(3) ex_rules assms(6)]) (simp_all add: ex_time assms(5) max_canonical_int_def)
  then show ?thesis using assms(1,2,4) by (simp add: buildAndPersistState_def)
qed

theorem client_state_authorised_witness:
  "\<exists>rules create pl. Get ''10'' = Some rules
     \<and> (let st = buildStateSnapshot ex_client ''!r'' [] ''@a:there'' (JObj [(''topic'', JStr ''x'')])
        in ParseCreate (ss_create st) = Inr create \<and> effective_power_levels create st = Inr pl
          \<and> membership_in (ss_sender_member st) = Some MembershipJoin
          \<and> EventLevel pl ''m.room.topic'' True \<le> user_level rules create st pl ''@a:there'')"
proof -
  have "state_checks ex_peers ''@a:there'' ''!r'' ''10'' ''m.room.topic'' [] (JObj [(''topic'', JStr ''x'')]) ex_client = Inr ()"
    "same_state (sv_store ex_client) ''!r'' ''10'' ''m.room.topic'' [] (JObj [(''topic'', JStr ''x'')]) = None"
    by code_simp+
  from ex_state_sent [OF this ex_client_ok ex_room_rows(2) ex_tips(2)] obtain ev sv' where
    "buildAndPersistState ex_peers [] ''@a:there'' ''!r'' ''m.room.topic'' [] (JObj [(''topic'', JStr ''x'')]) ex_client
       = (Inr ev, sv')" by auto
  from client_state_authorised [OF this] ex_room_rows(2) show ?thesis by (auto simp: Let_def)
qed

text \<open>A level for the member, and an alias of the room.\<close>

definition ex_levels :: json where
  "ex_levels = JObj [(''users'', JObj [(''@a:there'', JNum ''100'')])]"

lemma ex_levels_sent:
  "\<exists>ev sv'. buildAndPersistState ex_peers [] ''@a:there'' ''!r'' ''m.room.power_levels'' [] ex_levels ex_client = (Inr ev, sv')"
proof (rule ex_state_sent [OF _ _ ex_client_ok ex_room_rows(2) ex_tips(2)])
  show "state_checks ex_peers ''@a:there'' ''!r'' ''10'' ''m.room.power_levels'' [] ex_levels ex_client = Inr ()"
    by code_simp
  show "same_state (sv_store ex_client) ''!r'' ''10'' ''m.room.power_levels'' [] ex_levels = None" by code_simp
  show "numbers_ok ex_levels" by code_simp
qed

theorem client_levels_bounded_witness: "\<exists>x. parse_float64 ''100'' = Some x \<and> 0 \<le> x \<and> x \<le> of_int maxSafeInt"
proof -
  obtain ev sv' where sent: "buildAndPersistState ex_peers [] ''@a:there'' ''!r'' ''m.room.power_levels'' [] ex_levels ex_client
      = (Inr ev, sv')" using ex_levels_sent by blast
  define f where "f = snd (dec_struct level_fields ex_levels \<lparr>lf_users = [], lf_events = [], lf_notifications = [],
      lf_users_default = None, lf_events_default = None, lf_state_default = None, lf_ban = None, lf_kick = None,
      lf_redact = None, lf_invite = None\<rparr>)"
  have "fst (dec_struct level_fields ex_levels \<lparr>lf_users = [], lf_events = [], lf_notifications = [],
      lf_users_default = None, lf_events_default = None, lf_state_default = None, lf_ban = None, lf_kick = None,
      lf_redact = None, lf_invite = None\<rparr>)" by code_simp
  then have "dec_struct level_fields ex_levels \<lparr>lf_users = [], lf_events = [], lf_notifications = [],
      lf_users_default = None, lf_events_default = None, lf_state_default = None, lf_ban = None, lf_kick = None,
      lf_redact = None, lf_invite = None\<rparr> = (True, f)" by (metis f_def prod.collapse)
  moreover have "(''@a:there'', Some (JNum ''100'')) \<in> set (lf_users f)" unfolding f_def by code_simp
  moreover have "number_of (JNum ''100'') = Some ''100''" by code_simp
  ultimately show ?thesis using client_levels_bounded [OF sent] by blast
qed

definition ex_named :: Server where
  "ex_named = ex_client\<lparr>sv_store := (sv_store ex_client)\<lparr>db_aliases :=
     [\<lparr>al_alias = ''#a:there'', al_room_id = ''!r'', al_creator = ''@a:there'', al_created_ts = 0\<rparr>]\<rparr>\<rparr>"

theorem canonical_alias_resolves_witness: "LookupAlias (sv_store ex_named) ''#a:there'' = Some ''!r''"
proof -
  let ?c = "JObj [(''alias'', JStr ''#a:there'')]"
  have "\<exists>ev sv'. buildAndPersistState ex_peers [] ''@a:there'' ''!r'' ''m.room.canonical_alias'' [] ?c ex_named = (Inr ev, sv')"
  proof (rule ex_state_sent)
    show "state_checks ex_peers ''@a:there'' ''!r'' ''10'' ''m.room.canonical_alias'' [] ?c ex_named = Inr ()" by code_simp
    show "same_state (sv_store ex_named) ''!r'' ''10'' ''m.room.canonical_alias'' [] ?c = None" by code_simp
    show "store_ok (sv_store ex_named)" by (simp add: ex_named_def store_ok_updates ex_store_ok)
    show "GetRoom (sv_store ex_named) ''!r'' = Some ex_room" using ex_get_room by (simp add: ex_named_def GetRoom_def)
    show "snd (dagTipFor (sv_store ex_named) ''!r'') = 3"
      by (simp add: ex_named_def dagTipFor_def TxForwardExtremities_def ex_store_def)
  qed simp
  then obtain ev sv' where
    "buildAndPersistState ex_peers [] ''@a:there'' ''!r'' ''m.room.canonical_alias'' [] ?c ex_named = (Inr ev, sv')" by blast
  from canonical_alias_resolves [OF this] obtain c where "ParseCanonicalAlias (Some ?c) = Inr c"
    and all: "\<forall>a. a = ca_alias c \<and> a \<noteq> [] \<or> a \<in> set (ca_alt_aliases c) \<longrightarrow>
          LookupAlias (sv_store ex_named) a = Some ''!r'' \<and> \<not> isl (ParseRoomAlias a)" by blast
  moreover have "map_option ca_alias (case ParseCanonicalAlias (Some ?c) of Inl _ \<Rightarrow> None | Inr c \<Rightarrow> Some c) = Some ''#a:there''"
    by code_simp
  ultimately have "''#a:there'' = ca_alias c \<and> ''#a:there'' \<noteq> []" by simp
  from all [rule_format, OF disjI1, OF this] show ?thesis by (rule conjunct1)
qed

subsection \<open>Transactions and invites\<close>

theorem repeated_transaction_witness:
  "\<exists>i sv'. RoomSend ex_peers ex_locals [] ex_user False ''!r'' ''m.room.message'' ''t1'' (Body (JObj [])) ex_client = (Sent i, sv')
     \<and> RoomSend ex_peers ex_locals [] ex_user False ''!r'' ''m.room.name'' ''t1'' NoBody sv' = (Sent i, sv')"
proof -
  obtain ev sv1 where "build_and_persist ex_peers [] ''@a:there'' ''!r'' ''10'' ''m.room.message'' None (JObj []) [] ex_client
      = (Inr ev, sv1)" using ex_sent by blast
  moreover have "readEventContent (Body (JObj [])) = Inr (JObj [])" by code_simp
  moreover from calculation(1) have "EventID (sha256 ex_peers) ev \<noteq> []"
    by (rule built_and_persisted) (metis buildEvent_cases built_id)
  ultimately obtain i sv' where "RoomSend ex_peers ex_locals [] ex_user False ''!r'' ''m.room.message'' ''t1'' (Body (JObj []))
      ex_client = (Sent i, sv')" "i \<noteq> []"
    using ex_joined_here(2) ex_room_rows(2)
    by (auto simp: RoomSend_def GetTxnEventID_def ex_locals_def isStateEventType_def buildAndPersistMessage_def)
  with repeated_transaction [OF this] show ?thesis by auto
qed

definition ex_invite :: Event where
  "ex_invite = \<lparr>ev_raw = JObj [], ev_fields = [(''type'', JStr ''m.room.member'')], ev_version = ''1'', ev_rules = v1_rules,
     ev_event_id = ''$i:there''\<rparr>"

definition ex_forged :: "json gomap" where
  "ex_forged = [(''event_id'', JStr ''$i:there''), (''type'', JStr ''m.room.power_levels'')]"

theorem legacy_invite_replaced_witness:
  "\<exists>ev1. SendRemoteInvite ex_peers (Answer 200 (Some (JObj [(''event'', JObj ex_forged)]))) Unreachable ''@b:far'' ex_invite ''1''
     = (Inr ev1, False) \<and> stringField ev1 ''type'' = ''m.room.power_levels''"
proof -
  define ev1 where "ev1 = \<lparr>ev_raw = JObj ex_forged, ev_fields = ex_forged, ev_version = ''1'', ev_rules = v1_rules,
     ev_event_id = []\<rparr>"
  have "New (JObj ex_forged) ''1'' = Inr ev1" unfolding ev1_def by code_simp
  then have "SendRemoteInvite ex_peers (Answer 200 (Some (JObj [(''event'', JObj ex_forged)]))) Unreachable ''@b:far'' ex_invite
      ''1'' = (Inr ev1, False)"
    by (intro legacy_invite_replaced [where rules = v1_rules]) (assumption | code_simp | (unfold ev1_def, code_simp))+
  moreover have "stringField ev1 ''type'' = ''m.room.power_levels''"
    by (simp add: ev1_def ex_forged_def stringField_def string_in_def)
  ultimately show ?thesis by blast
qed

theorem invite_keeps_id_witness:
  "EventID (sha256 ex_peers) \<lparr>ev_raw = JObj ex_forged, ev_fields = ex_forged, ev_version = ''1'', ev_rules = v1_rules,
     ev_event_id = []\<rparr> = ''$i:there''"
proof -
  have "SendRemoteInvite ex_peers (Answer 200 (Some (JObj [(''event'', JObj ex_forged)]))) Unreachable ''@b:far'' ex_invite ''1''
      = (Inr \<lparr>ev_raw = JObj ex_forged, ev_fields = ex_forged, ev_version = ''1'', ev_rules = v1_rules, ev_event_id = []\<rparr>, False)"
    by code_simp
  from invite_keeps_id [OF this] show ?thesis by (simp add: ex_invite_def EventID_def)
qed

end
