(* ===== verification/Fed_Query_Laws.thy ===== *)
theory Fed_Query_Laws
  imports Fed_Gaps Fed_Laws
begin

section \<open>What the answers to other servers hold\<close>

subsection \<open>Auth chains\<close>

definition auth_edge :: "Store \<Rightarrow> (string \<times> string) set" where
  "auth_edge s = {(i, j). j \<in> set (auth_refs s i)}"

lemma walk_auth_contains: "set visited \<union> set stack \<subseteq> set (walk_auth s visited stack)"
  by (induction s visited stack rule: walk_auth.induct) auto

lemma walk_auth_within: "set (walk_auth s visited stack) \<subseteq> set visited \<union> (auth_edge s)\<^sup>* `` set stack"
proof (induction s visited stack rule: walk_auth.induct)
  case (2 s visited i stack)
  have "(auth_edge s)\<^sup>* `` set (auth_refs s i) \<subseteq> (auth_edge s)\<^sup>* `` {i}"
    by (auto simp: auth_edge_def intro: converse_rtrancl_into_rtrancl)
  then have "(auth_edge s)\<^sup>* `` set (rev (filter p (auth_refs s i)) @ stack) \<subseteq> (auth_edge s)\<^sup>* `` set (i # stack)" for p
    by auto
  then show ?case using 2 by (cases "i \<in> set visited") (auto, blast+)
qed simp

lemma walk_auth_closed:
  assumes "\<And>v. v \<in> set visited \<Longrightarrow> set (auth_refs s v) \<subseteq> set visited \<union> set stack"
  shows "v \<in> set (walk_auth s visited stack) \<Longrightarrow> set (auth_refs s v) \<subseteq> set (walk_auth s visited stack)"
  using assms
proof (induction s visited stack rule: walk_auth.induct)
  case (2 s visited i stack)
  show ?case
  proof (cases "i \<in> set visited")
    case True
    then show ?thesis using 2(1) 2(3) 2(4) by (simp add: insert_absorb)
  next
    case False
    have "set (auth_refs s v) \<subseteq> set (i # visited)
        \<union> set (rev (filter (\<lambda>a. a \<notin> set (i # visited)) (auth_refs s i)) @ stack)" if "v \<in> set (i # visited)" for v
      using that 2(4) [of v] by auto
    then show ?thesis using 2(2) [OF False] 2(3) False by simp
  qed
qed simp

lemma walk_auth_reaches: "set (walkAuthChain s seed) = (auth_edge s)\<^sup>* `` set seed"
proof
  show "set (walkAuthChain s seed) \<subseteq> (auth_edge s)\<^sup>* `` set seed"
    using walk_auth_within [of s "[]" "rev seed"] by (simp add: walkAuthChain_def)
  have "j \<in> set (walkAuthChain s seed)" if "(i, j) \<in> (auth_edge s)\<^sup>*" "i \<in> set seed" for i j
    using that
  proof (induction rule: rtrancl_induct)
    case base
    then show ?case using walk_auth_contains [of "[]" "rev seed" s] by (auto simp: walkAuthChain_def)
  next
    case (step j k)
    then show ?case using walk_auth_closed [of "[]" s "rev seed" j] by (auto simp: walkAuthChain_def auth_edge_def)
  qed
  then show "(auth_edge s)\<^sup>* `` set seed \<subseteq> set (walkAuthChain s seed)" by blast
qed

text \<open>
  C38: The auth chain another server gets for an event holds exactly the stored events that can be reached from it over one
  or more references to auth events, without the event itself; the walk ends also where references form a cycle.
\<close>

theorem event_auth_chain:
  "EventAuth s origin room i =
     (if checkServerACL s origin room then Inl forbidden
      else if TxGetEvent s i = None then Inl not_found
      else Inr (map er_json (filter (\<lambda>e. (i, er_event_id e) \<in> (auth_edge s)\<^sup>+ \<and> er_event_id e \<noteq> i) (db_events s))))"
proof -
  have "i' \<in> set (filter (\<lambda>j. j \<noteq> i) (walkAuthChain s [i])) \<longleftrightarrow> (i, i') \<in> (auth_edge s)\<^sup>+ \<and> i' \<noteq> i" for i'
    by (auto simp: walk_auth_reaches rtrancl_eq_or_trancl)
  then show ?thesis by (simp add: EventAuth_def TxEventsByIDs_def)
qed

text \<open>
  In a room without a state DAG the auth chain of the state is what the events of the state reach over one or
  more references.
\<close>

theorem state_auth_chain:
  assumes "\<And>r rules ev. r \<in> set (TxGetRoomState s room) \<Longrightarrow> parsed_auth s (sr_event_id r) = Some (rules, ev) \<Longrightarrow>
      \<not> StateDAGs rules"
  shows "set (authChainIDs s room) = (auth_edge s)\<^sup>+ `` (sr_event_id ` set (TxGetRoomState s room))"
proof -
  let ?refs = "\<lambda>r. case parsed_auth s (sr_event_id r) of None \<Rightarrow> [] | Some (_, ev) \<Rightarrow> AuthEvents ev"
  have "?refs r = auth_refs s (sr_event_id r)" if "r \<in> set (TxGetRoomState s room)" for r
    using assms [OF that] by (auto simp: auth_refs_def split: option.split)
  then have "set (concat (map ?refs (TxGetRoomState s room))) = auth_edge s `` (sr_event_id ` set (TxGetRoomState s room))"
    by (auto simp: auth_edge_def)
  then show ?thesis unfolding authChainIDs_def walk_auth_reaches by (simp only: trancl_unfold_left relcomp_Image)
qed

text \<open>In a state DAG no event has auth events of its own, so the chain of the state is empty.\<close>

lemma state_dag_chain_empty:
  assumes "\<And>r rules ev. r \<in> set (TxGetRoomState s room) \<Longrightarrow> parsed_auth s (sr_event_id r) = Some (rules, ev) \<Longrightarrow>
      gm_get (ev_fields ev) ''auth_events'' = None"
  shows "authChain s room = []"
proof -
  have "AuthEvents ev = []" if "r \<in> set (TxGetRoomState s room)" "parsed_auth s (sr_event_id r) = Some (rules, ev)" for r rules ev
    using assms [OF that] by (simp add: AuthEvents_def eventRefs_def)
  then have "authChainIDs s room = []"
    unfolding authChainIDs_def walkAuthChain_def by (subst concat_map_Nil) (auto split: option.split)
  then show ?thesis by (simp add: authChain_def TxEventsByIDs_def)
qed

subsection \<open>Backfilling\<close>

text \<open>The stored events of the room that lie behind the given IDs, over references between events of the room.\<close>

inductive room_behind :: "Store \<Rightarrow> string \<Rightarrow> string list \<Rightarrow> EventRow \<Rightarrow> bool" for s room ids where
  behind_named: "i \<in> set ids \<Longrightarrow> i \<noteq> [] \<Longrightarrow> TxGetEvent s i = Some e \<Longrightarrow> er_room_id e = room \<Longrightarrow> room_behind s room ids e"
| behind_ref: "room_behind s room ids e \<Longrightarrow> i \<in> set (prevEventIDs (er_json e)) \<Longrightarrow> i \<noteq> [] \<Longrightarrow> TxGetEvent s i = Some e'
    \<Longrightarrow> er_room_id e' = room \<Longrightarrow> room_behind s room ids e'"

definition in_room :: "Store \<Rightarrow> string \<Rightarrow> string \<Rightarrow> EventRow \<Rightarrow> bool" where
  "in_room s room i e \<longleftrightarrow> i \<noteq> [] \<and> TxGetEvent s i = Some e \<and> er_room_id e = room"

definition collected_ids :: "EventRow list \<Rightarrow> string set" where
  "collected_ids rows = er_event_id ` set rows"

abbreviation unseen :: "EventRow list \<Rightarrow> EventRow \<Rightarrow> string list" where
  "unseen collected ev \<equiv> filter (\<lambda>q. q \<notin> collected_ids (collected @ [ev])) (prevEventIDs (er_json ev))"

lemma backfill_step:
  "n = 0 \<or> queue = [] \<Longrightarrow> backfill_walk s room n collected queue = collected"
  "n \<noteq> 0 \<Longrightarrow> i \<in> collected_ids collected \<or> (\<forall>ev. \<not> in_room s room i ev) \<Longrightarrow>
     backfill_walk s room n collected (i # queue) = backfill_walk s room n collected queue"
  "i \<notin> collected_ids collected \<Longrightarrow> in_room s room i ev \<Longrightarrow>
     backfill_walk s room (Suc n) collected (i # queue) = backfill_walk s room n (collected @ [ev]) (queue @ unseen collected ev)"
proof -
  show "n = 0 \<or> queue = [] \<Longrightarrow> backfill_walk s room n collected queue = collected" by (cases queue) auto
  show "n \<noteq> 0 \<Longrightarrow> i \<in> collected_ids collected \<or> (\<forall>ev. \<not> in_room s room i ev) \<Longrightarrow>
      backfill_walk s room n collected (i # queue) = backfill_walk s room n collected queue"
    by (auto simp: in_room_def collected_ids_def split: option.split)
  show "i \<notin> collected_ids collected \<Longrightarrow> in_room s room i ev \<Longrightarrow>
      backfill_walk s room (Suc n) collected (i # queue) = backfill_walk s room n (collected @ [ev]) (queue @ unseen collected ev)"
    by (simp add: in_room_def collected_ids_def)
qed

declare backfill_walk.simps [simp del]

lemma backfill_induct [case_names stop skip take]:
  assumes stop: "\<And>n c q. n = 0 \<or> q = [] \<Longrightarrow> P n c q"
    and skip: "\<And>n c i q. n \<noteq> 0 \<Longrightarrow> i \<in> collected_ids c \<or> (\<forall>ev. \<not> in_room s room i ev) \<Longrightarrow> P n c q \<Longrightarrow> P n c (i # q)"
    and take: "\<And>n c i q ev. i \<notin> collected_ids c \<Longrightarrow> in_room s room i ev \<Longrightarrow> P n (c @ [ev]) (q @ unseen c ev) \<Longrightarrow> P (Suc n) c (i # q)"
  shows "P n c q"
proof (induction n arbitrary: c q)
  case 0
  show ?case by (rule stop) simp
next
  case (Suc n c q)
  show ?case
  proof (induction q)
    case Nil
    show ?case by (rule stop) simp
  next
    case (Cons i q)
    show ?case
    proof (cases "i \<in> collected_ids c \<or> (\<forall>ev. \<not> in_room s room i ev)")
      case True
      then show ?thesis by (intro skip Cons) simp_all
    next
      case False
      then show ?thesis using take Suc by blast
    qed
  qed
qed

lemma in_room_id: "in_room s room i e \<Longrightarrow> er_event_id e = i"
  using TxGetEvent_in by (auto simp: in_room_def)

lemma in_room_unique: "in_room s room i e \<Longrightarrow> in_room s room i e' \<Longrightarrow> e' = e"
  by (simp add: in_room_def)

lemma backfill_within:
  "(\<And>e. e \<in> set c \<Longrightarrow> room_behind s room ids e) \<Longrightarrow>
   (\<And>i e. i \<in> set q \<Longrightarrow> in_room s room i e \<Longrightarrow> room_behind s room ids e) \<Longrightarrow>
   e \<in> set (backfill_walk s room n c q) \<Longrightarrow> room_behind s room ids e"
proof (induction n c q rule: backfill_induct [where s = s and room = room])
  case (stop n c q)
  then show ?case by (auto simp: backfill_step)
next
  case (skip n c i q)
  show ?case by (rule skip(3)) (use skip(4-6) in \<open>auto simp: backfill_step(2) [OF skip(1,2)]\<close>)
next
  case (take n c i q ev)
  have b: "room_behind s room ids ev" using take(2) take(5) [of i ev] by simp
  have "room_behind s room ids e'" if "j \<in> set (q @ unseen c ev)" "in_room s room j e'" for j e'
    using that take(5) [of j e'] behind_ref [OF b, of j e'] by (auto simp: in_room_def)
  then show ?case using take(3) [OF _ _ take(6) [unfolded backfill_step(3) [OF take(1,2)]]] b take(4) by auto
qed

lemma backfill_shape:
  "distinct (map er_event_id c) \<Longrightarrow> distinct (map er_event_id (backfill_walk s room n c q))
    \<and> length (backfill_walk s room n c q) \<le> length c + n"
proof (induction n c q rule: backfill_induct [where s = s and room = room])
  case (stop n c q)
  then show ?case by (auto simp: backfill_step)
next
  case (skip n c i q)
  then show ?case by (simp add: backfill_step)
next
  case (take n c i q ev)
  then have "distinct (map er_event_id (c @ [ev]))" using in_room_id [OF take(2)] by (simp add: collected_ids_def)
  then show ?case using take(3) by (simp add: backfill_step(3) [OF take(1,2)])
qed

text \<open>Every event the references of the collected ones name is collected or waits in the queue.\<close>

definition covered :: "Store \<Rightarrow> string \<Rightarrow> EventRow list \<Rightarrow> string list \<Rightarrow> bool" where
  "covered s room c q \<longleftrightarrow> (\<forall>e \<in> set c. in_room s room (er_event_id e) e
     \<and> (\<forall>i \<in> set (prevEventIDs (er_json e)). \<forall>e'. in_room s room i e' \<longrightarrow> e' \<in> set c \<or> i \<in> set q))"

lemma covered_known: "covered s room c q \<Longrightarrow> i \<in> collected_ids c \<Longrightarrow> in_room s room i e \<Longrightarrow> e \<in> set c"
  unfolding covered_def collected_ids_def using in_room_unique by blast

lemma covered_skip:
  assumes "covered s room c (i # q)" and "i \<in> collected_ids c \<or> (\<forall>ev. \<not> in_room s room i ev)"
  shows "covered s room c q"
  unfolding covered_def
proof (intro ballI conjI allI impI)
  fix e j e'
  assume e: "e \<in> set c" and j: "j \<in> set (prevEventIDs (er_json e))" "in_room s room j e'"
  then have "e' \<in> set c \<or> j \<in> set (i # q)" using assms(1) by (auto simp: covered_def)
  then show "e' \<in> set c \<or> j \<in> set q" using assms(2) j(2) covered_known [OF assms(1)] by auto
qed (use assms(1) in \<open>simp add: covered_def\<close>)

lemma covered_take:
  assumes "covered s room c (i # q)" and "in_room s room i ev"
  shows "covered s room (c @ [ev]) (q @ unseen c ev)"
  unfolding covered_def
proof (intro ballI conjI allI impI)
  fix e
  assume "e \<in> set (c @ [ev])"
  then show "in_room s room (er_event_id e) e"
    using assms in_room_id [OF assms(2)] by (auto simp: covered_def)
next
  fix e j e'
  assume e: "e \<in> set (c @ [ev])" and j: "j \<in> set (prevEventIDs (er_json e))" "in_room s room j e'"
  show "e' \<in> set (c @ [ev]) \<or> j \<in> set (q @ unseen c ev)"
  proof (cases "j \<in> collected_ids (c @ [ev])")
    case True
    then have "j \<in> collected_ids c \<or> j = i" using in_room_id [OF assms(2)] by (auto simp: collected_ids_def)
    then have "e' \<in> set c \<or> e' = ev"
      using covered_known [OF assms(1) _ j(2)] in_room_unique [OF assms(2), of e'] j(2) by auto
    then show ?thesis by auto
  next
    case False
    show ?thesis
    proof (cases "e = ev")
      case True
      then show ?thesis using j(1) False by simp
    next
      case False
      then have "e \<in> set c" using e by simp
      then have "e' \<in> set c \<or> j \<in> set (i # q)" using assms(1) j by (auto simp: covered_def)
      then show ?thesis using in_room_unique [OF assms(2), of e'] j(2) by auto
    qed
  qed
qed

lemma backfill_complete:
  "length (backfill_walk s room n c q) < length c + n \<Longrightarrow> covered s room c q \<Longrightarrow>
   covered s room (backfill_walk s room n c q) [] \<and> set c \<subseteq> set (backfill_walk s room n c q)
   \<and> (\<forall>i \<in> set q. \<forall>e. in_room s room i e \<longrightarrow> e \<in> set (backfill_walk s room n c q))"
proof (induction n c q rule: backfill_induct [where s = s and room = room])
  case (stop n c q)
  then show ?case by (auto simp: backfill_step)
next
  case (skip n c i q)
  have "covered s room c q" by (rule covered_skip [OF skip(5,2)])
  then have IH: "covered s room (backfill_walk s room n c q) [] \<and> set c \<subseteq> set (backfill_walk s room n c q)
      \<and> (\<forall>i \<in> set q. \<forall>e. in_room s room i e \<longrightarrow> e \<in> set (backfill_walk s room n c q))"
    using skip(3,4) by (simp add: backfill_step(2) [OF skip(1,2)])
  moreover have "e \<in> set c" if "in_room s room i e" for e
    using that skip(2) covered_known [OF skip(5)] by auto
  ultimately show ?case unfolding backfill_step(2) [OF skip(1,2)] by auto
next
  case (take n c i q ev)
  have IH: "covered s room (backfill_walk s room n (c @ [ev]) (q @ unseen c ev)) []
      \<and> set (c @ [ev]) \<subseteq> set (backfill_walk s room n (c @ [ev]) (q @ unseen c ev))
      \<and> (\<forall>j \<in> set (q @ unseen c ev). \<forall>e. in_room s room j e \<longrightarrow> e \<in> set (backfill_walk s room n (c @ [ev]) (q @ unseen c ev)))"
    using take(3) take(4) covered_take [OF take(5,2)] by (simp add: backfill_step(3) [OF take(1,2)])
  then show ?case unfolding backfill_step(3) [OF take(1,2)] using in_room_unique [OF take(2)] by auto
qed

lemma backfill_limit_bounds: "1 \<le> backfill_limit v \<and> backfill_limit v \<le> 100"
  by (auto simp: backfill_limit_def split: option.split)

lemma backfill_all:
  assumes "length (backfill_walk s room n [] q) < n" and "room_behind s room q e"
  shows "e \<in> set (backfill_walk s room n [] q)"
proof -
  have "covered s room [] q" by (simp add: covered_def)
  then have all: "covered s room (backfill_walk s room n [] q) [] \<and> set [] \<subseteq> set (backfill_walk s room n [] q)
      \<and> (\<forall>i \<in> set q. \<forall>e. in_room s room i e \<longrightarrow> e \<in> set (backfill_walk s room n [] q))"
    using assms(1) by (intro backfill_complete) simp_all
  show ?thesis using assms(2)
  proof (induction rule: room_behind.induct)
    case (behind_named i e)
    then have "in_room s room i e" by (simp add: in_room_def)
    then show ?case using all behind_named(1) by blast
  next
    case (behind_ref e i e')
    then have "in_room s room i e'" by (simp add: in_room_def)
    then show ?case using all behind_ref(2,6) unfolding covered_def by (metis empty_iff list.set(1))
  qed
qed

lemma backfill_behind: "e \<in> set (backfill_walk s room n [] q) \<Longrightarrow> room_behind s room q e"
  by (rule backfill_within [where c = "[]"]) (simp_all add: in_room_def behind_named)


subsection \<open>The events of a gap\<close>

definition prev_edge :: "Store \<Rightarrow> (string \<times> string) set" where
  "prev_edge s = {(i, j). \<exists>e. TxGetEvent s i = Some e \<and> j \<in> set (prevEventIDs (er_json e))}"

definition gap_row :: "Store \<Rightarrow> int \<Rightarrow> string set \<Rightarrow> EventRow \<Rightarrow> bool" where
  "gap_row s anchor ids e \<longleftrightarrow> TxGetEvent s (er_event_id e) = Some e \<and> anchor < er_depth e \<and> er_event_id e \<in> (prev_edge s)\<^sup>+ `` ids"

lemma missing_walk_rows:
  assumes "set collected \<subseteq> Collect (gap_row s anchor ids)" and "set queue \<subseteq> (prev_edge s)\<^sup>+ `` ids"
    and "distinct (map er_event_id collected)"
  shows "set (missing_walk s anchor c8 v8 n collected queue) \<subseteq> Collect (gap_row s anchor ids)
    \<and> distinct (map er_event_id (missing_walk s anchor c8 v8 n collected queue))"
  using assms
proof (induction s anchor c8 v8 n collected queue rule: missing_walk.induct)
  case (1 s anchor c8 v8 n collected queue)
  note step = missing_walk.simps [of s anchor c8 v8 n collected queue]
  show ?case
  proof (cases queue)
    case Nil
    then show ?thesis using 1(5,7) step by simp
  next
    case (Cons i rest)
    consider (stop) "c8 \<le> int (length collected) \<or> v8 \<le> n"
      | (skip) "\<not> (c8 \<le> int (length collected) \<or> v8 \<le> n)" "i = [] \<or> i \<in> er_event_id ` set collected"
      | (unknown) "\<not> (c8 \<le> int (length collected) \<or> v8 \<le> n)" "\<not> (i = [] \<or> i \<in> er_event_id ` set collected)"
          "TxGetEvent s i = None"
      | (old) ev where "\<not> (c8 \<le> int (length collected) \<or> v8 \<le> n)" "\<not> (i = [] \<or> i \<in> er_event_id ` set collected)"
          "TxGetEvent s i = Some ev" "er_depth ev \<le> anchor"
      | (take) ev where "\<not> (c8 \<le> int (length collected) \<or> v8 \<le> n)" "\<not> (i = [] \<or> i \<in> er_event_id ` set collected)"
          "TxGetEvent s i = Some ev" "\<not> er_depth ev \<le> anchor"
      by (cases "TxGetEvent s i") auto
    then show ?thesis
    proof cases
      case stop
      then show ?thesis using 1(5,7) step by (simp add: Cons)
    next
      case skip
      then show ?thesis using 1(1) [OF Cons] 1(5-7) step by (simp add: Cons)
    next
      case unknown
      then show ?thesis using 1(2) [OF Cons] 1(5-7) step by (simp add: Cons)
    next
      case old
      then show ?thesis using 1(3) [OF Cons] 1(5-7) step by (simp add: Cons)
    next
      case take
      have i: "er_event_id ev = i" using take(3) TxGetEvent_in by blast
      have g: "gap_row s anchor ids ev" using take 1(6) i by (auto simp: gap_row_def Cons)
      have "set (prevEventIDs (er_json ev)) \<subseteq> prev_edge s `` {i}" using take(3) by (auto simp: prev_edge_def)
      also have "\<dots> \<subseteq> (prev_edge s)\<^sup>+ `` ids" using 1(6) by (auto simp: Cons intro: trancl_into_trancl)
      finally have q: "set (rest @ prevEventIDs (er_json ev)) \<subseteq> (prev_edge s)\<^sup>+ `` ids" using 1(6) by (simp add: Cons)
      have d: "distinct (map er_event_id (collected @ [ev]))" using 1(7) take(2) i by simp
      show ?thesis using 1(4) [OF Cons take(1,2,3,4) _ q d] g 1(5) take step by (simp add: Cons)
    qed
  qed
qed

definition anchor_step :: "Store \<Rightarrow> string \<Rightarrow> int option \<Rightarrow> int option" where
  "anchor_step s i a = (case TxGetEvent s i of
       None \<Rightarrow> a
     | Some ev \<Rightarrow> (case a of None \<Rightarrow> Some (er_depth ev)
                    | Some d \<Rightarrow> if er_depth ev > d then Some (er_depth ev) else Some d))"

lemma anchor_fold:
  "(case fold (anchor_step s) E a of None \<Rightarrow> a = None \<and> (\<forall>i \<in> set E. TxGetEvent s i = None)
    | Some d \<Rightarrow> (\<forall>d'. a = Some d' \<longrightarrow> d' \<le> d) \<and> (\<forall>i \<in> set E. \<forall>ev. TxGetEvent s i = Some ev \<longrightarrow> er_depth ev \<le> d))"
proof (induction E arbitrary: a)
  case Nil
  show ?case by (simp split: option.split)
next
  case (Cons i E)
  show ?case
    using Cons [of "anchor_step s i a"]
    by (cases "TxGetEvent s i"; cases a; cases "fold (anchor_step s) E (anchor_step s i a)")
      (auto simp: anchor_step_def split: if_splits option.splits)
qed

lemma anchor_depth_max: "i \<in> set E \<Longrightarrow> TxGetEvent s i = Some ev \<Longrightarrow> er_depth ev \<le> anchor_depth s E"
  using anchor_fold [where s = s and E = E and a = None]
  by (auto simp: anchor_depth_def anchor_step_def [abs_def] split: option.splits)

lemma missing_seeds_behind: "set (missing_seeds s latest) \<subseteq> (prev_edge s)\<^sup>+ `` set latest"
proof -
  have "set (missing_seeds s latest) \<subseteq> prev_edge s `` set latest"
  proof
    fix j
    assume "j \<in> set (missing_seeds s latest)"
    then obtain i where "i \<in> set latest"
      and "j \<in> set (case TxGetEvent s i of None \<Rightarrow> [] | Some ev \<Rightarrow> prevEventIDs (er_json ev))"
      by (auto simp: missing_seeds_def)
    then show "j \<in> prev_edge s `` set latest" by (cases "TxGetEvent s i") (auto simp: prev_edge_def)
  qed
  then show ?thesis by (auto intro: r_into_trancl)
qed

lemma gap_rows_stored: "set (missing_rows s earliest latest limit) \<subseteq> set (db_events s)"
proof -
  have "set (missing_walk s a c8 v8 n [] (missing_seeds s latest)) \<subseteq> Collect (gap_row s a (set latest))" for a c8 v8 n
    using missing_walk_rows [of "[]" s a "set latest" "missing_seeds s latest"] by (simp add: missing_seeds_behind)
  then show ?thesis using TxGetEvent_in by (fastforce simp: missing_rows_def gap_row_def)
qed

text \<open>
  The events that fill a gap come with growing depth and each once; each is stored, lies strictly behind one of the events
  the request names as latest, and is deeper than all known events it names as earliest.
\<close>

theorem gap_rows:
  "let rows = missing_rows s earliest latest limit
   in sorted (map er_depth rows) \<and> distinct (map er_event_id rows) \<and> set rows \<subseteq> set (db_events s)
    \<and> er_event_id ` set rows \<subseteq> (prev_edge s)\<^sup>+ `` set latest
    \<and> {er_depth e | e i. i \<in> set earliest \<and> TxGetEvent s i = Some e} \<times> er_depth ` set rows \<subseteq> {(a, d). a < d}"
proof -
  let ?a = "anchor_depth s earliest"
  let ?w = "missing_walk s ?a (times64 4 limit) (times64 8 limit) 0 [] (missing_seeds s latest)"
  have w: "set ?w \<subseteq> Collect (gap_row s ?a (set latest)) \<and> distinct (map er_event_id ?w)"
    by (rule missing_walk_rows) (simp_all add: missing_seeds_behind)
  have r: "set (missing_rows s earliest latest limit) = set ?w" by (simp add: missing_rows_def)
  have lt: "a < d" if "a \<in> {er_depth e | e i. i \<in> set earliest \<and> TxGetEvent s i = Some e}" "d \<in> er_depth ` set ?w" for a d
  proof -
    have "a \<le> ?a" using that(1) anchor_depth_max by blast
    moreover have "?a < d" using that(2) w by (auto simp: gap_row_def)
    ultimately show ?thesis by simp
  qed
  have "distinct (map er_event_id (missing_rows s earliest latest limit))"
    using w unfolding missing_rows_def distinct_map by simp
  moreover have "sorted (map er_depth (missing_rows s earliest latest limit))" by (simp add: missing_rows_def)
  moreover have "set ?w \<subseteq> set (db_events s)" using w TxGetEvent_in by (fastforce simp: gap_row_def)
  moreover have "er_event_id ` set ?w \<subseteq> (prev_edge s)\<^sup>+ `` set latest" using w by (auto simp: gap_row_def)
  moreover have "{er_depth e | e i. i \<in> set earliest \<and> TxGetEvent s i = Some e} \<times> er_depth ` set ?w \<subseteq> {(a, d). a < d}"
    using lt by blast
  ultimately show ?thesis unfolding Let_def r by blast
qed

text \<open>The depth from which a server may see the history is that of a member it has in the room.\<close>

lemma fold_picks: "fold (\<lambda>m d. if A m d then d else f m) ms d = d \<or> (\<exists>m \<in> set ms. (\<exists>d. \<not> A m d) \<and> f m = fold (\<lambda>m d. if A m d then d else f m) ms d)"
  for d :: int
proof (induction ms arbitrary: d)
  case (Cons m ms)
  show ?case
  proof (cases "A m d")
    case True
    then show ?thesis using Cons [of d] by auto
  next
    case False
    then show ?thesis using Cons [of "f m"] by auto
  qed
qed simp

lemma join_point_member:
  assumes "joinPoint s origin room \<noteq> 0"
  shows "\<exists>m \<in> set (Members s room ''join''). userDomain (mr_user_id m) = origin \<and> mr_depth m = joinPoint s origin room"
proof -
  let ?A = "\<lambda>m d. userDomain (mr_user_id m) \<noteq> origin \<or> \<not> (d = 0 \<or> mr_depth m < d)"
  have step: "(if userDomain (mr_user_id m) \<noteq> origin then d else if d = 0 \<or> mr_depth m < d then mr_depth m else d)
      = (if ?A m d then d else mr_depth m)" for m :: MembershipRow and d by simp
  have j: "joinPoint s origin room = fold (\<lambda>m d. if ?A m d then d else mr_depth m) (Members s room ''join'') 0"
    using assms unfolding joinPoint_def step by (simp split: if_splits)
  show ?thesis
    using fold_picks [where A = ?A and f = mr_depth and ms = "Members s room ''join''" and d = 0] assms
    unfolding j [symmetric] by auto
qed


end
