(* ===== verification/Fed_Dag_Laws.thy ===== *)
theory Fed_Dag_Laws
  imports Fed_Query_Laws
begin

section \<open>Gaps of a state DAG, and where the answers leak\<close>

subsection \<open>The walk over a state DAG\<close>

text \<open>A hop leads from an event that is not among the earliest to one of its previous state events.\<close>

definition hop :: "Store \<Rightarrow> string set \<Rightarrow> (string \<times> string) set" where
  "hop s E = {(i, j). i \<notin> E \<and> j \<in> set (prev_states s i)}"

definition hops_to :: "Store \<Rightarrow> string set \<Rightarrow> string set \<Rightarrow> nat \<Rightarrow> string set" where
  "hops_to s E L h = {j. (\<exists>i \<in> L. (i, j) \<in> hop s E ^^ h) \<and> (\<forall>k < h. \<forall>i \<in> L. (i, j) \<notin> hop s E ^^ k)}"

lemma hops_to_0: "hops_to s E L 0 = L"
  by (auto simp: hops_to_def)

lemma hops_to_fresh: "j \<in> hops_to s E L h \<Longrightarrow> j \<in> hops_to s E L k \<Longrightarrow> h = k"
proof (rule ccontr)
  assume j: "j \<in> hops_to s E L h" "j \<in> hops_to s E L k" and "h \<noteq> k"
  then consider "h < k" | "k < h" by linarith
  then show False using j unfolding hops_to_def by cases blast+
qed

lemma hops_to_Suc:
  "hops_to s E L (Suc h) = {j. \<exists>i \<in> hops_to s E L h. (i, j) \<in> hop s E} - (\<Union>k \<le> h. hops_to s E L k)"
proof (intro subset_antisym subsetI)
  fix j
  assume j: "j \<in> hops_to s E L (Suc h)"
  then obtain l where l: "l \<in> L" "(l, j) \<in> hop s E ^^ Suc h" by (auto simp: hops_to_def)
  then obtain i where i: "(l, i) \<in> hop s E ^^ h" "(i, j) \<in> hop s E" by auto
  have "(l', i) \<notin> hop s E ^^ k" if "k < h" "l' \<in> L" for k l'
  proof
    assume "(l', i) \<in> hop s E ^^ k"
    then have "(l', j) \<in> hop s E ^^ Suc k" using i(2) by auto
    moreover have "Suc k < Suc h" using that by simp
    ultimately show False using j that(2) unfolding hops_to_def by blast
  qed
  then have "i \<in> hops_to s E L h" using l i by (auto simp: hops_to_def)
  moreover have "j \<notin> (\<Union>k \<le> h. hops_to s E L k)"
    using hops_to_fresh [OF j] by fastforce
  ultimately show "j \<in> {j. \<exists>i \<in> hops_to s E L h. (i, j) \<in> hop s E} - (\<Union>k \<le> h. hops_to s E L k)" using i(2) by blast
next
  fix j
  assume j: "j \<in> {j. \<exists>i \<in> hops_to s E L h. (i, j) \<in> hop s E} - (\<Union>k \<le> h. hops_to s E L k)"
  then obtain i l where "(i, j) \<in> hop s E" "l \<in> L" "(l, i) \<in> hop s E ^^ h" by (auto simp: hops_to_def)
  then have r: "(l, j) \<in> hop s E ^^ Suc h" "l \<in> L" by auto
  have "(l', j) \<notin> hop s E ^^ k" if "k < Suc h" "l' \<in> L" for k l'
  proof
    assume a: "(l', j) \<in> hop s E ^^ k"
    define m where "m = (LEAST n. \<exists>l \<in> L. (l, j) \<in> hop s E ^^ n)"
    have m: "\<exists>l \<in> L. (l, j) \<in> hop s E ^^ m" unfolding m_def by (rule LeastI_ex) (use a that in blast)
    have "m \<le> k" unfolding m_def by (rule Least_le) (use a that in blast)
    moreover have "j \<in> hops_to s E L m"
      using m not_less_Least [where P = "\<lambda>n. \<exists>l \<in> L. (l, j) \<in> hop s E ^^ n"] unfolding hops_to_def m_def by blast
    ultimately show False using j that(1) by auto
  qed
  then show "j \<in> hops_to s E L (Suc h)" using r by (auto simp: hops_to_def)
qed

lemma hops_to_stop: "hops_to s E L h = {} \<Longrightarrow> h \<le> k \<Longrightarrow> hops_to s E L k = {}"
proof (induction k)
  case (Suc k)
  then show ?case by (cases "h = Suc k") (simp_all add: hops_to_Suc)
qed simp

text \<open>The levels list every event with its least number of hops, each once.\<close>

lemma dag_levels_hops:
  assumes "set seen = {(i, int k) | i k. k < h \<and> i \<in> hops_to s (set E) L k}" and "set batch = hops_to s (set E) L h"
    and "distinct batch" and "distinct seen" and "h \<le> m"
  shows "set (dag_levels s E (int m) (int h) seen batch) = {(i, int k) | i k. k \<le> m \<and> i \<in> hops_to s (set E) L k}
    \<and> distinct (dag_levels s E (int m) (int h) seen batch)"
  using assms
proof (induction "m - h" arbitrary: h seen batch)
  case (0 h seen batch)
  let ?seen = "seen @ map (\<lambda>i. (i, int h)) batch"
  have h: "h = m" using 0 by simp
  have none: "concat (map (\<lambda>i. if i \<in> set E \<or> int m \<le> int h then [] else prev_states s i) batch) = []"
    by (rule concat_map_Nil) (simp add: h)
  have l: "dag_levels s E (int m) (int h) seen batch = ?seen"
  proof (cases "batch = []")
    case True
    then show ?thesis by (simp add: dag_levels.simps)
  next
    case False
    then show ?thesis by (subst dag_levels.simps, unfold none Let_def) (simp add: dag_levels.simps)
  qed
  have d: "distinct ?seen" using 0(4,5) 0(2) by (auto simp: distinct_map inj_on_def)
  have e: "set ?seen = {(i, int k) | i k. k \<le> m \<and> i \<in> hops_to s (set E) L k}"
    using 0(2,3) by (auto simp: h le_less)
  show ?case unfolding l using d e by simp
next
  case (Suc n h seen batch)
  let ?seen = "seen @ map (\<lambda>i. (i, int h)) batch"
  have h: "Suc h \<le> m" using Suc(2,7) by simp
  show ?case
  proof (cases "batch = []")
    case True
    then have e: "hops_to s (set E) L h = {}" using Suc(4) by simp
    have "hops_to s (set E) L k = {}" if "h \<le> k" for k by (rule hops_to_stop [OF e that])
    then have "{(i, int k) | i k. k < h \<and> i \<in> hops_to s (set E) L k} = {(i, int k) | i k. k \<le> m \<and> i \<in> hops_to s (set E) L k}"
      using Suc(7) by (auto, metis empty_iff not_less)
    moreover have l: "dag_levels s E (int m) (int h) seen batch = seen" using True by (simp add: dag_levels.simps)
    ultimately show ?thesis unfolding l Suc(3) using Suc(6) by simp
  next
    case False
    define next' where "next' = remdups (filter (\<lambda>i. i \<notin> fst ` set ?seen)
        (concat (map (\<lambda>i. if i \<in> set E \<or> int m \<le> int h then [] else prev_states s i) batch)))"
    have l: "dag_levels s E (int m) (int h) seen batch = dag_levels s E (int m) (int (Suc h)) ?seen next'"
      using False unfolding next'_def by (subst dag_levels.simps) (simp add: Let_def add.commute)
    have seen: "set ?seen = {(i, int k) | i k. k < Suc h \<and> i \<in> hops_to s (set E) L k}"
      using Suc(3,4) by (auto simp: less_Suc_eq)
    have "fst ` set ?seen = (\<Union>k \<le> h. hops_to s (set E) L k)"
      unfolding seen by (force simp: less_Suc_eq_le)
    moreover have "set (concat (map (\<lambda>i. if i \<in> set E \<or> int m \<le> int h then [] else prev_states s i) batch))
        = {j. \<exists>i \<in> hops_to s (set E) L h. (i, j) \<in> hop s (set E)}"
      using h by (auto simp: Suc(4) hop_def)
    ultimately have n: "set next' = hops_to s (set E) L (Suc h)"
      unfolding next'_def hops_to_Suc by auto
    have d: "distinct ?seen" using Suc(3,5,6) by (auto simp: distinct_map inj_on_def)
    have "n = m - Suc h" using Suc(2) by simp
    moreover have "distinct next'" unfolding next'_def by (rule distinct_remdups)
    ultimately show ?thesis unfolding l by (intro Suc(1) seen n d h)
  qed
qed

lemma walked_levels:
  "set (dag_levels s E (int m) 0 [] (remdups latest)) = {(i, int k) | i k. k \<le> m \<and> i \<in> hops_to s (set E) (set latest) k}"
  "distinct (dag_levels s E (int m) 0 [] (remdups latest))"
  using dag_levels_hops [of "[]" 0 s E "set latest" "remdups latest" m] by (simp_all add: hops_to_0)

lemma sort_key_unique: "distinct xs \<Longrightarrow> distinct ys \<Longrightarrow> set xs = set ys \<Longrightarrow> inj_on f (set xs) \<Longrightarrow> sort_key f xs = sort_key f ys"
  by (intro sort_key_inj_key_eq) (auto simp: set_eq_iff_mset_eq_distinct)

text \<open>
  The gap of a state DAG is the same list on every server that stores the same events and edges, whatever order
  the tables are in and the request names its events in.
\<close>

theorem dag_gap_deterministic:
  assumes "set latest = set latest'" and "set earliest = set earliest'" and "set (db_edges s) = set (db_edges s')"
    and "\<And>i. (case TxGetEvent s i of None \<Rightarrow> False | Some e \<Rightarrow> er_room_id e = room)
           = (case TxGetEvent s' i of None \<Rightarrow> False | Some e \<Rightarrow> er_room_id e = room)"
  shows "StateDAGWalk s room latest earliest n = StateDAGWalk s' room latest' earliest' n"
proof -
  let ?l = "filter (dag_row s room earliest) (dag_levels s earliest 100000 0 [] (remdups latest))"
  let ?l' = "filter (dag_row s' room earliest') (dag_levels s' earliest' 100000 0 [] (remdups latest'))"
  have "hop s (set earliest) = hop s' (set earliest')" using assms(2,3) by (auto simp: hop_def prev_states_def)
  then have "set (dag_levels s earliest 100000 0 [] (remdups latest)) = set (dag_levels s' earliest' 100000 0 [] (remdups latest'))"
    using walked_levels(1) [of s earliest 100000 latest] walked_levels(1) [of s' earliest' 100000 latest'] assms(1)
    by (simp add: hops_to_def)
  moreover have "dag_row s room earliest = dag_row s' room earliest'" using assms(2,4) by (auto simp: dag_row_def)
  ultimately have "set ?l = set ?l'" by simp
  moreover have "distinct ?l" "distinct ?l'"
    using walked_levels(2) [of s earliest 100000 latest] walked_levels(2) [of s' earliest' 100000 latest'] by simp_all
  ultimately have "sort_key (\<lambda>x. (snd x, fst x)) ?l = sort_key (\<lambda>x. (snd x, fst x)) ?l'"
    by (intro sort_key_unique) (auto simp: inj_on_def)
  then show ?thesis by (simp only: StateDAGWalk_def)
qed

subsection \<open>State served at an event\<close>

lemma served_state_distinct: "store_ok s \<Longrightarrow> stateAtEvent s room i = Some rows \<Longrightarrow> rows_distinct rows"
  by (auto simp: stateAtEvent_def store_ok_def split: option.splits if_splits)

subsection \<open>Where the checks do not reach\<close>

text \<open>
  The walk looks at no room: with a room of its own, whose access control list and history it decides on, a server gets the
  events of any other.
\<close>

lemma gap_of_any_room:
  assumes "\<not> checkServerACL s origin room" and "\<not> restricted_history s room" and "read_missing body = Some r"
    and "\<not> mq_state_dag r" and "0 < mq_limit r"
  shows "GetMissingEvents s origin room body =
     Inr (take (nat (mq_limit r)) (map er_json (missing_rows s (mq_earliest r) (mq_latest r) (mq_limit r))))"
proof -
  have "List.map_filter (missing_pdu rules False point) rows = map er_json rows" for rules point rows
    by (induction rows) (simp_all add: map_filter_simps missing_pdu_def)
  then show ?thesis using assms by (simp add: GetMissingEvents_def missing_pdus_def Let_def)
qed

lemma auth_of_any_room:
  "\<not> checkServerACL s origin room \<Longrightarrow> \<not> checkServerACL s origin room' \<Longrightarrow>
     EventAuth s origin room i = EventAuth s origin room' i"
  by (simp add: EventAuth_def)

text \<open>A limit of \<open>2 ^ 61\<close> wraps around to no visits at all.\<close>

lemma huge_limit_wraps: "missing_rows s earliest latest (2 ^ 61) = []"
proof -
  have "times64 8 (2 ^ 61) = 0" by (simp add: times64_def)
  then have "missing_walk s a c8 (times64 8 (2 ^ 61)) 0 [] queue = []" for a c8 queue
    by (cases queue) (simp_all add: missing_walk.simps)
  then show ?thesis by (simp add: missing_rows_def)
qed

text \<open>
  An origin that comes last in the header is read as none, and a request without an origin is not held against the access
  control list.
\<close>

lemma last_origin_unread: "index_byte (CHR '','') name = None \<Longrightarrow> remoteOriginOf (''X-Matrix sig=AA,origin='' @ name) = []"
  by (simp add: remoteOriginOf_def numeral_2_eq_2)

lemma no_origin_no_acl: "\<not> checkServerACL s [] room"
  by (simp add: checkServerACL_def)

end
