(* ===== verification/Stripped_Laws.thy ===== *)
theory Stripped_Laws
  imports Stripped_State
begin

section \<open>What stripped state shows\<close>

subsection \<open>For clients\<close>

lemma upsert_keys: "key ` set (upsert key r xs) = insert (key r) (key ` set xs)"
  by (induction xs) auto

lemma upsert_distinct: "distinct (map key xs) \<Longrightarrow> distinct (map key (upsert key r xs))"
proof (induction xs)
  case (Cons x xs)
  then show ?case using upsert_keys [of key r xs] by auto
qed simp

lemma upsert_in: "x \<in> set (upsert key r xs) \<Longrightarrow> x = r \<or> x \<in> set xs"
  by (induction xs) (auto split: if_splits)

lemma upsert_self: "r \<in> set (upsert key r xs)"
  by (induction xs) auto

lemma add_stripped_distinct: "distinct (map stripped_key m) \<Longrightarrow> distinct (map stripped_key (add_stripped j m))"
  by (simp add: add_stripped_def upsert_distinct split: option.split)

lemma fold_stripped:
  assumes "distinct (map stripped_key m)"
  shows "distinct (map stripped_key (fold add_stripped js m))
    \<and> set (fold add_stripped js m) \<subseteq> set m \<union> {e. \<exists>j \<in> set js. FromPDU j = Some e}"
  using assms
proof (induction js arbitrary: m)
  case (Cons j js)
  have "set (add_stripped j m) \<subseteq> set m \<union> {e. FromPDU j = Some e}"
    by (auto simp: add_stripped_def split: option.splits dest: upsert_in)
  then show ?case using Cons(1) [OF add_stripped_distinct [OF Cons(2)], of j] by auto
qed simp

lemma stripped_order_inj: "stripped_order e = stripped_order e' \<longleftrightarrow> stripped_key e = stripped_key e'"
  by (auto simp: stripped_order_def stripped_key_def)

text \<open>
  A client is shown one stripped event per type and state key, the create event first and the others by type and state key;
  each is the stripped form of an entry of the prejoin state or of the user's own membership event, and the membership event
  is always the one shown for its key.
\<close>

theorem client_stripped_shown:
  "let shown = client_stripped prejoin membership
   in distinct (map stripped_key shown) \<and> sorted (map stripped_order shown)
    \<and> Some ` set shown \<subseteq> FromPDU ` set (prejoin @ [membership])
    \<and> (FromPDU membership = None \<or> FromPDU membership \<in> Some ` set shown)"
proof -
  let ?m = "fold add_stripped (prejoin @ [membership]) []"
  have f: "distinct (map stripped_key ?m) \<and> set ?m \<subseteq> {e. \<exists>j \<in> set (prejoin @ [membership]). FromPDU j = Some e}"
    using fold_stripped [of "[]" "prejoin @ [membership]"] by simp
  have "e \<in> set ?m" if "FromPDU membership = Some e" for e
    using that by (simp add: add_stripped_def upsert_self)
  then have "FromPDU membership = None \<or> FromPDU membership \<in> Some ` set ?m" by (cases "FromPDU membership") auto
  moreover have "Some ` set ?m \<subseteq> FromPDU ` set (prejoin @ [membership])" using f by force
  ultimately show ?thesis using f unfolding client_stripped_def Let_def by (simp add: distinct_map)
qed

text \<open>No member of an event but its type, state key, sender and content is passed on.\<close>

lemma stripped_members: "j \<in> set (ForClient prejoin membership) \<Longrightarrow>
    \<exists>kvs. j = JObj kvs \<and> map fst kvs = [''type'', ''state_key'', ''sender'', ''content'']"
  by (auto simp: ForClient_def stripped_json_def)

text \<open>The create event of a room comes first.\<close>

lemma create_first:
  assumes "e \<in> set (client_stripped prejoin membership)" and "st_type e = CreateType"
  shows "st_type (hd (client_stripped prejoin membership)) = CreateType"
proof -
  let ?l = "client_stripped prejoin membership"
  have "sorted (map stripped_order ?l)" by (simp add: client_stripped_def)
  then have "stripped_order (hd ?l) \<le> stripped_order e"
    using assms(1) by (cases ?l) auto
  then show ?thesis using assms(2) by (auto simp: stripped_order_def less_eq_prod_def)
qed

subsection \<open>From another server\<close>

lemma validate_fold:
  assumes "r' = fold (\<lambda>(i, j) res. case v j of
                  None \<Rightarrow> res\<lparr>sr_problems := sr_problems res @ [i]\<rparr>
                | Some (pdu, create) \<Rightarrow>
                    res\<lparr>sr_pdus := sr_pdus res @ [pdu], sr_has_create := (if create then True else sr_has_create res)\<rparr>)
            (enumerate n js) r"
  shows "sr_problems r' = sr_problems r @ map fst (filter (\<lambda>x. v (snd x) = None) (enumerate n js))
    \<and> sr_pdus r' = sr_pdus r @ map fst (List.map_filter v js)
    \<and> (sr_has_create r' \<longleftrightarrow> sr_has_create r \<or> (\<exists>j \<in> set js. \<exists>pdu. v j = Some (pdu, True)))"
  using assms
proof (induction js arbitrary: n r)
  case (Cons j js)
  show ?case
  proof (cases "v j")
    case None
    then show ?thesis using Cons(1) [of "Suc n" "r\<lparr>sr_problems := sr_problems r @ [n]\<rparr>"] Cons(2)
      by (simp add: map_filter_simps)
  next
    case (Some a)
    obtain pdu create where a: "a = (pdu, create)" by fastforce
    then show ?thesis using Some Cons(2)
        Cons(1) [of "Suc n" "r\<lparr>sr_pdus := sr_pdus r @ [pdu], sr_has_create := (if create then True else sr_has_create r)\<rparr>"]
      by (simp add: map_filter_simps)
  qed
qed (simp add: map_filter_simps)

lemma Validate_known:
  assumes "Get version = Some rules"
  shows "sr_problems (Validate p room version js)
       = map fst (filter (\<lambda>x. validateEntry p room version rules (snd x) = None) (enumerate 0 js))"
    and "sr_pdus (Validate p room version js) = map fst (List.map_filter (validateEntry p room version rules) js)"
    and "sr_has_create (Validate p room version js) \<longleftrightarrow>
       (\<exists>j \<in> set js. \<exists>pdu. validateEntry p room version rules j = Some (pdu, True))"
  using validate_fold [OF refl, where v = "validateEntry p room version rules" and n = 0 and js = js
      and r = "\<lparr>sr_pdus = [], sr_problems = [], sr_has_create = False\<rparr>"] assms
  by (simp_all add: Validate_def)

lemma filter_enumerate_Nil: "map fst (filter (\<lambda>x. Q (snd x)) (enumerate n xs)) = [] \<longleftrightarrow> (\<forall>x \<in> set xs. \<not> Q x)"
  by (induction xs arbitrary: n) auto


text \<open>
  Where a room's ID is the hash of its create event, a create event that passes the check of an entry has no room ID of its own
  and hashes to the room's; every entry that passes carries a valid signature, and is kept as delivered only with the content
  its hash stands for.
\<close>

theorem checked_entry_bound:
  assumes "validateEntry p room version rules j = Some (pdu, create)"
  shows "vr_signed (verify p j version) \<and> vr_valid (verify p j version)
    \<and> (create \<and> RoomIDIsCreateHash rules \<longrightarrow> (\<exists>h. ReferenceHashBase64URL (sha256 p) j rules = Inr h \<and> room = CHR ''!'' # h))
    \<and> (pdu = j \<and> (\<exists>h. ContentHash (sha256 p) j = Inr h) \<or> (\<exists>red. Redact j rules = Some red \<and> pdu = JObj red))"
  using assms
  by (auto simp: validateEntry_def in_this_room_def Let_def split: prod.splits if_splits sum.splits)

end
