(* ===== verification/Fed_Member_Laws.thy ===== *)
theory Fed_Member_Laws
  imports Client_Laws Stripped_Laws
begin

section \<open>What the membership endpoints guarantee\<close>

subsection \<open>Accepted joins, leaves and knocks\<close>

lemma valid_version: "vr_valid (verify p j version) \<Longrightarrow> \<exists>rules. Get version = Some rules"
  by (cases "Get version") (auto simp: verify_def Verify_def zero_result_def)

lemmas remote_checks_simps = remote_member_checks_def bind_result_Inr_iff check_Inr_iff

lemma authorise_remote_ok:
  "authorise_remote p s rules version j ev = Inr u \<Longrightarrow> \<exists>st. remote_auth_state p s ev = Some st
     \<and> (if StateDAGs rules
        then \<exists>sev. New j version = Inr sev \<and> CheckStateDAGEvent (ed_verify p) s sev (ss_restricted_authorised st) False = Inr ()
        else Authorize (ed_verify p) rules (pdu_type ev) (pdu_key ev) (pdu_sender ev) (pdu_content ev) st True = Inr ())"
  by (auto simp: authorise_remote_def not_isl_unit split: option.splits sum.splits if_splits)

definition own_membership :: "PDU \<Rightarrow> string \<Rightarrow> bool" where
  "own_membership ev origin \<longleftrightarrow> pdu_type ev = ''m.room.member'' \<and> pdu_state_key ev = Some (pdu_sender ev)
     \<and> userDomain (pdu_sender ev) = origin"

lemma remote_member_ok:
  assumes "remote_member_checks p s origin path want j version ev = Inr i"
  shows "pdu_room_id ev = path \<and> own_membership ev origin \<and> \<not> checkServerACL s origin path \<and> HasRoomState s path
    \<and> \<not> roomIsPartial s path \<and> (want = [] \<or> loose_membership (pdu_content ev) = want) \<and> vr_valid (verify p j version)
    \<and> (\<exists>rules. Get version = Some rules \<and> authorise_remote p s rules version j ev = Inr ())"
proof -
  have a: "pdu_room_id ev = path" "userDomain (pdu_sender ev) = origin" "\<not> checkServerACL s origin path" "HasRoomState s path"
    "\<not> roomIsPartial s path" "pdu_type ev = ''m.room.member''" "pdu_state_key ev \<noteq> None"
    "want = [] \<or> loose_membership (pdu_content ev) = want" "pdu_sender ev = pdu_key ev" "vr_valid (verify p j version)"
    and r: "(case Get version of None \<Rightarrow> Inr () | Some rules \<Rightarrow> authorise_remote p s rules version j ev) = Inr ()"
    using assms by (auto simp: remote_checks_simps)
  obtain rules where g: "Get version = Some rules" using valid_version a(10) by blast
  have "pdu_state_key ev = Some (pdu_sender ev)" using a(7,9) by (auto simp: pdu_key_def)
  then show ?thesis using a g r by (simp add: own_membership_def)
qed


text \<open>The version is the one the request names, not the room's.\<close>

lemma asked_version_wins: "asked \<noteq> [] \<Longrightarrow> version_for s room asked = asked"
  by (simp add: version_for_def)

text \<open>A knock on top of a knock changes nothing.\<close>

lemma second_knock_ignored:
  assumes "GetMembership (sv_store sv) path (pdu_key (loose_pdu (fst (unwrap_member b)))) = Some m" and "mr_membership m = ''knock''"
  shows "snd (ingestRemoteMember p origin path ''knock'' omit limit (Some b) sv) = sv"
proof -
  obtain j asked where u: "unwrap_member b = (j, asked)" by fastforce
  let ?ev = "loose_pdu j" and ?v = "version_for (sv_store sv) (pdu_room_id (loose_pdu j)) asked"
  show ?thesis
  proof (cases "remote_member_checks p (sv_store sv) origin path ''knock'' j ?v ?ev")
    case (Inl e)
    then show ?thesis by (simp add: ingestRemoteMember_def u Let_def)
  next
    case (Inr i)
    then have "pending_remote_knock (sv_store sv) ''knock'' ?ev"
      using remote_member_ok [OF Inr] assms by (simp add: pending_remote_knock_def u)
    then show ?thesis using Inr by (simp add: ingestRemoteMember_def u Let_def)
  qed
qed

subsection \<open>Templates\<close>

lemma fold_depth:
  "(d::int) \<le> fold (\<lambda>ex d. if fe_depth ex + 1 > d then fe_depth ex + 1 else d) exts d
   \<and> (ex \<in> set exts \<longrightarrow> fe_depth ex < fold (\<lambda>ex d. if fe_depth ex + 1 > d then fe_depth ex + 1 else d) exts d)"
proof (induction exts arbitrary: d)
  case (Cons x exts)
  show ?case using Cons [of "if fe_depth x + 1 > d then fe_depth x + 1 else d"] by (auto split: if_splits)
qed simp

lemma template_member:
  "gm_get (member_template p s room user content) k =
     (if k = ''sender'' \<or> k = ''state_key'' then Some (JStr user)
      else if k = ''type'' then Some (JStr ''m.room.member'')
      else if k = ''room_id'' then Some (JStr room)
      else if k = ''content'' then Some (JObj content)
      else if k = ''depth'' then Some (json_int (snd (dagTipFor s room)))
      else if k = ''prev_events'' then Some (template_refs (roomRules s room) (fst (dagTipFor s room)))
      else gm_get (member_template p s room user content) k)"
  by (auto simp: member_template_def stateDAGTemplate_def Let_def case_prod_beta gomap_simps split: option.split)


subsection \<open>Invites\<close>

lemma invite_ok:
  assumes "invite_checks p l s origin j version ev = Inr i"
  shows "\<not> (RoomExists s (pdu_room_id ev) \<and> pdu_room_id ev \<noteq> [] \<and> checkServerACL s origin (pdu_room_id ev))
    \<and> pdu_type ev = ''m.room.member'' \<and> pdu_state_key ev = Some (pdu_key ev) \<and> loose_membership (pdu_content ev) = ''invite''
    \<and> userDomain (pdu_sender ev) = origin \<and> IsLocalUser p (pdu_key ev) \<and> vr_valid (verify p j version) \<and> i \<noteq> []
    \<and> \<not> invite_blocked l (LocalpartOf (pdu_key ev)) (pdu_sender ev)
    \<and> i = (if pdu_event_id ev = [] then vr_event_id (verify p j version) else pdu_event_id ev)"
  using assms by (auto simp: invite_checks_def Let_def bind_result_Inr_iff pdu_key_def)

text \<open>What an invite that gets past the checks leaves.\<close>

lemma invite_accepted_cases:
  assumes "Invite p l origin (Body b) sv = (answer, sv')" and "sv' \<noteq> sv"
    and "unwrap_invite b = (j, asked, delivered)" and "ev = loose_pdu j"
    and "version = version_for (sv_store sv) (pdu_room_id ev) asked"
  obtains i rules stripped where "invite_checks p l (sv_store sv) origin j version ev = Inr i" and "Get version = Some rules"
    and "invite_stripped p (sv_store sv) rules version ev delivered = Inr stripped"
    and "sv' = accept_invite p rules version j ev i stripped sv"
proof -
  have r: "(case invite_checks p l (sv_store sv) origin j version ev of
        Inl e \<Rightarrow> (Inl e, sv)
      | Inr i \<Rightarrow> (case Get version of
          None \<Rightarrow> (Inl (Err 400 ''M_UNSUPPORTED_ROOM_VERSION''), sv)
        | Some rules \<Rightarrow> (case invite_stripped p (sv_store sv) rules version ev delivered of
            Inl e \<Rightarrow> (Inl e, sv)
          | Inr stripped \<Rightarrow> (case SignJSON (ed_sign p) (own_server p) (own_key p) j of
              Inl _ \<Rightarrow> (Inl internal_error, accept_invite p rules version j ev i stripped sv)
            | Inr both \<Rightarrow> (Inr both, accept_invite p rules version j ev i stripped sv))))) = (answer, sv')"
    using assms(1) unfolding Invite_def req_body.case Let_def assms(3) prod.case assms(4) [symmetric] assms(5) [symmetric] .
  show thesis
  proof (cases "invite_checks p l (sv_store sv) origin j version ev")
    case (Inl e)
    then show ?thesis using r assms(2) by auto
  next
    case i: (Inr i)
    show ?thesis
    proof (cases "Get version")
      case None
      then show ?thesis using r assms(2) i by auto
    next
      case g: (Some rules)
      show ?thesis
      proof (cases "invite_stripped p (sv_store sv) rules version ev delivered")
        case (Inl e)
        then show ?thesis using r assms(2) i g by auto
      next
        case (Inr stripped)
        have "sv' = accept_invite p rules version j ev i stripped sv"
          using r by (simp add: i g Inr split: sum.splits)
        then show ?thesis by (rule that [OF i g Inr])
      qed
    qed
  qed
qed

text \<open>
  C21: An invite from another server changes nothing unless it comes from a user of that server, is for a user of this one who does not
  block it, and carries a valid signature; where the server does not hold the room's state and the room version is strict
  about it, all the delivered stripped state has passed the check of an entry and holds the room's create event.
\<close>

theorem remote_invite_checked:
  assumes "Invite p l origin (Body b) sv = (answer, sv')" and "sv' \<noteq> sv"
    and "unwrap_invite b = (j, asked, delivered)" and "ev = loose_pdu j"
    and "version = version_for (sv_store sv) (pdu_room_id ev) asked"
  shows "userDomain (pdu_sender ev) = origin \<and> IsLocalUser p (pdu_key ev) \<and> loose_membership (pdu_content ev) = ''invite''
    \<and> \<not> invite_blocked l (LocalpartOf (pdu_key ev)) (pdu_sender ev) \<and> vr_valid (verify p j version)
    \<and> (\<exists>rules. Get version = Some rules
         \<and> (HasRoomState (sv_store sv) (pdu_room_id ev) \<or> \<not> StrictStrippedState rules
            \<or> result_error (Validate p (pdu_room_id ev) version delivered) = None))"
proof -
  obtain i rules stripped where i: "invite_checks p l (sv_store sv) origin j version ev = Inr i" and r: "Get version = Some rules"
    and st: "invite_stripped p (sv_store sv) rules version ev delivered = Inr stripped"
    by (rule invite_accepted_cases [OF assms(1) _ assms(3-5)]) (use assms(2) in auto)
  have "HasRoomState (sv_store sv) (pdu_room_id ev) \<or> \<not> StrictStrippedState rules
      \<or> result_error (Validate p (pdu_room_id ev) version delivered) = None"
    using st by (auto simp: invite_stripped_def Let_def split: if_splits option.splits stripped_error.splits)
  then show ?thesis using invite_ok [OF i] r by blast
qed

lemma core_learn [simp]: "db_room_state (learn_room p room version s) = db_room_state s"
  "db_snapshots (learn_room p room version s) = db_snapshots s"
  "db_extremities (learn_room p room version s) = db_extremities s"
  "db_memberships (learn_room p room version s) = db_memberships s"
  "TxGetEvent (learn_room p room version s) i = TxGetEvent s i"
  by (simp_all add: learn_room_def CreateRoom_def TxGetEvent_def)

lemma core_relation [simp]: "db_room_state (IndexRelationFromRow s row) = db_room_state s"
  "db_snapshots (IndexRelationFromRow s row) = db_snapshots s"
  "db_extremities (IndexRelationFromRow s row) = db_extremities s"
  "db_memberships (IndexRelationFromRow s row) = db_memberships s"
  by (simp_all add: IndexRelationFromRow_def InsertRelation_def split: option.split)

lemma accept_invite_store:
  "sv_store (accept_invite p rules version j ev i stripped sv) =
     (let row = pdu_row i (pdu_room_id ev) j ev;
          (s1, n) = store_invite rules ev row (HasRoomState (sv_store sv) (pdu_room_id ev))
                      (learn_room p (pdu_room_id ev) version (sv_store sv))
      in IndexRelationFromRow s1 (row\<lparr>er_stream := n\<rparr>))"
  by (simp add: accept_invite_def Let_def case_prod_beta)

lemma outofband_core:
  "db_room_state (fst (InsertOutOfBandMembership s row m force)) = db_room_state s"
  "db_snapshots (fst (InsertOutOfBandMembership s row m force)) = db_snapshots s"
  "db_extremities (fst (InsertOutOfBandMembership s row m force)) = db_extremities s"
  by (auto simp: InsertOutOfBandMembership_def UpsertMembership_def insert_event_row_def Let_def case_prod_beta split: option.split)

text \<open>
  C36: For a room whose state this server does not hold, no invite changes any room's current state, any snapshot or any forward
  extremity: what was delivered never becomes room state.
\<close>

theorem foreign_invite_inert:
  assumes "Invite p l origin (Body b) sv = (answer, sv')"
    and "\<not> HasRoomState (sv_store sv) (pdu_room_id (loose_pdu (fst (unwrap_invite b))))"
  shows "db_room_state (sv_store sv') = db_room_state (sv_store sv) \<and> db_snapshots (sv_store sv') = db_snapshots (sv_store sv)
    \<and> db_extremities (sv_store sv') = db_extremities (sv_store sv)"
proof (cases "sv' = sv")
  case False
  obtain j asked delivered where u: "unwrap_invite b = (j, asked, delivered)" by (cases "unwrap_invite b")
  obtain i rules stripped where sv': "sv' = accept_invite p rules (version_for (sv_store sv) (pdu_room_id (loose_pdu j)) asked) j
      (loose_pdu j) i stripped sv"
    by (rule invite_accepted_cases [OF assms(1) _ u refl refl]) (use False in auto)
  show ?thesis using assms(2) unfolding sv' accept_invite_store u
    by (simp add: Let_def case_prod_beta store_invite_def outofband_core)
qed simp

text \<open>The membership an accepted invite leaves: it is the invite, unless a causally later one is stored.\<close>

lemma invite_membership_stored:
  "GetMembership (fst (store_invite rules ev (pdu_row i (pdu_room_id ev) j ev) resident s)) (pdu_room_id ev) (pdu_key ev) =
     (let m = (invite_membership ev i)\<lparr>mr_stream := snd (store_invite rules ev (pdu_row i (pdu_room_id ev) j ev) resident s)\<rparr>
      in Some (case GetMembership s (pdu_room_id ev) (pdu_key ev) of None \<Rightarrow> m | Some old \<Rightarrow> merge_membership m old))"
proof -
  have row: "db_memberships (fst (insert_event_row s row)) = db_memberships s" for s row
    by (simp add: insert_event_row_def split: option.split)
  have base: "GetMembership (fst (insert_event_row s row)) r u = GetMembership s r u" for row r u
    by (simp add: GetMembership_def row)
  have up: "GetMembership (UpsertMembership (fst (insert_event_row s row)) m) (pdu_room_id ev) (pdu_key ev) =
      Some (case GetMembership s (pdu_room_id ev) (pdu_key ev) of None \<Rightarrow> m | Some old \<Rightarrow> merge_membership m old)"
    if "membership_key m = (pdu_room_id ev, pdu_key ev)" "\<not> mr_forgotten m" for row m
    using that base [of row] by (auto simp: get_upsert split: option.split)
  have ext: "GetMembership (UpdateExtremitiesForEvent s room i prevs d) r u = GetMembership s r u" for s room i prevs d r u
    using UpdateExtremities_tables [of s room i prevs d] by (auto simp: GetMembership_def)
  have key: "membership_key ((invite_membership ev i)\<lparr>mr_stream := n\<rparr>) = (pdu_room_id ev, pdu_key ev)"
    "\<not> mr_forgotten ((invite_membership ev i)\<lparr>mr_stream := n\<rparr>)" for n
    by (simp_all add: invite_membership_def membership_key_def)
  have same: "(invite_membership ev i)\<lparr>mr_event_id := i, mr_stream := n, mr_depth := pdu_depth ev\<rparr>
      = (invite_membership ev i)\<lparr>mr_stream := n\<rparr>" for n
    by (simp add: invite_membership_def)
  have d: "er_depth (pdu_row i r j ev) = pdu_depth ev" for r by (simp add: pdu_row_def)
  have mt: "GetMembership (snd (Maintain row rules s)) r u = GetMembership s r u" for row s r u
    by (simp add: GetMembership_def maintain_memberships)
  show ?thesis
    by (cases resident) (simp_all add: store_invite_def InsertEventWithMembership_def InsertOutOfBandMembership_def
        case_prod_beta Let_def mt ext up key same d)
qed

text \<open>
  After an invite that changes anything the invitee's membership in the room is the invite, unless one is stored that is causally later,
  by the depth the inviting server gives its event.
\<close>

theorem invite_recorded:
  assumes "Invite p l origin (Body b) sv = (answer, sv')" and "sv' \<noteq> sv" and "ev = loose_pdu (fst (unwrap_invite b))"
    and "(case GetMembership (sv_store sv) (pdu_room_id ev) (pdu_key ev) of None \<Rightarrow> True | Some old \<Rightarrow> mr_depth old < pdu_depth ev)"
  shows "\<exists>m. GetMembership (sv_store sv') (pdu_room_id ev) (pdu_key ev) = Some m \<and> mr_membership m = ''invite''
    \<and> mr_depth m = pdu_depth ev"
proof -
  obtain j asked delivered where u: "unwrap_invite b = (j, asked, delivered)" by (cases "unwrap_invite b")
  have ev: "ev = loose_pdu j" using assms(3) u by simp
  obtain i rules stripped where sv': "sv' = accept_invite p rules (version_for (sv_store sv) (pdu_room_id ev) asked) j ev i stripped sv"
    by (rule invite_accepted_cases [OF assms(1) _ u ev refl]) (use assms(2) in auto)
  let ?s = "learn_room p (pdu_room_id ev) (version_for (sv_store sv) (pdu_room_id ev) asked) (sv_store sv)"
  have g: "GetMembership (IndexRelationFromRow s row) r u = GetMembership s r u" for s row r u
    by (simp add: GetMembership_def)
  have l: "GetMembership ?s r u = GetMembership (sv_store sv) r u" for r u by (simp add: GetMembership_def)
  show ?thesis
    using assms(4) unfolding sv' accept_invite_store Let_def case_prod_beta g invite_membership_stored l
    by (auto simp: merge_membership_def newer_def invite_membership_def Let_def split: option.splits)
qed

end
