(* ===== verification/Remote_Examples.thy ===== *)
theory Remote_Examples
  imports Fed_Member_Laws Fed_Dag_Laws Fed_Examples
begin

section \<open>Requests of other servers on the example room\<close>

subsection \<open>A gap\<close>

text \<open>The example room with a history only members may see.\<close>

definition ex_joined_history :: Store where
  "ex_joined_history = ex_store\<lparr>
     db_events := db_events ex_store @ [ex_pdu_row ''$h'' ''m.room.history_visibility'' [] ''@a:there''
       (JObj [(''history_visibility'', JStr ''joined'')]) [''$m''] 3],
     db_room_state := Fed_Examples.ex_state @ [ex_entry ''m.room.history_visibility'' [] ''$h'']\<rparr>"

definition ex_gap :: json where
  "ex_gap = JObj [(''latest_events'', JArr [JStr ''$h'']), (''limit'', JNum ''5'')]"

lemma ex_gap_read: "map_option (\<lambda>r. (mq_latest r, mq_limit r, mq_state_dag r)) (read_missing (Some ex_gap)) = Some ([''$h''], 5, False)"
  by code_simp

lemma ex_history: "restricted_history ex_joined_history ''!r''" "\<not> checkServerACL ex_joined_history ''there'' ''!r''"
  by code_simp+


definition ex_edge :: "string \<Rightarrow> string \<Rightarrow> StateEdge" where
  "ex_edge i j = \<lparr>se_room_id = ''!r'', se_event_id = i, se_prev_state_id = j, se_child_is_state = True\<rparr>"

theorem dag_gap_deterministic_witness:
  "StateDAGWalk (ex_store\<lparr>db_edges := [ex_edge ''$x'' ''$m'', ex_edge ''$m'' ''$c'']\<rparr>) ''!r'' [''$x'', ''$y''] [] 9
   = StateDAGWalk (ex_store\<lparr>db_edges := [ex_edge ''$m'' ''$c'', ex_edge ''$x'' ''$m'']\<rparr>) ''!r'' [''$y'', ''$x''] [] 9"
  by (rule dag_gap_deterministic) (auto simp: TxGetEvent_def)

subsection \<open>A leave\<close>

definition ex_leave :: json where
  "ex_leave = JObj [(''auth_events'', JArr [JStr ''$c'', JStr ''$m'']), (''content'', JObj [(''membership'', JStr ''leave'')]),
     (''depth'', JNum ''3''), (''event_id'', JStr ''$l''), (''prev_events'', JArr [JStr ''$m'']), (''room_id'', JStr ''!r''),
     (''sender'', JStr ''@a:there''), (''signatures'', JObj [(''there'', JObj [(''ed25519:1'', JStr ''AAAA'')])]),
     (''state_key'', JStr ''@a:there''), (''type'', JStr ''m.room.member'')]"

definition ex_leave_pdu :: PDU where
  "ex_leave_pdu = \<lparr>pdu_event_id = ''$l'', pdu_room_id = ''!r'', pdu_type = ''m.room.member'', pdu_sender = ''@a:there'',
     pdu_depth = 3, pdu_ts = 0, pdu_content = Some (JObj [(''membership'', JStr ''leave'')]), pdu_redacts = [],
     pdu_state_key = Some ''@a:there'', pdu_signatures = []\<rparr>"

lemma ex_leave_read: "loose_pdu ex_leave = ex_leave_pdu"
  by (simp add: loose_pdu_def ex_leave_def ex_leave_pdu_def pdu_fields_def zero_pdu_def fld_def del: go_fold.simps)

lemma ex_leave_sel [simp]:
  "pdu_event_id ex_leave_pdu = ''$l''" "pdu_room_id ex_leave_pdu = ''!r''" "pdu_type ex_leave_pdu = ''m.room.member''"
  "pdu_sender ex_leave_pdu = ''@a:there''" "pdu_content ex_leave_pdu = Some (JObj [(''membership'', JStr ''leave'')])"
  "pdu_state_key ex_leave_pdu = Some ''@a:there''" "pdu_key ex_leave_pdu = ''@a:there''"
  by (simp_all add: ex_leave_pdu_def pdu_key_def)

lemma ex_leave_unwrapped: "unwrap_member ex_leave = (ex_leave, [])" "version_for ex_store ''!r'' [] = ''10''"
  by code_simp+

lemma ex_leave_facts:
  "userDomain ''@a:there'' = ''there''" "\<not> checkServerACL ex_store ''there'' ''!r''" "\<not> isl (Canonical ex_leave)"
  "\<not> roomIsPartial ex_store ''!r''" "loose_membership (Some (JObj [(''membership'', JStr ''leave'')])) = ''leave''"
  "vr_valid (verify ex_peers ex_leave ''10'')"
  by code_simp+

lemma ex_leave_state:
  "ss_join_rules (memberStateSnapshotCtx ex_store ''!r'' ''@a:there'' ''@a:there'' (Some (JObj [(''membership'', JStr ''leave'')]))) = None"
  by code_simp

lemma ex_leave_authorised:
  "\<not> isl (Authorize (ed_verify ex_peers) v10_rules ''m.room.member'' ''@a:there'' ''@a:there''
      (Some (JObj [(''membership'', JStr ''leave'')]))
      (memberStateSnapshotCtx ex_store ''!r'' ''@a:there'' ''@a:there'' (Some (JObj [(''membership'', JStr ''leave'')]))) True)"
  by code_simp

lemma ex_leave_checked: "remote_member_checks ex_peers ex_store ''there'' ''!r'' ''leave'' ex_leave ''10'' ex_leave_pdu = Inr ''$l''"
  using ex_leave_authorised
  by (simp add: remote_member_checks_def check_def ex_leave_facts ex_has_state ex_rules authorise_remote_def
      remote_auth_state_def ex_leave_state Let_def)

lemma ex_leave_parsed: "\<not> isl (New ex_leave ''10'')"
  by code_simp

lemma accept_logged: "New j version = Inr e \<Longrightarrow> sv_calls (accept_remote_member p want version j ev i sv) \<noteq> []"
  by (simp add: accept_remote_member_def log_call_def Let_def)


subsection \<open>The template for a join\<close>

text \<open>The example room with a joined user of this server.\<close>

definition ex_hosted :: Store where
  "ex_hosted = UpsertMembership ex_store \<lparr>mr_room_id = ''!r'', mr_user_id = ''@b:here'', mr_membership = ''join'',
     mr_event_id = ''$b'', mr_display_name = [], mr_avatar_url = [], mr_forgotten = False, mr_stream = 2, mr_depth = 2\<rparr>"

lemma ex_template: "\<not> isl (MakeJoin ex_peers ex_hosted ''there'' [''9,10''] ''!r'' ''@d:there'')"
  by code_simp


subsection \<open>Invites\<close>

definition ex_delivered :: "string \<Rightarrow> json" where
  "ex_delivered room = JObj [(''auth_events'', JArr []), (''content'', JObj [(''membership'', JStr ''invite'')]),
     (''depth'', JNum ''3''), (''event_id'', JStr ''$i''), (''prev_events'', JArr [JStr ''$m'']), (''room_id'', JStr room),
     (''sender'', JStr ''@x:there''), (''signatures'', JObj [(''there'', JObj [(''ed25519:1'', JStr ''AAAA'')])]),
     (''state_key'', JStr ''@c:here''), (''type'', JStr ''m.room.member'')]"

definition ex_envelope :: "string \<Rightarrow> json" where
  "ex_envelope room = JObj [(''room_version'', JStr ''10''), (''event'', ex_delivered room), (''invite_room_state'', JArr [])]"

lemma ex_invite_names [simp]:
  "go_fold ''room_version'' = ''ROOM_VERSION''" "go_fold ''event'' = ''EVENT''"
  "go_fold ''invite_room_state'' = ''INVITE_ROOM_STATE''"
  by code_simp+

lemma ex_delivered_unwrapped: "unwrap_invite (ex_envelope room) = (ex_delivered room, ''10'', [])"
  by (simp add: unwrap_invite_def ex_envelope_def del: go_fold.simps)

definition ex_invite_pdu :: "string \<Rightarrow> PDU" where
  "ex_invite_pdu room = \<lparr>pdu_event_id = ''$i'', pdu_room_id = room, pdu_type = ''m.room.member'', pdu_sender = ''@x:there'',
     pdu_depth = 3, pdu_ts = 0, pdu_content = Some (JObj [(''membership'', JStr ''invite'')]), pdu_redacts = [],
     pdu_state_key = Some ''@c:here'', pdu_signatures = []\<rparr>"

lemma ex_delivered_read: "loose_pdu (ex_delivered room) = ex_invite_pdu room"
  by (simp add: loose_pdu_def ex_delivered_def ex_invite_pdu_def pdu_fields_def zero_pdu_def fld_def del: go_fold.simps)

lemma ex_invite_sel [simp]:
  "pdu_event_id (ex_invite_pdu room) = ''$i''" "pdu_room_id (ex_invite_pdu room) = room"
  "pdu_type (ex_invite_pdu room) = ''m.room.member''" "pdu_sender (ex_invite_pdu room) = ''@x:there''"
  "pdu_content (ex_invite_pdu room) = Some (JObj [(''membership'', JStr ''invite'')])" "pdu_depth (ex_invite_pdu room) = 3"
  "pdu_state_key (ex_invite_pdu room) = Some ''@c:here''" "pdu_key (ex_invite_pdu room) = ''@c:here''"
  by (simp_all add: ex_invite_pdu_def pdu_key_def)

lemma ex_invite_facts:
  "userDomain ''@x:there'' = ''there''" "\<not> checkServerACL ex_store ''there'' ''!r''" "\<not> RoomExists ex_store ''!u''"
  "IsLocalUser ex_peers ''@c:here''" "loose_membership (Some (JObj [(''membership'', JStr ''invite'')])) = ''invite''"
  "\<not> HasRoomState ex_store ''!u''"
  by code_simp+

lemma ex_invite_version: "version_for ex_store room ''10'' = ''10''"
  by (simp add: version_for_def)

lemma ex_delivered_canonical: "\<not> isl (Canonical (ex_delivered ''!r''))" "\<not> isl (Canonical (ex_delivered ''!u''))"
  by code_simp+

lemma ex_delivered_signed: "vr_valid (verify ex_peers (ex_delivered ''!r'') ''10'')"
  by code_simp

lemma ex_delivered_signed2: "vr_valid (verify ex_peers (ex_delivered ''!u'') ''10'')"
  by code_simp

lemma ex_invite_checked:
  "room \<in> {''!r'', ''!u''} \<Longrightarrow> invite_checks ex_peers ex_locals ex_store ''there'' (ex_delivered room) ''10'' (ex_invite_pdu room) = Inr ''$i''"
  using ex_delivered_canonical ex_delivered_signed ex_delivered_signed2
  by (auto simp: invite_checks_def check_def ex_invite_facts ex_rules ex_locals_def Let_def)

lemma ex_strict: "\<not> StrictStrippedState v10_rules"
  by code_simp

definition ex_invited :: "string \<Rightarrow> Server" where
  "ex_invited room = snd (Invite ex_peers ex_locals ''there'' (Body (ex_envelope room)) ex_server)"

lemma invite_logged: "sv_calls (accept_invite p rules version j ev i stripped sv) \<noteq> []"
  by (simp add: accept_invite_def log_call_def Let_def case_prod_beta)

lemma ex_invite_accepted:
  assumes "room \<in> {''!r'', ''!u''}"
  obtains answer where "Invite ex_peers ex_locals ''there'' (Body (ex_envelope room)) ex_server = (answer, ex_invited room)"
    and "ex_invited room \<noteq> ex_server"
proof -
  have "\<exists>stripped. invite_stripped ex_peers ex_store v10_rules ''10'' (ex_invite_pdu room) [] = Inr stripped"
    by (cases "HasRoomState ex_store room") (simp_all add: invite_stripped_def Let_def ex_strict)
  then obtain stripped where st: "invite_stripped ex_peers ex_store v10_rules ''10'' (ex_invite_pdu room) [] = Inr stripped"
    by blast
  have r: "ex_invited room = accept_invite ex_peers v10_rules ''10'' (ex_delivered room) (ex_invite_pdu room) ''$i'' stripped ex_server"
    by (simp add: ex_invited_def Invite_def ex_delivered_unwrapped ex_delivered_read ex_invite_version ex_invite_checked [OF assms]
        ex_rules st Let_def split: sum.split)
  have "ex_invited room \<noteq> ex_server"
    using invite_logged [of ex_peers v10_rules "''10''" "ex_delivered room" "ex_invite_pdu room" "''$i''" stripped ex_server]
    by (auto simp: r ex_server_def)
  then show thesis using that [of "fst (Invite ex_peers ex_locals ''there'' (Body (ex_envelope room)) ex_server)"]
    by (simp add: ex_invited_def)
qed

theorem remote_invite_checked_witness:
  "userDomain ''@x:there'' = ''there'' \<and> IsLocalUser ex_peers ''@c:here'' \<and> vr_valid (verify ex_peers (ex_delivered ''!u'') ''10'')"
proof (rule ex_invite_accepted [of "''!u''"])
  fix answer
  assume a: "Invite ex_peers ex_locals ''there'' (Body (ex_envelope ''!u'')) ex_server = (answer, ex_invited ''!u'')"
    and n: "ex_invited ''!u'' \<noteq> ex_server"
  show ?thesis using remote_invite_checked [OF a n ex_delivered_unwrapped refl refl]
    by (simp add: ex_delivered_read ex_invite_version)
qed simp

theorem foreign_invite_inert_witness:
  "ex_invited ''!u'' \<noteq> ex_server \<and> db_room_state (sv_store (ex_invited ''!u'')) = db_room_state ex_store
    \<and> db_extremities (sv_store (ex_invited ''!u'')) = db_extremities ex_store"
proof (rule ex_invite_accepted [of "''!u''"])
  fix answer
  assume a: "Invite ex_peers ex_locals ''there'' (Body (ex_envelope ''!u'')) ex_server = (answer, ex_invited ''!u'')"
    and n: "ex_invited ''!u'' \<noteq> ex_server"
  show ?thesis using foreign_invite_inert [OF a] n by (simp add: ex_delivered_unwrapped ex_delivered_read ex_invite_facts)
qed simp

text \<open>
  An invite into a room this server is in is not held against the authorization rules: a stranger, who could not invite anyone,
  invites a user of this server, under an event ID of its own choosing.
\<close>

lemma stranger_may_not_invite:
  "isl (Authorize (ed_verify ex_peers) v10_rules ''m.room.member'' ''@c:here'' ''@x:there''
      (Some (JObj [(''membership'', JStr ''invite'')]))
      (memberStateSnapshotCtx ex_store ''!r'' ''@x:there'' ''@c:here'' (Some (JObj [(''membership'', JStr ''invite'')]))) True)"
  by code_simp

theorem invite_recorded_witness:
  "HasRoomState ex_store ''!r''
    \<and> (\<exists>m. GetMembership (sv_store (ex_invited ''!r'')) ''!r'' ''@c:here'' = Some m \<and> mr_membership m = ''invite'')"
proof (rule ex_invite_accepted [of "''!r''"])
  fix answer
  assume a: "Invite ex_peers ex_locals ''there'' (Body (ex_envelope ''!r'')) ex_server = (answer, ex_invited ''!r'')"
    and n: "ex_invited ''!r'' \<noteq> ex_server"
  have none: "GetMembership ex_store ''!r'' ''@c:here'' = None" by (simp add: GetMembership_def ex_store_def empty_store_def)
  show ?thesis using invite_recorded [OF a n refl] none ex_has_state
    by (auto simp: ex_delivered_unwrapped ex_delivered_read)
qed simp

end
