(* ===== verification/Spec2Isabelle.thy ===== *)
theory Spec2Isabelle
  imports Auth_Laws State_Res_Laws Events_Laws Storage_Laws Event_State_Laws Maintenance_Laws Ids Canonical_Json
    Event_Access_Laws Genesis_Laws Fed_Walks Push_Edits Client_Examples
    Fed_Dag_Laws Stripped_Laws Fed_Member_Laws Remote_Examples
begin

text \<open>
  A verification development for Katrix, a Matrix homeserver in Go: the part that decides what a
  room's events, power and state are (\<open>src/internal\<close>: \<open>roomver\<close>, \<open>rooms\<close>, \<open>stateres\<close>, \<open>events\<close>,
  \<open>canonicaljson\<close>, \<open>crypto\<close>, \<open>ids\<close>, \<open>eventstate\<close> and the tables of \<open>storage\<close> they rest on).

  How the program works. An event arrives from a client or another server as JSON. \<open>events.New\<close>
  reads it under the rules of its room version, \<open>crypto\<close> and \<open>canonicaljson\<close> check hashes and
  signatures over its redacted form, \<open>rooms.Authorize\<close> decides whether the state before it admits
  it, \<open>Store.InsertEvent\<close> stores it and moves the room's forward extremities, and
  \<open>eventstate.Maintain\<close> computes the state after it and the room's current state, running
  \<open>stateres.Resolve\<close> where histories have forked.

  The theories.

  \<open>Prelude\<close>: byte search, Go maps as association lists without repeated keys, results with errors.
  \<open>Go_Json\<close>: JSON values and the decoding rules of \<open>encoding/json\<close> the code relies on (duplicate and
  case-folded members, null, integer parsing, structs, maps, slices, pointers).
  \<open>Room_Version\<close> (\<open>roomver.go\<close>): the rule records, built by the assignments of \<open>init\<close>.
  \<open>Canonical_Json\<close> (\<open>canonicaljson.go\<close>): canonical bytes; numbers through double rounding.
  \<open>Ids\<close> (\<open>ids.go\<close>): user, room and alias identifiers, with parse/print laws.
  \<open>Room_Types\<close> (\<open>rooms/types.go\<close>): content records and their parsers.
  \<open>Crypto\<close> (\<open>crypto.go\<close>): base64, signing and verifying; ed25519 is a parameter.
  \<open>Auth\<close>, \<open>Auth_Laws\<close> (\<open>rooms/auth.go\<close>): the authorization rules and what they guarantee: the
  power-level rule in closed form, bounds on what an accepted event changes, the membership state
  machine as a step relation with runs, and the paths on which the code accepts too much.
  \<open>State_Res\<close>, \<open>State_Res_Laws\<close> (\<open>stateres\<close>): both resolution algorithms. The locale
  \<open>state_resolver\<close> states what maintenance needs of a resolver (total on distinct IDs, each ID once,
  independent of the listing) and is interpreted for version 1, version 2 and the dispatch.
  \<open>Events\<close>, \<open>Events_Laws\<close> (\<open>event.go\<close>, \<open>redact.go\<close>, \<open>builder.go\<close>): events, redaction, hashes, building;
  idempotence and scope of redaction, stability of event IDs, signing and verification.
  \<open>Storage\<close>, \<open>Storage_Laws\<close> (\<open>roomwrite.go\<close>, \<open>extremities.go\<close>, \<open>rejected.go\<close>, \<open>statedag.go\<close>, parts of
  \<open>rooms.go\<close>): one record \<open>Store\<close> of the tables, each operation as the row update of its SQL. The
  locale \<open>snapshot_store\<close> is the interface \<open>roomWrite\<close> that \<open>eventstate\<close> uses of it.
  \<open>Event_State\<close>, \<open>Event_State_Laws\<close>, \<open>Maintenance_Laws\<close> (\<open>eventstate.go\<close>, \<open>statedag.go\<close>): snapshots, resolution over forks,
  the current state, remote joins, state DAGs (MSC4242).

  \<open>Membership\<close> (\<open>storage/rooms.go\<close>): the membership table, whose update is monotonic in causal order.
  \<open>Event_Access\<close>, \<open>Event_Access_Laws\<close> (\<open>visibility.go\<close>, \<open>redact.go\<close>, \<open>PrevStateEventsForNew\<close>, the filter of
  \<open>/messages\<close> in \<open>csapi/rooms.go\<close>): who may see an event of a room's history, and how a redaction
  is applied.
  \<open>Canonical_Laws\<close>: when encoding, hashing and signing succeed.
  \<open>Genesis\<close>, \<open>Genesis_Laws\<close> (\<open>rooms/create.go\<close>): the genesis events of a room, in every version; creation
  succeeds, its events pass the authorization rules one after the other, and form a chain.

  \<open>Room_Tables\<close> (\<open>storage/rooms.go\<close>, \<open>restricted.go\<close>, \<open>relations.go\<close>, \<open>gaps.go\<close>, \<open>outofband.go\<close>): rooms, aliases,
  relations, and the verdict on restricted joins.
  \<open>Server_Acl\<close> (\<open>federation/serveracl.go\<close>): access control lists; the matcher decides the language of
  its patterns.
  \<open>Fed_Verify\<close> (\<open>fedverify/verify.go\<close>): which signatures make an inbound event pass.
  \<open>Fed_Ingest\<close>, \<open>Fed_Fetch\<close>, \<open>Fed_Reconcile\<close>, \<open>Fed_Inbound\<close> (\<open>federation/transactions.go\<close>, \<open>pdus.go\<close>,
  \<open>statedag.go\<close>): what becomes of a transaction of another server, on a record \<open>Server\<close> that holds the
  store, the handled transactions and the calls made to other components. \<open>ingestPDU\<close> is the composition of
  its stages in the order of the code: verification, access control, gap filling and
  reconciliation, the verdict, insertion, state maintenance, effects elsewhere. What other servers
  answer and publish is the record \<open>Peers\<close>, a parameter of every step. \<open>Fed_Invariants\<close> states as the locales
  \<open>store_invariant\<close> and \<open>ingest_invariant\<close> which writes a property of the store must survive to survive every
  transaction, and interprets them for the tables' consistency, for stored events and for rejections;
  \<open>Fed_Laws\<close> draws the conclusions over runs of transactions and says what an accepted event has
  passed; \<open>Fed_Walks\<close> is about gaps and reconciliation; \<open>Fed_Examples\<close> holds a concrete room.

  \<open>Push_Rules\<close>, \<open>Push_Rules_Laws\<close>, \<open>Push_Edits\<close> (\<open>pushrules\<close>, \<open>csapi/misc.go\<close>, \<open>storage/push.go\<close>): a user's push
  ruleset as Go values with their dynamic types, its evaluation on an event, the default ruleset, and the operations
  that edit it, which keep rule IDs unique and are read back.

  \<open>Client_Checks\<close>, \<open>Client_Invite\<close>, \<open>Client_Send\<close>, \<open>Client_Requests\<close> (\<open>csapi/rooms.go\<close>, \<open>csapi/helpers.go\<close>, \<open>SendRemoteInvite\<close> in
  \<open>federation/join.go\<close>): how a request of this server's client becomes an event: what its content is checked for,
  the state it is judged against, building it on the tip of the room, storing it, and the handlers for messages, state,
  kicks, bans, unbans and redactions, on the same record \<open>Server\<close>. \<open>Client_Laws\<close> states as the locale
  \<open>request_invariant\<close> what a property must survive to survive every request, makes every \<open>store_invariant\<close> one, and
  concludes for lives of the server that mix them with transactions, with joins, leaves and knocks of other servers' users and with
  their invites; \<open>Client_Heads\<close> shows that requests never
  fork a room and what an event does to a room with one head; \<open>Client_Results\<close> holds the properties of single
  requests, \<open>Client_Examples\<close> concrete runs.

  \<open>Fed_Queries\<close>, \<open>Fed_Gaps\<close> (\<open>federation/transactions.go\<close>, \<open>federation/statedag.go\<close>, \<open>federation/stateres.go\<close>,
  \<open>storage/statedag.go\<close>): what other servers may ask for, as functions of the store: an event, the state and the auth
  chain at an event, backfill, the events of a gap in a plain room and in a state DAG, aliases. \<open>Fed_Query_Laws\<close>
  gives the auth chain and the backfill as closures of the reference relation, and says which events of a gap come back
  unredacted; \<open>Fed_Dag_Laws\<close> shows that the gap of a state DAG depends only on what is stored, and on which
  paths the answers give out too much or too little.
  \<open>Stripped_State\<close>, \<open>Stripped_Laws\<close> (\<open>strippedstate\<close>): what somebody invited to a room or knocking on it is shown, and the
  check of what another server delivers for it.
  \<open>Fed_Members\<close>, \<open>Fed_Member_Laws\<close> (\<open>federation/transactions.go\<close>): the handlers by which other servers' users join, leave
  and knock (\<open>MakeJoin\<close>, \<open>MakeKnock\<close>, \<open>MakeLeave\<close>, \<open>ingestRemoteMember\<close>) and by which other servers invite (\<open>Invite\<close>), again on
  the record \<open>Server\<close>: what a request that changes anything has passed, and what it leaves. \<open>Remote_Examples\<close> runs them.

  Conventions. Machine integers are \<open>int\<close> with the range checks the parser performs written out; no
  modelled arithmetic leaves the \<open>int64\<close> range but that of \<open>parseIntStrict\<close>, \<open>parseIntToken\<close>, \<open>formatIntToken\<close> and \<open>times64\<close>,
  which wraps around on \<open>64 word\<close>. Go maps whose iteration order the code does not
  depend on are association lists. A panic is an error value or \<open>None\<close>. A loop is recursion with a
  termination proof; bounds are those of the code (the 5000 visits of \<open>unknownDeepFrontier\<close>, the eight rounds
  of \<open>fillStateDAG\<close>, the at most 100 events of a backfill, the 8 visits per requested event of \<open>GetMissingEvents\<close>,
  the 100000 hops of \<open>StateDAGWalk\<close>), no fuel is added; \<open>StateDAGEventIDs\<close>, which has no bound, walks as many levels as
  there are edges, which a shortest way to an event never exceeds. Functions of third-party or standard packages that cannot be
  computed here (SHA-256, ed25519) are arguments; what a theorem needs of them is its hypothesis
  \<open>ed25519_pair\<close>, and its witness gives a concrete pair of functions that satisfies it. So are the
  random parts of identifiers, the text PostgreSQL gives a JSON value that is no string (\<open>pg_text\<close>), and
  the number literal \<open>encoding/json\<close> writes for one it read into an \<open>any\<close> (\<open>any_number\<close>).

  A request holds its room's lock from the first read to the last write, so it is one function of the server.

  Not modelled: the HTTP handlers of \<open>csapi\<close> that make no room event (accounts, devices, keys, profiles, search, timelines),
  \<open>httpserver\<close> and \<open>webui\<close>, the rest of the exchange with other servers
  (delivery queues, joins of this server's users through other servers, keys, profiles, EDUs, the \<open>[code, body]\<close> arrays of
  the version 1 endpoints, the members a state-DAG \<open>send_join\<close> with \<open>omit_members\<close> adds to its answer), the assembly of \<open>/sync\<close> responses, media, configuration, metrics, migrations and the
  SQL that only these use: network and file input and output around the components above. Database
  failures other than a missing row are left out of the store's operations.
\<close>

end
